(* ===== verification/Prelude.thy ===== *)
theory Prelude
  imports Complex_Main "HOL-Library.AList" "HOL-Library.Sublist"
begin

text \<open>
  What every component of the development shares: the collections of rewrite rules, the
  result type of fallible operations, insertion-ordered dictionaries, bounded queues and the
  text helpers of the Python standard library that the simulator calls.

  A dictionary is an association list. Python keeps the insertion order of a key and replaces
  the value of a present key in place, which is what \<open>AList.update\<close> does.
\<close>

named_theorems result_simps \<open>unfolding of the result combinators\<close>
named_theorems dict_simps \<open>reading a dictionary after a write\<close>
named_theorems text_simps \<open>evaluation of the text helpers\<close>

section \<open>Results\<close>

text \<open>A fallible operation returns \<open>Inl\<close> of what it raised or \<open>Inr\<close> of its value.\<close>

definition bind_r :: "'e + 'a \<Rightarrow> ('a \<Rightarrow> 'e + 'b) \<Rightarrow> 'e + 'b" where
  "bind_r r f = (case r of Inl e \<Rightarrow> Inl e | Inr a \<Rightarrow> f a)"

lemma bind_r_simps [simp, result_simps]:
  "bind_r (Inl e) f = Inl e"
  "bind_r (Inr a) f = f a"
  by (simp_all add: bind_r_def)

lemma bind_r_Inr_iff: "bind_r r f = Inr b \<longleftrightarrow> (\<exists>a. r = Inr a \<and> f a = Inr b)"
  by (cases r) auto

lemma bind_r_Inl_iff: "bind_r r f = Inl e \<longleftrightarrow> r = Inl e \<or> (\<exists>a. r = Inr a \<and> f a = Inl e)"
  by (cases r) auto

text \<open>\<open>first_some\<close> is Python's \<open>a or b or ...\<close> over checks that give no refusal as \<open>None\<close>.\<close>

fun first_some :: "'a option list \<Rightarrow> 'a option" where
  "first_some [] = None"
| "first_some (x # xs) = (case x of None \<Rightarrow> first_some xs | Some a \<Rightarrow> Some a)"

lemma first_some_None: "first_some xs = None \<longleftrightarrow> (\<forall>x \<in> set xs. x = None)"
  by (induction xs) (auto split: option.splits)

lemma first_some_Some: "first_some xs = Some a \<Longrightarrow> Some a \<in> set xs"
  by (induction xs) (auto split: option.splits)

lemma first_some_in: "\<forall>x \<in> set xs. x \<in> S \<Longrightarrow> None \<in> S \<Longrightarrow> first_some xs \<in> S"
  by (induction xs) (auto split: option.splits)

text \<open>The first refusal over a list of items, as a loop that returns early finds it.\<close>

fun first_refusal :: "('a \<Rightarrow> 'e option) \<Rightarrow> 'a list \<Rightarrow> 'e option" where
  "first_refusal f [] = None"
| "first_refusal f (x # xs) = (case f x of Some e \<Rightarrow> Some e | None \<Rightarrow> first_refusal f xs)"

lemma first_refusal_None: "first_refusal f xs = None \<longleftrightarrow> (\<forall>x \<in> set xs. f x = None)"
  by (induction xs) (auto split: option.splits)

lemma first_refusal_Some:
  "first_refusal f xs = Some e \<Longrightarrow> \<exists>x \<in> set xs. f x = Some e"
  by (induction xs) (auto split: option.splits)

text \<open>A comprehension with a test that can raise, and \<open>any\<close> of such a test, which stops at the first true one.\<close>

fun filter_r :: "('a \<Rightarrow> 'e + bool) \<Rightarrow> 'a list \<Rightarrow> 'e + 'a list" where
  "filter_r p [] = Inr []"
| "filter_r p (x # xs) =
     bind_r (p x) (\<lambda>keep. bind_r (filter_r p xs) (\<lambda>ys. Inr (if keep then x # ys else ys)))"

fun any_r :: "('a \<Rightarrow> 'e + bool) \<Rightarrow> 'a list \<Rightarrow> 'e + bool" where
  "any_r p [] = Inr False"
| "any_r p (x # xs) = bind_r (p x) (\<lambda>b. if b then Inr True else any_r p xs)"

lemma filter_r_total: "(\<And>x. x \<in> set xs \<Longrightarrow> p x = Inr (q x)) \<Longrightarrow> filter_r p xs = Inr (filter q xs)"
  by (induction xs) auto

lemma any_r_total: "(\<And>x. x \<in> set xs \<Longrightarrow> p x = Inr (q x)) \<Longrightarrow> any_r p xs = Inr (list_ex q xs)"
  by (induction xs) auto

section \<open>Dictionaries\<close>

type_synonym ('k, 'v) dict = "('k \<times> 'v) list"

abbreviation dict_keys :: "('k, 'v) dict \<Rightarrow> 'k list" where
  "dict_keys d \<equiv> map fst d"

text \<open>\<open>d.get(k, default)\<close>.\<close>

definition get_or :: "('k, 'v) dict \<Rightarrow> 'k \<Rightarrow> 'v \<Rightarrow> 'v" where
  "get_or d k v = (case map_of d k of None \<Rightarrow> v | Some w \<Rightarrow> w)"

text \<open>\<open>{**d, **e}\<close>: every pair of \<open>e\<close> is written over \<open>d\<close>, in the order of \<open>e\<close>.\<close>

definition dict_merge :: "('k, 'v) dict \<Rightarrow> ('k, 'v) dict \<Rightarrow> ('k, 'v) dict" where
  "dict_merge d e = foldl (\<lambda>acc (k, v). AList.update k v acc) d e"

lemma get_or_update [simp, dict_simps]:
  "get_or (AList.update k v d) k' w = (if k' = k then v else get_or d k' w)"
  by (simp add: get_or_def update_conv)

lemma map_of_update [dict_simps]:
  "map_of (AList.update k v d) k' = (if k' = k then Some v else map_of d k')"
  by (simp add: update_conv)

lemma keys_update_mem [dict_simps]:
  "k \<in> set (dict_keys d) \<Longrightarrow> dict_keys (AList.update k v d) = dict_keys d"
  by (induction d) auto

lemma dict_merge_Nil [simp]: "dict_merge d [] = d"
  by (simp add: dict_merge_def)

lemma dict_merge_Cons [simp]: "dict_merge d ((k, v) # e) = dict_merge (AList.update k v d) e"
  by (simp add: dict_merge_def)

lemma keys_dict_merge:
  "set (dict_keys e) \<subseteq> set (dict_keys d) \<Longrightarrow> dict_keys (dict_merge d e) = dict_keys d"
proof (induction e arbitrary: d)
  case (Cons p e)
  obtain k v where p: "p = (k, v)" by (cases p)
  from Cons.prems p have "dict_keys (AList.update k v d) = dict_keys d"
    by (simp add: keys_update_mem)
  with Cons.IH [of "AList.update k v d"] Cons.prems p show ?case by simp
qed simp

lemma map_of_dict_merge_notin:
  "k \<notin> set (dict_keys e) \<Longrightarrow> map_of (dict_merge d e) k = map_of d k"
proof (induction e arbitrary: d)
  case (Cons p e)
  then show ?case by (cases p) (simp add: map_of_update)
qed simp

lemma map_of_dict_merge:
  "distinct (dict_keys e) \<Longrightarrow>
   map_of (dict_merge d e) k = (case map_of e k of None \<Rightarrow> map_of d k | Some v \<Rightarrow> Some v)"
proof (induction e arbitrary: d)
  case (Cons p e)
  obtain k' v' where p: "p = (k', v')" by (cases p)
  show ?case
  proof (cases "k = k'")
    case True
    with Cons.prems p have "k \<notin> set (dict_keys e)" by simp
    with True p show ?thesis by (simp add: map_of_dict_merge_notin map_of_update)
  next
    case False
    with Cons p show ?thesis by (simp add: map_of_update split: option.splits)
  qed
qed simp

lemma get_or_dict_merge:
  "distinct (dict_keys e) \<Longrightarrow> get_or (dict_merge d e) k w = get_or e k (get_or d k w)"
  by (simp add: get_or_def map_of_dict_merge split: option.splits)

lemma distinct_dict_merge:
  "distinct (dict_keys d) \<Longrightarrow> distinct (dict_keys (dict_merge d e))"
proof (induction e arbitrary: d)
  case (Cons p e)
  then show ?case by (cases p) (simp add: distinct_update)
qed simp

text \<open>A dictionary is its keys in order and what each of them reads.\<close>

lemma dict_of_keys:
  assumes "distinct (dict_keys d)"
  shows "map (\<lambda>k. (k, get_or d k w)) (dict_keys d) = d"
proof (rule nth_equalityI)
  fix i assume "i < length (map (\<lambda>k. (k, get_or d k w)) (dict_keys d))"
  then have i: "i < length d" by simp
  with assms have "map_of d (fst (d ! i)) = Some (snd (d ! i))"
    by (simp add: map_of_eq_Some_iff)
  with i show "map (\<lambda>k. (k, get_or d k w)) (dict_keys d) ! i = d ! i"
    by (simp add: get_or_def)
qed simp

lemma merge_own_keys:
  assumes keys: "dict_keys d = dict_keys e" and dist: "distinct (dict_keys e)"
  shows "dict_merge d e = e"
proof -
  have same: "dict_keys (dict_merge d e) = dict_keys e"
    using keys by (simp add: keys_dict_merge)
  have "get_or (dict_merge d e) k undefined = get_or e k undefined" if "k \<in> set (dict_keys e)" for k
  proof -
    from that have "map_of e k \<noteq> None" by (simp add: map_of_eq_None_iff)
    with dist show ?thesis by (auto simp: get_or_def map_of_dict_merge)
  qed
  then have "map (\<lambda>k. (k, get_or (dict_merge d e) k undefined)) (dict_keys e)
      = map (\<lambda>k. (k, get_or e k undefined)) (dict_keys e)"
    by (intro map_cong) auto
  with same dist show ?thesis
    by (metis dict_of_keys)
qed

lemma nth_update_notin: "j \<in> set is \<Longrightarrow> i \<notin> set is \<Longrightarrow> es[i := e] ! j = es ! j"
  by (metis nth_list_update_neq)

text \<open>Pairs with equal first parts beside each other are distinct if the runs are.\<close>

fun key_runs :: "('a \<times> 'b) list \<Rightarrow> ('a \<times> 'b list) list" where
  "key_runs [] = []"
| "key_runs ((k, v) # kvs) = (case key_runs kvs of
     (k', vs) # runs \<Rightarrow> if k' = k then (k, v # vs) # runs else (k, [v]) # (k', vs) # runs
   | [] \<Rightarrow> [(k, [v])])"

lemma key_runs_flatten: "concat (map (\<lambda>(k, vs). map (Pair k) vs) (key_runs kvs)) = kvs"
  by (induction kvs rule: key_runs.induct) (auto split: list.splits)

lemma distinct_key_runs:
  assumes "distinct (map fst (key_runs kvs))" and "list_all (\<lambda>(k, vs). distinct vs) (key_runs kvs)"
  shows "distinct kvs"
proof -
  have "distinct (concat (map (\<lambda>(k, vs). map (Pair k) vs) runs))"
    if "distinct (map fst runs)" "list_all (\<lambda>(k, vs). distinct vs) runs" for runs :: "('a \<times> 'b list) list"
    using that by (induction runs) (auto simp: distinct_map inj_on_def rev_image_eqI)
  from this [OF assms] show ?thesis by (simp add: key_runs_flatten)
qed

section \<open>Bounded queues\<close>

text \<open>
  \<open>collections.deque(maxlen=n)\<close>: an append to a full queue drops the oldest element. The
  newest element is at the end, as in \<open>list(deque)\<close>.
\<close>

definition bounded_append :: "nat \<Rightarrow> 'a list \<Rightarrow> 'a \<Rightarrow> 'a list" where
  "bounded_append n xs x = (let ys = xs @ [x] in drop (length ys - n) ys)"

lemma length_bounded_append [simp]:
  "length xs \<le> n \<Longrightarrow> length (bounded_append n xs x) = min n (Suc (length xs))"
  by (simp add: bounded_append_def)

lemma bounded_append_le: "length (bounded_append n xs x) \<le> n"
  by (simp add: bounded_append_def)

lemma set_bounded_append: "set (bounded_append n xs x) \<subseteq> insert x (set xs)"
  using set_drop_subset [of "length (xs @ [x]) - n" "xs @ [x]"]
  by (auto simp: bounded_append_def)

lemma bounded_append_last: "0 < n \<Longrightarrow> bounded_append n xs x \<noteq> [] \<and> last (bounded_append n xs x) = x"
  by (auto simp: bounded_append_def last_drop)

lemma distinct_bounded_append:
  "distinct xs \<Longrightarrow> x \<notin> set xs \<Longrightarrow> distinct (bounded_append n xs x)"
proof -
  assume "distinct xs" and "x \<notin> set xs"
  then have "distinct (xs @ [x])" by simp
  then show ?thesis unfolding bounded_append_def Let_def by (rule distinct_drop)
qed

lemma bounded_append_step:
  "length xs \<le> n \<Longrightarrow> bounded_append n xs x = (if n < Suc (length xs) then tl (xs @ [x]) else xs @ [x])"
  by (cases "n = length xs") (auto simp: bounded_append_def drop_Suc simp del: drop_append)

lemma map_bounded_append: "map f (bounded_append n xs x) = bounded_append n (map f xs) (f x)"
  unfolding bounded_append_def Let_def by (simp add: drop_map [symmetric] del: drop_append)

text \<open>The queue after a run of appends is the tail of everything that was appended.\<close>

lemma drop_drop_snoc:
  assumes "ys = drop (length xs - n) xs"
  shows "bounded_append n ys x = drop (length (xs @ [x]) - n) (xs @ [x])"
  using assms by (cases "n \<le> length xs") (auto simp: bounded_append_def Suc_diff_le)

section \<open>Text\<close>

text \<open>
  Python text is modelled as a list of \<open>char\<close>, that is, of code points below 256. Bytes are
  lists of \<open>char\<close> too.
\<close>

abbreviation code_of :: "char \<Rightarrow> nat" where
  "code_of c \<equiv> of_char c"

definition lower_char :: "char \<Rightarrow> char" where
  "lower_char c = (if 65 \<le> code_of c \<and> code_of c \<le> 90 then char_of (code_of c + 32) else c)"

definition upper_char :: "char \<Rightarrow> char" where
  "upper_char c = (if 97 \<le> code_of c \<and> code_of c \<le> 122 then char_of (code_of c - 32) else c)"

definition lower :: "string \<Rightarrow> string" where
  "lower = map lower_char"

definition upper :: "string \<Rightarrow> string" where
  "upper = map upper_char"

definition starts_with :: "string \<Rightarrow> string \<Rightarrow> bool" where
  "starts_with p s \<longleftrightarrow> take (length p) s = p"

definition ends_with :: "string \<Rightarrow> string \<Rightarrow> bool" where
  "ends_with p s \<longleftrightarrow> length p \<le> length s \<and> drop (length s - length p) s = p"

definition is_digit :: "char \<Rightarrow> bool" where
  "is_digit c \<longleftrightarrow> 48 \<le> code_of c \<and> code_of c \<le> 57"

definition is_letter :: "char \<Rightarrow> bool" where
  "is_letter c \<longleftrightarrow> (65 \<le> code_of c \<and> code_of c \<le> 90) \<or> (97 \<le> code_of c \<and> code_of c \<le> 122)"

definition is_space :: "char \<Rightarrow> bool" where
  "is_space c \<longleftrightarrow> (9 \<le> code_of c \<and> code_of c \<le> 13) \<or> (28 \<le> code_of c \<and> code_of c \<le> 32)
     \<or> code_of c = 133 \<or> code_of c = 160"

text \<open>\<open>s.split(c)\<close> for a single character, and \<open>c.join(parts)\<close>.\<close>

fun split_on :: "char \<Rightarrow> string \<Rightarrow> string list" where
  "split_on c [] = [[]]"
| "split_on c (x # xs) =
     (if x = c then [] # split_on c xs
      else (case split_on c xs of [] \<Rightarrow> [[x]] | p # ps \<Rightarrow> (x # p) # ps))"

fun join_with :: "string \<Rightarrow> string list \<Rightarrow> string" where
  "join_with sep [] = []"
| "join_with sep [p] = p"
| "join_with sep (p # ps) = p @ sep @ join_with sep ps"

text \<open>\<open>s.partition(c)\<close>: the text before the first \<open>c\<close> and the text after it.\<close>

fun partition_on :: "char \<Rightarrow> string \<Rightarrow> string \<times> string" where
  "partition_on c [] = ([], [])"
| "partition_on c (x # xs) =
     (if x = c then ([], xs) else (case partition_on c xs of (a, b) \<Rightarrow> (x # a, b)))"

definition strip_by :: "(char \<Rightarrow> bool) \<Rightarrow> string \<Rightarrow> string" where
  "strip_by p s = rev (dropWhile p (rev (dropWhile p s)))"

lemma split_on_nonempty [simp]: "split_on c s \<noteq> []"
  by (induction s) (auto split: list.splits)

lemma split_on_singleton: "c \<notin> set s \<Longrightarrow> split_on c s = [s]"
  by (induction s) auto

lemma join_split: "join_with [c] (split_on c s) = s"
proof (induction s)
  case (Cons x s)
  then show ?case by (cases "split_on c s"; cases "tl (split_on c s)") auto
qed simp

lemma split_on_no_sep: "p \<in> set (split_on c s) \<Longrightarrow> c \<notin> set p"
  by (induction s arbitrary: p) (auto split: list.splits if_splits)

lemma split_join:
  "ps \<noteq> [] \<Longrightarrow> \<forall>p \<in> set ps. c \<notin> set p \<Longrightarrow> split_on c (join_with [c] ps) = ps"
proof (induction "[c]" ps rule: join_with.induct)
  case (2 p)
  then show ?case by (simp add: split_on_singleton)
next
  case (3 p q ps)
  have "split_on c (p @ c # rest) = p # split_on c rest" if "c \<notin> set p" for rest
    using that by (induction p) auto
  with 3 show ?case by simp
qed simp

lemma partition_on_append:
  "c \<notin> set a \<Longrightarrow> partition_on c (a @ c # b) = (a, b)"
  by (induction a) auto

lemma lower_lower [simp]: "lower (lower s) = lower s"
  by (auto simp: lower_def lower_char_def)

section \<open>Decimal numbers\<close>

definition digit_char :: "nat \<Rightarrow> char" where
  "digit_char d = char_of (48 + d)"

definition digit_val :: "char \<Rightarrow> nat" where
  "digit_val c = code_of c - 48"

fun nat_text :: "nat \<Rightarrow> string" where
  "nat_text n = (if n < 10 then [digit_char n] else nat_text (n div 10) @ [digit_char (n mod 10)])"

declare nat_text.simps [simp del]

definition int_text :: "int \<Rightarrow> string" where
  "int_text i = (if i < 0 then CHR ''-'' # nat_text (nat (- i)) else nat_text (nat i))"

definition digits_value :: "string \<Rightarrow> nat" where
  "digits_value s = foldl (\<lambda>acc c. 10 * acc + digit_val c) 0 s"

lemma code_of_char_small [simp]: "n < 256 \<Longrightarrow> code_of (char_of n) = n"
  by simp

lemma digit_char_props [simp]:
  assumes "d < 10"
  shows "is_digit (digit_char d)" and "digit_val (digit_char d) = d"
    and "code_of (digit_char d) = 48 + d"
  using assms by (simp_all add: digit_char_def is_digit_def digit_val_def)

lemma nat_text_nonempty [simp]: "nat_text n \<noteq> []"
  by (subst nat_text.simps) simp

lemma nat_text_digits: "c \<in> set (nat_text n) \<Longrightarrow> is_digit c"
proof (induction n rule: nat_text.induct)
  case (1 n)
  then show ?case
    by (cases "n < 10") (auto simp: nat_text.simps [of n])
qed

lemma digits_value_snoc [simp]: "digits_value (s @ [c]) = 10 * digits_value s + digit_val c"
  by (simp add: digits_value_def)

lemma digits_value_nat_text [simp]: "digits_value (nat_text n) = n"
proof (induction n rule: nat_text.induct)
  case (1 n)
  show ?case
  proof (cases "n < 10")
    case True
    then show ?thesis by (simp add: nat_text.simps [of n] digits_value_def)
  next
    case False
    with 1 show ?thesis by (simp add: nat_text.simps [of n])
  qed
qed

lemma nat_text_inject [simp]: "nat_text a = nat_text b \<longleftrightarrow> a = b"
  by (metis digits_value_nat_text)

end
