(* ===== verification/PyValue.thy ===== *)
theory PyValue
  imports Prelude
begin

text \<open>
  The Python values that a request, a scenario or a reply holds, with the operations of the
  language that the simulator applies to them: truth, equality, hashing, \<open>dict.get\<close>,
  \<open>int(...)\<close> and the order of numbers.

  A float is a rational number, an infinity or NaN; \<open>Doubles\<close> has its arithmetic. Numbers of
  different types compare by their exact value, so \<open>0 == 0.0\<close> and \<open>1 == True\<close>, as
  in Python. A list or a dict has no hash, and a lookup with such a key raises \<open>TypeError\<close>.
\<close>

section \<open>Values\<close>

datatype pyfloat = Fin rat | PosInf | NegInf | NaN

datatype pyval =
    VNone
  | VBool bool
  | VInt int
  | VFloat pyfloat
  | VStr string
  | VBytes string
  | VList "pyval list"
  | VTuple "pyval list"
  | VDict "(pyval \<times> pyval) list"

text \<open>What the modelled code raises. The text of an error is not modelled: an error names its class.\<close>

datatype pyerr =
    ValueError
  | TypeError
  | KeyError
  | IndexError
  | AttributeError
  | OverflowError
  | RecursionError
  | AssertionError

type_synonym sdict = "(string, pyval) dict"

text \<open>A dict with text keys, such as a JSON object that the simulator writes.\<close>

definition jobj :: "sdict \<Rightarrow> pyval" where
  "jobj kvs = VDict (map (\<lambda>(k, v). (VStr k, v)) kvs)"

section \<open>Numbers\<close>

fun pf_eq :: "pyfloat \<Rightarrow> pyfloat \<Rightarrow> bool" where
  "pf_eq (Fin a) (Fin b) = (a = b)"
| "pf_eq PosInf PosInf = True"
| "pf_eq NegInf NegInf = True"
| "pf_eq _ _ = False"

fun pf_le :: "pyfloat \<Rightarrow> pyfloat \<Rightarrow> bool" where
  "pf_le NaN _ = False"
| "pf_le _ NaN = False"
| "pf_le NegInf _ = True"
| "pf_le _ PosInf = True"
| "pf_le (Fin a) (Fin b) = (a \<le> b)"
| "pf_le _ _ = False"

definition pf_lt :: "pyfloat \<Rightarrow> pyfloat \<Rightarrow> bool" where
  "pf_lt a b \<longleftrightarrow> pf_le a b \<and> \<not> pf_eq a b"

text \<open>The number of a value: a bool is an int in Python, so it has one.\<close>

fun num_of :: "pyval \<Rightarrow> pyfloat option" where
  "num_of (VBool b) = Some (Fin (if b then 1 else 0))"
| "num_of (VInt i) = Some (Fin (of_int i))"
| "num_of (VFloat f) = Some f"
| "num_of _ = None"

text \<open>\<open>isinstance\<close> tests. \<open>is_int\<close> holds for a bool too, and \<open>is_plain_int\<close> is an int that is no bool.\<close>

fun is_bool :: "pyval \<Rightarrow> bool" where
  "is_bool (VBool _) = True" | "is_bool _ = False"

fun is_int :: "pyval \<Rightarrow> bool" where
  "is_int (VInt _) = True" | "is_int (VBool _) = True" | "is_int _ = False"

fun is_float :: "pyval \<Rightarrow> bool" where
  "is_float (VFloat _) = True" | "is_float _ = False"

fun is_str :: "pyval \<Rightarrow> bool" where
  "is_str (VStr _) = True" | "is_str _ = False"

fun is_list :: "pyval \<Rightarrow> bool" where
  "is_list (VList _) = True" | "is_list _ = False"

fun is_dict :: "pyval \<Rightarrow> bool" where
  "is_dict (VDict _) = True" | "is_dict _ = False"

definition is_plain_int :: "pyval \<Rightarrow> bool" where
  "is_plain_int v \<longleftrightarrow> is_int v \<and> \<not> is_bool v"

text \<open>The items of a list or a tuple.\<close>

fun seq_items :: "pyval \<Rightarrow> pyval list option" where
  "seq_items (VList xs) = Some xs"
| "seq_items (VTuple xs) = Some xs"
| "seq_items _ = None"

text \<open>Whether a value counts as true in a condition.\<close>

fun truthy :: "pyval \<Rightarrow> bool" where
  "truthy VNone = False"
| "truthy (VBool b) = b"
| "truthy (VInt i) = (i \<noteq> 0)"
| "truthy (VFloat f) = (f \<noteq> Fin 0)"
| "truthy (VStr s) = (s \<noteq> [])"
| "truthy (VBytes s) = (s \<noteq> [])"
| "truthy (VList xs) = (xs \<noteq> [])"
| "truthy (VTuple xs) = (xs \<noteq> [])"
| "truthy (VDict kvs) = (kvs \<noteq> [])"

text \<open>\<open>a or b\<close> on values.\<close>

definition py_or :: "pyval \<Rightarrow> pyval \<Rightarrow> pyval" where
  "py_or a b = (if truthy a then a else b)"

section \<open>Equality and hashing\<close>

lemma size_zip_left: "(x, y) \<in> set (zip xs ys) \<Longrightarrow> size x < Suc (size_list size xs)"
  using size_list_estimation' [of x xs "size x" size] by (auto dest: set_zip_leftD)

lemma size_pair_mem:
  "p \<in> set kvs \<Longrightarrow> size (fst p) < Suc (size_list (size_prod size size) kvs)"
  "p \<in> set kvs \<Longrightarrow> size (snd p) < Suc (size_list (size_prod size size) kvs)"
  using size_list_estimation' [of p kvs _ "size_prod size size"] by (cases p; force)+

function py_eq :: "pyval \<Rightarrow> pyval \<Rightarrow> bool" where
  "py_eq VNone w = (w = VNone)"
| "py_eq (VBool b) w = (case num_of w of None \<Rightarrow> False | Some g \<Rightarrow> pf_eq (Fin (if b then 1 else 0)) g)"
| "py_eq (VInt i) w = (case num_of w of None \<Rightarrow> False | Some g \<Rightarrow> pf_eq (Fin (of_int i)) g)"
| "py_eq (VFloat f) w = (case num_of w of None \<Rightarrow> False | Some g \<Rightarrow> pf_eq f g)"
| "py_eq (VStr s) w = (w = VStr s)"
| "py_eq (VBytes s) w = (w = VBytes s)"
| "py_eq (VList xs) w = (case w of
     VList ys \<Rightarrow> length xs = length ys \<and> list_all (\<lambda>(x, y). py_eq x y) (zip xs ys)
   | _ \<Rightarrow> False)"
| "py_eq (VTuple xs) w = (case w of
     VTuple ys \<Rightarrow> length xs = length ys \<and> list_all (\<lambda>(x, y). py_eq x y) (zip xs ys)
   | _ \<Rightarrow> False)"
| "py_eq (VDict xs) w = (case w of
     VDict ys \<Rightarrow> length xs = length ys
       \<and> list_all (\<lambda>(k, v). list_ex (\<lambda>(k', v'). py_eq k k' \<and> py_eq v v') ys) xs
   | _ \<Rightarrow> False)"
  by pat_completeness auto

termination
  by (relation "measure (\<lambda>(v, w). size v)")
    (auto simp: size_zip_left dest: size_pair_mem)

fun hashable :: "pyval \<Rightarrow> bool" where
  "hashable (VList _) = False"
| "hashable (VDict _) = False"
| "hashable (VTuple xs) = list_all hashable xs"
| "hashable _ = True"

lemma py_eq_VStr [simp]: "py_eq v (VStr s) \<longleftrightarrow> v = VStr s"
  by (cases v) auto

lemma py_eq_VNone [simp]: "py_eq v VNone \<longleftrightarrow> v = VNone"
  by (cases v) auto

section \<open>Dictionaries of values\<close>

fun pd_lookup :: "pyval \<Rightarrow> (pyval \<times> pyval) list \<Rightarrow> pyval option" where
  "pd_lookup k [] = None"
| "pd_lookup k ((k', v) # kvs) = (if py_eq k k' then Some v else pd_lookup k kvs)"

fun pd_put :: "pyval \<Rightarrow> pyval \<Rightarrow> (pyval \<times> pyval) list \<Rightarrow> (pyval \<times> pyval) list" where
  "pd_put k v [] = [(k, v)]"
| "pd_put k v ((k', v') # kvs) = (if py_eq k k' then (k', v) # kvs else (k', v') # pd_put k v kvs)"

text \<open>\<open>d.get(k)\<close> on a dict value: a key with no hash raises.\<close>

definition pd_get :: "pyval \<Rightarrow> (pyval \<times> pyval) list \<Rightarrow> pyerr + pyval option" where
  "pd_get k kvs = (if hashable k then Inr (pd_lookup k kvs) else Inl TypeError)"

text \<open>A text key of a dict value. A value that is no dict has no key.\<close>

fun vget :: "pyval \<Rightarrow> string \<Rightarrow> pyval option" where
  "vget (VDict kvs) k = pd_lookup (VStr k) kvs"
| "vget _ k = None"

definition vget_or :: "pyval \<Rightarrow> string \<Rightarrow> pyval \<Rightarrow> pyval" where
  "vget_or d k v = (case vget d k of None \<Rightarrow> v | Some w \<Rightarrow> w)"

definition has_key :: "pyval \<Rightarrow> string \<Rightarrow> bool" where
  "has_key d k \<longleftrightarrow> vget d k \<noteq> None"

fun vput :: "string \<Rightarrow> pyval \<Rightarrow> pyval \<Rightarrow> pyval" where
  "vput k v (VDict kvs) = VDict (pd_put (VStr k) v kvs)"
| "vput k v d = d"

lemma pd_lookup_jobj: "pd_lookup (VStr k) (map (\<lambda>(k, v). (VStr k, v)) kvs) = map_of kvs k"
  by (induction kvs) auto

lemma vget_jobj [simp]: "vget (jobj kvs) k = map_of kvs k"
  by (simp add: jobj_def pd_lookup_jobj)

lemma is_dict_jobj [simp]: "is_dict (jobj kvs)"
  by (simp add: jobj_def)

lemma pd_lookup_put_same: "pd_lookup (VStr k) (pd_put (VStr k) v kvs) = Some v"
  by (induction kvs) auto

lemma pd_lookup_put_other:
  "k \<noteq> k' \<Longrightarrow> pd_lookup (VStr k') (pd_put (VStr k) v kvs) = pd_lookup (VStr k') kvs"
  by (induction kvs) auto

lemma vget_vput [dict_simps]:
  "is_dict d \<Longrightarrow> vget (vput k v d) k' = (if k' = k then Some v else vget d k')"
  by (cases d) (auto simp: pd_lookup_put_same pd_lookup_put_other)

lemma is_dict_vput [simp]: "is_dict (vput k v d) = is_dict d"
  by (cases d) auto

section \<open>Numbers from text\<close>

text \<open>
  \<open>int(text)\<close>: white space around the number, one sign, digits with single underscores
  between them, and at most 4300 digits.
\<close>

fun digit_groups :: "(char \<Rightarrow> bool) \<Rightarrow> string \<Rightarrow> bool" where
  "digit_groups p [] = False"
| "digit_groups p [c] = p c"
| "digit_groups p (c # d # cs) =
     (p c \<and> (if d = CHR ''_'' then digit_groups p cs else digit_groups p (d # cs)))"

definition drop_underscores :: "string \<Rightarrow> string" where
  "drop_underscores = filter (\<lambda>c. c \<noteq> CHR ''_'')"

definition max_int_digits :: nat where
  "max_int_digits = 4300"

definition unsigned_int :: "string \<Rightarrow> int option" where
  "unsigned_int s =
     (if digit_groups is_digit s \<and> length (drop_underscores s) \<le> max_int_digits
      then Some (int (digits_value (drop_underscores s))) else None)"

definition int_of_text :: "string \<Rightarrow> int option" where
  "int_of_text s = (case strip_by is_space s of
     [] \<Rightarrow> None
   | c # cs \<Rightarrow>
       if c = CHR ''-'' then map_option uminus (unsigned_int cs)
       else if c = CHR ''+'' then unsigned_int cs
       else unsigned_int (c # cs))"

lemma digit_groups_digits: "s \<noteq> [] \<Longrightarrow> \<forall>c \<in> set s. is_digit c \<Longrightarrow> digit_groups is_digit s"
proof (induction is_digit s rule: digit_groups.induct)
  case (3 c d cs)
  then have "d \<noteq> CHR ''_''" by (auto simp: is_digit_def)
  with 3 show ?case by auto
qed auto

lemma drop_underscores_digits: "\<forall>c \<in> set s. is_digit c \<Longrightarrow> drop_underscores s = s"
  by (auto simp: drop_underscores_def filter_id_conv is_digit_def)

lemma unsigned_int_nat_text:
  "length (nat_text n) \<le> max_int_digits \<Longrightarrow> unsigned_int (nat_text n) = Some (int n)"
  using nat_text_digits [of _ n]
  by (simp add: unsigned_int_def digit_groups_digits drop_underscores_digits)

lemma strip_by_id: "s \<noteq> [] \<Longrightarrow> \<not> p (hd s) \<Longrightarrow> \<not> p (last s) \<Longrightarrow> strip_by p s = s"
proof -
  assume s: "s \<noteq> []" and ends: "\<not> p (hd s)" "\<not> p (last s)"
  then have "dropWhile p s = s" and "dropWhile p (rev s) = rev s"
    by (simp_all add: dropWhile_eq_self_iff hd_rev)
  then show ?thesis by (simp add: strip_by_def)
qed

lemma int_of_int_text:
  assumes "length (nat_text (nat \<bar>i\<bar>)) \<le> max_int_digits"
  shows "int_of_text (int_text i) = Some i"
proof -
  have dig: "is_digit c" if "c \<in> set (nat_text n)" for c n
    using that by (rule nat_text_digits)
  have nospace: "\<not> is_space c" if "is_digit c" for c
    using that by (auto simp: is_digit_def is_space_def)
  have ends: "\<not> is_space (hd (nat_text n))" "\<not> is_space (last (nat_text n))"
    "hd (nat_text n) \<noteq> CHR ''-''" "hd (nat_text n) \<noteq> CHR ''+''" for n
    using dig [of "hd (nat_text n)" n] dig [of "last (nat_text n)" n] nospace
    by (auto simp: is_digit_def)
  show ?thesis
  proof (cases "i < 0")
    case True
    then have "strip_by is_space (int_text i) = CHR ''-'' # nat_text (nat (- i))"
      using ends by (simp add: int_text_def strip_by_id is_space_def)
    with True assms show ?thesis by (simp add: int_of_text_def unsigned_int_nat_text)
  next
    case False
    then have "strip_by is_space (int_text i) = nat_text (nat i)"
      using ends by (simp add: int_text_def strip_by_id)
    moreover have "int_of_text (int_text i) = unsigned_int (nat_text (nat i))"
      using False calculation ends [of "nat i"]
      by (cases "nat_text (nat i)") (auto simp: int_of_text_def)
    ultimately show ?thesis using False assms by (simp add: unsigned_int_nat_text)
  qed
qed

text \<open>
  \<open>int(value)\<close> of any value: a float is cut towards zero, an infinity overflows and NaN has
  no integer; a value of another type is refused.
\<close>

definition trunc_rat :: "rat \<Rightarrow> int" where
  "trunc_rat r = (if 0 \<le> r then \<lfloor>r\<rfloor> else \<lceil>r\<rceil>)"

fun int_of_float :: "pyfloat \<Rightarrow> pyerr + int" where
  "int_of_float (Fin r) = Inr (trunc_rat r)"
| "int_of_float NaN = Inl ValueError"
| "int_of_float _ = Inl OverflowError"

fun py_int :: "pyval \<Rightarrow> pyerr + int" where
  "py_int (VInt i) = Inr i"
| "py_int (VBool b) = Inr (if b then 1 else 0)"
| "py_int (VFloat f) = int_of_float f"
| "py_int (VStr s) = (case int_of_text s of None \<Rightarrow> Inl ValueError | Some i \<Rightarrow> Inr i)"
| "py_int (VBytes s) = (case int_of_text s of None \<Rightarrow> Inl ValueError | Some i \<Rightarrow> Inr i)"
| "py_int _ = Inl TypeError"

text \<open>\<open>str(v)\<close>, with the text of a float or of a container as a parameter.\<close>

fun py_str :: "(pyval \<Rightarrow> string) \<Rightarrow> pyval \<Rightarrow> string" where
  "py_str other (VStr s) = s"
| "py_str other (VInt i) = int_text i"
| "py_str other (VBool b) = (if b then ''True'' else ''False'')"
| "py_str other VNone = ''None''"
| "py_str other v = other v"

text \<open>The items of a dict that \<open>json.loads\<close> made: its keys are texts.\<close>

fun key_text :: "pyval \<Rightarrow> string" where
  "key_text (VStr s) = s"
| "key_text _ = []"

fun text_items :: "pyval \<Rightarrow> sdict" where
  "text_items (VDict kvs) = map (\<lambda>(k, v). (key_text k, v)) kvs"
| "text_items _ = []"

lemma text_items_jobj [simp]: "text_items (jobj kvs) = kvs"
  by (simp add: jobj_def case_prod_beta comp_def)

section \<open>Iteration and membership\<close>

text \<open>\<open>for x in v\<close>: the items in order, and \<open>TypeError\<close> for a value with no iterator.\<close>

fun py_iter :: "pyval \<Rightarrow> pyerr + pyval list" where
  "py_iter (VList xs) = Inr xs"
| "py_iter (VTuple xs) = Inr xs"
| "py_iter (VDict kvs) = Inr (map fst kvs)"
| "py_iter (VStr s) = Inr (map (\<lambda>c. VStr [c]) s)"
| "py_iter (VBytes s) = Inr (map (\<lambda>c. VInt (of_char c)) s)"
| "py_iter _ = Inl TypeError"

text \<open>Membership in a sequence of values, which compares with \<open>==\<close>.\<close>

definition py_mem :: "pyval \<Rightarrow> pyval list \<Rightarrow> bool" where
  "py_mem v xs \<longleftrightarrow> list_ex (py_eq v) xs"

text \<open>Membership in a tuple of texts, such as a vocabulary of the source.\<close>

definition in_texts :: "pyval \<Rightarrow> string list \<Rightarrow> bool" where
  "in_texts v ts \<longleftrightarrow> (case v of VStr s \<Rightarrow> s \<in> set ts | _ \<Rightarrow> False)"

text \<open>
  \<open>x in v\<close>: a list or a tuple is searched, a dict is looked up (a key with no hash raises), a
  text holds its parts (\<open>x\<close> must be text), and a number holds nothing and raises.
\<close>

fun py_in :: "pyval \<Rightarrow> pyval \<Rightarrow> pyerr + bool" where
  "py_in x (VList ys) = Inr (py_mem x ys)"
| "py_in x (VTuple ys) = Inr (py_mem x ys)"
| "py_in x (VDict kvs) = (if hashable x then Inr (pd_lookup x kvs \<noteq> None) else Inl TypeError)"
| "py_in x (VStr s) = (case x of VStr t \<Rightarrow> Inr (sublist t s) | _ \<Rightarrow> Inl TypeError)"
| "py_in x (VBytes s) = (case x of
     VBytes t \<Rightarrow> Inr (sublist t s)
   | VInt i \<Rightarrow> (if 0 \<le> i \<and> i < 256 then Inr (char_of (nat i) \<in> set s) else Inl ValueError)
   | VBool b \<Rightarrow> Inr (char_of (if b then 1 else 0 :: nat) \<in> set s)
   | _ \<Rightarrow> Inl TypeError)"
| "py_in x _ = Inl TypeError"

lemma in_texts_iff: "in_texts v ts \<longleftrightarrow> (\<exists>s \<in> set ts. v = VStr s)"
  by (auto simp: in_texts_def split: pyval.splits)

lemma py_mem_VStr [simp]: "py_mem (VStr s) xs \<longleftrightarrow> VStr s \<in> set xs"
  by (auto simp: py_mem_def list_ex_iff)

text \<open>A text can be searched for in whatever can be iterated.\<close>

lemma py_iter_in: "py_iter v = Inr xs \<Longrightarrow> \<exists>b. py_in (VStr s) v = Inr b" if "\<not> (\<exists>t. v = VBytes t)"
  using that by (cases v) auto

text \<open>\<open>a < b\<close> and \<open>a <= b\<close> on two numbers; any other operands raise.\<close>

definition py_lt :: "pyval \<Rightarrow> pyval \<Rightarrow> pyerr + bool" where
  "py_lt a b = (case (num_of a, num_of b) of (Some x, Some y) \<Rightarrow> Inr (pf_lt x y) | _ \<Rightarrow> Inl TypeError)"

definition py_le :: "pyval \<Rightarrow> pyval \<Rightarrow> pyerr + bool" where
  "py_le a b = (case (num_of a, num_of b) of (Some x, Some y) \<Rightarrow> Inr (pf_le x y) | _ \<Rightarrow> Inl TypeError)"

end
