(* ===== verification/Config.thy ===== *)
theory Config
  imports PyValue
begin

text \<open>
  The configuration objects of \<open>domain/introspective_config.py\<close>.

  A configuration class declares its fields in order, each with its default or with none, and a
  check of the values of a partial update. The four operations \<open>check\<close>, \<open>update\<close>,
  \<open>snapshot\<close> and \<open>reset\<close> are written once over the declared fields, and every
  class of the simulator (the scenario and the quirks of a chain) inherits them. The locale
  \<open>config_contract\<close> is what a client of a configuration object relies on, and
  \<open>declared_fields\<close> is what a class must declare for its objects to keep that contract.

  A copy of a value is the value here: the model has no aliasing between a caller and an object.
\<close>

section \<open>Classes and objects\<close>

record config_class =
  class_fields :: "(string \<times> pyval option) list"
  class_validate :: "sdict \<Rightarrow> pyerr option"

record config =
  field_values :: sdict
  last_write :: "rat option"

definition field_names :: "config_class \<Rightarrow> string list" where
  "field_names cls = map fst (class_fields cls)"

text \<open>The values that a fresh object has: \<open>ScenarioConfig()\<close>, \<open>EthQuirks()\<close> and so on.\<close>

definition default_values :: "config_class \<Rightarrow> sdict" where
  "default_values cls = map (\<lambda>(f, d). (f, case d of None \<Rightarrow> VNone | Some v \<Rightarrow> v)) (class_fields cls)"

definition new_config :: "config_class \<Rightarrow> config" where
  "new_config cls = \<lparr>field_values = default_values cls, last_write = None\<rparr>"

text \<open>A class with no check of its own.\<close>

definition no_validate :: "sdict \<Rightarrow> pyerr option" where
  "no_validate cfg = None"

section \<open>Operations\<close>

text \<open>\<open>last_write_at\<close>: the time of the last update, and the present time for an object never updated.\<close>

definition last_write_at :: "rat \<Rightarrow> config \<Rightarrow> rat" where
  "last_write_at now c = (case last_write c of None \<Rightarrow> now | Some t \<Rightarrow> t)"

definition cfg_check :: "config_class \<Rightarrow> sdict \<Rightarrow> pyerr option" where
  "cfg_check cls cfg =
     (let unknown = filter (\<lambda>k. k \<notin> set (field_names cls)) (dict_keys cfg)
      in if unknown \<noteq> [] then Some ValueError else class_validate cls cfg)"

definition cfg_update :: "config_class \<Rightarrow> rat \<Rightarrow> sdict \<Rightarrow> config \<Rightarrow> pyerr + config" where
  "cfg_update cls now cfg c = (case cfg_check cls cfg of
     Some e \<Rightarrow> Inl e
   | None \<Rightarrow> Inr (c\<lparr>field_values := dict_merge (field_values c) cfg, last_write := Some now\<rparr>))"

definition cfg_snapshot :: "config_class \<Rightarrow> config \<Rightarrow> sdict" where
  "cfg_snapshot cls c = map (\<lambda>f. (f, get_or (field_values c) f VNone)) (field_names cls)"

text \<open>
  \<open>reset\<close> writes the default of each field in order. A field with no default raises, and the
  fields before it have been written by then.
\<close>

fun reset_fields :: "(string \<times> pyval option) list \<Rightarrow> sdict \<Rightarrow> sdict \<times> pyerr option" where
  "reset_fields [] vals = (vals, None)"
| "reset_fields ((f, Some d) # fs) vals = reset_fields fs (AList.update f d vals)"
| "reset_fields ((f, None) # fs) vals = (vals, Some TypeError)"

definition cfg_reset :: "config_class \<Rightarrow> config \<Rightarrow> config \<times> pyerr option" where
  "cfg_reset cls c =
     (case reset_fields (class_fields cls) (field_values c) of
        (vals, e) \<Rightarrow> (c\<lparr>field_values := vals\<rparr>, e))"

text \<open>An object of a class holds one value per declared field.\<close>

definition config_ok :: "config_class \<Rightarrow> config \<Rightarrow> bool" where
  "config_ok cls c \<longleftrightarrow> dict_keys (field_values c) = field_names cls"

text \<open>A run of requests against one object: a refused one leaves it as it was.\<close>

fun update_run :: "(sdict \<Rightarrow> 'c \<Rightarrow> pyerr + 'c) \<Rightarrow> sdict list \<Rightarrow> 'c \<Rightarrow> 'c" where
  "update_run upd [] c = c"
| "update_run upd (cfg # cfgs) c =
     update_run upd cfgs (case upd cfg c of Inl e \<Rightarrow> c | Inr c' \<Rightarrow> c')"

section \<open>The contract\<close>

text \<open>
  What the control API relies on when it works with a configuration object: the check decides
  the update and writes nothing, an accepted update changes exactly the fields it names, and a
  reset restores the defaults whatever happened before.
\<close>

locale config_contract =
  fixes names :: "string list"
    and chk :: "sdict \<Rightarrow> pyerr option"
    and upd :: "sdict \<Rightarrow> 'c \<Rightarrow> pyerr + 'c"
    and snap :: "'c \<Rightarrow> sdict"
    and rst :: "'c \<Rightarrow> 'c"
    and ok :: "'c \<Rightarrow> bool"
    and fresh :: 'c
  assumes names_distinct: "distinct names"
    and unknown_refused: "chk cfg = None \<Longrightarrow> set (dict_keys cfg) \<subseteq> set names"
    and upd_refused: "upd cfg c = Inl e \<longleftrightarrow> chk cfg = Some e"
    and snap_keys: "ok c \<Longrightarrow> dict_keys (snap c) = names"
    and upd_snap: "ok c \<Longrightarrow> upd cfg c = Inr c' \<Longrightarrow> snap c' = dict_merge (snap c) cfg"
    and upd_ok: "ok c \<Longrightarrow> upd cfg c = Inr c' \<Longrightarrow> ok c'"
    and rst_snap: "ok c \<Longrightarrow> snap (rst c) = snap fresh"
    and rst_ok: "ok c \<Longrightarrow> ok (rst c)"
    and fresh_ok: "ok fresh"
begin

lemma upd_accepted: "(\<exists>c'. upd cfg c = Inr c') \<longleftrightarrow> chk cfg = None"
proof (cases "upd cfg c")
  case (Inl e)
  then show ?thesis using upd_refused [of cfg c e] by simp
next
  case (Inr c')
  then show ?thesis using upd_refused [of cfg c] by (cases "chk cfg") auto
qed

lemma upd_reads:
  assumes "ok c" and "upd cfg c = Inr c'" and "distinct (dict_keys cfg)"
  shows "get_or (snap c') f w = get_or cfg f (get_or (snap c) f w)"
  using assms by (simp add: upd_snap get_or_dict_merge)

lemma upd_keeps_other:
  assumes "ok c" and "upd cfg c = Inr c'" and "f \<notin> set (dict_keys cfg)"
  shows "get_or (snap c') f w = get_or (snap c) f w"
  using assms by (simp add: upd_snap get_or_def map_of_dict_merge_notin)

lemma update_run_ok: "ok c \<Longrightarrow> ok (update_run upd cfgs c)"
  by (induction cfgs arbitrary: c) (auto split: sum.split intro: upd_ok)

lemma update_run_snap:
  "ok c \<Longrightarrow> snap (update_run upd cfgs c) = foldl dict_merge (snap c) (filter (\<lambda>cfg. chk cfg = None) cfgs)"
proof (induction cfgs arbitrary: c)
  case (Cons cfg cfgs)
  show ?case
  proof (cases "upd cfg c")
    case (Inl e)
    then have "chk cfg = Some e" using upd_refused by simp
    with Inl Cons show ?thesis by simp
  next
    case (Inr c')
    moreover from Inr have "chk cfg = None" using upd_accepted by blast
    ultimately show ?thesis using Cons upd_ok upd_snap by simp
  qed
qed simp

lemma reset_after_run: "ok c \<Longrightarrow> snap (rst (update_run upd cfgs c)) = snap fresh"
  by (simp add: rst_snap update_run_ok)

end

section \<open>Classes that declare a default for every field\<close>

locale declared_fields =
  fixes cls :: config_class
  assumes fields_distinct: "distinct (map fst (class_fields cls))"
    and all_defaults: "list_all (\<lambda>(f, d). d \<noteq> None) (class_fields cls)"
begin

lemma snapshot_values:
  assumes ok: "config_ok cls c"
  shows "cfg_snapshot cls c = field_values c"
proof -
  from ok have keys: "field_names cls = dict_keys (field_values c)" by (simp add: config_ok_def)
  with fields_distinct have "distinct (dict_keys (field_values c))" by (simp add: field_names_def)
  then show ?thesis using dict_of_keys [of "field_values c" VNone] by (simp add: cfg_snapshot_def keys)
qed

lemma reset_fields_spec:
  assumes "list_all (\<lambda>(f, d). d \<noteq> None) fs" and "distinct (map fst fs)"
  shows "reset_fields fs vals
           = (dict_merge vals (map (\<lambda>(f, d). (f, case d of None \<Rightarrow> VNone | Some v \<Rightarrow> v)) fs), None)"
  using assms by (induction fs vals rule: reset_fields.induct) auto

lemma default_keys: "dict_keys (default_values cls) = field_names cls"
  by (simp add: default_values_def field_names_def case_prod_beta comp_def)

lemma new_config_ok: "config_ok cls (new_config cls)"
  by (simp add: config_ok_def new_config_def default_keys)

lemma reset_spec:
  assumes "config_ok cls c"
  shows "cfg_reset cls c = (c\<lparr>field_values := default_values cls\<rparr>, None)"
proof -
  have "reset_fields (class_fields cls) (field_values c)
      = (dict_merge (field_values c) (default_values cls), None)"
    using reset_fields_spec [OF all_defaults fields_distinct] by (simp add: default_values_def)
  moreover have "dict_merge (field_values c) (default_values cls) = default_values cls"
    using assms fields_distinct
    by (intro merge_own_keys) (simp_all add: config_ok_def default_keys field_names_def)
  ultimately show ?thesis by (simp add: cfg_reset_def)
qed

lemma check_known: "cfg_check cls cfg = None \<Longrightarrow> set (dict_keys cfg) \<subseteq> set (field_names cls)"
  by (auto simp: cfg_check_def filter_empty_conv split: if_splits)

lemma update_ok:
  "config_ok cls c \<Longrightarrow> cfg_update cls now cfg c = Inr c' \<Longrightarrow> config_ok cls c'"
  using check_known [of cfg]
  by (auto simp: cfg_update_def config_ok_def keys_dict_merge split: option.splits)

end

sublocale declared_fields \<subseteq> config_contract "field_names cls" "cfg_check cls"
  "cfg_update cls now" "cfg_snapshot cls" "\<lambda>c. fst (cfg_reset cls c)" "config_ok cls" "new_config cls"
  for now
proof unfold_locales
  show "distinct (field_names cls)" using fields_distinct by (simp add: field_names_def)
  show "set (dict_keys cfg) \<subseteq> set (field_names cls)" if "cfg_check cls cfg = None" for cfg
    using that by (rule check_known)
  show "cfg_update cls now cfg c = Inl e \<longleftrightarrow> cfg_check cls cfg = Some e" for cfg c e
    by (simp add: cfg_update_def split: option.split)
  show "dict_keys (cfg_snapshot cls c) = field_names cls" for c
    by (simp add: cfg_snapshot_def comp_def)
  show "cfg_snapshot cls c' = dict_merge (cfg_snapshot cls c) cfg"
    if "config_ok cls c" "cfg_update cls now cfg c = Inr c'" for c c' cfg
    using that update_ok [OF that]
    by (auto simp: snapshot_values cfg_update_def split: option.splits)
  show "config_ok cls c'" if "config_ok cls c" "cfg_update cls now cfg c = Inr c'" for c c' cfg
    using that by (rule update_ok)
  show "cfg_snapshot cls (fst (cfg_reset cls c)) = cfg_snapshot cls (new_config cls)"
    if "config_ok cls c" for c
    using that by (simp add: reset_spec cfg_snapshot_def new_config_def)
  show "config_ok cls (fst (cfg_reset cls c))" if "config_ok cls c" for c
    using that by (simp add: reset_spec config_ok_def default_keys)
  show "config_ok cls (new_config cls)" by (rule new_config_ok)
qed

context declared_fields
begin

lemma update_reads:
  assumes "config_ok cls c" and "cfg_update cls now cfg c = Inr c'" and "distinct (dict_keys cfg)"
  shows "get_or (cfg_snapshot cls c') f w = get_or cfg f (get_or (cfg_snapshot cls c) f w)"
  using assms by (rule upd_reads)

lemma run_ok: "config_ok cls (update_run (cfg_update cls now) cfgs (new_config cls))"
  by (rule update_run_ok) (rule new_config_ok)

end

end
