(* ===== verification/Scenario.thy ===== *)
theory Scenario
  imports Config
begin

text \<open>
  \<open>domain/endpoint.py\<close> and \<open>domain/scenario.py\<close>: the endpoint of a provider, the closed
  vocabularies of interfaces and transports, and the fault configuration with its checks.

  A check gives \<open>None\<close> when it accepts and the class of the exception when it refuses. Most
  refusals are \<open>ValueError\<close>; a filter that cannot be iterated raises \<open>TypeError\<close>, as the
  source does.
\<close>

section \<open>Endpoints\<close>

record endpoint =
  interface :: string
  transport :: string
  port :: int

definition INTERFACES :: "string list" where
  "INTERFACES = [''jsonrpc'', ''rest'', ''grpc'', ''tendermintrpc'', ''graphql'']"

definition TRANSPORTS :: "string list" where
  "TRANSPORTS = [''http'', ''http2'', ''ws'']"

section \<open>The fields of a scenario\<close>

definition rate_limit_body_default :: string where
  "rate_limit_body_default =
     ''Rate limit exceeded. Reduce your request rate, or use an API key for a higher limit.''"

definition scenario_fields :: "(string \<times> pyval option) list" where
  "scenario_fields =
    [(''mode'', Some (VStr ''success'')),
     (''latency_ms'', Some (VInt 0)),
     (''error_probability'', Some (VFloat (Fin 0))),
     (''error_code'', Some (VInt (-32000))),
     (''error_message'', Some (VStr ''Internal error'')),
     (''http_status'', Some (VInt 200)),
     (''rate_limit_body'', Some (VStr rate_limit_body_default)),
     (''rate_limit_style'', Some (VStr ''status'')),
     (''error_body'', Some VNone),
     (''unreadable_reply'', Some VNone),
     (''responses'', Some (VDict [])),
     (''corruption_mode'', Some VNone),
     (''missing_field'', Some VNone),
     (''blocks_behind'', Some (VInt 0)),
     (''fail_first_n'', Some (VInt 0)),
     (''then_mode'', Some (VStr ''success'')),
     (''drop_at'', Some (VStr ''before_headers'')),
     (''pause_at'', Some VNone),
     (''pause_ms'', Some (VInt 0)),
     (''transports'', Some VNone),
     (''ports'', Some VNone),
     (''reply_headers'', Some VNone),
     (''reply_trailers'', Some VNone)]"

definition HEADERS_THE_SIMULATOR_OWNS :: "string list" where
  "HEADERS_THE_SIMULATOR_OWNS =
    [''connection'', ''content-length'', ''content-type'', ''sec-websocket-accept'',
     ''transfer-encoding'', ''upgrade'']"

definition NAMES_THE_GRPC_LIBRARY_OWNS :: "string list" where
  "NAMES_THE_GRPC_LIBRARY_OWNS =
    [''content-length'', ''content-type'', ''grpc-accept-encoding'', ''grpc-encoding'',
     ''grpc-internal-encoding-request'', ''grpc-message'', ''grpc-previous-rpc-attempts'',
     ''grpc-status'', ''grpc-timeout'', ''te'']"

definition MODES_THAT_NEVER_REACH_A_PAUSE :: "string list" where
  "MODES_THAT_NEVER_REACH_A_PAUSE = [''down'', ''hang'', ''drop_connection'', ''port_closed'']"

definition RATE_LIMIT_STYLES :: "string list" where
  "RATE_LIMIT_STYLES = [''status'', ''body'']"

text \<open>\<open>_CHOSEN_NAME_CHARS\<close>, and the visible ASCII characters and spaces of a chosen value.\<close>

definition chosen_name_char :: "char \<Rightarrow> bool" where
  "chosen_name_char c \<longleftrightarrow> c \<in> {CHR ''-'', CHR ''_'', CHR ''.''} \<or> is_digit c \<or> is_letter c"

definition chosen_value_char :: "char \<Rightarrow> bool" where
  "chosen_value_char c \<longleftrightarrow> 32 \<le> code_of c \<and> code_of c \<le> 126"

text \<open>\<open>_WHOLE_NUMBER.fullmatch(value)\<close> for the pattern \<open>0|-?[1-9][0-9]*\<close>.\<close>

fun positive_decimal :: "string \<Rightarrow> bool" where
  "positive_decimal [] = False"
| "positive_decimal (c # cs) = (is_digit c \<and> c \<noteq> CHR ''0'' \<and> list_all is_digit cs)"

definition whole_number :: "string \<Rightarrow> bool" where
  "whole_number s \<longleftrightarrow>
     s = ''0'' \<or> positive_decimal s \<or> (s \<noteq> [] \<and> hd s = CHR ''-'' \<and> positive_decimal (tl s))"

definition in_signed_64_bit :: "int \<Rightarrow> bool" where
  "in_signed_64_bit i \<longleftrightarrow> - (2 ^ 63) \<le> i \<and> i < 2 ^ 63"

section \<open>The checks of the values\<close>

definition validate_transports :: "sdict \<Rightarrow> pyerr option" where
  "validate_transports cfg =
     (let transports = get_or cfg ''transports'' VNone
      in if transports = VNone then None
         else (case py_iter transports of
                 Inl e \<Rightarrow> Some e
               | Inr ts \<Rightarrow>
                   let bad = filter (\<lambda>t. \<not> in_texts t TRANSPORTS) ts
                   in if bad \<noteq> [] then Some ValueError else None))"

fun port_number :: "pyval \<Rightarrow> int option" where
  "port_number (VInt p) = Some p"
| "port_number _ = None"

definition bad_port :: "pyval \<Rightarrow> bool" where
  "bad_port v \<longleftrightarrow> (case port_number v of None \<Rightarrow> True | Some p \<Rightarrow> \<not> (1 \<le> p \<and> p \<le> 65535))"

definition validate_ports :: "sdict \<Rightarrow> pyerr option" where
  "validate_ports cfg =
     (let ports = get_or cfg ''ports'' VNone
      in if ports = VNone then None
         else (case seq_items ports of
                 None \<Rightarrow> Some ValueError
               | Some ps \<Rightarrow>
                   if ps = [] then Some ValueError
                   else if filter bad_port ps \<noteq> [] then Some ValueError
                   else None))"

text \<open>\<open>word not in transports\<close> for a filter that is set: the refusal, or what the search raises.\<close>

definition filter_misses :: "string \<Rightarrow> pyval \<Rightarrow> pyerr option" where
  "filter_misses wire transports =
     (if transports = VNone then None
      else (case py_in (VStr wire) transports of
              Inl e \<Rightarrow> Some e
            | Inr found \<Rightarrow> if found then None else Some ValueError))"

definition validate_pause :: "sdict \<Rightarrow> pyerr option" where
  "validate_pause cfg =
     (let pause_at = get_or cfg ''pause_at'' VNone;
          mode = get_or cfg ''mode'' VNone;
          transports = get_or cfg ''transports'' VNone
      in first_some
          [if truthy pause_at \<and> in_texts mode MODES_THAT_NEVER_REACH_A_PAUSE
           then Some ValueError else None,
           if truthy pause_at then filter_misses ''http'' transports else None,
           if truthy (get_or cfg ''pause_ms'' VNone) \<and> map_of cfg ''pause_at'' \<noteq> None
              \<and> \<not> truthy pause_at
           then Some ValueError else None])"

definition validate_rate_limit_style :: "sdict \<Rightarrow> pyerr option" where
  "validate_rate_limit_style cfg =
     (case map_of cfg ''rate_limit_style'' of
        None \<Rightarrow> None
      | Some style \<Rightarrow> if in_texts style RATE_LIMIT_STYLES then None else Some ValueError)"

fun readable_status :: "pyval \<Rightarrow> bool" where
  "readable_status (VInt i) = (100 \<le> i \<and> i \<le> 599)"
| "readable_status _ = False"

definition unreadable_reply_ok :: "pyval \<Rightarrow> bool" where
  "unreadable_reply_ok reply = (case reply of
     VDict kvs \<Rightarrow>
       list_all (\<lambda>(k, v). in_texts k [''status'', ''body'']) kvs
       \<and> readable_status (vget_or reply ''status'' VNone)
   | _ \<Rightarrow> False)"

definition validate_unreadable_reply :: "sdict \<Rightarrow> pyerr option" where
  "validate_unreadable_reply cfg =
     (let reply = get_or cfg ''unreadable_reply'' VNone
      in if reply = VNone \<or> unreadable_reply_ok reply then None else Some ValueError)"

text \<open>One pair of a chosen header or trailer, with the lowered names that came before it.\<close>

definition chosen_pair_refused :: "string \<Rightarrow> string list \<Rightarrow> pyval \<Rightarrow> pyval \<Rightarrow> bool" where
  "chosen_pair_refused field seen name value = (case (name, value) of
     (VStr n, VStr v) \<Rightarrow>
       n = [] \<or> \<not> list_all chosen_name_char n
       \<or> \<not> list_all chosen_value_char v
       \<or> (field = ''reply_headers'' \<and> lower n \<in> set HEADERS_THE_SIMULATOR_OWNS)
       \<or> lower n \<in> set NAMES_THE_GRPC_LIBRARY_OWNS
       \<or> ends_with ''-bin'' (lower n)
       \<or> (lower n = ''grpc-retry-pushback-ms''
           \<and> \<not> (whole_number v
                 \<and> (case int_of_text v of None \<Rightarrow> False | Some i \<Rightarrow> in_signed_64_bit i)))
       \<or> lower n \<in> set seen
   | _ \<Rightarrow> True)"

fun lowered_name :: "pyval \<Rightarrow> string" where
  "lowered_name (VStr n) = lower n"
| "lowered_name _ = []"

abbreviation lowered_names :: "(pyval \<times> pyval) list \<Rightarrow> string list" where
  "lowered_names kvs \<equiv> map (\<lambda>kv. lowered_name (fst kv)) kvs"

fun chosen_pairs_refused :: "string \<Rightarrow> string list \<Rightarrow> (pyval \<times> pyval) list \<Rightarrow> bool" where
  "chosen_pairs_refused field seen [] = False"
| "chosen_pairs_refused field seen ((name, value) # rest) =
     (chosen_pair_refused field seen name value
      \<or> chosen_pairs_refused field (lowered_name name # seen) rest)"

definition validate_chosen :: "string \<Rightarrow> sdict \<Rightarrow> pyerr option" where
  "validate_chosen field cfg =
     (let chosen = get_or cfg field VNone
      in if chosen = VNone then None
         else (case chosen of
             VDict kvs \<Rightarrow>
               if chosen_pairs_refused field [] kvs then Some ValueError
               else if field = ''reply_trailers'' \<and> kvs \<noteq> []
               then filter_misses ''http2'' (get_or cfg ''transports'' VNone)
               else None
           | _ \<Rightarrow> Some ValueError))"

definition scenario_validate :: "sdict \<Rightarrow> pyerr option" where
  "scenario_validate cfg = first_some
     [validate_transports cfg,
      validate_ports cfg,
      validate_pause cfg,
      validate_rate_limit_style cfg,
      validate_unreadable_reply cfg,
      validate_chosen ''reply_headers'' cfg,
      validate_chosen ''reply_trailers'' cfg]"

definition ScenarioConfig :: config_class where
  "ScenarioConfig = \<lparr>class_fields = scenario_fields, class_validate = scenario_validate\<rparr>"

interpretation scenario: declared_fields ScenarioConfig
  by unfold_locales (simp_all add: ScenarioConfig_def scenario_fields_def)

section \<open>What the checks guarantee\<close>

lemma scenario_check_None:
  assumes "cfg_check ScenarioConfig cfg = None"
  shows "validate_transports cfg = None" and "validate_ports cfg = None"
    and "validate_pause cfg = None" and "validate_rate_limit_style cfg = None"
    and "validate_unreadable_reply cfg = None"
    and "validate_chosen ''reply_headers'' cfg = None"
    and "validate_chosen ''reply_trailers'' cfg = None"
  using assms
  by (simp_all add: cfg_check_def ScenarioConfig_def scenario_validate_def
      split: if_splits option.splits)

lemma chosen_pair_accepted:
  assumes "\<not> chosen_pair_refused field seen k v"
  shows "\<exists>n t. k = VStr n \<and> v = VStr t \<and> n \<noteq> [] \<and> list_all chosen_name_char n
    \<and> list_all chosen_value_char t \<and> lower n \<notin> set seen
    \<and> lower n \<notin> set NAMES_THE_GRPC_LIBRARY_OWNS \<and> \<not> ends_with ''-bin'' (lower n)
    \<and> (field = ''reply_headers'' \<longrightarrow> lower n \<notin> set HEADERS_THE_SIMULATOR_OWNS)"
  using assms by (auto simp: chosen_pair_refused_def split: pyval.splits)

lemma chosen_pairs_accepted:
  assumes "\<not> chosen_pairs_refused field seen kvs"
  shows "distinct (lowered_names kvs)
    \<and> set (lowered_names kvs) \<inter> set seen = {}
    \<and> (\<forall>(k, v) \<in> set kvs. \<not> chosen_pair_refused field [] k v)"
  using assms
proof (induction field seen kvs rule: chosen_pairs_refused.induct)
  case (2 field seen k v rest)
  then have this_one: "\<not> chosen_pair_refused field seen k v"
    and rest: "distinct (lowered_names rest)"
      "set (lowered_names rest) \<inter> set (lowered_name k # seen) = {}"
      "\<forall>(k, v) \<in> set rest. \<not> chosen_pair_refused field [] k v"
    by auto
  have "\<not> chosen_pair_refused field [] k v"
    using this_one by (auto simp: chosen_pair_refused_def split: pyval.splits)
  moreover have "lowered_name k \<notin> set seen"
    using chosen_pair_accepted [OF this_one] by auto
  ultimately show ?case using rest by auto
qed simp

lemma validate_chosen_None:
  assumes "validate_chosen field cfg = None" and "get_or cfg field VNone = VDict kvs"
  shows "\<not> chosen_pairs_refused field [] kvs"
  using assms by (auto simp: validate_chosen_def split: if_splits)

text \<open>The characters of a chosen name or value cannot end a header line or its name.\<close>

lemma chosen_chars_safe:
  "list_all chosen_name_char n \<Longrightarrow> CHR 0x0A \<notin> set n \<and> CHR 0x0D \<notin> set n \<and> CHR '':'' \<notin> set n"
  "list_all chosen_value_char t \<Longrightarrow> CHR 0x0A \<notin> set t \<and> CHR 0x0D \<notin> set t"
proof -
  have "\<not> chosen_name_char (CHR 0x0A)" "\<not> chosen_name_char (CHR 0x0D)" "\<not> chosen_name_char (CHR '':'')"
    "\<not> chosen_value_char (CHR 0x0A)" "\<not> chosen_value_char (CHR 0x0D)"
    by code_simp+
  then show "list_all chosen_name_char n \<Longrightarrow> CHR 0x0A \<notin> set n \<and> CHR 0x0D \<notin> set n \<and> CHR '':'' \<notin> set n"
    "list_all chosen_value_char t \<Longrightarrow> CHR 0x0A \<notin> set t \<and> CHR 0x0D \<notin> set t"
    unfolding list_all_iff by metis+
qed

text \<open>
  Reply headers that a scenario accepts are safe to write as they are: each is a non-empty
  name and a text with no line break and no colon in the name, no two names differ only in
  letter case, and none is a header that frames a reply or names the provider, or that the gRPC
  library owns.
\<close>

theorem accepted_reply_headers_safe:
  assumes "cfg_check ScenarioConfig cfg = None"
    and "get_or cfg ''reply_headers'' VNone = VDict kvs"
  shows "distinct (lowered_names kvs)
    \<and> (\<forall>(k, v) \<in> set kvs. \<exists>n t. k = VStr n \<and> v = VStr t \<and> n \<noteq> []
        \<and> CHR 0x0A \<notin> set n \<and> CHR 0x0D \<notin> set n \<and> CHR '':'' \<notin> set n
        \<and> CHR 0x0A \<notin> set t \<and> CHR 0x0D \<notin> set t
        \<and> lower n \<notin> set HEADERS_THE_SIMULATOR_OWNS
        \<and> lower n \<notin> set NAMES_THE_GRPC_LIBRARY_OWNS \<and> \<not> ends_with ''-bin'' (lower n))"
proof -
  have accepted: "\<not> chosen_pairs_refused ''reply_headers'' [] kvs"
    using scenario_check_None(6) [OF assms(1)] assms(2) by (rule validate_chosen_None)
  note pairs = chosen_pairs_accepted [OF accepted]
  have "\<exists>n t. k = VStr n \<and> v = VStr t \<and> n \<noteq> []
        \<and> CHR 0x0A \<notin> set n \<and> CHR 0x0D \<notin> set n \<and> CHR '':'' \<notin> set n
        \<and> CHR 0x0A \<notin> set t \<and> CHR 0x0D \<notin> set t
        \<and> lower n \<notin> set HEADERS_THE_SIMULATOR_OWNS
        \<and> lower n \<notin> set NAMES_THE_GRPC_LIBRARY_OWNS \<and> \<not> ends_with ''-bin'' (lower n)"
    if "(k, v) \<in> set kvs" for k v
  proof -
    from pairs that have "\<not> chosen_pair_refused ''reply_headers'' [] k v" by auto
    from chosen_pair_accepted [OF this] show ?thesis using chosen_chars_safe by blast
  qed
  with pairs show ?thesis by auto
qed

theorem accepted_reply_headers_safe_witness:
  "cfg_check ScenarioConfig [(''reply_headers'', jobj [(''Retry-After'', VStr ''5'')])] = None
   \<and> distinct (lowered_names [(VStr ''Retry-After'', VStr ''5'')])"
proof -
  have "cfg_check ScenarioConfig [(''reply_headers'', jobj [(''Retry-After'', VStr ''5'')])] = None"
    by code_simp
  with accepted_reply_headers_safe
    [of "[(''reply_headers'', jobj [(''Retry-After'', VStr ''5'')])]" "[(VStr ''Retry-After'', VStr ''5'')]"]
  show ?thesis by (simp add: get_or_def jobj_def)
qed

text \<open>
  An address filter that a scenario accepts is null, or a non-empty list of integers that
  are real port numbers; a bool is not one.
\<close>

theorem accepted_ports_shape:
  assumes "cfg_check ScenarioConfig cfg = None" and "get_or cfg ''ports'' VNone \<noteq> VNone"
  shows "\<exists>ps. ps \<noteq> [] \<and> seq_items (get_or cfg ''ports'' VNone) = Some (map VInt ps)
    \<and> (\<forall>p \<in> set ps. 1 \<le> p \<and> p \<le> 65535)"
proof -
  let ?v = "get_or cfg ''ports'' VNone"
  have "validate_ports cfg = None" using assms(1) by (rule scenario_check_None)
  with assms(2) obtain xs where xs: "seq_items ?v = Some xs" "xs \<noteq> []"
    and good: "\<forall>x \<in> set xs. \<not> bad_port x"
    by (auto simp: validate_ports_def Let_def filter_empty_conv split: if_splits option.splits)
  have int: "\<exists>p. x = VInt p \<and> 1 \<le> p \<and> p \<le> 65535" if "x \<in> set xs" for x
    using good that by (cases x) (auto simp: bad_port_def)
  define ps where "ps = map (\<lambda>x. the (port_number x)) xs"
  have "xs = map VInt ps"
    unfolding ps_def map_map by (intro map_idI [symmetric]) (use int in fastforce)
  moreover have "\<forall>p \<in> set ps. 1 \<le> p \<and> p \<le> 65535"
    unfolding ps_def using int by fastforce
  ultimately show ?thesis using xs by auto
qed

theorem accepted_ports_shape_witness:
  "\<exists>ps. ps \<noteq> [] \<and> seq_items (VList [VInt 8545, VInt 8546]) = Some (map VInt ps)
    \<and> (\<forall>p \<in> set ps. 1 \<le> p \<and> p \<le> 65535)"
proof -
  have "cfg_check ScenarioConfig [(''ports'', VList [VInt 8545, VInt 8546])] = None" by code_simp
  from accepted_ports_shape [OF this] show ?thesis by (simp add: get_or_def)
qed

text \<open>A filter that was iterated can be searched.\<close>

lemma filter_misses_ValueError:
  assumes "validate_transports cfg = None" and "get_or cfg ''transports'' VNone \<noteq> VBytes []"
    and "filter_misses wire (get_or cfg ''transports'' VNone) = Some e"
  shows "e = ValueError"
proof -
  let ?t = "get_or cfg ''transports'' VNone"
  from assms(3) have "?t \<noteq> VNone" by (auto simp: filter_misses_def)
  with assms(1) obtain ts where it: "py_iter ?t = Inr ts" and ok: "\<forall>t \<in> set ts. in_texts t TRANSPORTS"
    by (auto simp: validate_transports_def Let_def filter_empty_conv split: if_splits sum.splits)
  have "?t \<noteq> VBytes s" for s
    using it ok assms(2) by (cases s) (auto simp: in_texts_def)
  then obtain b where "py_in (VStr wire) ?t = Inr b" using py_iter_in [OF _ it] by blast
  with assms(3) \<open>?t \<noteq> VNone\<close> show ?thesis by (auto simp: filter_misses_def split: if_splits)
qed

lemma validate_pause_class:
  assumes "filter_misses ''http'' (get_or cfg ''transports'' VNone) \<in> {None, Some ValueError}"
  shows "validate_pause cfg \<in> {None, Some ValueError}"
  unfolding validate_pause_def Let_def by (rule first_some_in) (use assms in simp_all)

lemma validate_chosen_class:
  assumes "filter_misses ''http2'' (get_or cfg ''transports'' VNone) \<in> {None, Some ValueError}"
  shows "validate_chosen f cfg \<in> {None, Some ValueError}"
proof (cases "get_or cfg f VNone")
  case (VDict kvs)
  then show ?thesis using assms by (simp add: validate_chosen_def)
qed (simp_all add: validate_chosen_def)

text \<open>
  The one value that a scenario refuses with another exception than \<open>ValueError\<close> is a
  \<open>transports\<close> filter that cannot be iterated, such as a number or a bool: it raises
  \<open>TypeError\<close>, which a caller that catches \<open>ValueError\<close> does not see as a refusal.
\<close>

theorem scenario_refusal_classes:
  assumes "set (dict_keys cfg) \<subseteq> set (field_names ScenarioConfig)"
    and "get_or cfg ''transports'' VNone \<noteq> VBytes []"
  shows "cfg_check ScenarioConfig cfg \<in> {None, Some ValueError, Some TypeError}
    \<and> (cfg_check ScenarioConfig cfg = Some TypeError \<longleftrightarrow>
        get_or cfg ''transports'' VNone \<noteq> VNone
        \<and> py_iter (get_or cfg ''transports'' VNone) = Inl TypeError)"
proof -
  let ?t = "get_or cfg ''transports'' VNone"
  have check: "cfg_check ScenarioConfig cfg = scenario_validate cfg"
    using assms(1) by (auto simp: cfg_check_def ScenarioConfig_def Let_def filter_empty_conv)
  have iter: "py_iter v = Inl e \<Longrightarrow> e = TypeError" for v e by (cases v) auto
  show ?thesis
  proof (cases "?t \<noteq> VNone \<and> (\<exists>e. py_iter ?t = Inl e)")
    case True
    then have "validate_transports cfg = Some TypeError"
      by (auto simp: validate_transports_def dest: iter)
    with True show ?thesis by (auto simp: check scenario_validate_def dest: iter)
  next
    case False
    have no_type: "x \<in> {None, Some ValueError}"
      if "x \<in> {validate_transports cfg, validate_ports cfg, validate_rate_limit_style cfg,
            validate_unreadable_reply cfg}" for x
      using that False
      by (auto simp: validate_transports_def validate_ports_def validate_rate_limit_style_def
          validate_unreadable_reply_def Let_def split: option.splits sum.splits if_splits)
    have miss: "filter_misses w ?t \<in> {None, Some ValueError}" if "validate_transports cfg = None" for w
      using filter_misses_ValueError [OF that assms(2)] by (cases "filter_misses w ?t") auto
    have "scenario_validate cfg \<in> {None, Some ValueError}"
    proof (cases "validate_transports cfg = None")
      case True
      then have "validate_pause cfg \<in> {None, Some ValueError}"
        and "validate_chosen f cfg \<in> {None, Some ValueError}" for f
        using validate_pause_class [OF miss] validate_chosen_class [OF miss] by simp_all
      then show ?thesis unfolding scenario_validate_def
        by (intro first_some_in) (use no_type in simp_all)
    next
      case False
      then have "validate_transports cfg = Some ValueError"
        using no_type [of "validate_transports cfg"] by auto
      then show ?thesis by (simp add: scenario_validate_def)
    qed
    with False show ?thesis by (auto simp: check)
  qed
qed

theorem scenario_refusal_classes_witness:
  "cfg_check ScenarioConfig [(''transports'', VInt 5)] = Some TypeError"
proof -
  have "set (dict_keys [(''transports'', VInt 5)]) \<subseteq> set (field_names ScenarioConfig)" by code_simp
  from scenario_refusal_classes [OF this] show ?thesis by (simp add: get_or_def)
qed

end
