(* ===== verification/Quirks.thy ===== *)
theory Quirks
  imports Scenario
begin

text \<open>
  \<open>domain/quirks.py\<close>: the settings that only one chain has, as configuration classes, and the
  table of the known chains. \<open>SOLANA_DEFAULT_SLOT_BLOCK_GAP\<close>, \<open>SUI_CHAIN_ID\<close> and
  \<open>SUI_TESTNET_CHAIN_ID\<close> are the constants of the stub tables.
\<close>

definition SOLANA_DEFAULT_SLOT_BLOCK_GAP :: int where
  "SOLANA_DEFAULT_SLOT_BLOCK_GAP = 21900000"

definition SUI_CHAIN_ID :: string where
  "SUI_CHAIN_ID = ''4btiuiMPvEENsttpZC7CZ53DruC3MAgfznDbASZ7DR6S''"

definition SUI_TESTNET_CHAIN_ID :: string where
  "SUI_TESTNET_CHAIN_ID = ''69WiPg3DAQiwdxfncX6wYQ2siKwAe6L9BZthQea3JNMD''"

definition Quirks_class :: config_class where
  "Quirks_class = \<lparr>class_fields = [], class_validate = no_validate\<rparr>"

definition EthQuirks :: config_class where
  "EthQuirks = \<lparr>class_fields =
     [(''logs_indexed_up_to'', Some VNone), (''logs_lag_mode'', Some (VStr ''empty''))],
     class_validate = no_validate\<rparr>"

definition SolanaQuirks :: config_class where
  "SolanaQuirks = \<lparr>class_fields =
     [(''slot_block_gap'', Some (VInt SOLANA_DEFAULT_SLOT_BLOCK_GAP)), (''slot_offset'', Some (VInt 0)),
      (''unknown_method_mode'', Some (VStr ''null''))],
     class_validate = no_validate\<rparr>"

definition sui_text_refused :: "sdict \<Rightarrow> string \<Rightarrow> pyerr option" where
  "sui_text_refused cfg name = (case map_of cfg name of
     Some v \<Rightarrow> if is_str v then None else Some ValueError
   | None \<Rightarrow> None)"

fun lag_ok :: "pyval \<Rightarrow> bool" where
  "lag_ok (VInt i) = (0 \<le> i)"
| "lag_ok _ = False"

definition sui_validate :: "sdict \<Rightarrow> pyerr option" where
  "sui_validate cfg = first_some
     [first_refusal (sui_text_refused cfg) [''chain_id'', ''digest_salt''],
      case map_of cfg ''chain_id'' of
        Some v \<Rightarrow> if truthy v then None else Some ValueError
      | None \<Rightarrow> None,
      case map_of cfg ''transaction_index_lag_ms'' of
        Some v \<Rightarrow> if lag_ok v then None else Some ValueError
      | None \<Rightarrow> None]"

definition sui_fields :: "string \<Rightarrow> (string \<times> pyval option) list" where
  "sui_fields chain_id =
     [(''chain_id'', Some (VStr chain_id)), (''transaction_index_lag_ms'', Some (VInt 0)),
      (''digest_salt'', Some (VStr []))]"

definition SuiQuirks :: config_class where
  "SuiQuirks = \<lparr>class_fields = sui_fields SUI_CHAIN_ID, class_validate = sui_validate\<rparr>"

definition SuiTestnetQuirks :: config_class where
  "SuiTestnetQuirks = \<lparr>class_fields = sui_fields SUI_TESTNET_CHAIN_ID, class_validate = sui_validate\<rparr>"

definition QUIRKS_BY_CHAIN :: "(string, config_class) dict" where
  "QUIRKS_BY_CHAIN =
    [(''eth'', EthQuirks), (''btc'', Quirks_class), (''ln'', Quirks_class),
     (''solana'', SolanaQuirks), (''lava'', Quirks_class), (''sui'', SuiQuirks),
     (''suit'', SuiTestnetQuirks)]"

definition quirks_for :: "string \<Rightarrow> pyerr + config_class" where
  "quirks_for chain = (case map_of QUIRKS_BY_CHAIN chain of
     None \<Rightarrow> Inl ValueError
   | Some cls \<Rightarrow> Inr cls)"

text \<open>\<open>known_chains()\<close>: the chain names in sorted order.\<close>

definition known_chains :: "string list" where
  "known_chains = [''btc'', ''eth'', ''lava'', ''ln'', ''solana'', ''sui'', ''suit'']"

interpretation eth_quirks: declared_fields EthQuirks
  by unfold_locales (simp_all add: EthQuirks_def)

interpretation solana_quirks: declared_fields SolanaQuirks
  by unfold_locales (simp_all add: SolanaQuirks_def)

interpretation sui_quirks: declared_fields SuiQuirks
  by unfold_locales (simp_all add: SuiQuirks_def sui_fields_def)

interpretation suit_quirks: declared_fields SuiTestnetQuirks
  by unfold_locales (simp_all add: SuiTestnetQuirks_def sui_fields_def)

interpretation no_quirks: declared_fields Quirks_class
  by unfold_locales (simp_all add: Quirks_class_def)

lemma known_chains_iff: "chain \<in> set known_chains \<longleftrightarrow> (\<exists>cls. quirks_for chain = Inr cls)"
  by (auto simp: known_chains_def quirks_for_def QUIRKS_BY_CHAIN_def split: if_splits)

lemma quirks_for_declared: "quirks_for chain = Inr cls \<Longrightarrow> declared_fields cls"
  using eth_quirks.declared_fields_axioms solana_quirks.declared_fields_axioms
    sui_quirks.declared_fields_axioms suit_quirks.declared_fields_axioms no_quirks.declared_fields_axioms
  by (auto simp: quirks_for_def QUIRKS_BY_CHAIN_def split: if_splits)

text \<open>A setting of another chain is unknown to the class of this one.\<close>

lemma foreign_field_refused:
  assumes "f \<in> set (dict_keys cfg)" and "f \<notin> set (field_names cls)"
  shows "cfg_check cls cfg = Some ValueError"
proof -
  have "filter (\<lambda>k. k \<notin> set (field_names cls)) (dict_keys cfg) \<noteq> []"
    using assms by (simp add: filter_empty_conv) blast
  then show ?thesis by (simp add: cfg_check_def)
qed

section \<open>Updates and resets of every configuration class\<close>

text \<open>The classes of which the simulator builds objects.\<close>

definition config_classes :: "config_class set" where
  "config_classes = insert ScenarioConfig {cls. \<exists>chain. quirks_for chain = Inr cls}"

lemma config_classes_declared: "cls \<in> config_classes \<Longrightarrow> declared_fields cls"
  using quirks_for_declared scenario.declared_fields_axioms by (auto simp: config_classes_def)

text \<open>
  C10. An update of a scenario or of the quirks of any chain is all or nothing and its check
  decides it: a refused update raises what \<open>check\<close> raises and writes no field; an accepted one
  stamps the time, and then every field reads the written value where the update names it and
  its old value where not.
\<close>

theorem config_update_atomic:
  assumes "cls \<in> config_classes" and "config_ok cls c" and "distinct (dict_keys cfg)"
  shows "case cfg_update cls now cfg c of
      Inl e \<Rightarrow> cfg_check cls cfg = Some e
    | Inr c' \<Rightarrow> cfg_check cls cfg = None \<and> config_ok cls c' \<and> last_write c' = Some now
        \<and> (\<forall>f w. get_or (cfg_snapshot cls c') f w = get_or cfg f (get_or (cfg_snapshot cls c) f w))"
proof -
  from assms(1) have cls: "declared_fields cls" by (rule config_classes_declared)
  show ?thesis
  proof (cases "cfg_update cls now cfg c")
    case (Inl e)
    then have "cfg_check cls cfg = Some e" by (auto simp: cfg_update_def split: option.splits)
    with Inl show ?thesis by simp
  next
    case (Inr c')
    have "cfg_check cls cfg = None" and "last_write c' = Some now"
      using Inr by (auto simp: cfg_update_def split: option.splits)
    moreover have "config_ok cls c'"
      using assms(2) Inr by (rule declared_fields.update_ok [OF cls])
    moreover have "get_or (cfg_snapshot cls c') f w = get_or cfg f (get_or (cfg_snapshot cls c) f w)" for f w
      using declared_fields.update_reads [OF cls assms(2) Inr assms(3)] .
    ultimately show ?thesis using Inr by simp
  qed
qed

theorem config_update_atomic_witness:
  "case cfg_update SuiQuirks 7 [(''digest_salt'', VStr ''x'')] (new_config SuiQuirks) of
      Inl e \<Rightarrow> cfg_check SuiQuirks [(''digest_salt'', VStr ''x'')] = Some e
    | Inr c' \<Rightarrow> cfg_check SuiQuirks [(''digest_salt'', VStr ''x'')] = None \<and> config_ok SuiQuirks c'
        \<and> last_write c' = Some 7
        \<and> (\<forall>f w. get_or (cfg_snapshot SuiQuirks c') f w
             = get_or [(''digest_salt'', VStr ''x'')] f
                 (get_or (cfg_snapshot SuiQuirks (new_config SuiQuirks)) f w))"
proof -
  have "quirks_for ''sui'' = Inr SuiQuirks" by (simp add: quirks_for_def QUIRKS_BY_CHAIN_def)
  then have "SuiQuirks \<in> config_classes" by (auto simp: config_classes_def)
  from config_update_atomic [OF this sui_quirks.new_config_ok, of "[(''digest_salt'', VStr ''x'')]" 7]
  show ?thesis by simp
qed

text \<open>
  A reset of a scenario or of the quirks of any chain never raises and gives the declared
  defaults, whatever sequence of updates, accepted or refused, came before it.
\<close>

theorem config_reset_after_any_run:
  assumes "cls \<in> config_classes"
  shows "let c = update_run (cfg_update cls now) cfgs (new_config cls)
         in snd (cfg_reset cls c) = None
            \<and> cfg_snapshot cls (fst (cfg_reset cls c)) = default_values cls"
proof -
  from assms have cls: "declared_fields cls" by (rule config_classes_declared)
  let ?c = "update_run (cfg_update cls now) cfgs (new_config cls)"
  have ok: "config_ok cls ?c" by (rule declared_fields.run_ok [OF cls])
  then have "cfg_reset cls ?c = (?c\<lparr>field_values := default_values cls\<rparr>, None)"
    by (rule declared_fields.reset_spec [OF cls])
  moreover have "cfg_snapshot cls (?c\<lparr>field_values := default_values cls\<rparr>) = default_values cls"
    using declared_fields.default_keys [OF cls]
    by (subst declared_fields.snapshot_values [OF cls]) (simp_all add: config_ok_def)
  ultimately show ?thesis by simp
qed

theorem config_reset_after_any_run_witness:
  "cfg_snapshot SuiTestnetQuirks (fst (cfg_reset SuiTestnetQuirks
      (update_run (cfg_update SuiTestnetQuirks 1) [[(''chain_id'', VStr ''x'')], [(''chain_id'', VInt 3)]]
        (new_config SuiTestnetQuirks))))
   = [(''chain_id'', VStr SUI_TESTNET_CHAIN_ID), (''transaction_index_lag_ms'', VInt 0),
      (''digest_salt'', VStr [])]"
proof -
  have "quirks_for ''suit'' = Inr SuiTestnetQuirks" by (simp add: quirks_for_def QUIRKS_BY_CHAIN_def)
  then have "SuiTestnetQuirks \<in> config_classes" by (auto simp: config_classes_def)
  from config_reset_after_any_run
    [OF this, of 1 "[[(''chain_id'', VStr ''x'')], [(''chain_id'', VInt 3)]]"]
  show ?thesis
    by (simp add: Let_def default_values_def SuiTestnetQuirks_def sui_fields_def)
qed

end
