(* ===== verification/Doubles.thy ===== *)
theory Doubles
  imports PyValue
begin

text \<open>
  The arithmetic of Python's floats, which are the 64-bit binary floats of IEEE 754.

  \<open>to_double\<close> gives the float of an exact value: the nearest multiple of the unit of its binade, half
  to even, or an infinity from \<open>float_limit\<close> on. A sum or a product is the float of the exact sum
  or product, and an integer beyond the limit has no float. The sign of a zero is not modelled.

  The lemmas show that the rounding keeps the order and that it keeps a number which a float can
  hold.
\<close>

section \<open>Rounding\<close>

text \<open>The first integer that \<open>float\<close> refuses: from the middle between the largest float and \<open>2^1024\<close> on.\<close>

definition float_limit :: int where
  "float_limit = 2 ^ 1024 - 2 ^ 970"

definition round_half_even :: "rat \<Rightarrow> int" where
  "round_half_even r =
     (let f = \<lfloor>r\<rfloor>; d = r - of_int f
      in if d < 1 / 2 then f else if d > 1 / 2 then f + 1 else if even f then f else f + 1)"

text \<open>The smallest positive float is \<open>1 / 2^1074\<close>, and a float has 53 bits.\<close>

definition finest :: nat where
  "finest = 1074"

definition precision :: nat where
  "precision = 53"

text \<open>
  The unit of a number, as a power of two over the smallest float: the first one at which the
  number has at most 53 bits. The largest unit of a float is \<open>2^971\<close>.
\<close>

definition binade :: "rat \<Rightarrow> nat" where
  "binade q = (case find (\<lambda>n. \<bar>q\<bar> * 2 ^ finest < 2 ^ (n + precision)) [0..<2046] of Some n \<Rightarrow> n | None \<Rightarrow> 2045)"

definition rounded :: "rat \<Rightarrow> rat" where
  "rounded q = of_int (round_half_even (q * 2 ^ finest / 2 ^ binade q)) * 2 ^ binade q / 2 ^ finest"

definition to_double :: "rat \<Rightarrow> pyfloat" where
  "to_double q =
     (if of_int float_limit \<le> q then PosInf
      else if q \<le> - of_int float_limit then NegInf
      else Fin (rounded q))"

section \<open>Operations\<close>

text \<open>\<open>float(i)\<close> of an integer, which every operation on an integer and a float begins with.\<close>

definition float_of_int :: "int \<Rightarrow> pyerr + pyfloat" where
  "float_of_int i = (if \<bar>i\<bar> < float_limit then Inr (to_double (of_int i)) else Inl OverflowError)"

fun pf_neg :: "pyfloat \<Rightarrow> pyfloat" where
  "pf_neg (Fin q) = Fin (- q)" | "pf_neg PosInf = NegInf" | "pf_neg NegInf = PosInf" | "pf_neg NaN = NaN"

fun pf_add :: "pyfloat \<Rightarrow> pyfloat \<Rightarrow> pyfloat" where
  "pf_add (Fin a) (Fin b) = to_double (a + b)"
| "pf_add (Fin a) f = f"
| "pf_add f (Fin b) = f"
| "pf_add f g = (if f = g then f else NaN)"

fun pf_mul :: "pyfloat \<Rightarrow> pyfloat \<Rightarrow> pyfloat" where
  "pf_mul (Fin a) (Fin b) = to_double (a * b)"
| "pf_mul f g =
     (if f = NaN \<or> g = NaN \<or> f = Fin 0 \<or> g = Fin 0 then NaN
      else if pf_lt f (Fin 0) = pf_lt g (Fin 0) then PosInf else NegInf)"

section \<open>Rounding keeps the order\<close>

lemma float_limit_bounds: "2 ^ 1022 < float_limit" "0 < float_limit" "float_limit \<le> 2 ^ 1024"
  by (simp_all add: float_limit_def)

lemma half_even_floor: "\<lfloor>r\<rfloor> \<le> round_half_even r" "round_half_even r \<le> \<lfloor>r\<rfloor> + 1"
  by (auto simp: round_half_even_def Let_def)

lemma half_even_of_int [simp]: "round_half_even (of_int i) = i"
  by (simp add: round_half_even_def)

lemma half_even_mono:
  assumes "r \<le> s"
  shows "round_half_even r \<le> round_half_even s"
proof (cases "\<lfloor>r\<rfloor> = \<lfloor>s\<rfloor>")
  case True
  then show ?thesis using assms by (auto simp: round_half_even_def Let_def)
next
  case False
  then have "\<lfloor>r\<rfloor> + 1 \<le> \<lfloor>s\<rfloor>" using floor_mono [OF assms] by simp
  then show ?thesis using half_even_floor(2) [of r] half_even_floor(1) [of s] by linarith
qed

text \<open>The unit is the first that is large enough.\<close>

lemma binade_found:
  assumes "\<bar>q\<bar> < of_int float_limit"
  shows "\<bar>q\<bar> * 2 ^ finest < 2 ^ (binade q + precision)"
    and "m < binade q \<Longrightarrow> 2 ^ (m + precision) \<le> \<bar>q\<bar> * 2 ^ finest"
proof -
  have "\<bar>q\<bar> < 2 ^ 1024" using assms float_limit_bounds(3) by (metis of_int_le_iff of_int_numeral of_int_power order_less_le_trans)
  then have "\<bar>q\<bar> * 2 ^ finest < 2 ^ 1024 * 2 ^ finest" by (intro mult_strict_right_mono) auto
  then have top: "\<bar>q\<bar> * 2 ^ finest < 2 ^ (2045 + precision)" by (simp add: finest_def precision_def flip: power_add)
  obtain n where n: "find (\<lambda>n. \<bar>q\<bar> * 2 ^ finest < 2 ^ (n + precision)) [0..<2046] = Some n"
    using top by (cases "find (\<lambda>n. \<bar>q\<bar> * 2 ^ finest < 2 ^ (n + precision)) [0..<2046]") (auto simp: find_None_iff)
  then have "binade q = n" by (simp add: binade_def)
  with n show "\<bar>q\<bar> * 2 ^ finest < 2 ^ (binade q + precision)"
    and "m < binade q \<Longrightarrow> 2 ^ (m + precision) \<le> \<bar>q\<bar> * 2 ^ finest"
    by (auto simp: find_Some_iff not_less)
qed

lemma binade_le:
  assumes "\<bar>q\<bar> < of_int float_limit" and "\<bar>q\<bar> * 2 ^ finest < 2 ^ (n + precision)"
  shows "binade q \<le> n"
  using binade_found(2) [OF assms(1), of n] assms(2) by (meson not_le)

lemma rounded_mono:
  assumes "0 \<le> q" and "q \<le> r" and "r < of_int float_limit"
  shows "rounded q \<le> rounded r"
proof -
  let ?x = "q * 2 ^ finest" and ?y = "r * 2 ^ finest" and ?g = "binade q" and ?h = "binade r"
  have xy: "?x \<le> ?y" using assms by (intro mult_right_mono) auto
  have q: "?x < 2 ^ (?g + precision)" using binade_found(1) [of q] assms by simp
  have r: "?y < 2 ^ (?h + precision)" "\<And>m. m < ?h \<Longrightarrow> 2 ^ (m + precision) \<le> ?y"
    using binade_found [of r] assms by simp_all
  have gh: "?g \<le> ?h" using binade_le [of q ?h] assms xy r(1) by simp
  have "of_int (round_half_even (?x / 2 ^ ?g)) * 2 ^ ?g \<le> (of_int (round_half_even (?y / 2 ^ ?h)) * 2 ^ ?h :: rat)"
  proof (cases "?g = ?h")
    case True
    then show ?thesis using half_even_mono [of "?x / 2 ^ ?h" "?y / 2 ^ ?h"] xy by (simp add: divide_right_mono)
  next
    case False
    then obtain k where k: "?h = Suc k" "?g \<le> k" using gh by (cases ?h) auto
    have "?x / 2 ^ ?g \<le> of_int (2 ^ precision)" using q by (simp add: field_simps power_add)
    then have low: "round_half_even (?x / 2 ^ ?g) \<le> 2 ^ precision" by (metis half_even_mono half_even_of_int)
    have "(2 :: rat) ^ (k + precision) = 2 ^ (precision - 1) * 2 ^ ?h" by (simp add: k precision_def power_add)
    then have "2 ^ (precision - 1) * 2 ^ ?h \<le> ?y" using r(2) [of k] k(1) by simp
    then have "of_int (2 ^ (precision - 1)) \<le> ?y / 2 ^ ?h" by (simp add: pos_le_divide_eq)
    then have "2 ^ (precision - 1) \<le> round_half_even (?y / 2 ^ ?h)" by (metis half_even_mono half_even_of_int)
    then have "of_int (2 ^ (precision - 1)) \<le> (of_int (round_half_even (?y / 2 ^ ?h)) :: rat)" by (simp only: of_int_le_iff)
    then have high: "2 ^ (precision - 1) * 2 ^ ?h \<le> (of_int (round_half_even (?y / 2 ^ ?h)) * 2 ^ ?h :: rat)"
      by (intro mult_right_mono) simp_all
    from low have "of_int (round_half_even (?x / 2 ^ ?g)) \<le> (of_int (2 ^ precision) :: rat)" by (simp only: of_int_le_iff)
    then have "of_int (round_half_even (?x / 2 ^ ?g)) * 2 ^ ?g \<le> (2 ^ precision * 2 ^ k :: rat)"
      using k(2) by (intro mult_mono) simp_all
    also have "\<dots> = 2 ^ (precision - 1) * 2 ^ ?h" by (simp add: k precision_def)
    also note high
    finally show ?thesis .
  qed
  then show ?thesis by (simp add: rounded_def divide_right_mono)
qed

text \<open>A number of at most 52 bits above the smallest float is a float.\<close>

lemma rounded_dyadic:
  assumes "\<bar>i\<bar> < 2 ^ precision" and "j \<le> finest"
  shows "rounded (of_int i / 2 ^ j) = of_int i / 2 ^ j"
proof -
  let ?q = "of_int i / 2 ^ j :: rat" and ?k = "finest - j"
  have pow: "(2 :: rat) ^ finest = 2 ^ ?k * 2 ^ j" using assms(2) by (simp flip: power_add)
  have i: "\<bar>of_int i\<bar> < (2 ^ precision :: rat)" using assms(1) by (metis of_int_abs of_int_less_iff of_int_numeral of_int_power)
  have "\<bar>of_int i\<bar> * 1 \<le> \<bar>of_int i\<bar> * (2 ^ j :: rat)" by (intro mult_left_mono) auto
  then have "\<bar>?q\<bar> \<le> \<bar>of_int i\<bar>" by (simp add: pos_divide_le_eq abs_divide)
  moreover have "(2 ^ precision :: int) \<le> float_limit" using float_limit_bounds(1) by (simp add: precision_def)
  then have "(2 ^ precision :: rat) \<le> of_int float_limit" by (metis of_int_le_iff of_int_numeral of_int_power)
  ultimately have small: "\<bar>?q\<bar> < of_int float_limit" using i by linarith
  have "\<bar>?q\<bar> * 2 ^ finest = \<bar>of_int i\<bar> * 2 ^ ?k" by (simp add: pow)
  also have "\<dots> < 2 ^ precision * 2 ^ ?k" using i by (intro mult_strict_right_mono) auto
  finally have "binade ?q \<le> ?k" using binade_le [OF small, of ?k] by (simp add: power_add mult.commute)
  then obtain m where m: "?k = binade ?q + m" by (metis le_Suc_ex)
  have "?q * 2 ^ finest / 2 ^ binade ?q = of_int (i * 2 ^ m)" by (simp add: pow m power_add)
  then have "rounded ?q = of_int (i * 2 ^ m) * 2 ^ binade ?q / 2 ^ finest"
    unfolding rounded_def by (metis half_even_of_int)
  then show ?thesis by (simp add: pow m power_add)
qed

lemma rounded_int: "\<bar>i\<bar> < 2 ^ precision \<Longrightarrow> rounded (of_int i) = of_int i"
  using rounded_dyadic [of i 0] by simp

lemma rounded_0 [simp]: "rounded 0 = 0"
  using rounded_int [of 0] by simp

lemma rounded_nonneg: "0 \<le> q \<Longrightarrow> q < of_int float_limit \<Longrightarrow> 0 \<le> rounded q"
  using rounded_mono [of 0 q] by simp

lemma to_double_0 [simp]: "to_double 0 = Fin 0"
  using float_limit_bounds(2) by (simp add: to_double_def)

lemma to_double_int:
  assumes "\<bar>i\<bar> < 2 ^ precision"
  shows "to_double (of_int i) = Fin (of_int i)"
proof -
  have "(2 ^ precision :: int) \<le> float_limit" using float_limit_bounds(1) by (simp add: precision_def)
  then have "\<bar>i\<bar> < float_limit" using assms by simp
  then have "\<not> of_int float_limit \<le> (of_int i :: rat)" "\<not> of_int i \<le> (- of_int float_limit :: rat)"
    by (auto simp flip: of_int_minus)
  then show ?thesis by (simp add: to_double_def rounded_int [OF assms])
qed

text \<open>Of a number that is not negative the float is not negative either, and a larger number has no smaller float.\<close>

lemma to_double_nonneg:
  assumes "0 \<le> q"
  shows "to_double q = (if of_int float_limit \<le> q then PosInf else Fin (rounded q))"
  using assms float_limit_bounds(2) by (auto simp: to_double_def)

lemma to_double_mono: "0 \<le> q \<Longrightarrow> q \<le> r \<Longrightarrow> pf_le (to_double q) (to_double r)"
  using rounded_mono [of q r] by (auto simp: to_double_nonneg)

lemma to_double_le_Fin: "0 \<le> q \<Longrightarrow> q \<le> r \<Longrightarrow> to_double r = Fin s \<Longrightarrow> \<exists>p. to_double q = Fin p \<and> 0 \<le> p \<and> p \<le> s"
  using rounded_mono [of q r] rounded_nonneg [of q] by (auto simp: to_double_nonneg split: if_splits)

end
