(* ===== verification/Json.thy ===== *)
theory Json
  imports Doubles
begin

text \<open>
  \<open>json.dumps\<close> and \<open>json.loads\<close> of the Python standard library, as the simulator uses them.

  \<open>json_dumps\<close> takes the two separators, and as a parameter the text of a float (the shortest
  decimal that reads back as the same binary float). \<open>json_loads\<close> reads one JSON value with
  white space around it. Its bounds: a text holds code points below 256, so an escape above
  \<open>\u00ff\<close> is refused, and a float is the one nearest to the decimal. The fuel of the reader
  is the length of its text plus one, and every call spends one unit per character at most:
  \<open>json_roundtrip\<close> shows that it is enough for everything that \<open>json_dumps\<close> writes.
\<close>

section \<open>Writing\<close>

definition hex_digit :: "nat \<Rightarrow> char" where
  "hex_digit d = (if d < 10 then char_of (48 + d) else char_of (87 + d))"

definition json_char :: "char \<Rightarrow> string" where
  "json_char c =
     (if c = CHR 0x22 then [CHR 0x5C, CHR 0x22]
      else if c = CHR 0x5C then [CHR 0x5C, CHR 0x5C]
      else if c = CHR 0x0A then [CHR 0x5C, CHR ''n'']
      else if c = CHR 0x0D then [CHR 0x5C, CHR ''r'']
      else if c = CHR 0x09 then [CHR 0x5C, CHR ''t'']
      else if c = CHR 0x0C then [CHR 0x5C, CHR ''f'']
      else if c = CHR 0x08 then [CHR 0x5C, CHR ''b'']
      else if 32 \<le> code_of c \<and> code_of c \<le> 126 then [c]
      else [CHR 0x5C, CHR ''u'', CHR ''0'', CHR ''0'',
            hex_digit (code_of c div 16), hex_digit (code_of c mod 16)])"

definition json_str :: "string \<Rightarrow> string" where
  "json_str s = CHR 0x22 # concat (map json_char s) @ [CHR 0x22]"

fun collect_r :: "('e + 'a) list \<Rightarrow> 'e + 'a list" where
  "collect_r [] = Inr []"
| "collect_r (r # rs) = bind_r r (\<lambda>a. bind_r (collect_r rs) (\<lambda>as. Inr (a # as)))"

fun json_key :: "(pyfloat \<Rightarrow> string) \<Rightarrow> pyval \<Rightarrow> pyerr + string" where
  "json_key fl (VStr s) = Inr (json_str s)"
| "json_key fl VNone = Inr (json_str ''null'')"
| "json_key fl (VBool b) = Inr (json_str (if b then ''true'' else ''false''))"
| "json_key fl (VInt i) = Inr (json_str (int_text i))"
| "json_key fl (VFloat f) = Inr (json_str (fl f))"
| "json_key fl _ = Inl TypeError"

lemma size_mem: "x \<in> set xs \<Longrightarrow> size x < Suc (size_list size xs)"
  using size_list_estimation' [of x xs "size x" size] by auto

function json_dumps :: "string \<times> string \<Rightarrow> (pyfloat \<Rightarrow> string) \<Rightarrow> pyval \<Rightarrow> pyerr + string" where
  "json_dumps sep fl VNone = Inr ''null''"
| "json_dumps sep fl (VBool b) = Inr (if b then ''true'' else ''false'')"
| "json_dumps sep fl (VInt i) = Inr (int_text i)"
| "json_dumps sep fl (VFloat f) = Inr (fl f)"
| "json_dumps sep fl (VStr s) = Inr (json_str s)"
| "json_dumps sep fl (VBytes s) = Inl TypeError"
| "json_dumps sep fl (VList xs) =
     bind_r (collect_r (map (json_dumps sep fl) xs)) (\<lambda>ts. Inr (''['' @ join_with (fst sep) ts @ '']''))"
| "json_dumps sep fl (VTuple xs) =
     bind_r (collect_r (map (json_dumps sep fl) xs)) (\<lambda>ts. Inr (''['' @ join_with (fst sep) ts @ '']''))"
| "json_dumps sep fl (VDict kvs) =
     bind_r (collect_r (map (\<lambda>kv. bind_r (json_key fl (fst kv)) (\<lambda>kt.
               bind_r (json_dumps sep fl (snd kv)) (\<lambda>vt. Inr (kt @ snd sep @ vt)))) kvs))
       (\<lambda>ts. Inr (''{'' @ join_with (fst sep) ts @ ''}''))"
  by pat_completeness auto

termination
  by (relation "measure (\<lambda>(sep, fl, v). size v)") (auto simp: size_mem size_pair_mem)

text \<open>The default separators, and those of \<open>separators=(",", ":")\<close>.\<close>

definition default_separators :: "string \<times> string" where
  "default_separators = ('', '', '': '')"

definition compact_separators :: "string \<times> string" where
  "compact_separators = ('','', '':'')"

section \<open>Reading\<close>

definition is_json_space :: "char \<Rightarrow> bool" where
  "is_json_space c \<longleftrightarrow> c \<in> {CHR '' '', CHR 0x09, CHR 0x0A, CHR 0x0D}"

abbreviation skip_ws :: "string \<Rightarrow> string" where
  "skip_ws \<equiv> dropWhile is_json_space"

fun hex_val :: "char \<Rightarrow> nat option" where
  "hex_val c =
     (if 48 \<le> code_of c \<and> code_of c \<le> 57 then Some (code_of c - 48)
      else if 97 \<le> code_of c \<and> code_of c \<le> 102 then Some (code_of c - 87)
      else if 65 \<le> code_of c \<and> code_of c \<le> 70 then Some (code_of c - 55)
      else None)"

fun hex4 :: "char \<Rightarrow> char \<Rightarrow> char \<Rightarrow> char \<Rightarrow> nat option" where
  "hex4 a b c d = (case (hex_val a, hex_val b, hex_val c, hex_val d) of
     (Some a', Some b', Some c', Some d') \<Rightarrow> Some (((a' * 16 + b') * 16 + c') * 16 + d')
   | _ \<Rightarrow> None)"

fun simple_escape :: "char \<Rightarrow> char option" where
  "simple_escape c =
     (if c = CHR 0x22 then Some (CHR 0x22)
      else if c = CHR 0x5C then Some (CHR 0x5C)
      else if c = CHR ''/'' then Some (CHR ''/'')
      else if c = CHR ''b'' then Some (CHR 0x08)
      else if c = CHR ''f'' then Some (CHR 0x0C)
      else if c = CHR ''n'' then Some (CHR 0x0A)
      else if c = CHR ''r'' then Some (CHR 0x0D)
      else if c = CHR ''t'' then Some (CHR 0x09)
      else None)"

text \<open>The text after an opening quote: the string and what follows its closing quote.\<close>

function parse_str :: "string \<Rightarrow> (string \<times> string) option" where
  "parse_str s = (case s of
     [] \<Rightarrow> None
   | c # cs \<Rightarrow>
       if c = CHR 0x22 then Some ([], cs)
       else if c = CHR 0x5C then
         (case cs of
            [] \<Rightarrow> None
          | e # es \<Rightarrow>
              if e = CHR ''u'' then
                (case es of
                   h1 # h2 # h3 # h4 # rest \<Rightarrow>
                     (case hex4 h1 h2 h3 h4 of
                        None \<Rightarrow> None
                      | Some n \<Rightarrow>
                          if n < 256
                          then map_option (\<lambda>(t, r). (char_of n # t, r)) (parse_str rest)
                          else None)
                 | _ \<Rightarrow> None)
              else (case simple_escape e of
                      None \<Rightarrow> None
                    | Some x \<Rightarrow> map_option (\<lambda>(t, r). (x # t, r)) (parse_str es)))
       else if code_of c < 32 then None
       else map_option (\<lambda>(t, r). (c # t, r)) (parse_str cs))"
  by pat_completeness auto

termination by (relation "measure length") auto

declare parse_str.simps [simp del]

text \<open>\<open>(-?(?:0|[1-9]\d*))(\.\d+)?([eE][-+]?\d+)?\<close>: an integer, or a float.\<close>

definition parse_sign :: "string \<Rightarrow> bool \<times> string" where
  "parse_sign s = (case s of c # cs \<Rightarrow> if c = CHR ''-'' then (True, cs) else (False, s) | [] \<Rightarrow> (False, s))"

definition parse_frac :: "string \<Rightarrow> string \<times> string" where
  "parse_frac s = (case s of
     c # cs \<Rightarrow>
       if c = CHR ''.'' \<and> takeWhile is_digit cs \<noteq> []
       then (takeWhile is_digit cs, dropWhile is_digit cs) else ([], s)
   | [] \<Rightarrow> ([], s))"

definition parse_exp :: "string \<Rightarrow> int option \<times> string" where
  "parse_exp s = (case s of
     c # cs \<Rightarrow>
       if c = CHR ''e'' \<or> c = CHR ''E'' then
         (let neg = (case cs of d # _ \<Rightarrow> d = CHR ''-'' | [] \<Rightarrow> False);
              ds = (case cs of d # ds \<Rightarrow> if d = CHR ''-'' \<or> d = CHR ''+'' then ds else cs | [] \<Rightarrow> cs);
              n = int (digits_value (takeWhile is_digit ds))
          in if takeWhile is_digit ds \<noteq> []
             then (Some (if neg then - n else n), dropWhile is_digit ds) else (None, s))
       else (None, s)
   | [] \<Rightarrow> (None, s))"

definition scale10 :: "rat \<Rightarrow> int \<Rightarrow> rat" where
  "scale10 r e = (if 0 \<le> e then r * 10 ^ nat e else r / 10 ^ nat (- e))"

definition parse_number :: "string \<Rightarrow> (pyval \<times> string) option" where
  "parse_number s =
     (let (neg, s1) = parse_sign s;
          all = takeWhile is_digit s1;
          ip = (case all of c # _ \<Rightarrow> if c = CHR ''0'' then [c] else all | [] \<Rightarrow> [])
      in if ip = [] then None
         else
           let (fp, s3) = parse_frac (drop (length ip) s1);
               (ex, s4) = parse_exp s3
           in if fp = [] \<and> ex = None
              then (if length ip \<le> max_int_digits
                    then Some (VInt (if neg then - int (digits_value ip) else int (digits_value ip)), s4)
                    else None)
              else
                let m = of_nat (digits_value (ip @ fp)) :: rat;
                    e = (case ex of None \<Rightarrow> 0 | Some x \<Rightarrow> x) - int (length fp);
                    r = scale10 m e
                in Some (VFloat (to_double (if neg then - r else r)), s4))"

definition parse_literal :: "string \<Rightarrow> (pyval \<times> string) option" where
  "parse_literal s =
     (if starts_with ''null'' s then Some (VNone, drop 4 s)
      else if starts_with ''true'' s then Some (VBool True, drop 4 s)
      else if starts_with ''false'' s then Some (VBool False, drop 5 s)
      else if starts_with ''NaN'' s then Some (VFloat NaN, drop 3 s)
      else if starts_with ''Infinity'' s then Some (VFloat PosInf, drop 8 s)
      else if starts_with ''-Infinity'' s then Some (VFloat NegInf, drop 9 s)
      else parse_number s)"

fun parse_value :: "nat \<Rightarrow> string \<Rightarrow> (pyval \<times> string) option"
  and parse_items :: "nat \<Rightarrow> string \<Rightarrow> (pyval list \<times> string) option"
  and parse_members :: "nat \<Rightarrow> string \<Rightarrow> ((pyval \<times> pyval) list \<times> string) option"
where
  "parse_value 0 s = None"
| "parse_value (Suc n) s = (case s of
     [] \<Rightarrow> None
   | c # cs \<Rightarrow>
       if c = CHR 0x22 then map_option (\<lambda>(t, r). (VStr t, r)) (parse_str cs)
       else if c = CHR ''['' then
         (case skip_ws cs of
            [] \<Rightarrow> None
          | d # ds \<Rightarrow>
              if d = CHR '']'' then Some (VList [], ds)
              else map_option (\<lambda>(xs, r). (VList xs, r)) (parse_items n (d # ds)))
       else if c = CHR ''{'' then
         (case skip_ws cs of
            [] \<Rightarrow> None
          | d # ds \<Rightarrow>
              if d = CHR ''}'' then Some (VDict [], ds)
              else map_option (\<lambda>(kvs, r). (VDict (foldl (\<lambda>acc (k, v). pd_put k v acc) [] kvs), r))
                     (parse_members n (d # ds)))
       else parse_literal s)"
| "parse_items 0 s = None"
| "parse_items (Suc n) s = (case parse_value n s of
     None \<Rightarrow> None
   | Some (v, r) \<Rightarrow>
       (case skip_ws r of
          [] \<Rightarrow> None
        | d # ds \<Rightarrow>
            if d = CHR '']'' then Some ([v], ds)
            else if d = CHR '','' then
              map_option (\<lambda>(vs, r'). (v # vs, r')) (parse_items n (skip_ws ds))
            else None))"
| "parse_members 0 s = None"
| "parse_members (Suc n) s = (case s of
     [] \<Rightarrow> None
   | q # qs \<Rightarrow>
       if q \<noteq> CHR 0x22 then None
       else (case parse_str qs of
          None \<Rightarrow> None
        | Some (k, r) \<Rightarrow>
            (case skip_ws r of
               [] \<Rightarrow> None
             | d # ds \<Rightarrow>
                 if d \<noteq> CHR '':'' then None
                 else (case parse_value n (skip_ws ds) of
                    None \<Rightarrow> None
                  | Some (v, r') \<Rightarrow>
                      (case skip_ws r' of
                         [] \<Rightarrow> None
                       | e # es \<Rightarrow>
                           if e = CHR ''}'' then Some ([(VStr k, v)], es)
                           else if e = CHR '','' then
                             map_option (\<lambda>(kvs, r''). ((VStr k, v) # kvs, r''))
                               (parse_members n (skip_ws es))
                           else None)))))"

definition json_loads :: "string \<Rightarrow> pyval option" where
  "json_loads s = (case parse_value (Suc (length s)) (skip_ws s) of
     None \<Rightarrow> None
   | Some (v, r) \<Rightarrow> if skip_ws r = [] then Some v else None)"

text \<open>
  \<open>json.loads\<close> of bytes decodes them as UTF-8 first. A byte sequence that is not UTF-8, or
  that holds a code point above the bound of the model's text, gives no text.
\<close>

fun utf8_text :: "string \<Rightarrow> string option" where
  "utf8_text [] = Some []"
| "utf8_text (c # cs) =
     (if code_of c < 128 then map_option ((#) c) (utf8_text cs)
      else if code_of c = 194 \<or> code_of c = 195 then
        (case cs of
           [] \<Rightarrow> None
         | d # ds \<Rightarrow>
             if 128 \<le> code_of d \<and> code_of d < 192
             then map_option ((#) (char_of ((code_of c - 192) * 64 + (code_of d - 128)))) (utf8_text ds)
             else None)
      else None)"

definition json_loads_bytes :: "string \<Rightarrow> pyval option" where
  "json_loads_bytes b = Option.bind (utf8_text b) json_loads"

section \<open>What is written reads back\<close>

lemma hex_val_digit: "d < 16 \<Longrightarrow> hex_val (hex_digit d) = Some d"
  by (auto simp: hex_digit_def)

lemma hex4_low:
  assumes "n < 256"
  shows "hex4 (CHR ''0'') (CHR ''0'') (hex_digit (n div 16)) (hex_digit (n mod 16)) = Some n"
proof -
  have "n div 16 < 16" and "n mod 16 < 16" using assms by auto
  then show ?thesis by (simp add: hex_val_digit del: hex_val.simps) (simp)
qed

lemma json_char_cases:
  obtains (special) e where "json_char c = [CHR 0x5C, e]" and "simple_escape e = Some c" and "e \<noteq> CHR ''u''"
  | (plain) "json_char c = [c]" and "c \<noteq> CHR 0x22" and "c \<noteq> CHR 0x5C" and "\<not> code_of c < 32"
  | (hex) "json_char c = [CHR 0x5C, CHR ''u'', CHR ''0'', CHR ''0'',
            hex_digit (code_of c div 16), hex_digit (code_of c mod 16)]"
proof (cases "c \<in> {CHR 0x22, CHR 0x5C, CHR 0x0A, CHR 0x0D, CHR 0x09, CHR 0x0C, CHR 0x08}")
  case True
  then have "\<exists>e. json_char c = [CHR 0x5C, e] \<and> simple_escape e = Some c \<and> e \<noteq> CHR ''u''"
    by (elim insertE emptyE) (simp_all add: json_char_def)
  then show thesis using special by blast
next
  case False
  then have ne: "c \<noteq> CHR 0x22" "c \<noteq> CHR 0x5C" "c \<noteq> CHR 0x0A" "c \<noteq> CHR 0x0D" "c \<noteq> CHR 0x09"
    "c \<noteq> CHR 0x0C" "c \<noteq> CHR 0x08" by simp_all
  show thesis
  proof (cases "32 \<le> code_of c \<and> code_of c \<le> 126")
    case True
    with ne have "json_char c = [c]" by (simp add: json_char_def)
    with True ne plain show thesis by simp
  next
    case False
    with ne have "json_char c = [CHR 0x5C, CHR ''u'', CHR ''0'', CHR ''0'',
            hex_digit (code_of c div 16), hex_digit (code_of c mod 16)]"
      by (simp only: json_char_def if_False if_True)
    then show thesis by (rule hex)
  qed
qed

lemma parse_str_json_char:
  "parse_str (json_char c @ cs) = map_option (\<lambda>(t, r). (c # t, r)) (parse_str cs)"
proof (cases c rule: json_char_cases)
  case (special e)
  then show ?thesis by (simp add: parse_str.simps [of "CHR 0x5C # e # cs"] del: simple_escape.simps)
next
  case plain
  then show ?thesis by (simp add: parse_str.simps [of "c # cs"])
next
  case hex
  have "hex4 (CHR ''0'') (CHR ''0'') (hex_digit (code_of c div 16)) (hex_digit (code_of c mod 16))
      = Some (code_of c)" by (rule hex4_low) simp
  with hex show ?thesis
    by (simp add: parse_str.simps [of "CHR 0x5C # CHR ''u'' # _"] del: hex4.simps)
qed

lemma parse_str_json_chars:
  "parse_str (concat (map json_char s) @ CHR 0x22 # rest) = Some (s, rest)"
proof (induction s)
  case Nil
  show ?case by (subst parse_str.simps) simp
next
  case (Cons c s)
  then show ?case by (simp add: parse_str_json_char)
qed

lemma nat_text_0: "nat_text 0 = ''0''"
  by code_simp

lemma hd_nat_text_pos: "0 < n \<Longrightarrow> hd (nat_text n) \<noteq> CHR ''0''"
proof (induction n rule: nat_text.induct)
  case (1 n)
  show ?case
  proof (cases "n < 10")
    case True
    have "code_of (hd (nat_text n)) = 48 + n"
      using True by (simp add: nat_text.simps [of n])
    with "1.prems" show ?thesis by auto
  next
    case False
    with 1 show ?thesis by (simp add: nat_text.simps [of n] hd_append)
  qed
qed

definition value_end :: "string \<Rightarrow> bool" where
  "value_end s \<longleftrightarrow> (case s of [] \<Rightarrow> True
     | c # _ \<Rightarrow> \<not> is_digit c \<and> c \<noteq> CHR ''.'' \<and> c \<noteq> CHR ''e'' \<and> c \<noteq> CHR ''E'')"

lemma takeWhile_nat_text:
  assumes "value_end rest"
  shows "takeWhile is_digit (nat_text n @ rest) = nat_text n"
proof -
  have "takeWhile is_digit rest = []"
    using assms by (cases rest) (auto simp: value_end_def)
  then show ?thesis
    using nat_text_digits by (subst takeWhile_append2) auto
qed

lemma parse_tail:
  assumes "value_end rest"
  shows "parse_frac rest = ([], rest)" "parse_exp rest = (None, rest)"
  using assms by (cases rest; simp add: parse_frac_def parse_exp_def value_end_def)+

lemma nat_text_lead:
  "(case nat_text n of c # _ \<Rightarrow> if c = CHR ''0'' then [c] else nat_text n | [] \<Rightarrow> []) = nat_text n"
proof (cases "n = 0")
  case True
  then show ?thesis by (simp add: nat_text_0)
next
  case False
  then have "hd (nat_text n) \<noteq> CHR ''0''" by (simp add: hd_nat_text_pos)
  then show ?thesis by (cases "nat_text n") auto
qed

lemma parse_number_int_text:
  assumes "value_end rest" and "length (nat_text (nat \<bar>i\<bar>)) \<le> max_int_digits"
  shows "parse_number (int_text i @ rest) = Some (VInt i, rest)"
proof -
  let ?n = "nat \<bar>i\<bar>"
  have sign: "parse_sign (int_text i @ rest) = (i < 0, nat_text ?n @ rest)"
  proof (cases "i < 0")
    case True then show ?thesis by (simp add: int_text_def parse_sign_def)
  next
    case False
    have "is_digit (hd (nat_text ?n))" using nat_text_digits [of "hd (nat_text ?n)" ?n] by simp
    then have "hd (nat_text ?n) \<noteq> CHR ''-''" by (auto simp: is_digit_def)
    with False show ?thesis
      by (cases "nat_text ?n") (auto simp: int_text_def parse_sign_def dest: arg_cong [where f = length])
  qed
  show ?thesis
    unfolding parse_number_def sign
    using assms by (simp add: takeWhile_nat_text nat_text_lead parse_tail) (simp add: Let_def)
qed

lemma parse_literal_int_text:
  assumes "value_end rest" and "length (nat_text (nat \<bar>i\<bar>)) \<le> max_int_digits"
  shows "parse_literal (int_text i @ rest) = Some (VInt i, rest)"
proof -
  obtain d ds where d: "nat_text (nat \<bar>i\<bar>) = d # ds" "is_digit d"
    by (metis list.set_intros(1) nat_text_digits nat_text_nonempty neq_Nil_conv)
  have "d \<noteq> CHR ''n''" "d \<noteq> CHR ''t''" "d \<noteq> CHR ''f''" "d \<noteq> CHR ''N''" "d \<noteq> CHR ''I''" "d \<noteq> CHR ''-''"
    using d(2) by (auto simp: is_digit_def)
  then have "parse_literal (int_text i @ rest) = parse_number (int_text i @ rest)"
    using d(1) by (cases "i < 0") (simp_all add: int_text_def parse_literal_def starts_with_def)
  with parse_number_int_text [OF assms] show ?thesis by simp
qed


fun plain_json :: "pyval \<Rightarrow> bool" where
  "plain_json VNone = True"
| "plain_json (VBool b) = True"
| "plain_json (VInt i) = (length (nat_text (nat \<bar>i\<bar>)) \<le> max_int_digits)"
| "plain_json (VStr s) = True"
| "plain_json (VList xs) = list_all plain_json xs"
| "plain_json (VDict kvs) =
     (distinct (map fst kvs) \<and> list_all (\<lambda>p. is_str (fst p) \<and> plain_json (snd p)) kvs)"
| "plain_json _ = False"

definition json_sep :: "string \<times> string \<Rightarrow> bool" where
  "json_sep sep \<longleftrightarrow> sep = default_separators \<or> sep = compact_separators"

lemma json_sep_skip:
  assumes "json_sep sep"
  shows "\<exists>ws1 ws2. fst sep = CHR '','' # ws1 \<and> snd sep = CHR '':'' # ws2
    \<and> (\<forall>t. skip_ws (ws1 @ t) = skip_ws t) \<and> (\<forall>t. skip_ws (ws2 @ t) = skip_ws t)"
  using assms
  by (auto simp: json_sep_def default_separators_def compact_separators_def is_json_space_def)

lemma collect_r_Inr: "collect_r rs = Inr as \<longleftrightarrow> rs = map Inr as"
proof (induction rs arbitrary: as)
  case (Cons r rs)
  show ?case by (cases as) (auto simp: bind_r_Inr_iff Cons)
qed auto

lemma collect_r_total:
  "\<forall>x \<in> set xs. f x = Inr (g x) \<Longrightarrow> collect_r (map f xs) = Inr (map g xs)"
  by (induction xs) auto

lemma json_head:
  assumes "json_dumps sep fl v = Inr t" and "plain_json v"
  shows "\<exists>c cs. t = c # cs \<and> \<not> is_json_space c \<and> c \<noteq> CHR '']'' \<and> c \<noteq> CHR ''}''"
proof (cases v)
  case (VInt i)
  have "is_digit c \<Longrightarrow> \<not> is_json_space c \<and> c \<noteq> CHR '']'' \<and> c \<noteq> CHR ''}''" for c
    by (auto simp: is_digit_def is_json_space_def)
  moreover have "is_digit (hd (nat_text n))" for n
    using nat_text_digits [of "hd (nat_text n)" n] by simp
  moreover have "\<not> is_json_space (CHR ''-'')" by (simp add: is_json_space_def)
  ultimately show ?thesis
    using assms VInt
    by (cases "nat_text (nat \<bar>i\<bar>)") (force simp: int_text_def dest: arg_cong [where f = hd])+
qed (use assms in \<open>auto simp: json_str_def is_json_space_def bind_r_Inr_iff\<close>)


declare parse_value.simps [simp del] parse_items.simps [simp del] parse_members.simps [simp del]

definition reads_back :: "string \<times> string \<Rightarrow> (pyfloat \<Rightarrow> string) \<Rightarrow> pyval \<Rightarrow> bool" where
  "reads_back sep fl v \<longleftrightarrow> (\<forall>t n rest. json_dumps sep fl v = Inr t \<longrightarrow> length t < n \<longrightarrow>
     value_end rest \<longrightarrow> parse_value n (t @ rest) = Some (v, rest))"

lemma reads_backD:
  "reads_back sep fl v \<Longrightarrow> json_dumps sep fl v = Inr t \<Longrightarrow> length t < n \<Longrightarrow> value_end rest \<Longrightarrow>
   parse_value n (t @ rest) = Some (v, rest)"
  by (auto simp: reads_back_def)

lemma skip_ws_Cons: "\<not> is_json_space c \<Longrightarrow> skip_ws (c # cs) = c # cs"
  by simp

lemma not_space [simp]:
  "\<not> is_json_space (CHR '','')" "\<not> is_json_space (CHR '']'')" "\<not> is_json_space (CHR ''}'')"
  "\<not> is_json_space (CHR '':'')" "\<not> is_json_space (CHR 0x22)" 
  by (simp_all add: is_json_space_def)

lemma value_end_punct [simp]:
  "value_end (CHR '','' # s)" "value_end (CHR '']'' # s)" "value_end (CHR ''}'' # s)" "value_end []"
  by (simp_all add: value_end_def is_digit_def)

lemma parse_items_join:
  assumes sep: "json_sep sep"
    and "xs \<noteq> []" and "map (json_dumps sep fl) xs = map Inr ts"
    and "\<forall>x \<in> set xs. reads_back sep fl x \<and> plain_json x"
    and "Suc (length (join_with (fst sep) ts)) < n"
  shows "parse_items n (join_with (fst sep) ts @ CHR '']'' # rest) = Some (xs, rest)"
  using assms(2-)
proof (induction xs arbitrary: ts n)
  case (Cons x xs)
  obtain ws wk where sp: "fst sep = CHR '','' # ws" "snd sep = CHR '':'' # wk"
    "\<forall>t. skip_ws (ws @ t) = skip_ws t" "\<forall>t. skip_ws (wk @ t) = skip_ws t"
    using json_sep_skip [OF sep] by auto
  note ws = sp(1,3)
  from Cons.prems obtain t us where ts: "ts = t # us" "json_dumps sep fl x = Inr t"
    "map (json_dumps sep fl) xs = map Inr us" by (cases ts) auto
  from Cons.prems obtain m where n: "n = Suc m" by (cases n) auto
  show ?case
  proof (cases xs)
    case Nil
    with ts have "us = []" by simp
    with Cons.prems ts n Nil show ?thesis
      by (simp add: parse_items.simps reads_backD [of sep fl x t m])
  next
    case (Cons y ys)
    with ts obtain u vs where us: "us = u # vs" "json_dumps sep fl y = Inr u" by (cases us) auto
    then obtain c cs where u: "u = c # cs" "\<not> is_json_space c"
      using json_head Cons.prems(3) Cons by (metis list.set_intros)
    have "join_with (fst sep) us @ z = c # (tl (join_with (fst sep) us) @ z)" for z
      using us u by (cases vs) auto
    then have skip: "skip_ws (join_with (fst sep) us @ z) = join_with (fst sep) us @ z" for z
      using u(2) by (metis skip_ws_Cons)
    have "parse_value m (t @ CHR '','' # ws @ join_with (fst sep) us @ CHR '']'' # rest)
        = Some (x, CHR '','' # ws @ join_with (fst sep) us @ CHR '']'' # rest)"
      using Cons.prems ts us n by (intro reads_backD [of sep fl x]) auto
    moreover have "parse_items m (join_with (fst sep) us @ CHR '']'' # rest) = Some (xs, rest)"
      using Cons.prems ts us n Cons ws by (intro Cons.IH) auto
    ultimately show ?thesis
      using ts us n ws skip by (simp add: parse_items.simps)
  qed
qed simp


lemma str_pair:
  assumes "is_str (fst p)"
  obtains k v where "p = (VStr k, v)"
  using assms by (cases p; cases "fst p") simp_all

lemma parse_member_head:
  assumes wk: "snd sep = CHR '':'' # wk" "\<forall>t. skip_ws (wk @ t) = skip_ws t"
    and t: "t = c # cs" "\<not> is_json_space c"
  shows "parse_members (Suc m) (json_str k @ snd sep @ t @ z) =
    (case parse_value m (t @ z) of
       None \<Rightarrow> None
     | Some (v, r') \<Rightarrow>
         (case skip_ws r' of
            [] \<Rightarrow> None
          | e # es \<Rightarrow>
              if e = CHR ''}'' then Some ([(VStr k, v)], es)
              else if e = CHR '','' then
                map_option (\<lambda>(kvs, r''). ((VStr k, v) # kvs, r'')) (parse_members m (skip_ws es))
              else None))"
  using wk t by (simp add: json_str_def parse_str_json_chars skip_ws_Cons parse_members.simps)

lemma parse_members_join:
  assumes sep: "json_sep sep"
    and "kvs \<noteq> []"
    and "map (\<lambda>kv. bind_r (json_key fl (fst kv)) (\<lambda>kt.
               bind_r (json_dumps sep fl (snd kv)) (\<lambda>vt. Inr (kt @ snd sep @ vt)))) kvs = map Inr ts"
    and "\<forall>p \<in> set kvs. is_str (fst p) \<and> reads_back sep fl (snd p) \<and> plain_json (snd p)"
    and "Suc (length (join_with (fst sep) ts)) < n"
  shows "parse_members n (join_with (fst sep) ts @ CHR ''}'' # rest) = Some (kvs, rest)"
  using assms(2-)
proof (induction kvs arbitrary: ts n)
  case (Cons p kvs)
  obtain ws wk where sp: "fst sep = CHR '','' # ws" "snd sep = CHR '':'' # wk"
    "\<forall>t. skip_ws (ws @ t) = skip_ws t" "\<forall>t. skip_ws (wk @ t) = skip_ws t"
    using json_sep_skip [OF sep] by auto
  note ws = sp(1,3) and wk = sp(2,4)
  obtain k v where p: "p = (VStr k, v)" using Cons.prems(3) by (auto intro: str_pair)
  from Cons.prems p obtain t us where ts: "ts = (json_str k @ snd sep @ t) # us"
    "json_dumps sep fl v = Inr t"
    "map (\<lambda>kv. bind_r (json_key fl (fst kv)) (\<lambda>kt.
               bind_r (json_dumps sep fl (snd kv)) (\<lambda>vt. Inr (kt @ snd sep @ vt)))) kvs = map Inr us"
    by (cases ts) (auto simp: bind_r_Inr_iff)
  from Cons.prems obtain m where n: "n = Suc m" by (cases n) auto
  obtain c cs where t: "t = c # cs" "\<not> is_json_space c"
    using json_head [OF ts(2)] Cons.prems(3) p by auto
  note key = parse_member_head [OF wk t, of m k]
  have len: "length t < m" using Cons.prems(4) n ts
    by (cases us) (auto simp: json_str_def)
  have rb: "reads_back sep fl v" using Cons.prems(3) p by auto
  show ?case
  proof (cases kvs)
    case Nil
    with ts have "us = []" by simp
    with ts n Nil p show ?thesis
      using key [of "CHR ''}'' # rest"] reads_backD [OF rb ts(2) len, of "CHR ''}'' # rest"] by simp
  next
    case (Cons q qs)
    obtain k' v' where q: "q = (VStr k', v')"
      using Cons.prems(3) Cons by (auto intro: str_pair)
    with ts Cons obtain u vs where us: "us = (json_str k' @ snd sep @ u) # vs"
      by (cases us) (auto simp: bind_r_Inr_iff)
    then have skip: "skip_ws (join_with (fst sep) us @ z) = join_with (fst sep) us @ z" for z
      by (cases vs) (simp_all add: json_str_def)
    have "parse_members m (join_with (fst sep) us @ CHR ''}'' # rest) = Some (kvs, rest)"
      using Cons.prems ts us n Cons ws by (intro Cons.IH) auto
    then show ?thesis
      using key [of "CHR '','' # ws @ join_with (fst sep) us @ CHR ''}'' # rest"]
        reads_backD [OF rb ts(2) len, of "CHR '','' # ws @ join_with (fst sep) us @ CHR ''}'' # rest"]
        ts us n ws skip p by simp
  qed
qed simp

lemma foldl_pd_put_distinct:
  "distinct (map fst (acc @ kvs)) \<Longrightarrow> list_all (\<lambda>p. is_str (fst p)) kvs \<Longrightarrow>
   foldl (\<lambda>acc (k, v). pd_put k v acc) acc kvs = acc @ kvs"
proof (induction kvs arbitrary: acc)
  case (Cons p kvs)
  obtain k v where p: "p = (VStr k, v)" using Cons.prems(2) by (auto intro: str_pair)
  have "pd_put (VStr k) v acc = acc @ [(VStr k, v)]" if "VStr k \<notin> fst ` set acc"
    using that by (induction acc) auto
  then show ?case using Cons.IH [of "acc @ [p]"] Cons.prems p by auto
qed simp

lemma reads_back_int:
  assumes "length (nat_text (nat \<bar>i\<bar>)) \<le> max_int_digits"
  shows "reads_back sep fl (VInt i)"
proof -
  obtain c cs where c: "int_text i = c # cs" "c \<noteq> CHR 0x22" "c \<noteq> CHR ''[''" "c \<noteq> CHR ''{''"
  proof -
    have "is_digit (hd (nat_text (nat \<bar>i\<bar>)))"
      using nat_text_digits [of "hd (nat_text (nat \<bar>i\<bar>))" "nat \<bar>i\<bar>"] by simp
    then have "hd (int_text i) \<noteq> CHR 0x22 \<and> hd (int_text i) \<noteq> CHR ''['' \<and> hd (int_text i) \<noteq> CHR ''{''"
      by (cases "i < 0") (auto simp: int_text_def is_digit_def)
    moreover have "int_text i \<noteq> []" by (simp add: int_text_def)
    ultimately show thesis using that by (cases "int_text i") auto
  qed
  show ?thesis unfolding reads_back_def
  proof (intro allI impI)
    fix t n rest assume t: "json_dumps sep fl (VInt i) = Inr t" "length t < n" "value_end rest"
    then obtain m where "n = Suc m" by (cases n) auto
    moreover have "t = c # cs" using t(1) c(1) by simp
    moreover have "parse_literal (c # cs @ rest) = Some (VInt i, rest)"
      using parse_literal_int_text [OF t(3), of i] assms c(1) by simp
    ultimately show "parse_value n (t @ rest) = Some (VInt i, rest)"
      using c by (simp add: parse_value.simps)
  qed
qed

lemma reads_back_str: "reads_back sep fl (VStr s)"
proof -
  show ?thesis unfolding reads_back_def
  proof (intro allI impI)
    fix t n rest assume t: "json_dumps sep fl (VStr s) = Inr t" "length t < n"
    then obtain m where "n = Suc m" by (cases n) auto
    with t show "parse_value n (t @ rest) = Some (VStr s, rest)"
      by (auto simp: json_str_def parse_str_json_chars parse_value.simps)
  qed
qed

lemma reads_back_list:
  assumes sep: "json_sep sep" and IH: "\<forall>x \<in> set xs. reads_back sep fl x \<and> plain_json x"
  shows "reads_back sep fl (VList xs)"
proof -
  show ?thesis unfolding reads_back_def
  proof (intro allI impI)
    fix t n rest assume t: "json_dumps sep fl (VList xs) = Inr t" "length t < n"
    then obtain ts where ts: "map (json_dumps sep fl) xs = map Inr ts"
      and t_eq: "t = ''['' @ join_with (fst sep) ts @ '']''"
      by (auto simp: bind_r_Inr_iff collect_r_Inr)
    from t obtain m where n: "n = Suc m" by (cases n) auto
    show "parse_value n (t @ rest) = Some (VList xs, rest)"
    proof (cases xs)
      case Nil with ts t_eq n show ?thesis by (simp add: parse_value.simps)
    next
      case (Cons y ys)
      with ts obtain u vs where us: "ts = u # vs" "json_dumps sep fl y = Inr u" by (cases ts) auto
      then obtain c cs where u: "u = c # cs" "\<not> is_json_space c" "c \<noteq> CHR '']''"
        using json_head IH Cons by (metis list.set_intros(1))
      have hd: "join_with (fst sep) ts @ z = c # (tl (join_with (fst sep) ts) @ z)" for z
        using us u by (cases vs) auto
      have "parse_items m (join_with (fst sep) ts @ CHR '']'' # rest) = Some (xs, rest)"
        using t n t_eq Cons ts IH by (intro parse_items_join [OF sep]) auto
      moreover obtain r0 where r0: "join_with (fst sep) ts @ CHR '']'' # rest = c # r0"
        using hd by blast
      moreover have "t @ rest = CHR ''['' # c # r0" using t_eq r0 by simp
      ultimately show ?thesis using u n by (simp add: skip_ws_Cons parse_value.simps)
    qed
  qed
qed

lemma reads_back_dict:
  assumes sep: "json_sep sep" and dist: "distinct (map fst kvs)"
    and IH: "\<forall>p \<in> set kvs. is_str (fst p) \<and> reads_back sep fl (snd p) \<and> plain_json (snd p)"
  shows "reads_back sep fl (VDict kvs)"
proof -
  have strs: "list_all (\<lambda>p. is_str (fst p)) kvs" using IH by (auto simp: list_all_iff)
  show ?thesis unfolding reads_back_def
  proof (intro allI impI)
    fix t n rest assume t: "json_dumps sep fl (VDict kvs) = Inr t" "length t < n"
    then obtain ts where ts: "map (\<lambda>kv. bind_r (json_key fl (fst kv)) (\<lambda>kt.
               bind_r (json_dumps sep fl (snd kv)) (\<lambda>vt. Inr (kt @ snd sep @ vt)))) kvs = map Inr ts"
      and t_eq: "t = ''{'' @ join_with (fst sep) ts @ ''}''"
      by (auto simp: bind_r_Inr_iff collect_r_Inr)
    from t obtain m where n: "n = Suc m" by (cases n) auto
    show "parse_value n (t @ rest) = Some (VDict kvs, rest)"
    proof (cases kvs)
      case Nil with ts t_eq n show ?thesis by (simp add: parse_value.simps)
    next
      case (Cons q qs)
      obtain k' v' where q: "q = (VStr k', v')" using IH Cons by (auto intro: str_pair)
      with ts Cons obtain u vs where us: "ts = (json_str k' @ snd sep @ u) # vs"
        by (cases ts) (auto simp: bind_r_Inr_iff)
      then have hd: "join_with (fst sep) ts @ z = CHR 0x22 # (tl (join_with (fst sep) ts) @ z)" for z
        by (cases vs) (simp_all add: json_str_def)
      have "parse_members m (join_with (fst sep) ts @ CHR ''}'' # rest) = Some (kvs, rest)"
        using t n t_eq Cons ts IH by (intro parse_members_join [OF sep]) auto
      moreover obtain r0 where r0: "join_with (fst sep) ts @ CHR ''}'' # rest = CHR 0x22 # r0"
        using hd by blast
      moreover have "t @ rest = CHR ''{'' # CHR 0x22 # r0" using t_eq r0 by simp
      ultimately show ?thesis
        using n foldl_pd_put_distinct [of "[]" kvs] dist strs by (simp add: skip_ws_Cons parse_value.simps)
    qed
  qed
qed

lemma snd_in_snds: "snd p \<in> Basic_BNFs.snds p"
  by (cases p) simp

lemma json_reads_back:
  assumes sep: "json_sep sep"
  shows "plain_json v \<Longrightarrow> reads_back sep fl v"
proof (induction v)
  case VNone
  then show ?case
    by (auto simp: reads_back_def parse_literal_def starts_with_def parse_value.simps elim!: less_natE)
next
  case (VBool b)
  then show ?case
    by (cases b) (auto simp: reads_back_def parse_literal_def starts_with_def parse_value.simps elim!: less_natE)
next
  case (VInt i)
  then show ?case by (simp add: reads_back_int)
next
  case (VStr s)
  then show ?case by (simp add: reads_back_str)
next
  case (VList xs)
  then show ?case by (intro reads_back_list [OF sep]) (auto simp: list_all_iff)
next
  case (VDict kvs)
  then show ?case
    using snd_in_snds by (intro reads_back_dict [OF sep]) (auto simp: list_all_iff)
qed simp_all

lemma json_roundtrip:
  assumes "json_sep sep" and "plain_json v" and "json_dumps sep fl v = Inr t"
  shows "json_loads t = Some v"
proof -
  obtain c cs where "t = c # cs" "\<not> is_json_space c" using json_head assms by blast
  moreover have "parse_value (Suc (length t)) (t @ []) = Some (v, [])"
    using json_reads_back [OF assms(1,2)] assms(3) by (rule reads_backD) simp_all
  ultimately show ?thesis by (simp add: json_loads_def skip_ws_Cons)
qed

lemma plain_json_dumps: "plain_json v \<Longrightarrow> \<exists>t. json_dumps sep fl v = Inr t"
proof (induction v)
  case (VList xs)
  then have "\<forall>x \<in> set xs. \<exists>t. json_dumps sep fl x = Inr t" by (auto simp: list_all_iff)
  then obtain f where "\<forall>x \<in> set xs. json_dumps sep fl x = Inr (f x)" by metis
  then have "collect_r (map (json_dumps sep fl) xs) = Inr (map f xs)"
    by (simp add: collect_r_Inr)
  then show ?case by simp
next
  case (VDict kvs)
  from VDict snd_in_snds have "\<forall>p \<in> set kvs. is_str (fst p) \<and> (\<exists>t. json_dumps sep fl (snd p) = Inr t)"
    by (auto simp: list_all_iff)
  then have "\<forall>p \<in> set kvs. \<exists>t. bind_r (json_key fl (fst p)) (\<lambda>kt.
      bind_r (json_dumps sep fl (snd p)) (\<lambda>vt. Inr (kt @ snd sep @ vt))) = Inr t"
    by (metis (no_types, lifting) bind_r_simps(2) is_str.elims(2) json_key.simps(1))
  then obtain f where "\<forall>p \<in> set kvs. bind_r (json_key fl (fst p)) (\<lambda>kt.
      bind_r (json_dumps sep fl (snd p)) (\<lambda>vt. Inr (kt @ snd sep @ vt))) = Inr (f p)" by metis
  then have "collect_r (map (\<lambda>p. bind_r (json_key fl (fst p)) (\<lambda>kt.
      bind_r (json_dumps sep fl (snd p)) (\<lambda>vt. Inr (kt @ snd sep @ vt)))) kvs) = Inr (map f kvs)"
    by (simp add: collect_r_Inr)
  then show ?case by simp
qed simp_all

end
