(* ===== verification/CallLog.thy ===== *)
theory CallLog
  imports Json
begin

text \<open>
  \<open>domain/call_log.py\<close>: the telemetry of one provider, a ring buffer of rows and counters over
  every call since the last clear.

  A row is shared between the log and the request that is still being served, so the rows live
  in a store and are named by their place in it: \<open>record_arrival\<close> and \<open>push\<close> return that name
  (the dict of the source), and \<open>finalize\<close> writes through it even when the ring buffer has
  dropped the row. The ring buffer is the list of the names it holds, oldest first.

  The clock is an argument. \<open>log_rep\<close> relates a log to its abstract content, the names of all
  the rows since the last clear in the order of their append, and every operation is shown to
  refine its effect on that list.
\<close>

section \<open>Base64\<close>

definition b64_char :: "nat \<Rightarrow> char" where
  "b64_char n =
     (if n < 26 then char_of (65 + n)
      else if n < 52 then char_of (71 + n)
      else if n < 62 then char_of (n - 4)
      else if n = 62 then CHR ''+'' else CHR ''/'')"

fun b64encode :: "string \<Rightarrow> string" where
  "b64encode [] = []"
| "b64encode [a] =
     (let n = code_of a * 16 in [b64_char (n div 64), b64_char (n mod 64), CHR ''='', CHR ''=''])"
| "b64encode [a, b] =
     (let n = (code_of a * 256 + code_of b) * 4
      in [b64_char (n div 4096), b64_char (n div 64 mod 64), b64_char (n mod 64), CHR ''=''])"
| "b64encode (a # b # c # rest) =
     (let n = (code_of a * 256 + code_of b) * 256 + code_of c
      in [b64_char (n div 262144), b64_char (n div 4096 mod 64), b64_char (n div 64 mod 64),
          b64_char (n mod 64)] @ b64encode rest)"

section \<open>Headers of a request\<close>

text \<open>HTTP gives the value of a header as text, and gRPC gives that of a \<open>-bin\<close> key as bytes.\<close>

datatype header_value = HText string | HBytes string

type_synonym headers = "(string, header_value) dict"

fun header_value_as_text :: "header_value \<Rightarrow> string" where
  "header_value_as_text (HBytes b) = b64encode b"
| "header_value_as_text (HText t) = t"

definition header_object :: "headers \<Rightarrow> pyval" where
  "header_object hs = jobj (map (\<lambda>(n, v). (n, VStr (header_value_as_text v))) hs)"

text \<open>Every value is text by then, so \<open>json.dumps\<close> has nothing to refuse (\<open>headers_as_json_dumps\<close>).\<close>

definition headers_as_json :: "headers \<Rightarrow> string" where
  "headers_as_json hs =
     (if hs = [] then ''{}''
      else (case json_dumps compact_separators (\<lambda>_. []) (header_object hs) of
              Inr t \<Rightarrow> t
            | Inl e \<Rightarrow> []))"

section \<open>The clock\<close>

text \<open>
  \<open>datetime.fromtimestamp(now, utc).strftime("%Y-%m-%d %H:%M:%S.")\<close> with the milliseconds after
  it. The date is that of the proleptic Gregorian calendar, and the time is rounded to whole
  microseconds first, half to even.
\<close>

definition civil_date :: "int \<Rightarrow> int \<times> int \<times> int" where
  "civil_date days =
     (let z = days + 719468;
          era = z div 146097;
          doe = z mod 146097;
          yoe = (doe - doe div 1460 + doe div 36524 - doe div 146096) div 365;
          doy = doe - (365 * yoe + yoe div 4 - yoe div 100);
          mp = (5 * doy + 2) div 153;
          d = doy - (153 * mp + 2) div 5 + 1;
          m = (if mp < 10 then mp + 3 else mp - 9);
          y = yoe + era * 400 + (if m \<le> 2 then 1 else 0)
      in (y, m, d))"

definition padded :: "nat \<Rightarrow> int \<Rightarrow> string" where
  "padded w i = (let t = int_text i in replicate (w - length t) (CHR ''0'') @ t)"

definition utc_stamp :: "rat \<Rightarrow> string" where
  "utc_stamp now =
     (let secs = round_half_even (now * 1000000) div 1000000;
          (y, m, d) = civil_date (secs div 86400);
          t = secs mod 86400
      in padded 4 y @ ''-'' @ padded 2 m @ ''-'' @ padded 2 d @ '' '' @ padded 2 (t div 3600)
         @ '':'' @ padded 2 (t div 60 mod 60) @ '':'' @ padded 2 (t mod 60) @ ''.''
         @ padded 3 \<lfloor>(now - of_int \<lfloor>now\<rfloor>) * 1000\<rfloor> @ '' UTC'')"

definition now_fields :: "rat \<Rightarrow> rat \<times> string" where
  "now_fields now = (now, utc_stamp now)"

section \<open>Rows and the log\<close>

record entry =
  e_ts :: rat
  e_time :: string
  e_request_id :: pyval
  e_method :: pyval
  e_status :: string
  e_latency_ms :: pyval
  lava_headers :: "(string, string) dict"
  deadline_remaining_ms :: pyval
  grpc_status :: pyval
  body_len :: pyval
  body_sha256 :: pyval
  e_path :: pyval
  e_pool :: string
  e_pid :: string
  e_name :: string
  e_interface :: string
  e_transport :: string
  e_port :: int
  headers_json :: string
  reset_gen :: nat

type_synonym row_id = nat

record call_log =
  log_pool :: string
  log_pid :: string
  log_name :: string
  history_max :: nat
  rows :: "entry list"
  history :: "row_id list"
  total_calls :: int
  calls_by_status :: "(string, int) dict"
  reset_generation :: nat

definition new_log :: "string \<Rightarrow> string \<Rightarrow> nat \<Rightarrow> string \<Rightarrow> call_log" where
  "new_log pool pid hmax name =
     \<lparr>log_pool = pool, log_pid = pid, log_name = name, history_max = hmax, rows = [], history = [],
      total_calls = 0, calls_by_status = [], reset_generation = 0\<rparr>"

text \<open>\<open>_new_entry\<close>. The generation is the one that the caller stamps on the row under the lock.\<close>

definition new_entry ::
  "rat \<Rightarrow> string \<Rightarrow> string \<Rightarrow> int \<Rightarrow> pyval \<Rightarrow> string \<Rightarrow> pyval \<Rightarrow> pyval \<Rightarrow> headers \<Rightarrow> headers \<Rightarrow> pyval
   \<Rightarrow> call_log \<Rightarrow> entry" where
  "new_entry clock iface wire prt meth stat lat rid lava hs deadline L =
     (case now_fields clock of (now, stamp) \<Rightarrow>
       \<lparr>e_ts = now, e_time = stamp, e_request_id = rid, e_method = meth, e_status = stat, e_latency_ms = lat,
        lava_headers = map (\<lambda>(n, v). (n, header_value_as_text v)) lava,
        deadline_remaining_ms = deadline, grpc_status = VNone, body_len = VNone, body_sha256 = VNone,
        e_path = VNone, e_pool = log_pool L, e_pid = log_pid L, e_name = log_name L,
        e_interface = iface, e_transport = wire, e_port = prt, headers_json = headers_as_json hs,
        reset_gen = reset_generation L\<rparr>)"

definition count_up :: "string \<Rightarrow> (string, int) dict \<Rightarrow> (string, int) dict" where
  "count_up s d = AList.update s (get_or d s 0 + 1) d"

text \<open>Append a row to the ring buffer and count it: what the lock of an append protects.\<close>

definition append_row :: "row_id \<Rightarrow> string \<Rightarrow> call_log \<Rightarrow> call_log" where
  "append_row i s L =
     L\<lparr>history := bounded_append (history_max L) (history L) i,
       total_calls := total_calls L + 1,
       calls_by_status := count_up s (calls_by_status L)\<rparr>"

definition record_arrival ::
  "rat \<Rightarrow> string \<Rightarrow> string \<Rightarrow> int \<Rightarrow> headers \<Rightarrow> headers \<Rightarrow> pyval \<Rightarrow> call_log \<Rightarrow> row_id \<times> call_log" where
  "record_arrival clock iface wire prt lava hs deadline L =
     (let e = new_entry clock iface wire prt (VStr ''*'') ''in_flight'' (VInt 0) VNone lava hs deadline L;
          i = length (rows L)
      in (i, append_row i ''in_flight'' (L\<lparr>rows := rows L @ [e]\<rparr>)))"

definition move_count :: "string \<Rightarrow> string \<Rightarrow> (string, int) dict \<Rightarrow> (string, int) dict" where
  "move_count old new d =
     (let remaining = get_or d old 0 - 1;
          d' = (if remaining > 0 then AList.update old remaining d else AList.delete old d)
      in count_up new d')"

definition finalize ::
  "rat \<Rightarrow> row_id \<Rightarrow> pyval \<Rightarrow> string \<Rightarrow> pyval \<Rightarrow> pyval \<Rightarrow> call_log \<Rightarrow> call_log" where
  "finalize clock i meth stat lat rid L =
     (let e0 = rows L ! i;
          e1 = e0\<lparr>e_method := meth, e_latency_ms := lat\<rparr>;
          e2 = (if rid \<noteq> VNone then e1\<lparr>e_request_id := rid\<rparr> else e1)
      in if reset_gen e2 \<noteq> reset_generation L then
           (case now_fields clock of (now, stamp) \<Rightarrow>
             append_row i stat
               (L\<lparr>rows := (rows L)[i := e2\<lparr>e_ts := now, e_time := stamp, e_status := stat,
                                          reset_gen := reset_generation L\<rparr>]\<rparr>))
         else if e_status e2 \<noteq> stat then
           L\<lparr>rows := (rows L)[i := e2\<lparr>e_status := stat\<rparr>],
             calls_by_status := move_count (e_status e2) stat (calls_by_status L)\<rparr>
         else L\<lparr>rows := (rows L)[i := e2]\<rparr>)"

definition set_grpc_status :: "row_id \<Rightarrow> string \<Rightarrow> call_log \<Rightarrow> call_log" where
  "set_grpc_status i s L = L\<lparr>rows := (rows L)[i := (rows L ! i)\<lparr>grpc_status := VStr s\<rparr>]\<rparr>"

text \<open>\<open>record_body\<close>, with the hex text of SHA-256 as an argument.\<close>

definition record_body :: "(string \<Rightarrow> string) \<Rightarrow> row_id \<Rightarrow> string \<Rightarrow> call_log \<Rightarrow> call_log" where
  "record_body sha256 i body L =
     L\<lparr>rows := (rows L)[i := (rows L ! i)\<lparr>body_len := VInt (int (length body)),
                                          body_sha256 := VStr (sha256 body)\<rparr>]\<rparr>"

definition record_path :: "row_id \<Rightarrow> string \<Rightarrow> call_log \<Rightarrow> call_log" where
  "record_path i p L = L\<lparr>rows := (rows L)[i := (rows L ! i)\<lparr>e_path := VStr p\<rparr>]\<rparr>"

definition push ::
  "rat \<Rightarrow> pyval \<Rightarrow> string \<Rightarrow> pyval \<Rightarrow> string \<Rightarrow> string \<Rightarrow> int \<Rightarrow> pyval \<Rightarrow> headers \<Rightarrow> headers \<Rightarrow> call_log
   \<Rightarrow> row_id \<times> call_log" where
  "push clock meth stat lat iface wire prt rid lava hs L =
     (let e = new_entry clock iface wire prt meth stat lat rid lava hs VNone L;
          i = length (rows L)
      in (i, append_row i stat (L\<lparr>rows := rows L @ [e]\<rparr>)))"

definition clear :: "call_log \<Rightarrow> call_log" where
  "clear L = L\<lparr>history := [], total_calls := 0, calls_by_status := [],
               reset_generation := reset_generation L + 1\<rparr>"

section \<open>Reading the log\<close>

record log_stats =
  st_total_calls :: int
  st_calls_by_status :: "(string, int) dict"
  st_history_entries :: nat

definition stats :: "call_log \<Rightarrow> log_stats" where
  "stats L = \<lparr>st_total_calls = total_calls L, st_calls_by_status = calls_by_status L,
              st_history_entries = length (history L)\<rparr>"

text \<open>The items of a stored row, the bookkeeping keys included.\<close>

definition entry_items :: "entry \<Rightarrow> sdict" where
  "entry_items e =
    [(''ts'', VFloat (Fin (e_ts e))), (''time'', VStr (e_time e)), (''request_id'', e_request_id e),
     (''method'', e_method e), (''status'', VStr (e_status e)), (''latency_ms'', e_latency_ms e),
     (''lava_headers'', jobj (map (\<lambda>(n, v). (n, VStr v)) (lava_headers e))),
     (''deadline_remaining_ms'', deadline_remaining_ms e), (''grpc_status'', grpc_status e),
     (''body_len'', body_len e), (''body_sha256'', body_sha256 e), (''path'', e_path e),
     (''pool'', VStr (e_pool e)), (''pid'', VStr (e_pid e)), (''name'', VStr (e_name e)),
     (''interface'', VStr (e_interface e)), (''transport'', VStr (e_transport e)),
     (''port'', VInt (e_port e)), (''_headers_json'', VStr (headers_json e)),
     (''_reset_gen'', VInt (int (reset_gen e)))]"

definition row_copy :: "entry \<Rightarrow> sdict" where
  "row_copy e =
     AList.update ''headers'' (VStr (headers_json e))
       (filter (\<lambda>(k, v). \<not> starts_with ''_'' k) (entry_items e))"

definition decode_row_headers :: "sdict \<Rightarrow> pyerr + sdict" where
  "decode_row_headers row = (case map_of row ''headers'' of
     Some (VStr text) \<Rightarrow> (case json_loads text of
         None \<Rightarrow> Inl ValueError
       | Some v \<Rightarrow> Inr (AList.update ''headers'' v row))
   | _ \<Rightarrow> Inr row)"

definition stored_rows :: "(entry \<Rightarrow> bool) \<Rightarrow> call_log \<Rightarrow> entry list" where
  "stored_rows keep L = filter keep (map (\<lambda>i. rows L ! i) (history L))"

definition get_history :: "(entry \<Rightarrow> bool) \<Rightarrow> bool \<Rightarrow> call_log \<Rightarrow> pyerr + sdict list" where
  "get_history keep decode_headers L =
     (let copies = map row_copy (stored_rows keep L)
      in if decode_headers then collect_r (map decode_row_headers copies) else Inr copies)"

section \<open>Refinement: the rows since the last clear\<close>

text \<open>How many of the named rows have a status.\<close>

definition status_count :: "entry list \<Rightarrow> row_id list \<Rightarrow> string \<Rightarrow> nat" where
  "status_count es is s = length (filter (\<lambda>i. e_status (es ! i) = s) is)"

definition counters_match :: "entry list \<Rightarrow> row_id list \<Rightarrow> (string, int) dict \<Rightarrow> bool" where
  "counters_match es is d \<longleftrightarrow> distinct (dict_keys d)
     \<and> (\<forall>s. map_of d s = (if status_count es is s = 0 then None else Some (int (status_count es is s))))"

text \<open>
  The abstract content of a log is the list of the rows that were appended since the last clear.
  The ring buffer is its tail, the total its length, and each counter the number of its rows
  with that status.
\<close>

definition log_rep :: "row_id list \<Rightarrow> call_log \<Rightarrow> bool" where
  "log_rep is L \<longleftrightarrow> distinct is
     \<and> (\<forall>i. i \<in> set is \<longleftrightarrow> i < length (rows L) \<and> reset_gen (rows L ! i) = reset_generation L)
     \<and> (\<forall>e \<in> set (rows L). reset_gen e \<le> reset_generation L)
     \<and> history L = drop (length is - history_max L) is
     \<and> total_calls L = int (length is)
     \<and> counters_match (rows L) is (calls_by_status L)"

lemma log_repD:
  assumes "log_rep is L"
  shows "distinct is"
    and "i \<in> set is \<longleftrightarrow> i < length (rows L) \<and> reset_gen (rows L ! i) = reset_generation L"
    and "e \<in> set (rows L) \<Longrightarrow> reset_gen e \<le> reset_generation L"
    and "history L = drop (length is - history_max L) is"
    and "total_calls L = int (length is)"
    and "counters_match (rows L) is (calls_by_status L)"
  using assms by (auto simp: log_rep_def)

lemma map_of_count_up:
  "map_of (count_up s d) t = (if t = s then Some (get_or d s 0 + 1) else map_of d t)"
  by (simp add: count_up_def map_of_update)

lemma counters_get: "counters_match es is d \<Longrightarrow> get_or d s 0 = int (status_count es is s)"
  by (simp add: counters_match_def get_or_def)

lemma status_count_snoc:
  "status_count es (is @ [i]) s = status_count es is s + (if e_status (es ! i) = s then 1 else 0)"
  by (simp add: status_count_def)

lemma status_count_cong:
  "\<forall>i \<in> set is. e_status (es ! i) = e_status (es' ! i) \<Longrightarrow> status_count es is = status_count es' is"
  unfolding status_count_def by (intro ext arg_cong [where f = length] filter_cong) auto

lemma counters_match_cong:
  "\<forall>i \<in> set is. e_status (es ! i) = e_status (es' ! i) \<Longrightarrow> counters_match es is d = counters_match es' is d"
  using status_count_cong [of "is" es es'] by (simp add: counters_match_def)

lemma counters_count_up:
  assumes "counters_match es is d"
  shows "counters_match es (is @ [i]) (count_up (e_status (es ! i)) d)"
  unfolding counters_match_def
proof (intro conjI allI)
  show "distinct (dict_keys (count_up (e_status (es ! i)) d))"
    using assms by (simp add: counters_match_def count_up_def distinct_update)
  fix s
  show "map_of (count_up (e_status (es ! i)) d) s =
      (if status_count es (is @ [i]) s = 0 then None else Some (int (status_count es (is @ [i]) s)))"
    using assms counters_get [OF assms]
    by (simp add: map_of_count_up status_count_snoc counters_match_def)
qed

lemma status_count_update:
  assumes "distinct is" and "i \<in> set is" and "i < length es"
  shows "int (status_count (es[i := e]) is s) =
    int (status_count es is s) - (if e_status (es ! i) = s then 1 else 0) + (if e_status e = s then 1 else 0)"
proof -
  obtain as bs where "is": "is = as @ i # bs" using assms(2) by (meson split_list)
  with assms(1) have "i \<notin> set as" "i \<notin> set bs" by auto
  then have "status_count (es[i := e]) as = status_count es as"
    and "status_count (es[i := e]) bs = status_count es bs"
    by (auto intro!: status_count_cong simp: nth_update_notin)
  moreover have "status_count fs is s = status_count fs as s + status_count fs [i] s + status_count fs bs s" for fs
    by (simp add: status_count_def "is")
  moreover have "status_count fs [i] s = (if e_status (fs ! i) = s then 1 else 0)" for fs
    by (simp add: status_count_def)
  ultimately show ?thesis using assms(3) by simp
qed

lemma status_count_pos:
  "i \<in> set is \<Longrightarrow> 0 < status_count es is (e_status (es ! i))"
  by (auto simp: status_count_def filter_empty_conv)

lemma counters_move:
  assumes match: "counters_match es is d" and "is": "distinct is" "i \<in> set is" "i < length es"
    and "e_status (es ! i) \<noteq> e_status e"
  shows "counters_match (es[i := e]) is (move_count (e_status (es ! i)) (e_status e) d)"
proof -
  let ?old = "e_status (es ! i)" and ?new = "e_status e"
  define d' where "d' = (if get_or d ?old 0 - 1 > 0 then AList.update ?old (get_or d ?old 0 - 1) d
    else AList.delete ?old d)"
  have old: "get_or d ?old 0 = int (status_count es is ?old)" using match by (rule counters_get)
  have dist: "distinct (dict_keys d')"
    using match by (simp add: d'_def counters_match_def distinct_update distinct_delete)
  have d': "map_of d' s = (if s = ?old
      then (if status_count es is ?old \<le> 1 then None else Some (int (status_count es is ?old) - 1))
      else map_of d s)" for s
    using old by (auto simp: d'_def map_of_update delete_conv)
  have new: "get_or d' ?new 0 = int (status_count es is ?new)"
    using assms(5) counters_get [OF match, of ?new] by (simp add: get_or_def d')
  have move: "move_count ?old ?new d = count_up ?new d'"
    by (simp add: move_count_def d'_def)
  have pos: "0 < status_count es is ?old" using "is"(2) by (rule status_count_pos)
  show ?thesis unfolding counters_match_def move
  proof (intro conjI allI)
    show "distinct (dict_keys (count_up ?new d'))" using dist by (simp add: count_up_def distinct_update)
    fix s
    have cnt: "int (status_count (es[i := e]) is s) = int (status_count es is s)
        - (if ?old = s then 1 else 0) + (if ?new = s then 1 else 0)"
      using "is" by (rule status_count_update)
    show "map_of (count_up ?new d') s = (if status_count (es[i := e]) is s = 0 then None
        else Some (int (status_count (es[i := e]) is s)))"
      using cnt new pos assms(5) match
      by (auto simp: map_of_count_up d' counters_match_def split: if_splits)
  qed
qed

lemma log_rep_new: "log_rep [] (new_log pool pid hmax name)"
  by (simp add: log_rep_def new_log_def counters_match_def status_count_def)

text \<open>An appended fresh row is the last of the content.\<close>

lemma log_rep_append_fresh:
  assumes rep: "log_rep is L" and gen: "reset_gen e = reset_generation L"
  shows "log_rep (is @ [length (rows L)])
    (append_row (length (rows L)) (e_status e) (L\<lparr>rows := rows L @ [e]\<rparr>))"
proof -
  let ?i = "length (rows L)"
  have lt: "j < ?i" if "j \<in> set is" for j using log_repD(2) [OF rep] that by simp
  have "counters_match (rows L @ [e]) is (calls_by_status L)"
    using log_repD(6) [OF rep] lt
    by (subst counters_match_cong [of _ _ "rows L"]) (auto simp: nth_append)
  from counters_count_up [OF this, of ?i]
  have cnt: "counters_match (rows L @ [e]) (is @ [?i]) (count_up (e_status e) (calls_by_status L))" by simp
  have mem: "j \<in> set (is @ [?i]) \<longleftrightarrow>
      j < length (rows L @ [e]) \<and> reset_gen ((rows L @ [e]) ! j) = reset_generation L" for j
    using log_repD(2) [OF rep, of j] gen by (auto simp: nth_append less_Suc_eq)
  show ?thesis
    unfolding log_rep_def append_row_def
    using cnt mem log_repD(1,3,5) [OF rep] lt gen drop_drop_snoc [OF log_repD(4) [OF rep]]
    by auto
qed

lemma log_rep_record_arrival:
  assumes "log_rep is L" and "record_arrival clock iface wire prt lava hs dl L = (i, L')"
  shows "i = length (rows L) \<and> log_rep (is @ [i]) L'"
proof -
  let ?e = "new_entry clock iface wire prt (VStr ''*'') ''in_flight'' (VInt 0) VNone lava hs dl L"
  have "reset_gen ?e = reset_generation L" "e_status ?e = ''in_flight''"
    by (simp_all add: new_entry_def now_fields_def)
  with log_rep_append_fresh [OF assms(1), of ?e] assms(2) show ?thesis
    by (auto simp: record_arrival_def Let_def)
qed

lemma log_rep_push:
  assumes "log_rep is L" and "push clock m s lat iface wire prt rid lava hs L = (i, L')"
  shows "i = length (rows L) \<and> log_rep (is @ [i]) L'"
proof -
  let ?e = "new_entry clock iface wire prt m s lat rid lava hs VNone L"
  have "reset_gen ?e = reset_generation L" "e_status ?e = s"
    by (simp_all add: new_entry_def now_fields_def)
  with log_rep_append_fresh [OF assms(1), of ?e] assms(2) show ?thesis
    by (auto simp: push_def Let_def)
qed

lemma log_rep_clear:
  assumes "log_rep is L"
  shows "log_rep [] (clear L)"
proof -
  have old: "reset_gen e < Suc (reset_generation L)" if "e \<in> set (rows L)" for e
    using log_repD(3) [OF assms that] by simp
  then have "reset_gen (rows L ! i) \<noteq> Suc (reset_generation L)" if "i < length (rows L)" for i
    using that nth_mem by fastforce
  with old show ?thesis
    by (simp add: log_rep_def clear_def counters_match_def status_count_def less_imp_le)
qed

text \<open>A write that keeps the status and the generation of a row keeps the content.\<close>

lemma log_rep_write:
  assumes rep: "log_rep is L" and "e_status e = e_status (rows L ! i)" and "reset_gen e = reset_gen (rows L ! i)"
  shows "log_rep is (L\<lparr>rows := (rows L)[i := e]\<rparr>)"
proof -
  let ?es = "(rows L)[i := e]"
  have same: "e_status (?es ! j) = e_status (rows L ! j) \<and> reset_gen (?es ! j) = reset_gen (rows L ! j)" for j
    using assms(2,3) by (cases "i < length (rows L)"; cases "j = i") (auto simp: list_update_beyond)
  have "counters_match ?es is (calls_by_status L)"
    using log_repD(6) [OF rep] same by (subst counters_match_cong [of _ _ "rows L"]) auto
  moreover have "reset_gen x \<le> reset_generation L" if "x \<in> set ?es" for x
    using that same log_repD(3) [OF rep] by (metis in_set_conv_nth length_list_update)
  ultimately show ?thesis using rep same by (auto simp: log_rep_def)
qed

text \<open>
  Finalizing a row of the present generation moves one count and keeps the content; finalizing
  a row of before a clear appends it again.
\<close>

lemma log_rep_finalize:
  assumes rep: "log_rep is L" and i: "i < length (rows L)"
  shows "log_rep (if i \<in> set is then is else is @ [i]) (finalize clock i m s lat rid L)"
proof -
  let ?row = "rows L ! i"
  let ?wr = "?row\<lparr>e_method := m, e_latency_ms := lat\<rparr>"
  define e2 where "e2 = (if rid \<noteq> VNone then ?wr\<lparr>e_request_id := rid\<rparr> else ?wr)"
  have e2: "e_status e2 = e_status ?row" "reset_gen e2 = reset_gen ?row" by (simp_all add: e2_def)
  show ?thesis
  proof (cases "reset_gen ?row = reset_generation L")
    case True
    then have "is": "i \<in> set is" using log_repD(2) [OF rep] i by simp
    show ?thesis
    proof (cases "e_status ?row = s")
      case True
      then have "finalize clock i m s lat rid L = L\<lparr>rows := (rows L)[i := e2]\<rparr>"
        using e2 \<open>reset_gen ?row = reset_generation L\<close>
        by (simp add: finalize_def Let_def flip: e2_def)
      then show ?thesis using "is" log_rep_write [OF rep, of e2 i] e2 by simp
    next
      case False
      let ?e = "e2\<lparr>e_status := s\<rparr>"
      have fin: "finalize clock i m s lat rid L = L\<lparr>rows := (rows L)[i := ?e],
          calls_by_status := move_count (e_status ?row) s (calls_by_status L)\<rparr>"
        using e2 False \<open>reset_gen ?row = reset_generation L\<close>
        by (simp add: finalize_def Let_def flip: e2_def)
      have gens: "reset_gen ((rows L)[i := ?e] ! j) = reset_gen (rows L ! j)" for j
        using e2 i by (cases "j = i") auto
      have "counters_match ((rows L)[i := ?e]) is (move_count (e_status ?row) s (calls_by_status L))"
        using counters_move [OF log_repD(6) [OF rep] log_repD(1) [OF rep] "is" i, of ?e] False by simp
      moreover have "reset_gen x \<le> reset_generation L" if "x \<in> set ((rows L)[i := ?e])" for x
        using that gens log_repD(3) [OF rep] by (metis in_set_conv_nth length_list_update)
      ultimately show ?thesis using rep "is" gens fin by (auto simp: log_rep_def)
    qed
  next
    case False
    then have "is": "i \<notin> set is" using log_repD(2) [OF rep] by simp
    let ?e = "e2\<lparr>e_ts := clock, e_time := utc_stamp clock, e_status := s, reset_gen := reset_generation L\<rparr>"
    have fin: "finalize clock i m s lat rid L = append_row i s (L\<lparr>rows := (rows L)[i := ?e]\<rparr>)"
      using e2 False by (simp add: finalize_def Let_def now_fields_def flip: e2_def)
    have "counters_match ((rows L)[i := ?e]) is (calls_by_status L)"
      using log_repD(6) [OF rep] "is"
      by (subst counters_match_cong [of _ _ "rows L"]) (auto simp: nth_update_notin)
    from counters_count_up [OF this, of i]
    have cnt: "counters_match ((rows L)[i := ?e]) (is @ [i]) (count_up s (calls_by_status L))"
      using i by simp
    have mem: "j \<in> set (is @ [i]) \<longleftrightarrow>
        j < length ((rows L)[i := ?e]) \<and> reset_gen ((rows L)[i := ?e] ! j) = reset_generation L" for j
      using log_repD(2) [OF rep, of j] i by (auto simp: nth_list_update)
    have "reset_gen x \<le> reset_generation L" if "x \<in> set ((rows L)[i := ?e])" for x
      using set_update_subset_insert [of "rows L" i ?e] that log_repD(3) [OF rep] by auto
    then show ?thesis
      using "is" fin cnt mem log_repD(1,5) [OF rep] drop_drop_snoc [OF log_repD(4) [OF rep]]
      by (simp add: log_rep_def append_row_def)
  qed
qed

section \<open>Reachable logs\<close>

text \<open>
  The logs that a run of the operations reaches from a new one. A handler finalizes or annotates
  only a row that the log gave it, at any later time, in any order and any number of times.
\<close>

inductive log_reach :: "nat \<Rightarrow> row_id list \<Rightarrow> call_log \<Rightarrow> bool" where
  reach_new: "log_reach hmax [] (new_log pool pid hmax name)"
| reach_arrival: "log_reach hmax is L \<Longrightarrow> distinct (dict_keys hs) \<Longrightarrow>
    record_arrival clock iface wire prt lava hs dl L = (i, L') \<Longrightarrow> log_reach hmax (is @ [i]) L'"
| reach_push: "log_reach hmax is L \<Longrightarrow> distinct (dict_keys hs) \<Longrightarrow>
    push clock m s lat iface wire prt rid lava hs L = (i, L') \<Longrightarrow> log_reach hmax (is @ [i]) L'"
| reach_finalize: "log_reach hmax is L \<Longrightarrow> i < length (rows L) \<Longrightarrow>
    log_reach hmax (if i \<in> set is then is else is @ [i]) (finalize clock i m s lat rid L)"
| reach_grpc_status: "log_reach hmax is L \<Longrightarrow> log_reach hmax is (set_grpc_status i g L)"
| reach_body: "log_reach hmax is L \<Longrightarrow> log_reach hmax is (record_body sha256 i b L)"
| reach_path: "log_reach hmax is L \<Longrightarrow> log_reach hmax is (record_path i p L)"
| reach_clear: "log_reach hmax is L \<Longrightarrow> log_reach hmax [] (clear L)"

lemma history_max_ops [simp]:
  "history_max (finalize clock i m s lat rid L) = history_max L"
  "history_max (clear L) = history_max L"
  by (simp_all add: finalize_def append_row_def clear_def Let_def now_fields_def)

lemma log_reach_rep: "log_reach hmax is L \<Longrightarrow> log_rep is L \<and> history_max L = hmax"
proof (induction rule: log_reach.induct)
  case (reach_new hmax pool pid name)
  show ?case using log_rep_new by (simp add: new_log_def)
next
  case (reach_arrival hmax "is" L hs clock iface wire prt lava dl i L')
  then have "history_max L' = history_max L" by (auto simp: record_arrival_def append_row_def Let_def)
  with reach_arrival show ?case using log_rep_record_arrival by blast
next
  case (reach_push hmax "is" L hs clock m s lat iface wire prt rid lava i L')
  then have "history_max L' = history_max L" by (auto simp: push_def append_row_def Let_def)
  with reach_push show ?case using log_rep_push by blast
next
  case (reach_finalize hmax "is" L i clock m s lat rid)
  then show ?case using log_rep_finalize by simp
next
  case (reach_grpc_status hmax "is" L i g)
  then show ?case by (simp add: set_grpc_status_def log_rep_write)
next
  case (reach_body hmax "is" L sha256 i b)
  then show ?case by (simp add: record_body_def log_rep_write)
next
  case (reach_path hmax "is" L i p)
  then show ?case by (simp add: record_path_def log_rep_write)
next
  case (reach_clear hmax "is" L)
  then show ?case using log_rep_clear [of "is" L] by simp
qed

lemma sum_status_counts:
  assumes "counters_match es is d"
  shows "sum_list (map snd d) = int (length is)"
proof -
  have dist: "distinct (dict_keys d)" using assms by (simp add: counters_match_def)
  have "sum_list (map snd d) = (\<Sum>s \<in> set (dict_keys d). get_or d s 0)"
    using dist dict_of_keys [OF dist, of 0]
    by (metis (no_types, lifting) map_map comp_apply map_eq_conv snd_conv sum_list_distinct_conv_sum_set)
  also have "\<dots> = (\<Sum>s \<in> set (dict_keys d). int (status_count es is s))"
    using counters_get [OF assms] by simp
  also have "\<dots> = int (length is)"
  proof -
    have keys: "s \<in> set (dict_keys d)" if "i \<in> set is" "s = e_status (es ! i)" for s i
      using status_count_pos [of i "is" es] that assms
      by (metis (no_types, lifting) counters_match_def map_of_eq_None_iff not_gr_zero option.distinct(1) set_map)
    have "(\<Sum>s \<in> set (dict_keys d). status_count es is s) = length is"
      using keys
    proof (induction "is")
      case (Cons i "is")
      let ?S = "set (dict_keys d)"
      have "e_status (es ! i) \<in> ?S" using Cons.prems [of i] by simp
      then have "(\<Sum>s \<in> ?S. if e_status (es ! i) = s then 1 else 0 :: nat) = 1" by simp
      moreover have "status_count es (i # is) s = (if e_status (es ! i) = s then 1 else 0) + status_count es is s" for s
        by (simp add: status_count_def)
      ultimately show ?case using Cons by (simp add: sum.distrib del: set_map)
    qed (simp add: status_count_def)
    then show ?thesis by (metis of_nat_sum)
  qed
  finally show ?thesis .
qed

text \<open>
  C4. In every log that a run of arrivals, pushes, finalizations, annotations and clears can
  reach, with each row finalized any number of times, before or after a clear or a rollover: the
  total is the number of rows appended since the last clear, each counter is the number of those
  rows with that status (a status with none has no counter), the counters add up to the total,
  and the ring buffer holds exactly the newest rows, at most \<open>history_max\<close>.
\<close>

theorem log_counters_refine:
  assumes "log_reach hmax is L"
  shows "total_calls L = int (length is)
    \<and> (\<forall>s. map_of (calls_by_status L) s =
         (let n = length (filter (\<lambda>i. e_status (rows L ! i) = s) is) in if n = 0 then None else Some (int n)))
    \<and> sum_list (map snd (calls_by_status L)) = total_calls L
    \<and> history L = drop (length is - hmax) is \<and> length (history L) \<le> hmax \<and> distinct is"
proof -
  from log_reach_rep [OF assms] have rep: "log_rep is L" and hmax: "history_max L = hmax" by auto
  note facts = log_repD(1,4,5,6) [OF rep]
  moreover from facts(4) have "sum_list (map snd (calls_by_status L)) = int (length is)"
    by (rule sum_status_counts)
  ultimately show ?thesis
    using hmax by (simp add: counters_match_def status_count_def Let_def)
qed

theorem log_counters_refine_witness:
  "let (i, L1) = record_arrival 5 ''jsonrpc'' ''http'' 8545 [] [] VNone (new_log ''eth-sim'' ''1'' 2 ''P'');
       L2 = finalize 6 i (VStr ''m'') ''success'' (VInt 3) (VInt 1) (clear L1)
   in total_calls L2 = 1 \<and> history L2 = [0]"
proof -
  let ?L0 = "new_log ''eth-sim'' ''1'' 2 ''P''"
  obtain i L1 where arr: "record_arrival 5 ''jsonrpc'' ''http'' 8545 [] [] VNone ?L0 = (i, L1)" by fastforce
  have i: "i = 0 \<and> length (rows L1) = 1"
    using arr by (auto simp: record_arrival_def append_row_def new_log_def Let_def)
  have "log_reach 2 [i] L1" using reach_arrival [OF reach_new _ arr] by simp
  then have "log_reach 2 [] (clear L1)" by (rule reach_clear)
  from reach_finalize [OF this, of i 6 "VStr ''m''" "''success''" "VInt 3" "VInt 1"] i
  have "log_reach 2 [0] (finalize 6 i (VStr ''m'') ''success'' (VInt 3) (VInt 1) (clear L1))"
    by (simp add: clear_def)
  from log_counters_refine [OF this] show ?thesis by (simp add: arr)
qed

section \<open>Headers of a row\<close>

lemma header_object_plain: "distinct (dict_keys hs) \<Longrightarrow> plain_json (header_object hs)"
  by (auto simp: header_object_def jobj_def distinct_map inj_on_def list_all_iff comp_def case_prod_beta)

lemma headers_as_json_dumps:
  assumes "distinct (dict_keys hs)" and "hs \<noteq> []"
  shows "json_dumps compact_separators (\<lambda>_. []) (header_object hs) = Inr (headers_as_json hs)"
  using plain_json_dumps [OF header_object_plain [OF assms(1)], of compact_separators "\<lambda>_. []"] assms(2)
  by (auto simp: headers_as_json_def)

lemma headers_as_json_loads:
  assumes "distinct (dict_keys hs)"
  shows "json_loads (headers_as_json hs) = Some (header_object hs)"
proof (cases "hs = []")
  case True
  moreover have "json_loads ''{}'' = Some (VDict [])" by code_simp
  ultimately show ?thesis by (simp add: headers_as_json_def header_object_def jobj_def)
next
  case False
  have "json_sep compact_separators" by code_simp
  then show ?thesis
    using header_object_plain [OF assms] headers_as_json_dumps [OF assms False] by (rule json_roundtrip)
qed

definition headers_stored :: "entry \<Rightarrow> bool" where
  "headers_stored e \<longleftrightarrow> (\<exists>hs. distinct (dict_keys hs) \<and> headers_json e = headers_as_json hs)"

lemma headers_stored_update:
  "\<forall>e \<in> set es. headers_stored e \<Longrightarrow> headers_json e' = headers_json (es ! i) \<Longrightarrow>
   \<forall>e \<in> set (es[i := e']). headers_stored e"
  by (cases "i < length es")
    (auto simp: headers_stored_def list_update_beyond dest!: set_update_subset_insert [THEN subsetD] dest: nth_mem)

lemma log_reach_headers: "log_reach hmax is L \<Longrightarrow> \<forall>e \<in> set (rows L). headers_stored e"
proof (induction rule: log_reach.induct)
  case (reach_new hmax pool pid name)
  show ?case by (simp add: new_log_def)
next
  case (reach_arrival hmax "is" L hs clock iface wire prt lava dl i L')
  then have "rows L' = rows L @
      [new_entry clock iface wire prt (VStr ''*'') ''in_flight'' (VInt 0) VNone lava hs dl L]"
    by (auto simp: record_arrival_def append_row_def Let_def)
  with reach_arrival show ?case by (auto simp: headers_stored_def new_entry_def now_fields_def)
next
  case (reach_push hmax "is" L hs clock m s lat iface wire prt rid lava i L')
  then have "rows L' = rows L @ [new_entry clock iface wire prt m s lat rid lava hs VNone L]"
    by (auto simp: push_def append_row_def Let_def)
  with reach_push show ?case by (auto simp: headers_stored_def new_entry_def now_fields_def)
next
  case (reach_finalize hmax "is" L i clock m s lat rid)
  have "\<exists>e. rows (finalize clock i m s lat rid L) = (rows L)[i := e]
      \<and> headers_json e = headers_json (rows L ! i)"
    by (simp add: finalize_def append_row_def Let_def now_fields_def) (auto intro!: exI)
  with reach_finalize show ?case by (metis headers_stored_update)
next
  case (reach_grpc_status hmax "is" L i g)
  then show ?case unfolding set_grpc_status_def by (simp, intro headers_stored_update) simp_all
next
  case (reach_body hmax "is" L sha256 i b)
  then show ?case unfolding record_body_def by (simp, intro headers_stored_update) simp_all
next
  case (reach_path hmax "is" L i p)
  then show ?case unfolding record_path_def by (simp, intro headers_stored_update) simp_all
next
  case (reach_clear hmax "is" L)
  then show ?case by (simp add: clear_def)
qed

lemma map_of_row_copy: "map_of (row_copy e) ''headers'' = Some (VStr (headers_json e))"
  by (simp add: row_copy_def map_of_update)

lemma decode_row_copy:
  "distinct (dict_keys hs) \<Longrightarrow> headers_json e = headers_as_json hs \<Longrightarrow>
   decode_row_headers (row_copy e) = Inr (AList.update ''headers'' (header_object hs) (row_copy e))"
  by (simp add: decode_row_headers_def map_of_row_copy headers_as_json_loads)

lemma stored_rows_mem:
  assumes "log_reach hmax is L" and "e \<in> set (stored_rows keep L)"
  shows "e \<in> set (rows L)"
proof -
  from assms(2) obtain i where "e = rows L ! i" "i \<in> set (history L)" by (auto simp: stored_rows_def)
  moreover have "set (history L) \<subseteq> set is"
    using log_reach_rep [OF assms(1)] log_repD(4) set_drop_subset by metis
  ultimately show ?thesis using log_reach_rep [OF assms(1)] log_repD(2) by (metis nth_mem subsetD)
qed

text \<open>What \<open>get_history\<close> gives for one row: its copy with the headers as an object.\<close>

definition decoded_row :: "entry \<Rightarrow> sdict" where
  "decoded_row e = projr (decode_row_headers (row_copy e))"

lemma get_history_decoded:
  assumes "log_reach hmax is L"
  shows "get_history keep True L = Inr (map decoded_row (stored_rows keep L))"
proof -
  have "decode_row_headers (row_copy e) = Inr (decoded_row e)" if "e \<in> set (stored_rows keep L)" for e
    using log_reach_headers [OF assms] stored_rows_mem [OF assms that] decode_row_copy
    by (auto simp: headers_stored_def decoded_row_def)
  then have "collect_r (map (\<lambda>e. decode_row_headers (row_copy e)) (stored_rows keep L))
      = Inr (map decoded_row (stored_rows keep L))"
    by (intro collect_r_total) simp
  then show ?thesis by (simp add: get_history_def comp_def)
qed

text \<open>
  C32. A reader of the history gets the request headers that arrived. In every reachable log the
  read raises nothing, and after the arrival of a request its row is the newest of the history,
  it is marked in flight, and its decoded headers are the headers of the request, with a value
  of bytes as base64 text.
\<close>

theorem arrival_headers_roundtrip:
  assumes "log_reach hmax is L" and "0 < hmax" and "distinct (dict_keys hs)"
    and "record_arrival clock iface wire prt lava hs dl L = (i, L')"
  shows "\<exists>rs r. get_history (\<lambda>_. True) True L' = Inr (rs @ [r])
    \<and> map_of r ''status'' = Some (VStr ''in_flight'') \<and> map_of r ''port'' = Some (VInt prt)
    \<and> map_of r ''headers'' = Some (jobj (map (\<lambda>(n, v). (n, VStr (header_value_as_text v))) hs))"
proof -
  let ?e = "new_entry clock iface wire prt (VStr ''*'') ''in_flight'' (VInt 0) VNone lava hs dl L"
  have reach: "log_reach hmax (is @ [i]) L'" using assms by (intro reach_arrival)
  have hist: "history L' = bounded_append hmax (history L) (length (rows L))"
    and rows: "rows L' = rows L @ [?e]"
    using assms(4) log_reach_rep [OF assms(1)] by (auto simp: record_arrival_def append_row_def Let_def)
  have last: "history L' \<noteq> []" "last (history L') = length (rows L)"
    using bounded_append_last [OF assms(2), of "history L" "length (rows L)"] by (simp_all add: hist)
  have hj: "headers_json ?e = headers_as_json hs" by (simp add: new_entry_def now_fields_def)
  define r where "r = decoded_row ?e"
  have dec: "r = AList.update ''headers'' (header_object hs) (row_copy ?e)"
    using decode_row_copy [OF assms(3) hj] by (simp add: r_def decoded_row_def)
  have split: "history L' = butlast (history L') @ [length (rows L)]"
    using last by (metis append_butlast_last_id)
  have "stored_rows (\<lambda>_. True) L' = map (\<lambda>i. rows L' ! i) (history L')" by (simp add: stored_rows_def)
  also have "\<dots> = map (\<lambda>i. rows L' ! i) (butlast (history L')) @ [?e]"
    by (subst split) (simp add: rows)
  finally have "stored_rows (\<lambda>_. True) L' = map (\<lambda>i. rows L' ! i) (butlast (history L')) @ [?e]" .
  with get_history_decoded [OF reach, of "\<lambda>_. True"]
  have "get_history (\<lambda>_. True) True L' = Inr (map decoded_row (map (\<lambda>i. rows L' ! i) (butlast (history L'))) @ [r])"
    by (simp add: r_def)
  moreover have "map_of r ''headers'' = Some (header_object hs)" by (simp add: dec map_of_update)
  moreover have "map_of r ''status'' = Some (VStr ''in_flight'')" "map_of r ''port'' = Some (VInt prt)"
    by (simp_all add: dec map_of_update row_copy_def entry_items_def starts_with_def new_entry_def now_fields_def)
  ultimately show ?thesis unfolding header_object_def by blast
qed

theorem arrival_headers_roundtrip_witness:
  "\<exists>rs r. get_history (\<lambda>_. True) True
      (snd (record_arrival 5 ''grpc'' ''http2'' 9090 [] [(''x-bin'', HBytes ''ab''), (''te'', HText ''trailers'')]
        VNone (new_log ''lava-sim'' ''1'' 3 ''P''))) = Inr (rs @ [r])
    \<and> map_of r ''headers'' = Some (jobj [(''x-bin'', VStr ''YWI=''), (''te'', VStr ''trailers'')])"
proof -
  let ?hs = "[(''x-bin'', HBytes ''ab''), (''te'', HText ''trailers'')]"
  let ?L = "new_log ''lava-sim'' ''1'' 3 ''P''"
  obtain i L' where arr: "record_arrival 5 ''grpc'' ''http2'' 9090 [] ?hs VNone ?L = (i, L')"
    by (cases "record_arrival 5 ''grpc'' ''http2'' 9090 [] ?hs VNone ?L")
  obtain rs r where "get_history (\<lambda>_. True) True L' = Inr (rs @ [r])"
    and "map_of r ''headers'' = Some (jobj (map (\<lambda>(n, v). (n, VStr (header_value_as_text v))) ?hs))"
    using arrival_headers_roundtrip [OF reach_new _ _ arr] by auto
  moreover have "char_of (89 :: nat) = CHR ''Y''" "char_of (87 :: nat) = CHR ''W''" "char_of (73 :: nat) = CHR ''I''"
    by (simp_all add: char_of_eq_iff take_bit_eq_mod)
  ultimately show ?thesis unfolding arr snd_conv by (intro exI [of _ rs] exI [of _ r]) 
    (simp add: b64_char_def)
qed

end
