(* ===== verification/Provider.thy ===== *)
theory Provider
  imports Quirks CallLog
begin

text \<open>
  \<open>domain/provider.py\<close>: one provider, with the fault configuration, the settings of its chain,
  its call log, its endpoints, the counter of a \<open>fail_first_n\<close> fault and the memory of executed
  transactions, and the pool that builds it.

  A provider is an object that its pool and the table of ports share. Here it lives in its pool
  and is named by the pair of its pool name and its pid, which is what \<open>Provider.key\<close> writes.
\<close>

definition HISTORY_MAX :: nat where
  "HISTORY_MAX = 2000"

definition EXECUTED_MEMORY_CAP :: nat where
  "EXECUTED_MEMORY_CAP = 10000"

record provider =
  pool_name :: string
  pool_chain :: string
  pid :: string
  p_name :: string
  is_backup :: bool
  group_label :: string
  scenario :: config
  quirks_class :: config_class
  quirks :: config
  p_log :: call_log
  endpoints :: "endpoint list"
  fail_count :: int
  executed :: "(string, rat) dict"

record pool =
  pl_name :: string
  pl_chain :: string
  providers :: "(string, provider) dict"

definition provider_key :: "provider \<Rightarrow> string" where
  "provider_key p = pool_name p @ '':'' @ pid p"

definition new_provider ::
  "pool \<Rightarrow> config_class \<Rightarrow> string \<Rightarrow> endpoint list \<Rightarrow> string \<Rightarrow> bool \<Rightarrow> string \<Rightarrow> provider" where
  "new_provider pl qc i eps name backup grp =
     \<lparr>pool_name = pl_name pl, pool_chain = pl_chain pl, pid = i, p_name = name, is_backup = backup,
      group_label = grp, scenario = new_config ScenarioConfig, quirks_class = qc, quirks = new_config qc,
      p_log = new_log (pl_name pl) i HISTORY_MAX name, endpoints = eps, fail_count = 0, executed = []\<rparr>"

definition add_provider ::
  "string \<Rightarrow> endpoint list \<Rightarrow> string \<Rightarrow> bool \<Rightarrow> string \<Rightarrow> pool \<Rightarrow> pyerr + provider \<times> pool" where
  "add_provider i eps name backup grp pl =
     (if map_of (providers pl) i \<noteq> None then Inl ValueError
      else bind_r (quirks_for (pl_chain pl)) (\<lambda>qc.
        let p = new_provider pl qc i eps name backup grp
        in Inr (p, pl\<lparr>providers := AList.update i p (providers pl)\<rparr>)))"

section \<open>The counter of a sequenced fault\<close>

definition consume_fail :: "provider \<Rightarrow> int \<times> provider" where
  "consume_fail p = (fail_count p + 1, p\<lparr>fail_count := fail_count p + 1\<rparr>)"

definition peek_fail :: "provider \<Rightarrow> int" where
  "peek_fail p = fail_count p"

definition reset_fail :: "provider \<Rightarrow> provider" where
  "reset_fail p = p\<lparr>fail_count := 0\<rparr>"

section \<open>The memory of executed transactions\<close>

definition remember_executed :: "string \<Rightarrow> rat \<Rightarrow> provider \<Rightarrow> provider" where
  "remember_executed digest started p =
     (if map_of (executed p) digest \<noteq> None then p
      else
        let ex = AList.update digest started (executed p)
        in p\<lparr>executed := (if EXECUTED_MEMORY_CAP < length ex then tl ex else ex)\<rparr>)"

definition executed_snapshot :: "provider \<Rightarrow> (string, rat) dict" where
  "executed_snapshot p = executed p"

definition forget_executed :: "provider \<Rightarrow> provider" where
  "forget_executed p = p\<lparr>executed := []\<rparr>"

text \<open>A run of executions, oldest first.\<close>

definition remember_all :: "(string \<times> rat) list \<Rightarrow> provider \<Rightarrow> provider" where
  "remember_all runs p = foldl (\<lambda>p (d, t). remember_executed d t p) p runs"

definition executed_ok :: "provider \<Rightarrow> bool" where
  "executed_ok p \<longleftrightarrow> distinct (dict_keys (executed p)) \<and> length (executed p) \<le> EXECUTED_MEMORY_CAP"

lemma update_new_key: "map_of d k = None \<Longrightarrow> AList.update k v d = d @ [(k, v)]"
  by (induction d) (auto split: if_splits)

lemma remember_executed_new:
  assumes "map_of (executed p) d = None" and "length (executed p) \<le> EXECUTED_MEMORY_CAP"
  shows "executed (remember_executed d t p) = bounded_append EXECUTED_MEMORY_CAP (executed p) (d, t)"
  using assms
  by (simp add: remember_executed_def Let_def update_new_key bounded_append_step)

lemma remember_executed_ok: "executed_ok p \<Longrightarrow> executed_ok (remember_executed d t p)"
proof (cases "map_of (executed p) d")
  case None
  assume ok: "executed_ok p"
  then have new: "executed (remember_executed d t p) = bounded_append EXECUTED_MEMORY_CAP (executed p) (d, t)"
    using None by (intro remember_executed_new) (simp_all add: executed_ok_def)
  have "d \<notin> set (dict_keys (executed p))" using None by (simp add: map_of_eq_None_iff)
  then show ?thesis
    using ok bounded_append_le [of EXECUTED_MEMORY_CAP "executed p" "(d, t)"]
    by (simp add: executed_ok_def new map_bounded_append distinct_bounded_append)
qed (simp add: remember_executed_def)

lemma remember_all_ok: "executed_ok p \<Longrightarrow> executed_ok (remember_all runs p)"
  unfolding remember_all_def
  by (induction runs arbitrary: p) (auto intro: remember_executed_ok)

text \<open>
  While fewer digests than the cap have run, the memory holds the first time of every digest
  that ran: the dictionary that keeps the first of several values.
\<close>

lemma remember_executed_reads:
  assumes "length (executed p) < EXECUTED_MEMORY_CAP"
  shows "map_of (executed (remember_executed d t p)) e =
    (case map_of (executed p) e of Some u \<Rightarrow> Some u | None \<Rightarrow> if e = d then Some t else None)"
proof (cases "map_of (executed p) d")
  case None
  then have "executed (remember_executed d t p) = executed p @ [(d, t)]"
    using assms by (simp add: remember_executed_new bounded_append_def)
  then show ?thesis by (simp add: map_add_def split: option.split)
qed (auto simp: remember_executed_def split: option.split)

lemma remember_executed_length:
  "length (executed p) < EXECUTED_MEMORY_CAP \<Longrightarrow>
   length (executed (remember_executed d t p)) \<le> Suc (length (executed p))"
  by (cases "map_of (executed p) d")
    (simp_all add: remember_executed_new bounded_append_def, simp add: remember_executed_def)

text \<open>
  The memory of executed transactions never holds more than its cap and never holds a digest
  twice, after any run of executions; and while no more than the cap ran, it holds for every
  digest exactly the time of its first run.
\<close>

theorem executed_memory:
  assumes "executed p = []"
  shows "length (executed (remember_all runs p)) \<le> EXECUTED_MEMORY_CAP
    \<and> distinct (dict_keys (executed (remember_all runs p)))
    \<and> (length runs \<le> EXECUTED_MEMORY_CAP \<longrightarrow>
        (\<forall>d. map_of (executed (remember_all runs p)) d = map_of runs d))"
proof -
  have "map_of (executed (remember_all runs q)) d =
      (case map_of (executed q) d of Some u \<Rightarrow> Some u | None \<Rightarrow> map_of runs d)"
    if "length (executed q) + length runs \<le> EXECUTED_MEMORY_CAP" for q d
    using that
  proof (induction runs arbitrary: q)
    case (Cons r runs)
    obtain e t where r: "r = (e, t)" by (cases r)
    have "length (executed (remember_executed e t q)) + length runs \<le> EXECUTED_MEMORY_CAP"
      using Cons.prems remember_executed_length [of q e t] by simp
    from Cons.IH [OF this] show ?case
      using Cons.prems remember_executed_reads [of q e t d]
      by (auto simp: remember_all_def r split: option.split)
  qed (simp add: remember_all_def split: option.split)
  moreover have "executed_ok (remember_all runs p)"
    using assms by (intro remember_all_ok) (simp add: executed_ok_def)
  ultimately show ?thesis using assms by (simp add: executed_ok_def)
qed

theorem executed_memory_witness:
  "let p = new_provider \<lparr>pl_name = ''sui-graphql-sim'', pl_chain = ''sui'', providers = []\<rparr> SuiQuirks ''1'' []
        ''P'' False []
   in map_of (executed (remember_all [(''a'', 1), (''b'', 2), (''a'', 3)] p)) ''a'' = Some 1"
  using executed_memory [of "new_provider \<lparr>pl_name = ''sui-graphql-sim'', pl_chain = ''sui'',
      providers = []\<rparr> SuiQuirks ''1'' [] ''P'' False []" "[(''a'', 1), (''b'', 2), (''a'', 3)]"]
  by (simp add: new_provider_def EXECUTED_MEMORY_CAP_def)

end
