(* ===== verification/Topology.thy ===== *)
theory Topology
  imports Prelude
begin

text \<open>
  \<open>topology.py\<close>: the table of every pool, its providers and their endpoints, row by row as the
  source has it, and the two lookups of a port. The table is cut into parts in the order of the
  source; \<open>TOPOLOGY\<close> is their concatenation.
\<close>

type_synonym endpoint_spec = "string \<times> string \<times> int"

text \<open>A row: pool, chain, pid, name, whether it is a backup, group label and endpoints.\<close>

datatype topology_row = Row string string string string bool string "endpoint_spec list"

definition TOPOLOGY_1 :: "topology_row list" where
  "TOPOLOGY_1 =
    [
     Row ''eth-sim'' ''eth'' ''1'' ''EthPrimaryProvider1'' False
      ''voting-group-1'' [(''jsonrpc'', ''http'', 18545), (''jsonrpc'', ''ws'', 18557)],
     Row ''eth-sim'' ''eth'' ''2'' ''EthPrimaryProvider2'' False
      ''voting-group-1'' [(''jsonrpc'', ''http'', 18546), (''jsonrpc'', ''ws'', 18558)],
     Row ''eth-sim'' ''eth'' ''3'' ''EthPrimaryProvider3'' False
      ''voting-group-2'' [(''jsonrpc'', ''http'', 18547), (''jsonrpc'', ''ws'', 18559)],
     Row ''eth-sim'' ''eth'' ''4'' ''EthBackupProvider4'' True
      [] [(''jsonrpc'', ''http'', 18560), (''jsonrpc'', ''ws'', 18572)],
     Row ''eth-sim'' ''eth'' ''5'' ''EthBackupProvider5'' True
      [] [(''jsonrpc'', ''http'', 18561), (''jsonrpc'', ''ws'', 18573)],
     Row ''eth-sim'' ''eth'' ''6'' ''EthBackupProvider6'' True
      [] [(''jsonrpc'', ''http'', 18562), (''jsonrpc'', ''ws'', 18574)],
     Row ''eth-solo-sim'' ''eth'' ''1'' ''EthSoloProvider1'' False
      [] [(''jsonrpc'', ''http'', 18581)],
     Row ''eth-duo-sim'' ''eth'' ''1'' ''EthDuoHighProvider1'' False
      [] [(''jsonrpc'', ''http'', 18586)],
     Row ''eth-duo-sim'' ''eth'' ''2'' ''EthDuoLowProvider2'' False
      [] [(''jsonrpc'', ''http'', 18587)],
     Row ''eth-cv-sim'' ''eth'' ''1'' ''EthCvPrimaryProvider1'' False
      ''voting-group-1'' [(''jsonrpc'', ''http'', 18596)],
     Row ''eth-cv-sim'' ''eth'' ''2'' ''EthCvPrimaryProvider2'' False
      ''voting-group-1'' [(''jsonrpc'', ''http'', 18597)],
     Row ''eth-cv-sim'' ''eth'' ''3'' ''EthCvPrimaryProvider3'' False
      ''voting-group-2'' [(''jsonrpc'', ''http'', 18598)],
     Row ''eth-cv-sim'' ''eth'' ''4'' ''EthCvPrimaryProvider4'' False
      ''voting-group-2'' [(''jsonrpc'', ''http'', 18599)],
     Row ''eth-cv-sim'' ''eth'' ''5'' ''EthCvPrimaryProvider5'' False
      ''voting-group-3'' [(''jsonrpc'', ''http'', 18600)],
     Row ''eth-cv-sim'' ''eth'' ''6'' ''EthCvPrimaryProvider6'' False
      ''voting-group-3'' [(''jsonrpc'', ''http'', 18601)],
     Row ''lava-cv-rest-sim'' ''lava'' ''1'' ''LavaCvRestPrimaryProvider1'' False
      ''voting-group-1'' [(''rest'', ''http'', 18602)],
     Row ''lava-cv-rest-sim'' ''lava'' ''2'' ''LavaCvRestPrimaryProvider2'' False
      ''voting-group-1'' [(''rest'', ''http'', 18603)],
     Row ''lava-cv-rest-sim'' ''lava'' ''3'' ''LavaCvRestPrimaryProvider3'' False
      ''voting-group-2'' [(''rest'', ''http'', 18604)],
     Row ''lava-cv-rest-sim'' ''lava'' ''4'' ''LavaCvRestPrimaryProvider4'' False
      ''voting-group-2'' [(''rest'', ''http'', 18605)],
     Row ''lava-cv-rest-sim'' ''lava'' ''5'' ''LavaCvRestPrimaryProvider5'' False
      ''voting-group-3'' [(''rest'', ''http'', 18606)],
     Row ''lava-cv-rest-sim'' ''lava'' ''6'' ''LavaCvRestPrimaryProvider6'' False
      ''voting-group-3'' [(''rest'', ''http'', 18607)]]"

definition TOPOLOGY_2 :: "topology_row list" where
  "TOPOLOGY_2 =
    [
     Row ''lava-cv-tm-sim'' ''lava'' ''1'' ''LavaCvTmPrimaryProvider1'' False
      ''voting-group-1'' [(''tendermintrpc'', ''http'', 18608)],
     Row ''lava-cv-tm-sim'' ''lava'' ''2'' ''LavaCvTmPrimaryProvider2'' False
      ''voting-group-1'' [(''tendermintrpc'', ''http'', 18609)],
     Row ''lava-cv-tm-sim'' ''lava'' ''3'' ''LavaCvTmPrimaryProvider3'' False
      ''voting-group-2'' [(''tendermintrpc'', ''http'', 18610)],
     Row ''lava-cv-tm-sim'' ''lava'' ''4'' ''LavaCvTmPrimaryProvider4'' False
      ''voting-group-2'' [(''tendermintrpc'', ''http'', 18611)],
     Row ''lava-cv-tm-sim'' ''lava'' ''5'' ''LavaCvTmPrimaryProvider5'' False
      ''voting-group-3'' [(''tendermintrpc'', ''http'', 18612)],
     Row ''lava-cv-tm-sim'' ''lava'' ''6'' ''LavaCvTmPrimaryProvider6'' False
      ''voting-group-3'' [(''tendermintrpc'', ''http'', 18613)],
     Row ''btc-sim'' ''btc'' ''1'' ''BtcPrimaryProvider1'' False
      [] [(''jsonrpc'', ''http'', 18575)],
     Row ''btc-sim'' ''btc'' ''2'' ''BtcPrimaryProvider2'' False
      [] [(''jsonrpc'', ''http'', 18576)],
     Row ''btc-sim'' ''btc'' ''3'' ''BtcPrimaryProvider3'' False
      [] [(''jsonrpc'', ''http'', 18577)],
     Row ''ln-sim'' ''ln'' ''1'' ''LnPrimaryProvider1'' False
      [] [(''jsonrpc'', ''http'', 18578)],
     Row ''ln-sim'' ''ln'' ''2'' ''LnPrimaryProvider2'' False
      [] [(''jsonrpc'', ''http'', 18579)],
     Row ''ln-sim'' ''ln'' ''3'' ''LnPrimaryProvider3'' False
      [] [(''jsonrpc'', ''http'', 18580)],
     Row ''solana-sim'' ''solana'' ''1'' ''SolanaPrimaryProvider1'' False
      [] [(''jsonrpc'', ''http'', 18582)],
     Row ''solana-sim'' ''solana'' ''2'' ''SolanaPrimaryProvider2'' False
      [] [(''jsonrpc'', ''http'', 18583)],
     Row ''solana-sim'' ''solana'' ''3'' ''SolanaPrimaryProvider3'' False
      [] [(''jsonrpc'', ''http'', 18584)],
     Row ''solana-solo-sim'' ''solana'' ''1'' ''SolanaSoloProvider1'' False
      [] [(''jsonrpc'', ''http'', 18585)],
     Row ''lava-sim-grpc'' ''lava'' ''1'' ''LavaGrpcPrimaryProvider1'' False
      ''voting-group-1'' [(''grpc'', ''http2'', 18548)],
     Row ''lava-sim-grpc'' ''lava'' ''2'' ''LavaGrpcPrimaryProvider2'' False
      ''voting-group-1'' [(''grpc'', ''http2'', 18549)],
     Row ''lava-sim-grpc'' ''lava'' ''3'' ''LavaGrpcPrimaryProvider3'' False
      ''voting-group-2'' [(''grpc'', ''http2'', 18550)],
     Row ''lava-sim-grpc'' ''lava'' ''4'' ''LavaGrpcBackupProvider4'' True
      [] [(''grpc'', ''http2'', 18563)],
     Row ''lava-sim-grpc'' ''lava'' ''5'' ''LavaGrpcBackupProvider5'' True
      [] [(''grpc'', ''http2'', 18564)],
     Row ''lava-sim-grpc'' ''lava'' ''6'' ''LavaGrpcBackupProvider6'' True
      [] [(''grpc'', ''http2'', 18565)],
     Row ''lava-sim-rest'' ''lava'' ''1'' ''LavaRestPrimaryProvider1'' False
      ''voting-group-1'' [(''rest'', ''http'', 18551)],
     Row ''lava-sim-rest'' ''lava'' ''2'' ''LavaRestPrimaryProvider2'' False
      ''voting-group-1'' [(''rest'', ''http'', 18552)],
     Row ''lava-sim-rest'' ''lava'' ''3'' ''LavaRestPrimaryProvider3'' False
      ''voting-group-2'' [(''rest'', ''http'', 18553)],
     Row ''lava-sim-rest'' ''lava'' ''4'' ''LavaRestBackupProvider4'' True
      [] [(''rest'', ''http'', 18566)],
     Row ''lava-sim-rest'' ''lava'' ''5'' ''LavaRestBackupProvider5'' True
      [] [(''rest'', ''http'', 18567)],
     Row ''lava-sim-rest'' ''lava'' ''6'' ''LavaRestBackupProvider6'' True
      [] [(''rest'', ''http'', 18568)],
     Row ''lava-sim-tm'' ''lava'' ''1'' ''LavaTmPrimaryProvider1'' False
      ''voting-group-1'' [(''tendermintrpc'', ''http'', 18554)],
     Row ''lava-sim-tm'' ''lava'' ''2'' ''LavaTmPrimaryProvider2'' False
      ''voting-group-1'' [(''tendermintrpc'', ''http'', 18555)],
     Row ''lava-sim-tm'' ''lava'' ''3'' ''LavaTmPrimaryProvider3'' False
      ''voting-group-2'' [(''tendermintrpc'', ''http'', 18556)],
     Row ''lava-sim-tm'' ''lava'' ''4'' ''LavaTmBackupProvider4'' True
      [] [(''tendermintrpc'', ''http'', 18569)],
     Row ''lava-sim-tm'' ''lava'' ''5'' ''LavaTmBackupProvider5'' True
      [] [(''tendermintrpc'', ''http'', 18570)],
     Row ''lava-sim-tm'' ''lava'' ''6'' ''LavaTmBackupProvider6'' True
      [] [(''tendermintrpc'', ''http'', 18571)]]"

definition TOPOLOGY_3 :: "topology_row list" where
  "TOPOLOGY_3 =
    [
     Row ''eth-best-sim'' ''eth'' ''1'' ''EthBestProvider1'' False
      [] [(''jsonrpc'', ''http'', 18588)],
     Row ''eth-best-sim'' ''eth'' ''2'' ''EthBestProvider2'' False
      [] [(''jsonrpc'', ''http'', 18589)],
     Row ''eth-best-sim'' ''eth'' ''3'' ''EthBestProvider3'' False
      [] [(''jsonrpc'', ''http'', 18590)],
     Row ''eth-priority-sim'' ''eth'' ''1'' ''EthPriorityProvider1'' False
      [] [(''jsonrpc'', ''http'', 18591)],
     Row ''eth-priority-sim'' ''eth'' ''2'' ''EthPriorityProvider2'' False
      [] [(''jsonrpc'', ''http'', 18592)],
     Row ''eth-priority-sim'' ''eth'' ''3'' ''EthPriorityProvider3'' False
      [] [(''jsonrpc'', ''http'', 18593)],
     Row ''eth-precedence-sim'' ''eth'' ''1'' ''EthPrecedenceProvider1'' False
      [] [(''jsonrpc'', ''http'', 18594)],
     Row ''eth-precedence-sim'' ''eth'' ''2'' ''EthPrecedenceProvider2'' False
      [] [(''jsonrpc'', ''http'', 18595)],
     Row ''eth-cache-writer-sim'' ''eth'' ''1'' ''EthCacheWriterPrimaryProvider1'' False
      [] [(''jsonrpc'', ''http'', 18614)],
     Row ''eth-cache-writer-sim'' ''eth'' ''2'' ''EthCacheWriterPrimaryProvider2'' False
      [] [(''jsonrpc'', ''http'', 18615)],
     Row ''eth-cache-writer-sim'' ''eth'' ''3'' ''EthCacheWriterPrimaryProvider3'' False
      [] [(''jsonrpc'', ''http'', 18616)],
     Row ''eth-cache-writer-sim'' ''eth'' ''4'' ''EthCacheWriterBackupProvider4'' True
      [] [(''jsonrpc'', ''http'', 18617)],
     Row ''eth-cache-writer-sim'' ''eth'' ''5'' ''EthCacheWriterBackupProvider5'' True
      [] [(''jsonrpc'', ''http'', 18618)],
     Row ''eth-cache-writer-sim'' ''eth'' ''6'' ''EthCacheWriterBackupProvider6'' True
      [] [(''jsonrpc'', ''http'', 18619)],
     Row ''eth-cache-reader-sim'' ''eth'' ''1'' ''EthCacheReaderPrimaryProvider1'' False
      [] [(''jsonrpc'', ''http'', 18620)],
     Row ''eth-cache-reader-sim'' ''eth'' ''2'' ''EthCacheReaderPrimaryProvider2'' False
      [] [(''jsonrpc'', ''http'', 18621)],
     Row ''eth-cache-reader-sim'' ''eth'' ''3'' ''EthCacheReaderPrimaryProvider3'' False
      [] [(''jsonrpc'', ''http'', 18622)],
     Row ''eth-cache-reader-sim'' ''eth'' ''4'' ''EthCacheReaderBackupProvider4'' True
      [] [(''jsonrpc'', ''http'', 18623)],
     Row ''eth-cache-reader-sim'' ''eth'' ''5'' ''EthCacheReaderBackupProvider5'' True
      [] [(''jsonrpc'', ''http'', 18624)],
     Row ''eth-cache-reader-sim'' ''eth'' ''6'' ''EthCacheReaderBackupProvider6'' True
      [] [(''jsonrpc'', ''http'', 18625)],
     Row ''eth-resp-sim'' ''eth'' ''1'' ''EthRespPrimaryProvider1'' False
      [] [(''jsonrpc'', ''http'', 18626)],
     Row ''eth-resp-sim'' ''eth'' ''2'' ''EthRespPrimaryProvider2'' False
      [] [(''jsonrpc'', ''http'', 18627)],
     Row ''eth-resp-sim'' ''eth'' ''3'' ''EthRespPrimaryProvider3'' False
      [] [(''jsonrpc'', ''http'', 18628)],
     Row ''eth-failover-prodlimits-sim'' ''eth'' ''1'' ''EthFailoverProdlimitsPrimaryProvider1'' False
      [] [(''jsonrpc'', ''http'', 18629)],
     Row ''eth-failover-prodlimits-sim'' ''eth'' ''2'' ''EthFailoverProdlimitsPrimaryProvider2'' False
      [] [(''jsonrpc'', ''http'', 18630)],
     Row ''eth-failover-prodlimits-sim'' ''eth'' ''3'' ''EthFailoverProdlimitsPrimaryProvider3'' False
      [] [(''jsonrpc'', ''http'', 18631)],
     Row ''eth-failover-prodlimits-sim'' ''eth'' ''4'' ''EthFailoverProdlimitsBackupProvider4'' True
      [] [(''jsonrpc'', ''http'', 18632)]]"

definition TOPOLOGY_4 :: "topology_row list" where
  "TOPOLOGY_4 =
    [
     Row ''eth-failover-prodlimits-sim'' ''eth'' ''5'' ''EthFailoverProdlimitsBackupProvider5'' True
      [] [(''jsonrpc'', ''http'', 18633)],
     Row ''eth-failover-prodlimits-sim'' ''eth'' ''6'' ''EthFailoverProdlimitsBackupProvider6'' True
      [] [(''jsonrpc'', ''http'', 18634)],
     Row ''eth-failover-timing-sim'' ''eth'' ''1'' ''EthFailoverTimingPrimaryProvider1'' False
      [] [(''jsonrpc'', ''http'', 18635)],
     Row ''eth-failover-timing-sim'' ''eth'' ''2'' ''EthFailoverTimingPrimaryProvider2'' False
      [] [(''jsonrpc'', ''http'', 18636)],
     Row ''eth-failover-timing-sim'' ''eth'' ''3'' ''EthFailoverTimingPrimaryProvider3'' False
      [] [(''jsonrpc'', ''http'', 18637)],
     Row ''eth-failover-twoaddr-sim'' ''eth'' ''1'' ''EthFailoverTwoaddrSoloProvider1'' False
      [] [(''jsonrpc'', ''http'', 18638), (''jsonrpc'', ''http'', 18639)],
     Row ''eth-failover-real-sim'' ''eth'' ''1'' ''EthFailoverRealPrimaryProvider1'' False
      [] [(''jsonrpc'', ''http'', 18640), (''jsonrpc'', ''ws'', 18670)],
     Row ''eth-failover-real-sim'' ''eth'' ''2'' ''EthFailoverRealPrimaryProvider2'' False
      [] [(''jsonrpc'', ''http'', 18641), (''jsonrpc'', ''ws'', 18671)],
     Row ''eth-failover-real-sim'' ''eth'' ''3'' ''EthFailoverRealPrimaryProvider3'' False
      [] [(''jsonrpc'', ''http'', 18642), (''jsonrpc'', ''ws'', 18672)],
     Row ''eth-failover-cv-sim'' ''eth'' ''1'' ''EthFailoverCvPrimaryProvider1'' False
      ''voting-group-1'' [(''jsonrpc'', ''http'', 18643)],
     Row ''eth-failover-cv-sim'' ''eth'' ''2'' ''EthFailoverCvPrimaryProvider2'' False
      ''voting-group-2'' [(''jsonrpc'', ''http'', 18644)]]"

definition TOPOLOGY_5 :: "topology_row list" where
  "TOPOLOGY_5 =
    [
     Row ''eth-failover-cv-sim'' ''eth'' ''3'' ''EthFailoverCvPrimaryProvider3'' False
      ''voting-group-3'' [(''jsonrpc'', ''http'', 18645)],
     Row ''eth-failover-archive-sim'' ''eth'' ''1'' ''EthFailoverArchivePrimaryProvider1'' False
      [] [(''jsonrpc'', ''http'', 18646)],
     Row ''eth-failover-archive-sim'' ''eth'' ''2'' ''EthFailoverArchivePrimaryProvider2'' False
      [] [(''jsonrpc'', ''http'', 18647)],
     Row ''eth-failover-archive-sim'' ''eth'' ''3'' ''EthFailoverArchivePrimaryProvider3'' False
      [] [(''jsonrpc'', ''http'', 18648)],
     Row ''eth-failover-archive-sim'' ''eth'' ''4'' ''EthFailoverArchiveBackupProvider4'' True
      [] [(''jsonrpc'', ''http'', 18649)],
     Row ''eth-failover-archive-sim'' ''eth'' ''5'' ''EthFailoverArchiveBackupProvider5'' True
      [] [(''jsonrpc'', ''http'', 18650)],
     Row ''eth-failover-archive-sim'' ''eth'' ''6'' ''EthFailoverArchiveBackupProvider6'' True
      [] [(''jsonrpc'', ''http'', 18651)],
     Row ''eth-failover-mixed-sim'' ''eth'' ''1'' ''EthFailoverMixedPrimaryProvider1'' False
      [] [(''jsonrpc'', ''http'', 18652)],
     Row ''eth-failover-mixed-sim'' ''eth'' ''2'' ''EthFailoverMixedPrimaryProvider2'' False
      [] [(''jsonrpc'', ''http'', 18653)],
     Row ''eth-failover-mixed-sim'' ''eth'' ''3'' ''EthFailoverMixedPrimaryProvider3'' False
      [] [(''jsonrpc'', ''http'', 18654)],
     Row ''eth-failover-mixed-sim'' ''eth'' ''4'' ''EthFailoverMixedBackupProvider4'' True
      [] [(''jsonrpc'', ''http'', 18655)],
     Row ''eth-failover-mixed-sim'' ''eth'' ''5'' ''EthFailoverMixedBackupProvider5'' True
      [] [(''jsonrpc'', ''http'', 18656)],
     Row ''eth-failover-mixed-sim'' ''eth'' ''6'' ''EthFailoverMixedBackupProvider6'' True
      [] [(''jsonrpc'', ''http'', 18657)],
     Row ''eth-failover-excluded-sim'' ''eth'' ''1'' ''EthFailoverExcludedPrimaryProvider1'' False
      [] [(''jsonrpc'', ''http'', 18658)],
     Row ''eth-failover-excluded-sim'' ''eth'' ''2'' ''EthFailoverExcludedPrimaryProvider2'' False
      [] [(''jsonrpc'', ''http'', 18659)],
     Row ''eth-failover-excluded-sim'' ''eth'' ''3'' ''EthFailoverExcludedBackupProvider3'' True
      [] [(''jsonrpc'', ''http'', 18660)],
     Row ''eth-failover-excluded-sim'' ''eth'' ''4'' ''EthFailoverExcludedBackupProvider4'' True
      [] [(''jsonrpc'', ''http'', 18661)]]"

definition TOPOLOGY_6 :: "topology_row list" where
  "TOPOLOGY_6 =
    [
     Row ''eth-failover-ineligible-sim'' ''eth'' ''1'' ''EthFailoverIneligiblePrimaryProvider1'' False
      [] [(''jsonrpc'', ''http'', 18662)],
     Row ''eth-failover-ineligible-sim'' ''eth'' ''2'' ''EthFailoverIneligiblePrimaryProvider2'' False
      [] [(''jsonrpc'', ''http'', 18663)],
     Row ''eth-failover-ineligible-sim'' ''eth'' ''3'' ''EthFailoverIneligibleBackupProvider3'' True
      [] [(''jsonrpc'', ''http'', 18664)],
     Row ''eth-failover-ineligible-sim'' ''eth'' ''4'' ''EthFailoverIneligibleBackupProvider4'' True
      [] [(''jsonrpc'', ''http'', 18665)],
     Row ''eth-failover-noarchive-sim'' ''eth'' ''1'' ''EthFailoverNoarchivePrimaryProvider1'' False
      [] [(''jsonrpc'', ''http'', 18666)],
     Row ''eth-failover-noarchive-sim'' ''eth'' ''2'' ''EthFailoverNoarchivePrimaryProvider2'' False
      [] [(''jsonrpc'', ''http'', 18667)],
     Row ''eth-failover-noarchive-sim'' ''eth'' ''3'' ''EthFailoverNoarchiveBackupProvider3'' True
      [] [(''jsonrpc'', ''http'', 18668)],
     Row ''eth-failover-noarchive-sim'' ''eth'' ''4'' ''EthFailoverNoarchiveBackupProvider4'' True
      [] [(''jsonrpc'', ''http'', 18669)],
     Row ''eth-failover-benchafter-sim'' ''eth'' ''1'' ''EthFailoverBenchafterPrimaryProvider1'' False
      [] [(''jsonrpc'', ''http'', 18673)],
     Row ''eth-failover-benchafter-sim'' ''eth'' ''2'' ''EthFailoverBenchafterPrimaryProvider2'' False
      [] [(''jsonrpc'', ''http'', 18674)],
     Row ''eth-failover-benchafter-sim'' ''eth'' ''3'' ''EthFailoverBenchafterPrimaryProvider3'' False
      [] [(''jsonrpc'', ''http'', 18675)],
     Row ''lava-failover-rest-sim'' ''lava'' ''1'' ''LavaFailoverRestPrimaryProvider1'' False
      [] [(''rest'', ''http'', 18676)],
     Row ''lava-failover-rest-sim'' ''lava'' ''2'' ''LavaFailoverRestPrimaryProvider2'' False
      [] [(''rest'', ''http'', 18677)],
     Row ''lava-failover-rest-sim'' ''lava'' ''3'' ''LavaFailoverRestPrimaryProvider3'' False
      [] [(''rest'', ''http'', 18678)],
     Row ''lava-failover-rest-sim'' ''lava'' ''4'' ''LavaFailoverRestBackupProvider4'' True
      [] [(''rest'', ''http'', 18679)],
     Row ''lava-failover-rest-sim'' ''lava'' ''5'' ''LavaFailoverRestBackupProvider5'' True
      [] [(''rest'', ''http'', 18680)],
     Row ''lava-failover-rest-sim'' ''lava'' ''6'' ''LavaFailoverRestBackupProvider6'' True
      [] [(''rest'', ''http'', 18681)],
     Row ''lava-failover-grpc-sim'' ''lava'' ''1'' ''LavaFailoverGrpcPrimaryProvider1'' False
      [] [(''grpc'', ''http2'', 18682)],
     Row ''lava-failover-grpc-sim'' ''lava'' ''2'' ''LavaFailoverGrpcPrimaryProvider2'' False
      [] [(''grpc'', ''http2'', 18683)],
     Row ''lava-failover-grpc-sim'' ''lava'' ''3'' ''LavaFailoverGrpcPrimaryProvider3'' False
      [] [(''grpc'', ''http2'', 18684)],
     Row ''lava-failover-grpc-sim'' ''lava'' ''4'' ''LavaFailoverGrpcBackupProvider4'' True
      [] [(''grpc'', ''http2'', 18685)],
     Row ''lava-failover-grpc-sim'' ''lava'' ''5'' ''LavaFailoverGrpcBackupProvider5'' True
      [] [(''grpc'', ''http2'', 18686)],
     Row ''lava-failover-grpc-sim'' ''lava'' ''6'' ''LavaFailoverGrpcBackupProvider6'' True
      [] [(''grpc'', ''http2'', 18687)],
     Row ''eth-failover-sim'' ''eth'' ''1'' ''EthFailoverPrimaryProvider1'' False
      [] [(''jsonrpc'', ''http'', 18688)],
     Row ''eth-failover-sim'' ''eth'' ''2'' ''EthFailoverPrimaryProvider2'' False
      [] [(''jsonrpc'', ''http'', 18689)],
     Row ''eth-failover-sim'' ''eth'' ''3'' ''EthFailoverPrimaryProvider3'' False
      [] [(''jsonrpc'', ''http'', 18690)],
     Row ''eth-failover-sim'' ''eth'' ''4'' ''EthFailoverBackupProvider4'' True
      [] [(''jsonrpc'', ''http'', 18691)],
     Row ''eth-failover-sim'' ''eth'' ''5'' ''EthFailoverBackupProvider5'' True
      [] [(''jsonrpc'', ''http'', 18692)],
     Row ''eth-failover-sim'' ''eth'' ''6'' ''EthFailoverBackupProvider6'' True
      [] [(''jsonrpc'', ''http'', 18693)]]"

definition TOPOLOGY_7 :: "topology_row list" where
  "TOPOLOGY_7 =
    [
     Row ''eth-failover-solo-sim'' ''eth'' ''1'' ''EthFailoverSoloProvider1'' False
      [] [(''jsonrpc'', ''http'', 18694)],
     Row ''btc-failover-sim'' ''btc'' ''1'' ''BtcFailoverPrimaryProvider1'' False
      [] [(''jsonrpc'', ''http'', 18695)],
     Row ''btc-failover-sim'' ''btc'' ''2'' ''BtcFailoverPrimaryProvider2'' False
      [] [(''jsonrpc'', ''http'', 18696)],
     Row ''btc-failover-sim'' ''btc'' ''3'' ''BtcFailoverPrimaryProvider3'' False
      [] [(''jsonrpc'', ''http'', 18697)],
     Row ''solana-failover-sim'' ''solana'' ''1'' ''SolanaFailoverPrimaryProvider1'' False
      [] [(''jsonrpc'', ''http'', 18698)],
     Row ''solana-failover-sim'' ''solana'' ''2'' ''SolanaFailoverPrimaryProvider2'' False
      [] [(''jsonrpc'', ''http'', 18699)],
     Row ''solana-failover-sim'' ''solana'' ''3'' ''SolanaFailoverPrimaryProvider3'' False
      [] [(''jsonrpc'', ''http'', 18700)],
     Row ''eth-idle-sim'' ''eth'' ''1'' ''EthIdlePrimaryProvider1'' False
      [] [(''jsonrpc'', ''http'', 18701)],
     Row ''eth-idle-sim'' ''eth'' ''2'' ''EthIdlePrimaryProvider2'' False
      [] [(''jsonrpc'', ''http'', 18702)],
     Row ''eth-failover-backuparchive-sim'' ''eth'' ''1'' ''EthFailoverBackuparchivePrimaryProvider1'' False
      [] [(''jsonrpc'', ''http'', 18703)],
     Row ''eth-failover-backuparchive-sim'' ''eth'' ''2'' ''EthFailoverBackuparchivePrimaryProvider2'' False
      [] [(''jsonrpc'', ''http'', 18704)],
     Row ''eth-failover-backuparchive-sim'' ''eth'' ''3'' ''EthFailoverBackuparchiveBackupProvider3'' True
      [] [(''jsonrpc'', ''http'', 18705)],
     Row ''eth-failover-backuparchive-sim'' ''eth'' ''4'' ''EthFailoverBackuparchiveBackupProvider4'' True
      [] [(''jsonrpc'', ''http'', 18706)],
     Row ''eth-failover-archiveless-sim'' ''eth'' ''1'' ''EthFailoverArchivelessPrimaryProvider1'' False
      [] [(''jsonrpc'', ''http'', 18707)],
     Row ''eth-failover-archiveless-sim'' ''eth'' ''2'' ''EthFailoverArchivelessPrimaryProvider2'' False
      [] [(''jsonrpc'', ''http'', 18708)],
     Row ''eth-failover-archiveless-sim'' ''eth'' ''3'' ''EthFailoverArchivelessBackupProvider3'' True
      [] [(''jsonrpc'', ''http'', 18709)],
     Row ''eth-failover-archiveless-sim'' ''eth'' ''4'' ''EthFailoverArchivelessBackupProvider4'' True
      [] [(''jsonrpc'', ''http'', 18710)],
     Row ''sui-graphql-sim'' ''sui'' ''1'' ''SuiGraphqlPrimaryProvider1'' False
      [] [(''graphql'', ''http'', 18711)],
     Row ''sui-graphql-sim'' ''sui'' ''2'' ''SuiGraphqlPrimaryProvider2'' False
      [] [(''graphql'', ''http'', 18712)],
     Row ''sui-graphql-sim'' ''sui'' ''3'' ''SuiGraphqlPrimaryProvider3'' False
      [] [(''graphql'', ''http'', 18713)],
     Row ''sui-failover-graphql-sim'' ''sui'' ''1'' ''SuiFailoverGraphqlPrimaryProvider1'' False
      [] [(''graphql'', ''http'', 18714)]]"

definition TOPOLOGY_8 :: "topology_row list" where
  "TOPOLOGY_8 =
    [
     Row ''sui-failover-graphql-sim'' ''sui'' ''2'' ''SuiFailoverGraphqlPrimaryProvider2'' False
      [] [(''graphql'', ''http'', 18715)],
     Row ''sui-failover-graphql-sim'' ''sui'' ''3'' ''SuiFailoverGraphqlPrimaryProvider3'' False
      [] [(''graphql'', ''http'', 18716)],
     Row ''sui-failover-graphql-sim'' ''sui'' ''4'' ''SuiFailoverGraphqlBackupProvider4'' True
      [] [(''graphql'', ''http'', 18717)],
     Row ''sui-failover-graphql-sim'' ''sui'' ''5'' ''SuiFailoverGraphqlBackupProvider5'' True
      [] [(''graphql'', ''http'', 18718)],
     Row ''sui-failover-graphql-sim'' ''sui'' ''6'' ''SuiFailoverGraphqlBackupProvider6'' True
      [] [(''graphql'', ''http'', 18719)],
     Row ''sui-cache-graphql-sim'' ''sui'' ''1'' ''SuiCacheGraphqlPrimaryProvider1'' False
      [] [(''graphql'', ''http'', 18720)],
     Row ''sui-cache-graphql-sim'' ''sui'' ''2'' ''SuiCacheGraphqlPrimaryProvider2'' False
      [] [(''graphql'', ''http'', 18721)],
     Row ''sui-cache-graphql-sim'' ''sui'' ''3'' ''SuiCacheGraphqlPrimaryProvider3'' False
      [] [(''graphql'', ''http'', 18722)],
     Row ''sui-cv-graphql-sim'' ''sui'' ''1'' ''SuiCvGraphqlPrimaryProvider1'' False
      ''voting-group-1'' [(''graphql'', ''http'', 18723)],
     Row ''sui-cv-graphql-sim'' ''sui'' ''2'' ''SuiCvGraphqlPrimaryProvider2'' False
      ''voting-group-1'' [(''graphql'', ''http'', 18724)],
     Row ''sui-cv-graphql-sim'' ''sui'' ''3'' ''SuiCvGraphqlPrimaryProvider3'' False
      ''voting-group-2'' [(''graphql'', ''http'', 18725)],
     Row ''sui-cv-graphql-sim'' ''sui'' ''4'' ''SuiCvGraphqlPrimaryProvider4'' False
      ''voting-group-2'' [(''graphql'', ''http'', 18726)],
     Row ''sui-cv-graphql-sim'' ''sui'' ''5'' ''SuiCvGraphqlPrimaryProvider5'' False
      ''voting-group-3'' [(''graphql'', ''http'', 18727)],
     Row ''sui-cv-graphql-sim'' ''sui'' ''6'' ''SuiCvGraphqlPrimaryProvider6'' False
      ''voting-group-3'' [(''graphql'', ''http'', 18728)],
     Row ''sui-testnet-graphql-sim'' ''suit'' ''1'' ''SuiTestnetGraphqlPrimaryProvider1'' False
      [] [(''graphql'', ''http'', 18729)]]"

definition TOPOLOGY_9 :: "topology_row list" where
  "TOPOLOGY_9 =
    [
     Row ''sui-testnet-graphql-sim'' ''suit'' ''2'' ''SuiTestnetGraphqlPrimaryProvider2'' False
      [] [(''graphql'', ''http'', 18730)],
     Row ''sui-testnet-graphql-sim'' ''suit'' ''3'' ''SuiTestnetGraphqlPrimaryProvider3'' False
      [] [(''graphql'', ''http'', 18731)]]"

definition TOPOLOGY :: "topology_row list" where
  "TOPOLOGY = TOPOLOGY_1 @ TOPOLOGY_2 @ TOPOLOGY_3 @ TOPOLOGY_4 @ TOPOLOGY_5 @ TOPOLOGY_6 @ TOPOLOGY_7 @ TOPOLOGY_8 @ TOPOLOGY_9"

section \<open>Lookups\<close>

datatype topology_error = NoPool | NoProvider | NotServed | ManyAddresses

text \<open>The ports of one row that serve an interface over a transport, in the order of the row.\<close>

definition ports_serving :: "string \<Rightarrow> string \<Rightarrow> endpoint_spec list \<Rightarrow> int list" where
  "ports_serving iface wire eps = map (\<lambda>(i, t, p). p) (filter (\<lambda>(i, t, p). i = iface \<and> t = wire) eps)"

text \<open>The loop over the rows: \<open>seen\<close> says whether a row of the pool was passed.\<close>

fun find_ports :: "string \<Rightarrow> string \<Rightarrow> string \<Rightarrow> string \<Rightarrow> bool \<Rightarrow> topology_row list \<Rightarrow> topology_error + int list" where
  "find_ports pool pid iface wire seen [] = Inl (if seen then NoProvider else NoPool)"
| "find_ports pool pid iface wire seen (Row row_pool chain row_pid name backup grp eps # rs) =
     (if row_pool \<noteq> pool then find_ports pool pid iface wire seen rs
      else if row_pid \<noteq> pid then find_ports pool pid iface wire True rs
      else if ports_serving iface wire eps \<noteq> [] then Inr (ports_serving iface wire eps)
      else Inl NotServed)"

definition ports_of :: "topology_row list \<Rightarrow> string \<Rightarrow> string \<Rightarrow> string \<Rightarrow> string \<Rightarrow> topology_error + int list" where
  "ports_of table pool pid iface wire = find_ports pool pid iface wire False table"

definition port_of :: "topology_row list \<Rightarrow> string \<Rightarrow> string \<Rightarrow> string \<Rightarrow> string \<Rightarrow> topology_error + int" where
  "port_of table pool pid iface wire = (case ports_of table pool pid iface wire of
     Inl e \<Rightarrow> Inl e
   | Inr found \<Rightarrow> if 1 < length found then Inl ManyAddresses else Inr (hd found))"

end
