(* ===== verification/Registry.thy ===== *)
theory Registry
  imports Provider Topology
begin

text \<open>
  \<open>domain/registry.py\<close>: the live objects that the topology table declares, and the checks that
  refuse a table.

  The errors of the source name the offending row; here each is a constructor. A port maps to
  the key of its provider and the endpoint, where the source holds a reference to the provider.
\<close>

datatype registry_error =
    BadPoolName | BadPid | UnknownChain | NoEndpoints | UnknownInterface | UnknownTransport | BadPort
  | TwoChains | DuplicatePort | DuplicateProvider

type_synonym provider_id = "string \<times> string"

record registry =
  pools :: "(string, pool) dict"
  by_port_table :: "(int, provider_id \<times> endpoint) dict"

definition new_registry :: registry where
  "new_registry = \<lparr>pools = [], by_port_table = []\<rparr>"

section \<open>Lookups\<close>

definition find_provider :: "registry \<Rightarrow> string \<Rightarrow> string \<Rightarrow> pyerr + provider" where
  "find_provider reg pl i = (case map_of (pools reg) pl of
     None \<Rightarrow> Inl KeyError
   | Some p \<Rightarrow> (case map_of (providers p) i of None \<Rightarrow> Inl KeyError | Some x \<Rightarrow> Inr x))"

definition by_port :: "registry \<Rightarrow> int \<Rightarrow> pyerr + provider_id \<times> endpoint" where
  "by_port reg prt = (case map_of (by_port_table reg) prt of None \<Rightarrow> Inl KeyError | Some x \<Rightarrow> Inr x)"

definition all_providers :: "registry \<Rightarrow> provider list" where
  "all_providers reg = concat (map (\<lambda>(n, pl). map snd (providers pl)) (pools reg))"

definition registry_ports :: "registry \<Rightarrow> int list" where
  "registry_ports reg = sort (dict_keys (by_port_table reg))"

section \<open>Building\<close>

fun spec_refused :: "endpoint_spec \<Rightarrow> registry_error option" where
  "spec_refused (iface, wire, prt) =
     (if iface \<notin> set INTERFACES then Some UnknownInterface
      else if wire \<notin> set TRANSPORTS then Some UnknownTransport
      else if prt \<le> 0 then Some BadPort
      else None)"

definition validate_row :: "string \<Rightarrow> string \<Rightarrow> string \<Rightarrow> endpoint_spec list \<Rightarrow> registry_error option" where
  "validate_row pl chain i specs =
     (if pl = [] \<or> CHR '':'' \<in> set pl then Some BadPoolName
      else if i = [] \<or> CHR '':'' \<in> set i then Some BadPid
      else if chain \<notin> set (dict_keys QUIRKS_BY_CHAIN) then Some UnknownChain
      else if specs = [] then Some NoEndpoints
      else first_refusal spec_refused specs)"

fun endpoint_of :: "endpoint_spec \<Rightarrow> endpoint" where
  "endpoint_of (iface, wire, prt) = \<lparr>interface = iface, transport = wire, port = prt\<rparr>"

text \<open>One row: the pool is found or made, its chain is compared, no port may be taken, the
  provider is added and its ports are written.\<close>

definition add_row :: "topology_row \<Rightarrow> registry \<Rightarrow> registry_error + registry" where
  "add_row row reg = (case row of Row pl chain i name backup grp specs \<Rightarrow>
     (case validate_row pl chain i specs of
        Some e \<Rightarrow> Inl e
      | None \<Rightarrow>
          let pool = (case map_of (pools reg) pl of
                 None \<Rightarrow> \<lparr>pl_name = pl, pl_chain = chain, providers = []\<rparr> | Some p \<Rightarrow> p);
              eps = map endpoint_of specs
          in if pl_chain pool \<noteq> chain then Inl TwoChains
             else if list_ex (\<lambda>ep. map_of (by_port_table reg) (port ep) \<noteq> None) eps then Inl DuplicatePort
             else (case add_provider i eps name backup grp pool of
                     Inl e \<Rightarrow> Inl DuplicateProvider
                   | Inr (p, pool') \<Rightarrow>
                       Inr \<lparr>pools = AList.update pl pool' (pools reg),
                            by_port_table =
                              foldl (\<lambda>t ep. AList.update (port ep) ((pl, i), ep) t) (by_port_table reg) eps\<rparr>)))"

fun add_rows :: "topology_row list \<Rightarrow> registry \<Rightarrow> registry_error + registry" where
  "add_rows [] reg = Inr reg"
| "add_rows (r # rs) reg = bind_r (add_row r reg) (add_rows rs)"

definition build_registry :: "topology_row list \<Rightarrow> registry_error + registry" where
  "build_registry table = add_rows table new_registry"

section \<open>What a built registry holds\<close>

fun row_key :: "topology_row \<Rightarrow> provider_id" where
  "row_key (Row pl chain i name backup grp specs) = (pl, i)"

fun row_chain :: "topology_row \<Rightarrow> string" where
  "row_chain (Row pl chain i name backup grp specs) = chain"

fun row_endpoints :: "topology_row \<Rightarrow> endpoint list" where
  "row_endpoints (Row pl chain i name backup grp specs) = map endpoint_of specs"

fun row_valid :: "topology_row \<Rightarrow> bool" where
  "row_valid (Row pl chain i name backup grp specs) \<longleftrightarrow> validate_row pl chain i specs = None"

text \<open>The provider that a row declares: at the defaults, with a fresh log.\<close>

fun row_provider :: "topology_row \<Rightarrow> provider" where
  "row_provider (Row pl chain i name backup grp specs) =
     new_provider \<lparr>pl_name = pl, pl_chain = chain, providers = []\<rparr> (projr (quirks_for chain)) i
       (map endpoint_of specs) name backup grp"

abbreviation row_ports :: "topology_row \<Rightarrow> int list" where
  "row_ports r \<equiv> map port (row_endpoints r)"

text \<open>What a row must satisfy after the rows before it.\<close>

definition row_fits :: "topology_row list \<Rightarrow> topology_row \<Rightarrow> bool" where
  "row_fits before r \<longleftrightarrow> row_valid r \<and> row_key r \<notin> row_key ` set before
     \<and> (\<forall>q \<in> set before. fst (row_key q) = fst (row_key r) \<longrightarrow> row_chain q = row_chain r)
     \<and> (\<forall>q \<in> set before. set (row_ports q) \<inter> set (row_ports r) = {})"

fun table_fits :: "topology_row list \<Rightarrow> topology_row list \<Rightarrow> bool" where
  "table_fits before [] = True"
| "table_fits before (r # rs) = (row_fits before r \<and> table_fits (before @ [r]) rs)"

text \<open>The content of a registry is the list of the rows it was built from.\<close>

definition reg_rep :: "topology_row list \<Rightarrow> registry \<Rightarrow> bool" where
  "reg_rep done reg \<longleftrightarrow>
     (\<forall>pl p. map_of (pools reg) pl = Some p \<longrightarrow> pl_name p = pl \<and> (\<exists>r \<in> set done. fst (row_key r) = pl))
     \<and> (\<forall>r \<in> set done. \<exists>p. map_of (pools reg) (fst (row_key r)) = Some p \<and> pl_chain p = row_chain r)
     \<and> (\<forall>pl i x. find_provider reg pl i = Inr x \<longleftrightarrow> (\<exists>r \<in> set done. row_key r = (pl, i) \<and> x = row_provider r))
     \<and> distinct (map row_key done)
     \<and> (\<forall>prt k ep. map_of (by_port_table reg) prt = Some (k, ep) \<longrightarrow>
          port ep = prt \<and> (\<exists>r \<in> set done. row_key r = k \<and> ep \<in> set (row_endpoints r)))
     \<and> (\<forall>r \<in> set done. \<forall>prt \<in> set (row_ports r). \<exists>ep. map_of (by_port_table reg) prt = Some (row_key r, ep))"

lemma reg_repD:
  assumes "reg_rep done reg"
  shows "map_of (pools reg) pl = Some p \<Longrightarrow> pl_name p = pl \<and> (\<exists>r \<in> set done. fst (row_key r) = pl)"
    and "r \<in> set done \<Longrightarrow> \<exists>p. map_of (pools reg) (fst (row_key r)) = Some p \<and> pl_chain p = row_chain r"
    and "find_provider reg pl i = Inr x \<longleftrightarrow> (\<exists>r \<in> set done. row_key r = (pl, i) \<and> x = row_provider r)"
    and "distinct (map row_key done)"
    and "map_of (by_port_table reg) prt = Some (k, ep) \<Longrightarrow>
      port ep = prt \<and> (\<exists>r \<in> set done. row_key r = k \<and> ep \<in> set (row_endpoints r))"
    and "r \<in> set done \<Longrightarrow> prt \<in> set (row_ports r) \<Longrightarrow> \<exists>ep. map_of (by_port_table reg) prt = Some (row_key r, ep)"
  using assms unfolding reg_rep_def by blast+

lemma reg_rep_new: "reg_rep [] new_registry"
  by (simp add: reg_rep_def new_registry_def find_provider_def)

lemma find_Some_mem: "find P xs = Some x \<Longrightarrow> x \<in> set xs \<and> P x"
  by (auto simp: find_Some_iff)

lemma by_port_writes:
  "map_of (foldl (\<lambda>t ep. AList.update (port ep) (k, ep) t) t0 eps) prt =
     (case find (\<lambda>ep. port ep = prt) (rev eps) of Some ep \<Rightarrow> Some (k, ep) | None \<Rightarrow> map_of t0 prt)"
  by (induction eps rule: rev_induct) (auto simp: map_of_update)

text \<open>The ports of a row are taken when a port of an earlier row is among them.\<close>

lemma port_taken_iff:
  assumes "reg_rep done reg"
  shows "map_of (by_port_table reg) prt \<noteq> None \<longleftrightarrow> (\<exists>r \<in> set done. prt \<in> set (row_ports r))"
proof (cases "map_of (by_port_table reg) prt")
  case None
  then show ?thesis using reg_repD(6) [OF assms, of _ prt] by auto
next
  case (Some a)
  then show ?thesis using reg_repD(5) [OF assms, of prt "fst a" "snd a"] by auto
qed

lemma quirks_for_known: "chain \<in> set (dict_keys QUIRKS_BY_CHAIN) \<Longrightarrow> \<exists>qc. quirks_for chain = Inr qc"
  by (cases "map_of QUIRKS_BY_CHAIN chain") (auto simp: quirks_for_def map_of_eq_None_iff)

lemma row_valid_quirks: "row_valid r \<Longrightarrow> \<exists>qc. quirks_for (row_chain r) = Inr qc"
  by (cases r) (auto simp: validate_row_def quirks_for_known split: if_splits)

text \<open>The pool that a row joins: the one of its name, or a new one of its chain.\<close>

definition row_pool :: "registry \<Rightarrow> topology_row \<Rightarrow> pool" where
  "row_pool reg r = (case map_of (pools reg) (fst (row_key r)) of
     None \<Rightarrow> \<lparr>pl_name = fst (row_key r), pl_chain = row_chain r, providers = []\<rparr> | Some p \<Rightarrow> p)"

lemma row_pool_facts:
  assumes "reg_rep done reg"
  shows "pl_name (row_pool reg r) = fst (row_key r)"
    and "pl_chain (row_pool reg r) = row_chain r \<longleftrightarrow>
      (\<forall>q \<in> set done. fst (row_key q) = fst (row_key r) \<longrightarrow> row_chain q = row_chain r)"
    and "map_of (providers (row_pool reg r)) (snd (row_key r)) \<noteq> None \<longleftrightarrow> row_key r \<in> row_key ` set done"
proof -
  let ?pl = "fst (row_key r)" and ?i = "snd (row_key r)"
  show "pl_name (row_pool reg r) = ?pl"
    using reg_repD(1) [OF assms] by (auto simp: row_pool_def split: option.split)
  show "pl_chain (row_pool reg r) = row_chain r \<longleftrightarrow>
      (\<forall>q \<in> set done. fst (row_key q) = ?pl \<longrightarrow> row_chain q = row_chain r)"
    using reg_repD(1) [OF assms, of ?pl] reg_repD(2) [OF assms]
    by (cases "map_of (pools reg) ?pl") (fastforce simp: row_pool_def)+
  have "map_of (providers (row_pool reg r)) ?i = Some x \<longleftrightarrow> find_provider reg ?pl ?i = Inr x" for x
    by (auto simp: row_pool_def find_provider_def split: option.splits)
  then have "map_of (providers (row_pool reg r)) ?i \<noteq> None \<longleftrightarrow> (\<exists>x. find_provider reg ?pl ?i = Inr x)"
    by (metis not_None_eq)
  also have "\<dots> \<longleftrightarrow> row_key r \<in> row_key ` set done"
    using reg_repD(3) [OF assms, of ?pl ?i] by (simp add: image_iff) metis
  finally show "map_of (providers (row_pool reg r)) ?i \<noteq> None \<longleftrightarrow> row_key r \<in> row_key ` set done" .
qed

text \<open>\<open>add_row\<close> with its decisions named.\<close>

lemma add_row_alt:
  "add_row r reg =
    (if \<not> row_valid r then add_row r reg
     else if pl_chain (row_pool reg r) \<noteq> row_chain r then Inl TwoChains
     else if \<exists>prt \<in> set (row_ports r). map_of (by_port_table reg) prt \<noteq> None then Inl DuplicatePort
     else if map_of (providers (row_pool reg r)) (snd (row_key r)) \<noteq> None
       \<or> (\<exists>e. quirks_for (pl_chain (row_pool reg r)) = Inl e) then Inl DuplicateProvider
     else Inr \<lparr>pools = AList.update (fst (row_key r))
         ((row_pool reg r)\<lparr>providers := AList.update (snd (row_key r))
            ((row_provider r)\<lparr>pool_name := pl_name (row_pool reg r),
                p_log := (p_log (row_provider r))\<lparr>log_pool := pl_name (row_pool reg r)\<rparr>\<rparr>)
            (providers (row_pool reg r))\<rparr>) (pools reg),
        by_port_table = foldl (\<lambda>t ep. AList.update (port ep) (row_key r, ep) t) (by_port_table reg) (row_endpoints r)\<rparr>)"
proof -
  obtain pl chain i name backup grp specs where r: "r = Row pl chain i name backup grp specs"
    by (cases r)
  show ?thesis
    by (cases "quirks_for chain")
      (auto simp: r add_row_def row_pool_def add_provider_def new_provider_def new_log_def Let_def list_ex_iff
        split: option.splits)
qed

lemma add_row_invalid: "\<not> row_valid r \<Longrightarrow> \<exists>e. add_row r reg = Inl e"
  by (cases r) (auto simp: add_row_def)

lemma add_row_refused:
  assumes rep: "reg_rep done reg" and "\<not> row_fits done r"
  shows "\<exists>e. add_row r reg = Inl e"
proof (cases "row_valid r")
  case True
  then have "pl_chain (row_pool reg r) \<noteq> row_chain r
      \<or> (\<exists>prt \<in> set (row_ports r). map_of (by_port_table reg) prt \<noteq> None)
      \<or> map_of (providers (row_pool reg r)) (snd (row_key r)) \<noteq> None"
    using assms(2) row_pool_facts(2,3) [OF rep, of r] port_taken_iff [OF rep] unfolding row_fits_def by blast
  with True show ?thesis by (subst add_row_alt) auto
qed (rule add_row_invalid)

lemma find_provider_update:
  "find_provider \<lparr>pools = AList.update pl (p\<lparr>providers := AList.update i x (providers p)\<rparr>) (pools reg), by_port_table = t\<rparr> pl' i'
   = (if pl' = pl then (if i' = i then Inr x else (case map_of (providers p) i' of None \<Rightarrow> Inl KeyError | Some y \<Rightarrow> Inr y))
      else find_provider reg pl' i')"
  by (simp add: find_provider_def map_of_update)

lemma add_row_accepted:
  assumes rep: "reg_rep done reg" and fits: "row_fits done r"
  shows "\<exists>reg'. add_row r reg = Inr reg' \<and> reg_rep (done @ [r]) reg'"
proof -
  let ?k = "row_key r" and ?p = "row_pool reg r"
  let ?t = "foldl (\<lambda>t ep. AList.update (port ep) (?k, ep) t) (by_port_table reg) (row_endpoints r)"
  let ?reg = "\<lparr>pools = AList.update (fst ?k) (?p\<lparr>providers := AList.update (snd ?k) (row_provider r) (providers ?p)\<rparr>)
      (pools reg), by_port_table = ?t\<rparr>"
  have valid: "row_valid r" and new: "?k \<notin> row_key ` set done"
    and chain: "pl_chain ?p = row_chain r" and name: "pl_name ?p = fst ?k"
    and free: "\<And>prt. prt \<in> set (row_ports r) \<Longrightarrow> map_of (by_port_table reg) prt = None"
    using fits row_pool_facts(1,2) [OF rep, of r] port_taken_iff [OF rep] unfolding row_fits_def by blast+
  have same: "(row_provider r)\<lparr>pool_name := fst ?k, p_log := (p_log (row_provider r))\<lparr>log_pool := fst ?k\<rparr>\<rparr>
      = row_provider r"
    by (cases r) (simp add: new_provider_def new_log_def)
  have step: "add_row r reg = Inr ?reg"
    using valid chain name free row_pool_facts(3) [OF rep, of r] new row_valid_quirks [OF valid]
    by (subst add_row_alt) (auto simp: same)
  have find: "find_provider ?reg pl i = (if (pl, i) = ?k then Inr (row_provider r) else find_provider reg pl i)" for pl i
  proof -
    have "find_provider reg (fst ?k) j = (case map_of (providers ?p) j of None \<Rightarrow> Inl KeyError | Some y \<Rightarrow> Inr y)" for j
      by (simp add: row_pool_def find_provider_def split: option.split)
    then show ?thesis by (simp add: find_provider_update prod_eq_iff)
  qed
  have tab: "map_of ?t prt = (case find (\<lambda>ep. port ep = prt) (rev (row_endpoints r)) of
      Some ep \<Rightarrow> Some (?k, ep) | None \<Rightarrow> map_of (by_port_table reg) prt)" for prt
    by (rule by_port_writes)
  have "reg_rep (done @ [r]) ?reg" unfolding reg_rep_def
  proof (intro conjI allI impI ballI)
    fix pl p assume "map_of (pools ?reg) pl = Some p"
    then show "pl_name p = pl" and "\<exists>q \<in> set (done @ [r]). fst (row_key q) = pl"
      using reg_repD(1) [OF rep] name by (auto simp: map_of_update split: if_splits)
  next
    fix q assume "q \<in> set (done @ [r])"
    then show "\<exists>p. map_of (pools ?reg) (fst (row_key q)) = Some p \<and> pl_chain p = row_chain q"
      using reg_repD(2) [OF rep, of q] chain fits
      by (auto simp: map_of_update row_fits_def)
  next
    fix pl i x
    show "find_provider ?reg pl i = Inr x \<longleftrightarrow> (\<exists>q \<in> set (done @ [r]). row_key q = (pl, i) \<and> x = row_provider q)"
      using reg_repD(3) [OF rep, of pl i x] new by (auto simp: find image_iff)
  next
    show "distinct (map row_key (done @ [r]))" using reg_repD(4) [OF rep] new by auto
  next
    fix prt k ep assume "map_of (by_port_table ?reg) prt = Some (k, ep)"
    then show "port ep = prt" and "\<exists>q \<in> set (done @ [r]). row_key q = k \<and> ep \<in> set (row_endpoints q)"
      using reg_repD(5) [OF rep, of prt k ep]
      by (auto simp: tab split: option.splits dest!: find_Some_mem)
  next
    fix q prt assume q: "q \<in> set (done @ [r])" "prt \<in> set (row_ports q)"
    show "\<exists>ep. map_of (by_port_table ?reg) prt = Some (row_key q, ep)"
    proof (cases "find (\<lambda>ep. port ep = prt) (rev (row_endpoints r))")
      case None
      then have "prt \<notin> set (row_ports r)" by (auto simp: find_None_iff)
      with q have "q \<in> set done" by auto
      with q None show ?thesis using reg_repD(6) [OF rep, of q prt] tab [of prt] by simp
    next
      case (Some ep)
      then have "prt \<in> set (row_ports r)" by (auto dest!: find_Some_mem)
      then have "q \<notin> set done" using reg_repD(6) [OF rep, of q prt] free [of prt] q by auto
      with q Some show ?thesis using tab [of prt] by simp
    qed
  qed
  with step show ?thesis by blast
qed

lemma add_rows_spec:
  "reg_rep done reg \<Longrightarrow> case add_rows rs reg of
     Inr reg' \<Rightarrow> table_fits done rs \<and> reg_rep (done @ rs) reg' | Inl e \<Rightarrow> \<not> table_fits done rs"
proof (induction rs arbitrary: "done" reg)
  case (Cons r rs)
  show ?case
  proof (cases "row_fits done r")
    case True
    with Cons.prems obtain reg' where "add_row r reg = Inr reg'" "reg_rep (done @ [r]) reg'"
      using add_row_accepted by blast
    with True Cons.IH [of "done @ [r]" reg'] show ?thesis by (simp split: sum.splits)
  next
    case False
    with Cons.prems obtain e where "add_row r reg = Inl e" using add_row_refused by blast
    with False show ?thesis by simp
  qed
qed simp

lemma build_registry_rep: "build_registry table = Inr reg \<Longrightarrow> table_fits [] table \<and> reg_rep table reg"
  using add_rows_spec [OF reg_rep_new, of table] by (simp add: build_registry_def)

lemma build_registry_accepts: "table_fits [] table \<Longrightarrow> \<exists>reg. build_registry table = Inr reg"
  using add_rows_spec [OF reg_rep_new, of table] by (auto simp: build_registry_def split: sum.splits)

text \<open>
  C11. A registry that builds holds exactly what its table declares: no two rows have the same
  pool and pid, every row is found under its pool and pid as a provider at the defaults with the
  endpoints of the row, every port of a row leads back to that provider and to an endpoint on
  that port, so no two providers share a port, and nothing else is found.
\<close>

theorem build_registry_correct:
  assumes "build_registry table = Inr reg"
  shows "distinct (map row_key table)
    \<and> (\<forall>pl i x. find_provider reg pl i = Inr x \<longleftrightarrow> (\<exists>r \<in> set table. row_key r = (pl, i) \<and> x = row_provider r))
    \<and> (\<forall>prt k ep. by_port reg prt = Inr (k, ep) \<longrightarrow>
         port ep = prt \<and> (\<exists>r \<in> set table. row_key r = k \<and> ep \<in> set (row_endpoints r)))
    \<and> (\<forall>r \<in> set table. \<forall>prt \<in> set (row_ports r). \<exists>ep. by_port reg prt = Inr (row_key r, ep))"
proof -
  from assms have rep: "reg_rep table reg" by (simp add: build_registry_rep)
  have port: "by_port reg prt = Inr (k, ep) \<longleftrightarrow> map_of (by_port_table reg) prt = Some (k, ep)" for prt k ep
    by (auto simp: by_port_def split: option.splits)
  show ?thesis
    unfolding port using reg_repD(4) [OF rep] reg_repD(3) [OF rep] reg_repD(5) [OF rep] reg_repD(6) [OF rep]
    by (intro conjI) blast+
qed

definition sample_table :: "topology_row list" where
  "sample_table =
    [Row ''eth-sim'' ''eth'' ''1'' ''EthPrimaryProvider1'' False ''voting-group-1''
       [(''jsonrpc'', ''http'', 18545), (''jsonrpc'', ''ws'', 18557)],
     Row ''btc-sim'' ''btc'' ''1'' ''BtcPrimaryProvider1'' False [] [(''jsonrpc'', ''http'', 18575)]]"

theorem build_registry_correct_witness:
  "\<exists>reg ep. build_registry sample_table = Inr reg \<and> by_port reg 18557 = Inr ((''eth-sim'', ''1''), ep)"
proof -
  have "table_fits [] sample_table" by code_simp
  then obtain reg where "build_registry sample_table = Inr reg" using build_registry_accepts by blast
  from build_registry_correct [OF this] this show ?thesis by (force simp: sample_table_def)
qed

section \<open>The table of the simulator\<close>

lemma table_fitsI:
  assumes "list_all row_valid rs" and "distinct (map row_key (before @ rs))"
    and "distinct (concat (map row_ports (before @ rs)))"
    and "\<forall>r \<in> set (before @ rs). row_chain r = f (fst (row_key r))"
  shows "table_fits before rs"
  using assms
proof (induction rs arbitrary: before)
  case (Cons r rs)
  have "set (row_ports q) \<inter> set (row_ports r) = {}" if "q \<in> set before" for q
    using Cons.prems(3) that by (simp add: Int_Un_distrib) blast
  moreover have "row_valid r" and "row_key r \<notin> row_key ` set before" using Cons.prems(1,2) by auto
  ultimately have "row_fits before r" using Cons.prems(4) unfolding row_fits_def by simp
  moreover have "table_fits (before @ [r]) rs" using Cons.prems by (intro Cons.IH) auto
  ultimately show ?case by simp
qed simp

text \<open>The chain that the name of a pool of the table starts with.\<close>

definition pool_family :: "string \<Rightarrow> string" where
  "pool_family pl =
     (if starts_with ''sui-testnet-'' pl then ''suit'' else takeWhile (\<lambda>c. c \<noteq> CHR ''-'') pl)"

lemma topology_rows_valid: "list_all row_valid TOPOLOGY"
  by code_simp

lemma topology_ports_distinct: "distinct (concat (map row_ports TOPOLOGY))"
  by code_simp

lemma topology_keys_distinct: "distinct (map row_key TOPOLOGY)"
proof (rule distinct_key_runs)
  show "distinct (map fst (key_runs (map row_key TOPOLOGY)))" by code_simp
  show "list_all (\<lambda>(k, vs). distinct vs) (key_runs (map row_key TOPOLOGY))" by code_simp
qed

lemma topology_chains: "list_all (\<lambda>r. row_chain r = pool_family (fst (row_key r))) TOPOLOGY"
  by code_simp

text \<open>
  The shipped table starts: \<open>build_registry\<close> accepts all of its rows, and its listener ports
  are pairwise different, so each of them leads to the one provider that declares it.
\<close>

theorem topology_builds:
  "\<exists>reg. build_registry TOPOLOGY = Inr reg
     \<and> (\<forall>r \<in> set TOPOLOGY. \<forall>ep \<in> set (row_endpoints r). by_port reg (port ep) = Inr (row_key r, ep))"
proof -
  have "table_fits [] TOPOLOGY"
    using topology_rows_valid topology_keys_distinct topology_ports_distinct topology_chains
    by (intro table_fitsI [where f = pool_family]) (simp_all add: list_all_iff)
  then obtain reg where reg: "build_registry TOPOLOGY = Inr reg" using build_registry_accepts by blast
  then have rep: "reg_rep TOPOLOGY reg" by (simp add: build_registry_rep)
  have "by_port reg (port ep) = Inr (row_key r, ep)"
    if r: "r \<in> set TOPOLOGY" and ep: "ep \<in> set (row_endpoints r)" for r ep
  proof -
    from reg_repD(6) [OF rep r, of "port ep"] ep obtain ep' where
      tab: "map_of (by_port_table reg) (port ep) = Some (row_key r, ep')" by auto
    from reg_repD(5) [OF rep tab] obtain q where "port ep' = port ep" "q \<in> set TOPOLOGY"
      "row_key q = row_key r" "ep' \<in> set (row_endpoints q)" by auto
    moreover have "q = r"
      using topology_keys_distinct calculation(2,3) r by (metis distinct_map inj_onD)
    moreover have "distinct (row_ports r)"
      using topology_ports_distinct r by (simp add: distinct_concat_iff)
    ultimately have "ep' = ep" using ep by (simp add: distinct_map inj_on_def)
    with tab show ?thesis by (simp add: by_port_def)
  qed
  with reg show ?thesis by blast
qed

theorem topology_builds_witness:
  "\<exists>reg. build_registry TOPOLOGY = Inr reg \<and> by_port reg 18545
     = Inr ((''eth-sim'', ''1''), \<lparr>interface = ''jsonrpc'', transport = ''http'', port = 18545\<rparr>)"
proof -
  let ?r = "Row ''eth-sim'' ''eth'' ''1'' ''EthPrimaryProvider1'' False ''voting-group-1''
      [(''jsonrpc'', ''http'', 18545), (''jsonrpc'', ''ws'', 18557)]"
  have "?r \<in> set TOPOLOGY" by (simp add: TOPOLOGY_def TOPOLOGY_1_def)
  moreover obtain reg where reg: "build_registry TOPOLOGY = Inr reg"
    and all: "\<forall>r \<in> set TOPOLOGY. \<forall>ep \<in> set (row_endpoints r). by_port reg (port ep) = Inr (row_key r, ep)"
    using topology_builds by blast
  ultimately have "\<forall>ep \<in> set (row_endpoints ?r). by_port reg (port ep) = Inr (row_key ?r, ep)" by blast
  with reg show ?thesis by simp
qed

text \<open>
  The check for a port used twice compares a row with the rows before it only: a table whose
  one row serves two endpoints on the same port is accepted, and the later endpoint takes the port.
\<close>

theorem repeated_port_in_one_row_accepted:
  "\<exists>reg. build_registry [Row ''eth-sim'' ''eth'' ''1'' ''P'' False [] [(''jsonrpc'', ''http'', 18545), (''jsonrpc'', ''ws'', 18545)]]
       = Inr reg
     \<and> by_port reg 18545 = Inr ((''eth-sim'', ''1''), \<lparr>interface = ''jsonrpc'', transport = ''ws'', port = 18545\<rparr>)"
  by (simp add: build_registry_def new_registry_def add_row_def validate_row_def quirks_for_def QUIRKS_BY_CHAIN_def
      add_provider_def by_port_def INTERFACES_def TRANSPORTS_def Let_def)

end
