(* ===== verification/FaultPolicy.thy ===== *)
theory FaultPolicy
  imports Provider
begin

text \<open>
  \<open>fault_policy.py\<close>: which endpoints a scenario targets, the window of a \<open>fail_first_n\<close>
  fault, and the verdict of one request. A scenario is the snapshot of a configuration object.

  The one random number that the ladder draws is an argument, a number below 1. An operation
  that would raise in Python returns \<open>Inl\<close> of the exception: the control API admits values that
  these comparisons refuse.
\<close>

datatype verdict_kind = KNone | KDown | KHang | KDrop | KRateLimit | KError

record verdict =
  kind :: verdict_kind
  v_status :: pyval
  v_error_code :: pyval
  v_error_message :: pyval
  v_drop_at :: pyval
  v_rate_limit_body :: pyval
  v_rate_limit_style :: pyval
  v_error_body :: pyval

definition plain_verdict :: "verdict_kind \<Rightarrow> verdict" where
  "plain_verdict k = \<lparr>kind = k, v_status = VInt 200, v_error_code = VInt 0, v_error_message = VStr [],
     v_drop_at = VStr ''before_headers'', v_rate_limit_body = VStr [], v_rate_limit_style = VStr ''status'',
     v_error_body = VNone\<rparr>"

definition NONE_VERDICT :: verdict where
  "NONE_VERDICT = plain_verdict KNone"

text \<open>\<open>x is None or item in x\<close>.\<close>

definition filter_admits :: "pyval \<Rightarrow> pyval \<Rightarrow> pyerr + bool" where
  "filter_admits item flt = (if flt = VNone then Inr True else py_in item flt)"

definition targets :: "sdict \<Rightarrow> endpoint \<Rightarrow> pyerr + bool" where
  "targets sc ep =
     bind_r (filter_admits (VStr (transport ep)) (get_or sc ''transports'' VNone)) (\<lambda>wire_ok.
       if wire_ok then filter_admits (VInt (port ep)) (get_or sc ''ports'' VNone) else Inr False)"

definition port_closed :: "sdict \<Rightarrow> endpoint \<Rightarrow> pyerr + bool" where
  "port_closed sc ep =
     (if get_or sc ''mode'' VNone = VStr ''port_closed'' then targets sc ep else Inr False)"

definition resolve_mode :: "sdict \<Rightarrow> endpoint \<Rightarrow> provider \<Rightarrow> pyerr + (bool \<times> pyval) \<times> provider" where
  "resolve_mode sc ep p =
     bind_r (targets sc ep) (\<lambda>targeted.
       let mode = get_or sc ''mode'' (VStr ''success'');
           n = get_or sc ''fail_first_n'' (VInt 0)
       in bind_r (py_lt (VInt 0) n) (\<lambda>windowed.
         if windowed \<and> targeted then
           (case consume_fail p of (count, p') \<Rightarrow>
             bind_r (py_lt n (VInt count)) (\<lambda>past.
               Inr ((True, if past then get_or sc ''then_mode'' (VStr ''success'') else mode), p')))
         else if \<not> targeted then Inr ((False, VStr ''success''), p)
         else Inr ((True, mode), p)))"

definition error_verdict :: "sdict \<Rightarrow> verdict" where
  "error_verdict sc = (plain_verdict KError)\<lparr>
     v_status := get_or sc ''http_status'' (VInt 200),
     v_error_code := get_or sc ''error_code'' (VInt (-32000)),
     v_error_message := get_or sc ''error_message'' (VStr ''Internal error''),
     v_error_body := get_or sc ''error_body'' VNone\<rparr>"

definition ladder :: "rat \<Rightarrow> pyval \<Rightarrow> sdict \<Rightarrow> pyerr + verdict" where
  "ladder rnd mode sc =
     (if mode = VStr ''down'' then Inr (plain_verdict KDown)
      else if mode = VStr ''hang'' then Inr (plain_verdict KHang)
      else if mode = VStr ''drop_connection'' then
        Inr ((plain_verdict KDrop)\<lparr>v_drop_at := get_or sc ''drop_at'' (VStr ''before_headers'')\<rparr>)
      else if mode = VStr ''rate_limit'' then
        Inr ((plain_verdict KRateLimit)\<lparr>v_status := VInt 429, v_error_code := VInt 429,
           v_error_message := VStr ''Too many requests'',
           v_rate_limit_body := get_or sc ''rate_limit_body'' (VStr rate_limit_body_default),
           v_rate_limit_style := get_or sc ''rate_limit_style'' (VStr ''status'')\<rparr>)
      else if mode = VStr ''error'' then Inr (error_verdict sc)
      else bind_r (py_lt (VFloat (Fin rnd)) (get_or sc ''error_probability'' (VFloat (Fin 0)))) (\<lambda>hit.
        Inr (if hit then error_verdict sc else NONE_VERDICT)))"

definition decide :: "rat \<Rightarrow> sdict \<Rightarrow> endpoint \<Rightarrow> provider \<Rightarrow> pyerr + verdict \<times> provider" where
  "decide rnd sc ep p =
     bind_r (resolve_mode sc ep p) (\<lambda>((targeted, mode), p').
       if \<not> targeted then Inr (NONE_VERDICT, p')
       else bind_r (ladder rnd mode sc) (\<lambda>v. Inr (v, p')))"

section \<open>Filters of a validated scenario\<close>

text \<open>The filters of every scenario that the checks accepted can be searched for an endpoint.\<close>

definition filters_ok :: "sdict \<Rightarrow> bool" where
  "filters_ok sc \<longleftrightarrow>
     (let t = get_or sc ''transports'' VNone in t = VNone \<or> (\<exists>ts. py_iter t = Inr ts) \<and> \<not> (\<exists>b. t = VBytes b))
     \<and> (let ps = get_or sc ''ports'' VNone in ps = VNone \<or> seq_items ps \<noteq> None)"

lemma seq_items_in: "seq_items v = Some xs \<Longrightarrow> py_in x v = Inr (py_mem x xs)"
  by (cases v) auto

lemma targets_total: "filters_ok sc \<Longrightarrow> \<exists>b. targets sc ep = Inr b"
proof -
  assume ok: "filters_ok sc"
  have "\<exists>b. filter_admits (VStr (transport ep)) (get_or sc ''transports'' VNone) = Inr b"
    using ok py_iter_in [of "get_or sc ''transports'' VNone" _ "transport ep"]
    by (auto simp: filters_ok_def filter_admits_def Let_def)
  moreover have "\<exists>b. filter_admits (VInt (port ep)) (get_or sc ''ports'' VNone) = Inr b"
    using ok by (auto simp: filters_ok_def filter_admits_def Let_def seq_items_in)
  ultimately show ?thesis by (auto simp: targets_def)
qed

lemma validated_filters_ok:
  assumes "scenario_validate cfg = None" and "\<not> (\<exists>b. get_or cfg ''transports'' VNone = VBytes b)"
  shows "filters_ok cfg"
proof -
  from assms(1) have "validate_transports cfg = None" "validate_ports cfg = None"
    by (simp_all add: scenario_validate_def split: option.splits)
  with assms(2) show ?thesis
    by (auto simp: filters_ok_def validate_transports_def validate_ports_def Let_def
        split: if_splits sum.splits option.splits)
qed

text \<open>Does a scenario target an endpoint? \<open>False\<close> also where the search would raise.\<close>

definition is_target :: "sdict \<Rightarrow> endpoint \<Rightarrow> bool" where
  "is_target sc ep \<longleftrightarrow> targets sc ep = Inr True"

section \<open>The window of a sequenced fault\<close>

text \<open>A run of requests on endpoints of one provider under one scenario.\<close>

fun resolve_run :: "sdict \<Rightarrow> endpoint list \<Rightarrow> provider \<Rightarrow> pyerr + (bool \<times> pyval) list \<times> provider" where
  "resolve_run sc [] p = Inr ([], p)"
| "resolve_run sc (ep # eps) p =
     bind_r (resolve_mode sc ep p) (\<lambda>(r, p').
       bind_r (resolve_run sc eps p') (\<lambda>(rs, p''). Inr (r # rs, p'')))"

definition targeted_before :: "sdict \<Rightarrow> endpoint list \<Rightarrow> nat \<Rightarrow> nat" where
  "targeted_before sc eps k = length (filter (is_target sc) (take k eps))"

lemma resolve_mode_spec:
  assumes "filters_ok sc" and "get_or sc ''fail_first_n'' (VInt 0) = VInt n"
  shows "resolve_mode sc ep p = Inr
    (if is_target sc ep
     then if 0 < n
          then ((True, if n < fail_count p + 1 then get_or sc ''then_mode'' (VStr ''success'')
                       else get_or sc ''mode'' (VStr ''success'')), p\<lparr>fail_count := fail_count p + 1\<rparr>)
          else ((True, get_or sc ''mode'' (VStr ''success'')), p)
     else ((False, VStr ''success''), p))"
proof -
  obtain b where b: "targets sc ep = Inr b" using targets_total assms(1) by blast
  have lt: "py_lt (VInt i) (VInt j) = Inr (i < j)" for i j
    by (auto simp: py_lt_def pf_lt_def)
  show ?thesis
    using assms(2) b by (cases b) (auto simp: resolve_mode_def is_target_def lt consume_fail_def Let_def)
qed

text \<open>The answer to a request after \<open>c\<close> targeted ones.\<close>

definition window_answer :: "sdict \<Rightarrow> int \<Rightarrow> int \<Rightarrow> endpoint \<Rightarrow> bool \<times> pyval" where
  "window_answer sc n c ep =
     (if is_target sc ep
      then (True, if c < n then get_or sc ''mode'' (VStr ''success'') else get_or sc ''then_mode'' (VStr ''success''))
      else (False, VStr ''success''))"

lemma targeted_before_Suc:
  "targeted_before sc (ep # eps) (Suc k) = (if is_target sc ep then 1 else 0) + targeted_before sc eps k"
  by (simp add: targeted_before_def)

lemma resolve_run_from:
  assumes "filters_ok sc" and "get_or sc ''fail_first_n'' (VInt 0) = VInt n" and "0 < n"
  shows "\<exists>rs p'. resolve_run sc eps q = Inr (rs, p') \<and> length rs = length eps
    \<and> fail_count p' = fail_count q + int (targeted_before sc eps (length eps))
    \<and> (\<forall>k < length eps. rs ! k = window_answer sc n (fail_count q + int (targeted_before sc eps k)) (eps ! k))"
proof (induction eps arbitrary: q)
  case (Cons ep eps)
  obtain r q' where step: "resolve_mode sc ep q = Inr (r, q')"
    using resolve_mode_spec [OF assms(1,2)] by fastforce
  have r: "r = window_answer sc n (fail_count q) ep"
    and q': "fail_count q' = fail_count q + (if is_target sc ep then 1 else 0)"
    using step resolve_mode_spec [OF assms(1,2), of ep q] assms(3)
    by (auto simp: window_answer_def split: if_splits)
  obtain rs p' where rest: "resolve_run sc eps q' = Inr (rs, p')" "length rs = length eps"
    "fail_count p' = fail_count q' + int (targeted_before sc eps (length eps))"
    and each: "\<forall>k < length eps. rs ! k = window_answer sc n (fail_count q' + int (targeted_before sc eps k)) (eps ! k)"
    using Cons.IH [of q'] by blast
  have "(r # rs) ! k = window_answer sc n (fail_count q + int (targeted_before sc (ep # eps) k)) ((ep # eps) ! k)"
    if "k < length (ep # eps)" for k
    using that each r q'
    by (cases k) (simp_all add: targeted_before_def [of sc _ 0] targeted_before_Suc add.assoc)
  with step rest q' show ?case
    by (intro exI [of _ "r # rs"] exI [of _ p']) (auto simp: targeted_before_Suc add.assoc)
qed (simp add: targeted_before_def)

text \<open>
  C9. The window of \<open>fail_first_n\<close>, over any interleaving of requests on the endpoints of a
  provider: a request on an endpoint that the scenario does not target is answered as a success
  and does not use the window up; of the requests on targeted endpoints, the first \<open>n\<close> get the
  fault mode and every later one gets \<open>then_mode\<close>; and the counter ends at the number of
  targeted requests.
\<close>

theorem fail_first_n_window:
  assumes "filters_ok sc" and "get_or sc ''fail_first_n'' (VInt 0) = VInt n" and "0 < n" and "fail_count p = 0"
  shows "\<exists>rs p'. resolve_run sc eps p = Inr (rs, p') \<and> length rs = length eps
    \<and> fail_count p' = int (targeted_before sc eps (length eps))
    \<and> (\<forall>k < length eps. rs ! k =
         (if is_target sc (eps ! k)
          then (True, if int (targeted_before sc eps k) < n then get_or sc ''mode'' (VStr ''success'')
                      else get_or sc ''then_mode'' (VStr ''success''))
          else (False, VStr ''success'')))"
  using resolve_run_from [OF assms(1-3), of eps p] unfolding assms(4) add_0 window_answer_def .

theorem fail_first_n_window_witness:
  "let sc = [(''mode'', VStr ''error''), (''fail_first_n'', VInt 2), (''then_mode'', VStr ''success''),
             (''transports'', VList [VStr ''http''])];
       h = \<lparr>interface = ''jsonrpc'', transport = ''http'', port = 18545\<rparr>;
       w = \<lparr>interface = ''jsonrpc'', transport = ''ws'', port = 18557\<rparr>;
       p = new_provider \<lparr>pl_name = ''eth-sim'', pl_chain = ''eth'', providers = []\<rparr> EthQuirks ''1'' [h, w] ''P'' False []
   in \<exists>rs p'. resolve_run sc [h, w, h, h] p = Inr (rs, p') \<and> fail_count p' = 3
        \<and> rs ! 2 = (True, VStr ''error'') \<and> rs ! 3 = (True, VStr ''success'')"
proof -
  define sc where "sc = [(''mode'', VStr ''error''), (''fail_first_n'', VInt 2), (''then_mode'', VStr ''success''),
      (''transports'', VList [VStr ''http''])]"
  define h where "h = \<lparr>interface = ''jsonrpc'', transport = ''http'', port = 18545 :: int\<rparr>"
  define w where "w = \<lparr>interface = ''jsonrpc'', transport = ''ws'', port = 18557 :: int\<rparr>"
  define p where "p = new_provider \<lparr>pl_name = ''eth-sim'', pl_chain = ''eth'', providers = []\<rparr> EthQuirks ''1'' [h, w] ''P'' False []"
  have hw: "is_target sc h" "\<not> is_target sc w"
    by (simp_all add: sc_def h_def w_def is_target_def targets_def filter_admits_def get_or_def)
  have "filters_ok sc" "get_or sc ''fail_first_n'' (VInt 0) = VInt 2" "fail_count p = 0"
    by (simp_all add: sc_def p_def filters_ok_def get_or_def new_provider_def)
  from fail_first_n_window [OF this(1,2) _ this(3), of "[h, w, h, h]"]
  obtain rs p' where run: "resolve_run sc [h, w, h, h] p = Inr (rs, p')"
    and cnt: "fail_count p' = int (targeted_before sc [h, w, h, h] (length [h, w, h, h]))"
    and each: "\<forall>k < length [h, w, h, h]. rs ! k = (if is_target sc ([h, w, h, h] ! k)
          then (True, if int (targeted_before sc [h, w, h, h] k) < 2 then get_or sc ''mode'' (VStr ''success'')
                      else get_or sc ''then_mode'' (VStr ''success''))
          else (False, VStr ''success''))" by auto
  have "rs ! 2 = (True, VStr ''error'')" "rs ! 3 = (True, VStr ''success'')"
    using each [rule_format, of 2] each [rule_format, of 3] hw
    by (simp_all add: targeted_before_def eval_nat_numeral) (simp_all add: sc_def get_or_def)
  moreover have "fail_count p' = 3" using cnt hw by (simp add: targeted_before_def)
  ultimately show ?thesis using run by (auto simp: Let_def simp flip: sc_def h_def w_def p_def)
qed

section \<open>The ladder\<close>

text \<open>
  What the ladder gives: only a mode that it knows gives a fault that is no error, an error
  comes from the mode \<open>error\<close> or from the random draw, and under any other mode, such as
  \<open>success\<close> or \<open>port_closed\<close>, with a probability of zero, no draw gives a fault.
\<close>

theorem ladder_kinds:
  assumes "get_or sc ''error_probability'' (VFloat (Fin 0)) = VFloat (Fin q)"
  shows "\<exists>v. ladder rnd mode sc = Inr v
    \<and> (kind v = KDown \<longleftrightarrow> mode = VStr ''down'') \<and> (kind v = KHang \<longleftrightarrow> mode = VStr ''hang'')
    \<and> (kind v = KDrop \<longleftrightarrow> mode = VStr ''drop_connection'')
    \<and> (kind v = KRateLimit \<longleftrightarrow> mode = VStr ''rate_limit'')
    \<and> (kind v = KError \<longleftrightarrow> mode = VStr ''error''
         \<or> (mode \<notin> VStr ` {''down'', ''hang'', ''drop_connection'', ''rate_limit''} \<and> rnd < q))
    \<and> (kind v = KNone \<longrightarrow> v = NONE_VERDICT)"
proof -
  have "py_lt (VFloat (Fin rnd)) (VFloat (Fin q)) = Inr (rnd < q)" by (auto simp: py_lt_def pf_lt_def)
  then show ?thesis
    using assms
    by (auto simp: ladder_def plain_verdict_def error_verdict_def NONE_VERDICT_def image_iff)
qed

theorem ladder_kinds_witness:
  "\<exists>v. ladder (1 / 2) (VStr ''port_closed'') [(''error_probability'', VFloat (Fin 0))] = Inr v \<and> kind v \<noteq> KError"
  using ladder_kinds [of "[(''error_probability'', VFloat (Fin 0))]" 0 "1 / 2" "VStr ''port_closed''"]
  by (auto simp: get_or_def)

end
