(* ===== verification/Listener.thy ===== *)
theory Listener
  imports FaultPolicy
begin

text \<open>
  \<open>listeners/base.py\<close>: the one flow that every interface runs for a request, from the arrival to
  the finalized row of the call log, and the plan of the reply that it returns.

  An interface supplies the hooks of the abstract class as a record of functions. A hook that
  needs state of its interface, such as the counter of request ids, gets it as the environment
  \<open>'c\<close> and returns it. An exception that no hook catches ends the flow: the result is \<open>Inl\<close> and
  the provider is as the flow left it. The locale \<open>listener_contract\<close> is what the flow relies
  on, and every interface of the simulator is an instance of it.

  The random draw of the ladder, the clock at the arrival and at the end, and SHA-256 are arguments.
\<close>

section \<open>Requests and replies\<close>

record raw_request =
  rq_body :: string
  rq_headers :: headers
  rq_verb :: string
  rq_path :: string
  rq_query :: "(string, string list) dict"

datatype action = Respond | NoBody | Hang | Drop

record serve_result =
  r_action :: action
  r_status :: pyval
  r_body :: pyval
  r_drop_at :: pyval
  r_latency_ms :: pyval
  r_pause_at :: pyval
  r_pause_ms :: pyval
  r_corruption_mode :: pyval
  r_missing_field :: pyval
  r_suppress_body :: bool
  r_reply_headers :: pyval
  r_reply_trailers :: pyval

text \<open>\<open>ServeResult(action=..., status=..., body=...)\<close> with every other field at its default.\<close>

definition serve_result_of :: "action \<Rightarrow> pyval \<Rightarrow> pyval \<Rightarrow> serve_result" where
  "serve_result_of act st body =
     \<lparr>r_action = act, r_status = st, r_body = body, r_drop_at = VStr ''before_headers'',
      r_latency_ms = VInt 0, r_pause_at = VNone, r_pause_ms = VInt 0, r_corruption_mode = VNone,
      r_missing_field = VNone, r_suppress_body = False, r_reply_headers = VDict [],
      r_reply_trailers = VDict []\<rparr>"

definition with_reply_headers :: "serve_result \<Rightarrow> pyval \<Rightarrow> pyval \<Rightarrow> serve_result" where
  "with_reply_headers res chosen trailers =
     (if \<not> truthy chosen \<and> \<not> truthy trailers then res
      else res\<lparr>r_reply_headers := chosen, r_reply_trailers := py_or trailers (VDict [])\<rparr>)"

text \<open>The outcomes of \<open>parse_request\<close>: a parsed request, \<open>DirectResponse\<close>, \<open>ParseError\<close>, or another exception.\<close>

datatype parse_outcome =
    Parsed pyval
  | Direct serve_result pyval string pyval
  | ParseFailed string
  | ParseRaised pyerr

record 'c hooks =
  body_for_history :: "raw_request \<Rightarrow> string option"
  path_for_history :: "raw_request \<Rightarrow> string option"
  parse_request :: "raw_request \<Rightarrow> provider \<Rightarrow> 'c \<Rightarrow> parse_outcome \<times> 'c"
  build_fault :: "verdict \<Rightarrow> pyval \<Rightarrow> pyerr + serve_result"
  build_success :: "pyval \<Rightarrow> pyval \<Rightarrow> serve_result"
  build_down :: serve_result
  build_content :: "pyval \<Rightarrow> sdict \<Rightarrow> raw_request \<Rightarrow> provider \<Rightarrow> 'c \<Rightarrow> pyerr + (pyval \<times> pyval) \<times> provider \<times> 'c"
  corrupt :: "serve_result \<Rightarrow> string \<Rightarrow> sdict \<Rightarrow> serve_result \<times> string"
  build_parse_error :: "string \<Rightarrow> serve_result"
  method_key :: "pyval \<Rightarrow> pyval"
  build_body_override :: "(pyval \<times> pyval) list \<Rightarrow> serve_result option"
  success_label :: "pyval \<Rightarrow> pyval \<Rightarrow> pyval \<Rightarrow> pyerr + string"
  request_method :: "pyval \<Rightarrow> pyval"
  request_id_of :: "pyval \<Rightarrow> pyval"
  response_id :: "pyval \<Rightarrow> pyval"

section \<open>The defaults of the hooks\<close>

definition default_build_down :: serve_result where
  "default_build_down = serve_result_of NoBody (VInt 503) VNone"

definition default_corrupt :: "serve_result \<Rightarrow> string \<Rightarrow> sdict \<Rightarrow> serve_result \<times> string" where
  "default_corrupt res label sc =
     (res\<lparr>r_corruption_mode := get_or sc ''corruption_mode'' VNone,
          r_missing_field := get_or sc ''missing_field'' VNone\<rparr>, label)"

definition error_envelope :: "pyval \<Rightarrow> pyval \<Rightarrow> pyval" where
  "error_envelope rid err = jobj [(''jsonrpc'', VStr ''2.0''), (''id'', rid), (''error'', err)]"

definition code_and_message :: "pyval \<Rightarrow> pyval \<Rightarrow> pyval" where
  "code_and_message code msg = jobj [(''code'', code), (''message'', msg)]"

definition default_build_parse_error :: "string \<Rightarrow> serve_result" where
  "default_build_parse_error exc =
     serve_result_of Respond (VInt 400)
       (error_envelope VNone (code_and_message (VInt (-32700)) (VStr (''Parse error: '' @ exc))))"

definition default_method_key :: "pyval \<Rightarrow> pyval" where
  "default_method_key req = vget_or req ''method'' VNone"

definition no_body_override :: "(pyval \<times> pyval) list \<Rightarrow> serve_result option" where
  "no_body_override cfg = None"

definition default_success_label :: "pyval \<Rightarrow> pyval \<Rightarrow> pyval \<Rightarrow> pyerr + string" where
  "default_success_label st body req = Inr (if is_dict body \<and> has_key body ''error'' then ''error'' else ''success'')"

definition default_request_method :: "pyval \<Rightarrow> pyval" where
  "default_request_method req = (if is_dict req then vget_or req ''method'' (VStr ''*'') else VStr ''*'')"

definition default_request_id :: "pyval \<Rightarrow> pyval" where
  "default_request_id req = vget_or req ''id'' VNone"

definition default_response_id :: "pyval \<Rightarrow> pyval" where
  "default_response_id body = vget_or body ''id'' VNone"

text \<open>The default \<open>build_content\<close> asks the chain of the provider and leaves the provider alone.\<close>

type_synonym chains = "string \<Rightarrow> pyval \<Rightarrow> sdict \<Rightarrow> sdict \<Rightarrow> string \<Rightarrow> pyerr + pyval \<times> pyval"

definition chain_content ::
  "chains \<Rightarrow> endpoint \<Rightarrow> pyval \<Rightarrow> sdict \<Rightarrow> raw_request \<Rightarrow> provider \<Rightarrow> 'c \<Rightarrow> pyerr + (pyval \<times> pyval) \<times> provider \<times> 'c" where
  "chain_content ch ep parsed sc req p c =
     bind_r (ch (pool_chain p) parsed sc (cfg_snapshot (quirks_class p) (quirks p)) (interface ep)) (\<lambda>r.
       Inr (r, p, c))"

section \<open>The flow\<close>

definition STATUS_LABEL :: "verdict_kind \<Rightarrow> string" where
  "STATUS_LABEL k = (case k of
     KDown \<Rightarrow> ''down'' | KHang \<Rightarrow> ''hang'' | KDrop \<Rightarrow> ''drop_connection''
   | KRateLimit \<Rightarrow> ''rate_limit'' | KError \<Rightarrow> ''error'' | KNone \<Rightarrow> [])"

definition METHOD_OVERRIDE_KEYS :: "string list" where
  "METHOD_OVERRIDE_KEYS =
    [''mode'', ''latency_ms'', ''error_probability'', ''error_code'', ''error_message'', ''http_status'', ''drop_at'']"

definition is_lava_header :: "string \<times> header_value \<Rightarrow> bool" where
  "is_lava_header h \<longleftrightarrow> starts_with ''lava-'' (lower (fst h))"

definition arrive :: "rat \<Rightarrow> endpoint \<Rightarrow> headers \<Rightarrow> pyval \<Rightarrow> provider \<Rightarrow> row_id \<times> provider" where
  "arrive t ep hs deadline p =
     (case record_arrival t (interface ep) (transport ep) (port ep) (filter is_lava_header hs) hs deadline (p_log p) of
        (i, L) \<Rightarrow> (i, p\<lparr>p_log := L\<rparr>))"

definition note_request :: "(string \<Rightarrow> string) \<Rightarrow> 'c hooks \<Rightarrow> raw_request \<Rightarrow> row_id \<Rightarrow> call_log \<Rightarrow> call_log" where
  "note_request sha H req i L =
     (let L1 = (case body_for_history H req of None \<Rightarrow> L | Some b \<Rightarrow> record_body sha i b L)
      in (case path_for_history H req of None \<Rightarrow> L1 | Some q \<Rightarrow> record_path i q L1))"

definition end_row :: "rat \<Rightarrow> row_id \<Rightarrow> pyval \<Rightarrow> string \<Rightarrow> pyval \<Rightarrow> pyval \<Rightarrow> provider \<Rightarrow> provider" where
  "end_row t i meth label lat rid p = p\<lparr>p_log := finalize t i meth label lat rid (p_log p)\<rparr>"

text \<open>The entry of the \<open>responses\<close> map for a request of a targeted endpoint, as a dict.\<close>

definition method_config :: "'c hooks \<Rightarrow> bool \<Rightarrow> sdict \<Rightarrow> pyval \<Rightarrow> pyerr + (pyval \<times> pyval) list" where
  "method_config H targeted sc parsed =
     (if \<not> targeted then Inr []
      else
        let key = method_key H parsed;
            responses = py_or (get_or sc ''responses'' VNone) (VDict [])
        in if key = VNone then Inr []
           else (case responses of
                   VDict kvs \<Rightarrow> bind_r (pd_get key kvs) (\<lambda>cfg. case cfg of
                       Some (VDict m) \<Rightarrow> Inr m | _ \<Rightarrow> Inr [])
                 | _ \<Rightarrow> Inl AttributeError))"

definition merge_override ::
  "(pyval \<times> pyval) list \<Rightarrow> sdict \<Rightarrow> pyval \<Rightarrow> pyval \<Rightarrow> sdict \<times> pyval \<times> pyval" where
  "merge_override m sc mode latency =
     (let present = filter (\<lambda>k. pd_lookup (VStr k) m \<noteq> None) METHOD_OVERRIDE_KEYS
      in if present = [] then (sc, mode, latency)
         else
           let merged = foldl (\<lambda>d k. AList.update k (the (pd_lookup (VStr k) m)) d)
                          (AList.update ''mode'' mode sc) present
           in (merged, get_or merged ''mode'' VNone, get_or merged ''latency_ms'' (VInt 0)))"

text \<open>The status of a canned reply decides its label.\<close>

definition override_label :: "serve_result \<Rightarrow> pyerr + string" where
  "override_label res =
     bind_r (py_le (VInt 200) (r_status res)) (\<lambda>low.
       if \<not> low then Inr ''error''
       else bind_r (py_lt (r_status res) (VInt 300)) (\<lambda>ok. Inr (if ok then ''success'' else ''error'')))"

text \<open>The end of the flow: latency, corruption and pause of the reply, and the row.\<close>

definition finish ::
  "'c hooks \<Rightarrow> rat \<Rightarrow> row_id \<Rightarrow> bool \<Rightarrow> sdict \<Rightarrow> pyval \<Rightarrow> pyval \<Rightarrow> serve_result \<Rightarrow> string \<Rightarrow> pyval \<Rightarrow> bool
   \<Rightarrow> provider \<Rightarrow> serve_result \<times> provider" where
  "finish H t i targeted sc latency parsed res label rid waited p =
     (let res1 = (if r_action res \<in> {Respond, Drop} then res\<lparr>r_latency_ms := latency\<rparr> else res);
          (res2, label2) =
            (if r_action res1 = Respond \<and> targeted
             then (case corrupt H res1 label sc of (r, l) \<Rightarrow>
                    (r\<lparr>r_pause_at := get_or sc ''pause_at'' VNone,
                       r_pause_ms := py_or (get_or sc ''pause_ms'' (VInt 0)) (VInt 0)\<rparr>, l))
             else (res1, label))
      in (res2, end_row t i (request_method H parsed) label2 (if waited then latency else VInt 0) rid p))"

text \<open>A plan that went through \<open>finish\<close> is the result of the flow.\<close>

definition replied :: "serve_result \<times> provider \<Rightarrow> 'c \<Rightarrow> (pyerr + serve_result) \<times> provider \<times> 'c" where
  "replied out c = (Inr (fst out), snd out, c)"

text \<open>The canned \<open>{status, body}\<close> of the entry, and the verdict on a request without one.\<close>

definition canned_reply :: "'c hooks \<Rightarrow> (pyval \<times> pyval) list \<Rightarrow> serve_result option" where
  "canned_reply H m = (if m = [] then None else build_body_override H m)"

definition judge :: "rat \<Rightarrow> bool \<Rightarrow> pyval \<Rightarrow> sdict \<Rightarrow> pyerr + verdict" where
  "judge rnd targeted mode merged = (if targeted then ladder rnd mode merged else Inr NONE_VERDICT)"

text \<open>The success path: content, label and plan.\<close>

definition give_content ::
  "'c hooks \<Rightarrow> rat \<Rightarrow> row_id \<Rightarrow> raw_request \<Rightarrow> bool \<Rightarrow> sdict \<Rightarrow> pyval \<Rightarrow> pyval \<Rightarrow> provider \<Rightarrow> 'c
   \<Rightarrow> (pyerr + serve_result) \<times> provider \<times> 'c" where
  "give_content H t i req targeted sc latency parsed p c =
     (case build_content H parsed sc req p c of
        Inl e \<Rightarrow> (Inl e, p, c)
      | Inr ((st, body), p1, c1) \<Rightarrow>
          (case success_label H st body parsed of
             Inl e \<Rightarrow> (Inl e, p1, c1)
           | Inr label \<Rightarrow>
               replied (finish H t i targeted sc latency parsed (build_success H st body) label
                 (py_or (response_id H body) (request_id_of H parsed)) True p1) c1))"

definition act_on ::
  "verdict \<Rightarrow> 'c hooks \<Rightarrow> rat \<Rightarrow> row_id \<Rightarrow> raw_request \<Rightarrow> bool \<Rightarrow> sdict \<Rightarrow> pyval \<Rightarrow> pyval \<Rightarrow> provider \<Rightarrow> 'c
   \<Rightarrow> (pyerr + serve_result) \<times> provider \<times> 'c" where
  "act_on v H t i req targeted sc latency parsed p c =
     (if kind v = KDown then
        (Inr ((build_down H)\<lparr>r_latency_ms := latency\<rparr>),
         end_row t i (request_method H parsed) ''down'' latency (request_id_of H parsed) p, c)
      else if kind v \<noteq> KNone then
        (case build_fault H v parsed of
           Inl e \<Rightarrow> (Inl e, p, c)
         | Inr res \<Rightarrow> replied (finish H t i targeted sc latency parsed res (STATUS_LABEL (kind v))
             (request_id_of H parsed) (kind v \<noteq> KHang) p) c)
      else give_content H t i req targeted sc latency parsed p c)"

text \<open>The flow after the request was parsed.\<close>

definition answer ::
  "rat \<Rightarrow> 'c hooks \<Rightarrow> rat \<Rightarrow> row_id \<Rightarrow> raw_request \<Rightarrow> bool \<Rightarrow> pyval \<Rightarrow> sdict \<Rightarrow> pyval \<Rightarrow> pyval \<Rightarrow> provider \<Rightarrow> 'c
   \<Rightarrow> (pyerr + serve_result) \<times> provider \<times> 'c" where
  "answer rnd H t i req targeted mode0 sc latency0 parsed p c =
     (case method_config H targeted sc parsed of
        Inl e \<Rightarrow> (Inl e, p, c)
      | Inr m \<Rightarrow>
          (case merge_override m sc mode0 latency0 of (merged, mode, latency) \<Rightarrow>
            (case canned_reply H m of
               Some res \<Rightarrow>
                 (case override_label res of
                    Inl e \<Rightarrow> (Inl e, p, c)
                  | Inr label \<Rightarrow>
                      replied (finish H t i targeted sc latency parsed res label (request_id_of H parsed) True p) c)
             | None \<Rightarrow>
                 (case judge rnd targeted mode merged of
                    Inl e \<Rightarrow> (Inl e, p, c)
                  | Inr v \<Rightarrow> act_on v H t i req targeted sc latency parsed p c))))"

text \<open>A field of the scenario that applies to targeted endpoints only: \<open>(scenario.get(f) or {}) if targeted else {}\<close>.\<close>

definition chosen_of :: "bool \<Rightarrow> sdict \<Rightarrow> string \<Rightarrow> pyval" where
  "chosen_of targeted sc f = (if targeted then py_or (get_or sc f VNone) (VDict []) else VDict [])"

definition add_headers ::
  "bool \<Rightarrow> sdict \<Rightarrow> (pyerr + serve_result) \<times> provider \<times> 'c \<Rightarrow> (pyerr + serve_result) \<times> provider \<times> 'c" where
  "add_headers targeted sc out = (case out of
     (Inl e, p, c) \<Rightarrow> (Inl e, p, c)
   | (Inr res, p, c) \<Rightarrow>
       (Inr (with_reply_headers res (chosen_of targeted sc ''reply_headers'') (chosen_of targeted sc ''reply_trailers'')), p, c))"

text \<open>The flow after the effective mode is known: down comes before the request is parsed.\<close>

definition after_mode ::
  "rat \<Rightarrow> 'c hooks \<Rightarrow> rat \<Rightarrow> row_id \<Rightarrow> raw_request \<Rightarrow> bool \<Rightarrow> pyval \<Rightarrow> sdict \<Rightarrow> provider \<Rightarrow> 'c
   \<Rightarrow> (pyerr + serve_result) \<times> provider \<times> 'c" where
  "after_mode rnd H t i req targeted mode sc p c0 =
     add_headers targeted sc
       (if targeted \<and> mode = VStr ''down'' then
          (Inr (build_down H), end_row t i (VStr ''*'') ''down'' (VInt 0) VNone p, c0)
        else
          (case parse_request H req p c0 of (outcome, c) \<Rightarrow>
            (case outcome of
               ParseRaised e \<Rightarrow> (Inl e, p, c)
             | Direct res meth label rid \<Rightarrow> (Inr res, end_row t i meth label (VInt 0) rid p, c)
             | ParseFailed exc \<Rightarrow>
                 (Inr (build_parse_error H exc), end_row t i (VStr ''*'') ''parse_error'' (VInt 0) VNone p, c)
             | Parsed parsed \<Rightarrow>
                 answer rnd H t i req targeted mode sc
                   (if targeted then get_or sc ''latency_ms'' (VInt 0) else VInt 0) parsed p c)))"

text \<open>\<open>serve(request, entry=...)\<close> with the row of the arrival.\<close>

definition serve_entry ::
  "(string \<Rightarrow> string) \<Rightarrow> rat \<Rightarrow> 'c hooks \<Rightarrow> rat \<Rightarrow> endpoint \<Rightarrow> raw_request \<Rightarrow> row_id \<Rightarrow> provider \<Rightarrow> 'c
   \<Rightarrow> (pyerr + serve_result) \<times> provider \<times> 'c" where
  "serve_entry sha rnd H t ep req i p0 c0 =
     (let p1 = p0\<lparr>p_log := note_request sha H req i (p_log p0)\<rparr>;
          sc = cfg_snapshot ScenarioConfig (scenario p0)
      in (case resolve_mode sc ep p1 of
            Inl e \<Rightarrow> (Inl e, p1, c0)
          | Inr ((targeted, mode), p) \<Rightarrow> after_mode rnd H t i req targeted mode sc p c0))"

text \<open>\<open>serve(request)\<close>: the arrival is recorded first.\<close>

definition serve ::
  "(string \<Rightarrow> string) \<Rightarrow> rat \<Rightarrow> 'c hooks \<Rightarrow> rat \<Rightarrow> rat \<Rightarrow> endpoint \<Rightarrow> raw_request \<Rightarrow> provider \<Rightarrow> 'c
   \<Rightarrow> (pyerr + serve_result) \<times> provider \<times> 'c" where
  "serve sha rnd H t0 t1 ep req p c =
     (case arrive t0 ep (rq_headers req) VNone p of (i, p1) \<Rightarrow> serve_entry sha rnd H t1 ep req i p1 c)"

section \<open>The contract of the hooks\<close>

text \<open>A reply plan as a hook builds it: the flow adds latency, corruption, pause and chosen headers.\<close>

definition bare :: "serve_result \<Rightarrow> bool" where
  "bare res \<longleftrightarrow> r_reply_headers res = VDict [] \<and> r_reply_trailers res = VDict []
     \<and> r_corruption_mode res = VNone \<and> r_missing_field res = VNone
     \<and> r_pause_at res = VNone \<and> r_pause_ms res = VInt 0 \<and> r_latency_ms res = VInt 0"

lemma bare_serve_result_of [simp]: "bare (serve_result_of act st body)"
  "bare ((serve_result_of act st body)\<lparr>r_drop_at := d\<rparr>)"
  by (simp_all add: bare_def serve_result_of_def)

lemma resolve_mode_targets:
  assumes "resolve_mode sc ep p = Inr ((targeted, mode), p')"
  shows "targets sc ep = Inr targeted \<and> (\<exists>n. p' = p\<lparr>fail_count := n\<rparr>)
    \<and> (\<not> targeted \<longrightarrow> mode = VStr ''success'' \<and> p' = p)"
proof -
  from assms obtain tg w where tg: "targets sc ep = Inr tg"
    and w: "py_lt (VInt 0) (get_or sc ''fail_first_n'' (VInt 0)) = Inr w"
    by (auto simp: resolve_mode_def bind_r_Inr_iff Let_def)
  show ?thesis
  proof (cases "w \<and> tg")
    case True
    with assms tg w show ?thesis by (auto simp: resolve_mode_def bind_r_Inr_iff consume_fail_def Let_def)
  next
    case False
    with assms tg w have same: "p' = p" "targeted = tg" "\<not> tg \<longrightarrow> mode = VStr ''success''"
      by (auto simp: resolve_mode_def Let_def split: if_splits)
    moreover have "p = p\<lparr>fail_count := fail_count p\<rparr>" by simp
    ultimately show ?thesis using tg by metis
  qed
qed

lemma with_reply_headers_bare:
  assumes "r_reply_headers res = VDict []" and "r_reply_trailers res = VDict []"
  shows "r_reply_headers (with_reply_headers res (py_or x (VDict [])) (py_or y (VDict []))) = py_or x (VDict [])
    \<and> r_reply_trailers (with_reply_headers res (py_or x (VDict [])) (py_or y (VDict []))) = py_or y (VDict [])"
  using assms by (auto simp: with_reply_headers_def py_or_def)

lemma with_no_headers [simp]: "with_reply_headers res (VDict []) (VDict []) = res"
  by (simp add: with_reply_headers_def)

lemma with_reply_headers_fields [simp]:
  "r_latency_ms (with_reply_headers res ch tr) = r_latency_ms res"
  "r_corruption_mode (with_reply_headers res ch tr) = r_corruption_mode res"
  "r_action (with_reply_headers res ch tr) = r_action res"
  "r_pause_at (with_reply_headers res ch tr) = r_pause_at res"
  "r_status (with_reply_headers res ch tr) = r_status res"
  "r_body (with_reply_headers res ch tr) = r_body res"
  by (simp_all add: with_reply_headers_def)

text \<open>The labels that a finished row can carry: none of them says that the request is in flight.\<close>

definition final_labels :: "string set" where
  "final_labels = {''down'', ''hang'', ''drop_connection'', ''rate_limit'', ''error'', ''success'', ''parse_error'', ''not_found''}"

lemma label_final [simp]:
  "''down'' \<in> final_labels" "''error'' \<in> final_labels" "''success'' \<in> final_labels"
  "''parse_error'' \<in> final_labels" "''not_found'' \<in> final_labels"
  "k \<noteq> KNone \<Longrightarrow> STATUS_LABEL k \<in> final_labels"
  by (simp_all add: final_labels_def STATUS_LABEL_def split: verdict_kind.splits)

lemma override_label_final: "override_label res = Inr label \<Longrightarrow> label \<in> final_labels"
  by (auto simp: override_label_def bind_r_Inr_iff split: if_splits)

text \<open>
  What the flow relies on of an interface: its hooks build bare plans, the corruption hook leaves
  the headers alone, and the content of a request changes no more of the provider than its memory
  of executed transactions.
\<close>

locale listener_contract =
  fixes H :: "'c hooks"
  assumes down_bare: "bare (build_down H)"
    and fault_bare: "build_fault H v parsed = Inr res \<Longrightarrow> bare res"
    and success_bare: "bare (build_success H st body)"
    and parse_error_bare: "bare (build_parse_error H exc)"
    and override_bare: "build_body_override H m = Some res \<Longrightarrow> bare res"
    and direct_bare: "parse_request H req p c = (Direct res meth label rid, c') \<Longrightarrow> bare res"
    and content_frame: "build_content H parsed sc req p c = Inr (r, p', c') \<Longrightarrow> \<exists>ex. p' = p\<lparr>executed := ex\<rparr>"
    and direct_label: "parse_request H req p c = (Direct res meth label rid, c') \<Longrightarrow> label \<in> final_labels"
    and success_label_final: "success_label H st body parsed = Inr label \<Longrightarrow> label \<in> final_labels"
    and corrupt_label: "label \<in> final_labels \<Longrightarrow> snd (corrupt H res label sc) \<in> final_labels"
    and corrupt_keeps: "r_reply_headers (fst (corrupt H res label sc)) = r_reply_headers res
      \<and> r_reply_trailers (fst (corrupt H res label sc)) = r_reply_trailers res"
begin

text \<open>What the flow after parsing does: with a reply the row is finalized once, without one it is untouched.\<close>

definition row_written :: "rat \<Rightarrow> row_id \<Rightarrow> provider \<Rightarrow> (pyerr + serve_result) \<times> provider \<times> 'c \<Rightarrow> bool" where
  "row_written t i p out = (case out of
     (Inl e, p', c') \<Rightarrow> (\<exists>ex. p' = p\<lparr>executed := ex\<rparr>)
   | (Inr res, p', c') \<Rightarrow> (\<exists>ex m s lat rid. s \<in> final_labels
       \<and> p' = end_row t i m s lat rid (p\<lparr>executed := ex\<rparr>)))"

lemma finish_row:
  assumes "label \<in> final_labels"
  shows "\<exists>m s lat rid'. s \<in> final_labels \<and> snd (finish H t i tg sc lat' parsed res label rid w p) = end_row t i m s lat rid' p"
proof -
  have "snd (finish H t i tg sc lat' parsed res label rid w p) = end_row t i (request_method H parsed) s lat rid p
      \<Longrightarrow> s \<in> final_labels \<Longrightarrow> ?thesis" for s lat
    by blast
  moreover have "l \<in> final_labels" if "corrupt H res' label sc = (r, l)" for res' r l
    using corrupt_label [OF assms, of res' sc] that by simp
  ultimately show ?thesis
    using assms by (fastforce simp: finish_def Let_def split: prod.splits if_splits)
qed

lemma finish_headers:
  "r_reply_headers (fst (finish H t i tg sc lat parsed res label rid w p)) = r_reply_headers res
   \<and> r_reply_trailers (fst (finish H t i tg sc lat parsed res label rid w p)) = r_reply_trailers res"
proof -
  have "r_reply_headers r = r_reply_headers res' \<and> r_reply_trailers r = r_reply_trailers res'"
    if "corrupt H res' label sc = (r, l)" for res' r l
    using corrupt_keeps [of res' label sc] that by simp
  then show ?thesis by (auto simp: finish_def Let_def split: prod.splits if_splits)
qed

lemma finish_untargeted:
  "bare res \<Longrightarrow> lat = VInt 0 \<Longrightarrow> bare (fst (finish H t i False sc lat parsed res label rid w p))"
  by (simp add: finish_def bare_def)

lemma row_unwritten: "row_written t i p (Inl e, p, c)"
  by (simp add: row_written_def) (rule exI [of _ "executed p"], simp)

lemma row_unwritten_content: "row_written t i p (Inl e, p\<lparr>executed := ex\<rparr>, c)"
  by (auto simp: row_written_def)

lemma row_written_end:
  "s \<in> final_labels \<Longrightarrow> row_written t i p (Inr r, end_row t i m s lat rid (p\<lparr>executed := ex\<rparr>), c)"
  unfolding row_written_def by (simp, intro exI conjI) (assumption, rule refl)

lemma row_written_end_same: "s \<in> final_labels \<Longrightarrow> row_written t i p (Inr r, end_row t i m s lat rid p, c)"
  using row_written_end [where ex = "executed p" and p = p] by simp

lemma row_written_finish:
  "label \<in> final_labels \<Longrightarrow>
   row_written t i p (replied (finish H t i tg sc lat parsed res label rid w (p\<lparr>executed := ex\<rparr>)) c)"
proof -
  assume "label \<in> final_labels"
  then obtain m s l rid' where "s \<in> final_labels"
    "snd (finish H t i tg sc lat parsed res label rid w (p\<lparr>executed := ex\<rparr>))
      = end_row t i m s l rid' (p\<lparr>executed := ex\<rparr>)"
    using finish_row by blast
  then show ?thesis unfolding replied_def by (simp add: row_written_end)
qed

lemma row_written_finish_same:
  "label \<in> final_labels \<Longrightarrow>
   row_written t i p (replied (finish H t i tg sc lat parsed res label rid w p) c)"
  using row_written_finish [where ex = "executed p" and p = p] by simp

lemmas row_rules = row_unwritten row_unwritten_content row_written_end_same row_written_finish_same row_written_finish

lemma content_row: "row_written t i p (give_content H t i req tg sc lat parsed p c)"
proof (cases "build_content H parsed sc req p c")
  case (Inr out)
  obtain st body p1 c1 where out: "out = ((st, body), p1, c1)" by (metis prod.exhaust)
  with Inr obtain ex where "p1 = p\<lparr>executed := ex\<rparr>" using content_frame by blast
  with Inr out show ?thesis
    by (cases "success_label H st body parsed") (simp_all add: give_content_def row_rules success_label_final)
qed (simp add: give_content_def row_rules)

lemma answer_row: "row_written t i p (answer rnd H t i req tg mode sc lat parsed p c)"
proof -
  have "row_written t i p (act_on v H t i req tg sc l parsed p c)" for v l
    by (simp add: act_on_def row_rules content_row split: sum.split)
  then show ?thesis
    by (simp add: answer_def row_rules override_label_final split: sum.split option.split prod.split)
qed

text \<open>Every reply of the flow after parsing is a bare plan that went through \<open>finish\<close>, or the reply of a down method.\<close>

definition finished :: "bool \<Rightarrow> pyval \<Rightarrow> (pyerr + serve_result) \<times> provider \<times> 'c \<Rightarrow> bool" where
  "finished tg lat out = (case out of
     (Inl e, p', c') \<Rightarrow> True
   | (Inr res, p', c') \<Rightarrow>
       r_reply_headers res = VDict [] \<and> r_reply_trailers res = VDict [] \<and> (\<not> tg \<and> lat = VInt 0 \<longrightarrow> bare res))"

lemma finished_Inl: "finished tg lat (Inl e, p, c)"
  by (simp add: finished_def)

lemma finished_finish:
  assumes "bare raw" and "\<not> tg \<longrightarrow> lat' = lat"
  shows "finished tg lat (replied (finish H t i tg sc lat' parsed raw label rid w q) c)"
  using assms finish_headers [of t i tg sc lat' parsed raw label rid w q]
    finish_untargeted [of raw lat' t i sc parsed label rid w q]
  by (auto simp: finished_def replied_def bare_def)

lemma merge_nothing: "merge_override [] sc mode lat = (sc, mode, lat)"
  by (simp add: merge_override_def)

lemma act_on_finished:
  assumes "\<not> tg \<longrightarrow> lat' = lat" and "\<not> tg \<longrightarrow> kind v = KNone"
  shows "finished tg lat (act_on v H t i req tg sc lat' parsed p c)"
proof -
  have "finished tg lat (give_content H t i req tg sc lat' parsed p c)"
    using finished_finish [OF success_bare assms(1)]
    by (simp add: give_content_def finished_Inl split: sum.split prod.split)
  moreover have "finished tg lat (Inr ((build_down H)\<lparr>r_latency_ms := lat'\<rparr>), q, c)" if "kind v = KDown" for q
    using assms(2) that down_bare by (auto simp: finished_def bare_def)
  ultimately show ?thesis
    using finished_finish [OF fault_bare assms(1)] by (auto simp: act_on_def finished_Inl split: sum.split)
qed

lemma answer_finished: "finished tg lat (answer rnd H t i req tg mode sc lat parsed p c)"
proof (cases "method_config H tg sc parsed")
  case (Inr m)
  obtain merged mode' lat' where merge: "merge_override m sc mode lat = (merged, mode', lat')"
    by (metis prod.exhaust)
  have lat': "\<not> tg \<longrightarrow> lat' = lat"
    using Inr merge by (auto simp: method_config_def merge_nothing)
  have canned: "finished tg lat (replied (finish H t i tg sc lat' parsed raw label rid True p) c)"
    if "canned_reply H m = Some raw" for raw label rid
    using that override_bare lat' by (intro finished_finish) (auto simp: canned_reply_def split: if_splits)
  have judged: "finished tg lat (act_on v H t i req tg sc lat' parsed p c)"
    if "judge rnd tg mode' merged = Inr v" for v
    using that lat'
    by (intro act_on_finished) (auto simp: judge_def NONE_VERDICT_def plain_verdict_def split: if_splits)
  show ?thesis
    using canned judged by (simp add: answer_def Inr merge finished_Inl split: sum.split option.split)
qed (simp add: answer_def finished_Inl)

lemma row_written_add_headers: "row_written t i p out \<Longrightarrow> row_written t i p (add_headers tg sc out)"
  by (auto simp: row_written_def add_headers_def split: prod.splits sum.splits)

lemma after_mode_row: "row_written t i p (after_mode rnd H t i req tg mode sc p c)"
  unfolding after_mode_def
  by (rule row_written_add_headers)
    (simp add: row_rules answer_row direct_label split: prod.split parse_outcome.split)

lemma after_mode_finished:
  "finished tg (if tg then lat else VInt 0)
    (if tg \<and> mode = VStr ''down'' then (Inr (build_down H), end_row t i (VStr ''*'') ''down'' (VInt 0) VNone p, c0)
     else
       (case parse_request H req p c0 of (outcome, c) \<Rightarrow>
         (case outcome of
            ParseRaised e \<Rightarrow> (Inl e, p, c)
          | Direct res meth label rid \<Rightarrow> (Inr res, end_row t i meth label (VInt 0) rid p, c)
          | ParseFailed exc \<Rightarrow>
              (Inr (build_parse_error H exc), end_row t i (VStr ''*'') ''parse_error'' (VInt 0) VNone p, c)
          | Parsed parsed \<Rightarrow> answer rnd H t i req tg mode sc (if tg then lat else VInt 0) parsed p c)))"
proof -
  have bare: "bare res \<Longrightarrow> finished b l (Inr res, q, c)" for b res l q c
    by (simp add: finished_def bare_def)
  obtain outcome c where parse: "parse_request H req p c0 = (outcome, c)" by fastforce
  show ?thesis
  proof (cases outcome)
    case (Direct res meth label rid)
    then have "bare res" using parse direct_bare by blast
    then show ?thesis using parse Direct bare down_bare by simp
  qed (use parse bare down_bare parse_error_bare answer_finished in \<open>simp_all add: finished_Inl\<close>)
qed

lemma after_mode_reply:
  assumes "after_mode rnd H t i req tg mode sc p c = (Inr res, p', c')"
  shows "r_reply_headers res = chosen_of tg sc ''reply_headers''
    \<and> r_reply_trailers res = chosen_of tg sc ''reply_trailers'' \<and> (\<not> tg \<longrightarrow> bare res)"
proof -
  obtain out where out: "after_mode rnd H t i req tg mode sc p c = add_headers tg sc out"
    and fin: "finished tg (if tg then get_or sc ''latency_ms'' (VInt 0) else VInt 0) out"
    unfolding after_mode_def using after_mode_finished by blast
  obtain raw where raw: "out = (Inr raw, p', c')"
    and res: "res = with_reply_headers raw (chosen_of tg sc ''reply_headers'') (chosen_of tg sc ''reply_trailers'')"
    using assms out by (auto simp: add_headers_def split: prod.splits sum.splits)
  from fin raw have bare: "r_reply_headers raw = VDict []" "r_reply_trailers raw = VDict []" "\<not> tg \<longrightarrow> bare raw"
    by (auto simp: finished_def split: if_splits)
  show ?thesis
    using with_reply_headers_bare [OF bare(1,2)] bare(3) res by (cases tg) (simp_all add: chosen_of_def bare)
qed

text \<open>One request writes its own row once, or not at all when an exception ended it, and no
  configuration of the provider.\<close>

lemma serve_entry_effect:
  "case serve_entry sha rnd H t ep req i p c of
     (Inl e, p', c') \<Rightarrow> \<exists>n ex. p' = p\<lparr>p_log := note_request sha H req i (p_log p), fail_count := n, executed := ex\<rparr>
   | (Inr res, p', c') \<Rightarrow> \<exists>n ex m s lat rid. s \<in> final_labels
       \<and> p' = p\<lparr>p_log := finalize t i m s lat rid (note_request sha H req i (p_log p)), fail_count := n, executed := ex\<rparr>"
proof -
  let ?p1 = "p\<lparr>p_log := note_request sha H req i (p_log p)\<rparr>"
  let ?sc = "cfg_snapshot ScenarioConfig (scenario p)"
  show ?thesis
  proof (cases "resolve_mode ?sc ep ?p1")
    case (Inl e)
    then show ?thesis
      by (simp add: serve_entry_def) (rule exI [of _ "fail_count p"], rule exI [of _ "executed p"], simp)
  next
    case (Inr out)
    obtain tg mode q where out: "out = ((tg, mode), q)" by (metis prod.exhaust)
    with Inr obtain n where q: "q = ?p1\<lparr>fail_count := n\<rparr>" using resolve_mode_targets by blast
    have step: "serve_entry sha rnd H t ep req i p c = after_mode rnd H t i req tg mode ?sc q c"
      using Inr out by (simp add: serve_entry_def)
    obtain r p2 c2 where am: "after_mode rnd H t i req tg mode ?sc q c = (r, p2, c2)" by (metis prod.exhaust)
    note row = after_mode_row [of t i q rnd req tg mode ?sc c, unfolded am row_written_def]
    show ?thesis
    proof (cases r)
      case (Inl e)
      with row obtain ex where "p2 = p\<lparr>p_log := note_request sha H req i (p_log p), fail_count := n, executed := ex\<rparr>"
        by (auto simp: q)
      with Inl step am show ?thesis by auto
    next
      case (Inr res)
      with row obtain ex m s lat rid where s: "s \<in> final_labels"
        and "p2 = end_row t i m s lat rid (q\<lparr>executed := ex\<rparr>)" by auto
      then have "p2 = p\<lparr>p_log := finalize t i m s lat rid (note_request sha H req i (p_log p)),
          fail_count := n, executed := ex\<rparr>" by (simp add: q end_row_def)
      with s show ?thesis unfolding step am Inr prod.case sum.case by blast
    qed
  qed
qed

lemma serve_entry_reply:
  assumes "serve_entry sha rnd H t ep req i p c = (Inr res, p', c')"
  shows "\<exists>tg. targets (cfg_snapshot ScenarioConfig (scenario p)) ep = Inr tg
    \<and> r_reply_headers res = chosen_of tg (cfg_snapshot ScenarioConfig (scenario p)) ''reply_headers''
    \<and> r_reply_trailers res = chosen_of tg (cfg_snapshot ScenarioConfig (scenario p)) ''reply_trailers''
    \<and> (\<not> tg \<longrightarrow> bare res \<and> fail_count p' = fail_count p)"
proof -
  let ?p1 = "p\<lparr>p_log := note_request sha H req i (p_log p)\<rparr>"
  let ?sc = "cfg_snapshot ScenarioConfig (scenario p)"
  from assms obtain tg mode q where res: "resolve_mode ?sc ep ?p1 = Inr ((tg, mode), q)"
    and step: "after_mode rnd H t i req tg mode ?sc q c = (Inr res, p', c')"
    by (auto simp: serve_entry_def Let_def split: sum.splits)
  note target = resolve_mode_targets [OF res]
  have "fail_count p' = fail_count q"
    using after_mode_row [of t i q rnd req tg mode ?sc c] by (auto simp: step row_written_def end_row_def)
  with target after_mode_reply [OF step] show ?thesis by (intro exI [of _ tg]) auto
qed

end

end
