(* ===== verification/Interfaces.thy ===== *)
theory Interfaces
  imports Listener Json
begin

text \<open>
  The interfaces over HTTP that speak JSON: \<open>listeners/jsonrpc.py\<close>, \<open>listeners/rest.py\<close> and
  \<open>listeners/tendermint.py\<close>. Each is a record of hooks of the flow of \<open>Listener\<close>.

  The environment holds the two counters that number a request whose caller sent no id. The
  content of the chains is a parameter here and is given by the theory of the chains. A path holds
  no line feed: the request line of HTTP ends at one. The text of a JSON error is a parameter.
\<close>

record listener_env =
  rest_ids :: int
  tm_ids :: int

section \<open>JSON-RPC\<close>

definition batch_refusal :: parse_outcome where
  "batch_refusal =
     Direct (serve_result_of Respond (VInt 200)
        (error_envelope VNone (code_and_message (VInt (-32600)) (VStr ''batch requests are not supported''))))
      (VStr ''batch'') ''error'' VNone"

definition jsonrpc_parse :: "string \<Rightarrow> parse_outcome" where
  "jsonrpc_parse raw =
     (if raw = [] then Parsed (VDict [])
      else (case json_loads_bytes raw of
              None \<Rightarrow> Parsed (VDict [])
            | Some (VList xs) \<Rightarrow> batch_refusal
            | Some (VDict kvs) \<Rightarrow> Parsed (VDict kvs)
            | Some v \<Rightarrow> Parsed (VDict [])))"

definition jsonrpc_fault :: "verdict \<Rightarrow> pyval \<Rightarrow> serve_result" where
  "jsonrpc_fault v req =
     (if kind v = KHang then serve_result_of Hang (VInt 200) VNone
      else if kind v = KDrop then (serve_result_of Drop (VInt 200) VNone)\<lparr>r_drop_at := v_drop_at v\<rparr>
      else if kind v = KRateLimit then serve_result_of Respond (v_status v) (v_rate_limit_body v)
      else
        let rid = default_request_id req
        in serve_result_of Respond (v_status v)
             (error_envelope (if rid = VNone then VInt 1 else rid)
                (code_and_message (v_error_code v) (v_error_message v))))"

definition respond_success :: "pyval \<Rightarrow> pyval \<Rightarrow> serve_result" where
  "respond_success st body = serve_result_of Respond st body"

definition jsonrpc_body_override :: "(pyval \<times> pyval) list \<Rightarrow> serve_result option" where
  "jsonrpc_body_override m = (case pd_lookup (VStr ''body'') m of
     None \<Rightarrow> None
   | Some body \<Rightarrow>
       if body = VNone then None
       else Some (serve_result_of Respond (vget_or (VDict m) ''status'' (VInt 200)) body))"

definition jsonrpc_request_method :: "pyval \<Rightarrow> pyval" where
  "jsonrpc_request_method req = (if is_dict req then vget_or req ''method'' (VStr ''unknown'') else VStr ''*'')"

definition jsonrpc_hooks :: "chains \<Rightarrow> endpoint \<Rightarrow> 'c hooks" where
  "jsonrpc_hooks ch ep =
     \<lparr>body_for_history = (\<lambda>_. None), path_for_history = (\<lambda>_. None),
      parse_request = (\<lambda>req p c. (jsonrpc_parse (rq_body req), c)),
      build_fault = (\<lambda>v req. Inr (jsonrpc_fault v req)), build_success = respond_success, build_down = default_build_down,
      build_content = chain_content ch ep, corrupt = default_corrupt,
      build_parse_error = default_build_parse_error, method_key = default_method_key,
      build_body_override = jsonrpc_body_override, success_label = default_success_label,
      request_method = jsonrpc_request_method, request_id_of = default_request_id,
      response_id = default_response_id\<rparr>"

section \<open>Tendermint RPC\<close>

definition outside_2xx :: "pyval \<Rightarrow> pyerr + bool" where
  "outside_2xx st =
     bind_r (py_le (VInt 200) st) (\<lambda>low.
       if \<not> low then Inr True else bind_r (py_lt st (VInt 300)) (\<lambda>ok. Inr (\<not> ok)))"

definition normalize_value :: "pyval \<Rightarrow> pyval" where
  "normalize_value v =
     (let w = (case v of VList xs \<Rightarrow> (case xs of [] \<Rightarrow> VStr [] | x # _ \<Rightarrow> x) | _ \<Rightarrow> v)
      in (case w of VStr s \<Rightarrow> (case json_loads s of None \<Rightarrow> w | Some j \<Rightarrow> j) | _ \<Rightarrow> w))"

definition normalize_params :: "pyval \<Rightarrow> pyval" where
  "normalize_params raw = (case raw of
     VDict kvs \<Rightarrow> VDict (map (\<lambda>(k, v). (k, normalize_value v)) kvs)
   | _ \<Rightarrow> VDict [])"

definition query_value :: "(string, string list) dict \<Rightarrow> pyval" where
  "query_value q = jobj (map (\<lambda>(k, vs). (k, VList (map VStr vs))) q)"

definition tm_parsed :: "pyval \<Rightarrow> pyval \<Rightarrow> pyval \<Rightarrow> pyval" where
  "tm_parsed meth params rid = jobj [(''method'', meth), (''params'', normalize_params params), (''id'', rid)]"

text \<open>\<open>type(v).__name__\<close>.\<close>

definition type_name :: "pyval \<Rightarrow> string" where
  "type_name v = (case v of
     VNone \<Rightarrow> ''NoneType'' | VBool _ \<Rightarrow> ''bool'' | VInt _ \<Rightarrow> ''int'' | VFloat _ \<Rightarrow> ''float'' | VStr _ \<Rightarrow> ''str''
   | VBytes _ \<Rightarrow> ''bytes'' | VList _ \<Rightarrow> ''list'' | VTuple _ \<Rightarrow> ''tuple'' | VDict _ \<Rightarrow> ''dict'')"

definition tm_parse_post :: "(string \<Rightarrow> string) \<Rightarrow> string \<Rightarrow> parse_outcome" where
  "tm_parse_post json_error body =
     (if body = [] then ParseFailed ''POST body is empty''
      else (case json_loads_bytes body of
              None \<Rightarrow> ParseFailed (''POST body not valid JSON: '' @ json_error body)
            | Some v \<Rightarrow>
                if \<not> is_dict v then ParseFailed (''POST body not a JSON object: '' @ type_name v)
                else (case vget v ''method'' of
                        Some (VStr m) \<Rightarrow>
                          if m = [] then ParseFailed ''POST body missing 'method' field''
                          else Parsed (tm_parsed (VStr m) (vget_or v ''params'' VNone) (vget_or v ''id'' VNone))
                      | _ \<Rightarrow> ParseFailed ''POST body missing 'method' field'')))"

definition tm_parse :: "(string \<Rightarrow> string) \<Rightarrow> raw_request \<Rightarrow> listener_env \<Rightarrow> parse_outcome \<times> listener_env" where
  "tm_parse json_error req c =
     (if upper (rq_verb req) = ''GET'' then
        (let meth = strip_by (\<lambda>x. x = CHR ''/'') (rq_path req)
         in if meth = [] then (ParseFailed ''GET URI has no method (empty path)'', c)
            else (Parsed (tm_parsed (VStr meth) (query_value (rq_query req)) (VInt (tm_ids c + 1))),
                  c\<lparr>tm_ids := tm_ids c + 1\<rparr>))
      else (tm_parse_post json_error (rq_body req), c))"

definition tm_fault :: "verdict \<Rightarrow> pyval \<Rightarrow> serve_result" where
  "tm_fault v req =
     (if kind v = KHang then serve_result_of Hang (VInt 200) VNone
      else if kind v = KDrop then (serve_result_of Drop (VInt 200) VNone)\<lparr>r_drop_at := v_drop_at v\<rparr>
      else serve_result_of Respond (v_status v)
             (error_envelope (vget_or req ''id'' VNone) (code_and_message (v_error_code v) (v_error_message v))))"

definition tm_success_label :: "pyval \<Rightarrow> pyval \<Rightarrow> pyval \<Rightarrow> pyerr + string" where
  "tm_success_label st body req =
     bind_r (outside_2xx st) (\<lambda>out. if out then Inr ''error'' else default_success_label st body req)"

definition tendermint_hooks :: "(string \<Rightarrow> string) \<Rightarrow> chains \<Rightarrow> endpoint \<Rightarrow> listener_env hooks" where
  "tendermint_hooks json_error ch ep =
     \<lparr>body_for_history = (\<lambda>_. None), path_for_history = (\<lambda>_. None),
      parse_request = (\<lambda>req p c. tm_parse json_error req c),
      build_fault = (\<lambda>v req. Inr (tm_fault v req)), build_success = respond_success, build_down = default_build_down,
      build_content = chain_content ch ep, corrupt = default_corrupt,
      build_parse_error = default_build_parse_error, method_key = default_method_key,
      build_body_override = no_body_override, success_label = tm_success_label,
      request_method = default_request_method, request_id_of = default_request_id,
      response_id = default_response_id\<rparr>"

section \<open>REST\<close>

text \<open>The keys of \<open>REST_METHOD_DEFAULTS\<close>, in their order.\<close>

definition REST_ROUTES :: "(string \<times> string) list" where
  "REST_ROUTES =
    [(''GET'', ''/cosmos/base/tendermint/v1beta1/blocks/latest''),
     (''GET'', ''/cosmos/base/tendermint/v1beta1/blocks/{height}''),
     (''GET'', ''/cosmos/base/tendermint/v1beta1/node_info''),
     (''GET'', ''/cosmos/bank/v1beta1/balances/{address}''),
     (''GET'', ''/cosmos/staking/v1beta1/validators''),
     (''POST'', ''/cosmos/tx/v1beta1/simulate''),
     (''POST'', ''/cosmos/tx/v1beta1/txs'')]"

text \<open>A segment of a template: \<open>{name}\<close> matches any text without a slash, and else itself.\<close>

definition segment_name :: "string \<Rightarrow> string option" where
  "segment_name seg =
     (if 2 < length seg \<and> hd seg = CHR ''{'' \<and> last seg = CHR ''}'' then Some (butlast (tl seg)) else None)"

fun match_segments :: "string list \<Rightarrow> string list \<Rightarrow> (string, string) dict option" where
  "match_segments [] [] = Some []"
| "match_segments (t # trest) (s # srest) =
     (case segment_name t of
        Some name \<Rightarrow> if s = [] then None else map_option ((#) (name, s)) (match_segments trest srest)
      | None \<Rightarrow> if s = t then match_segments trest srest else None)"
| "match_segments _ _ = None"

definition without_end_slash :: "string \<Rightarrow> string" where
  "without_end_slash path = (if ends_with ''/'' path then butlast path else path)"

text \<open>\<open>_compile_route(template).match(path)\<close>: one slash at the end is optional.\<close>

definition route_match :: "string \<Rightarrow> string \<Rightarrow> (string, string) dict option" where
  "route_match template path =
     match_segments (split_on (CHR ''/'') template) (split_on (CHR ''/'') (without_end_slash path))"

definition route_verb :: "string \<Rightarrow> string" where
  "route_verb verb = (if verb = ''HEAD'' then ''GET'' else verb)"

fun find_route :: "string \<Rightarrow> string \<Rightarrow> (string \<times> string) list \<Rightarrow> (string \<times> (string, string) dict) option" where
  "find_route verb path [] = None"
| "find_route verb path ((known, template) # routes) =
     (if known \<noteq> verb then find_route verb path routes
      else (case route_match template path of
              Some params \<Rightarrow> Some (template, params)
            | None \<Rightarrow> find_route verb path routes))"

definition allowed_verbs :: "string \<Rightarrow> string list" where
  "allowed_verbs path =
     foldl (\<lambda>vs (v, t). if route_match t path \<noteq> None \<and> v \<notin> set vs then vs @ [v] else vs) [] REST_ROUTES"

text \<open>The first non-empty value: the query parameter, then the header in any letter case.\<close>

fun header_request_id :: "headers \<Rightarrow> string option" where
  "header_request_id [] = None"
| "header_request_id ((name, HText t) # hs) =
     (if lower name = ''x-request-id'' \<and> t \<noteq> [] then Some t else header_request_id hs)"
| "header_request_id ((name, HBytes b) # hs) = header_request_id hs"

definition caller_request_id :: "raw_request \<Rightarrow> string option" where
  "caller_request_id req =
     (case map_of (rq_query req) ''request_id'' of
        Some (v # _) \<Rightarrow> if v \<noteq> [] then Some v else header_request_id (rq_headers req)
      | _ \<Rightarrow> header_request_id (rq_headers req))"

definition rest_parse :: "raw_request \<Rightarrow> listener_env \<Rightarrow> parse_outcome \<times> listener_env" where
  "rest_parse req c =
     (let verb = upper (rq_verb req);
          rverb = route_verb verb;
          (rid, c') = (case caller_request_id req of
              Some r \<Rightarrow> (VStr r, c)
            | None \<Rightarrow> (VInt (rest_ids c + 1), c\<lparr>rest_ids := rest_ids c + 1\<rparr>));
          (template, params) = (case find_route rverb (rq_path req) REST_ROUTES of
              Some (t, ps) \<Rightarrow> (VStr t, ps)
            | None \<Rightarrow> (VNone, []));
          body = (if rq_body req = [] then VNone
                  else (case json_loads_bytes (rq_body req) of None \<Rightarrow> VNone | Some v \<Rightarrow> v))
      in (Parsed (jobj [(''verb'', VStr verb), (''route_verb'', VStr rverb), (''template'', template),
            (''path'', VStr (rq_path req)), (''path_params'', jobj (map (\<lambda>(k, v). (k, VStr v)) params)),
            (''query'', query_value (rq_query req)), (''body'', body), (''request_id'', rid)]), c'))"

definition rest_fault :: "verdict \<Rightarrow> pyval \<Rightarrow> serve_result" where
  "rest_fault v req =
     (if kind v = KHang then serve_result_of Hang (VInt 200) VNone
      else if kind v = KDrop then (serve_result_of Drop (VInt 200) VNone)\<lparr>r_drop_at := v_drop_at v\<rparr>
      else serve_result_of Respond (v_status v) (code_and_message (v_error_code v) (v_error_message v)))"

definition rest_method_key :: "pyval \<Rightarrow> pyval" where
  "rest_method_key req =
     (let template = vget_or req ''template'' VNone
      in if truthy template
         then VTuple [py_or (vget_or req ''route_verb'' VNone) (vget_or req ''verb'' VNone), template]
         else VNone)"

definition rest_success_label :: "pyval \<Rightarrow> pyval \<Rightarrow> pyval \<Rightarrow> pyerr + string" where
  "rest_success_label st body req =
     (if py_eq st (VInt 404) \<and> \<not> truthy (vget_or req ''template'' VNone) then Inr ''not_found''
      else tm_success_label st body req)"

definition rest_body_for_history :: "raw_request \<Rightarrow> string option" where
  "rest_body_for_history req = (if upper (rq_verb req) \<in> {''GET'', ''HEAD''} then None else Some (rq_body req))"

definition text_of :: "pyval \<Rightarrow> string" where
  "text_of v = (case v of VStr s \<Rightarrow> s | _ \<Rightarrow> [])"

definition rest_request_method :: "pyval \<Rightarrow> pyval" where
  "rest_request_method req =
     (let template = vget_or req ''template'' VNone
      in VStr (text_of (vget_or req ''verb'' (VStr ''*'')) @ '' ''
           @ text_of (if truthy template then template else vget_or req ''path'' (VStr []))))"

definition rest_request_id :: "pyval \<Rightarrow> pyval" where
  "rest_request_id req = vget_or req ''request_id'' VNone"

definition rest_hooks :: "chains \<Rightarrow> endpoint \<Rightarrow> listener_env hooks" where
  "rest_hooks ch ep =
     \<lparr>body_for_history = rest_body_for_history, path_for_history = (\<lambda>_. None),
      parse_request = (\<lambda>req p c. rest_parse req c),
      build_fault = (\<lambda>v req. Inr (rest_fault v req)), build_success = respond_success, build_down = default_build_down,
      build_content = chain_content ch ep, corrupt = default_corrupt,
      build_parse_error = default_build_parse_error, method_key = rest_method_key,
      build_body_override = no_body_override, success_label = rest_success_label,
      request_method = rest_request_method, request_id_of = rest_request_id,
      response_id = (\<lambda>_. VNone)\<rparr>"

text \<open>A HEAD request pays for everything that a GET pays for, and its bytes are withheld.\<close>

definition rest_serve ::
  "(string \<Rightarrow> string) \<Rightarrow> rat \<Rightarrow> chains \<Rightarrow> rat \<Rightarrow> rat \<Rightarrow> endpoint \<Rightarrow> raw_request \<Rightarrow> provider \<Rightarrow> listener_env
   \<Rightarrow> (pyerr + serve_result) \<times> provider \<times> listener_env" where
  "rest_serve sha rnd ch t0 t1 ep req p c =
     (case serve sha rnd (rest_hooks ch ep) t0 t1 ep req p c of
        (Inl e, p', c') \<Rightarrow> (Inl e, p', c')
      | (Inr res, p', c') \<Rightarrow>
          (Inr (if upper (rq_verb req) = ''HEAD'' \<and> r_action res = Respond
                then res\<lparr>r_suppress_body := True\<rparr> else res), p', c'))"

section \<open>The interfaces keep the contract\<close>

lemma chain_content_frame:
  "chain_content ch ep parsed sc req p c = Inr (r, p', c') \<Longrightarrow> \<exists>ex. p' = p\<lparr>executed := ex\<rparr>"
  by (auto simp: chain_content_def bind_r_Inr_iff intro: exI [of _ "executed p"])

lemma bare_hooks [simp]:
  "bare default_build_down" "bare (respond_success st body)" "bare (default_build_parse_error exc)"
  "bare (jsonrpc_fault v req)" "bare (tm_fault v req)" "bare (rest_fault v req)"
  by (simp_all add: default_build_down_def respond_success_def default_build_parse_error_def
      jsonrpc_fault_def tm_fault_def rest_fault_def Let_def)

lemma jsonrpc_parse_bare: "jsonrpc_parse raw = Direct res meth label rid \<Longrightarrow> bare res"
  by (auto simp: jsonrpc_parse_def batch_refusal_def split: if_splits option.splits pyval.splits)

lemma tm_parse_not_direct: "tm_parse je req c \<noteq> (Direct res meth label rid, c')"
  by (auto simp: tm_parse_def tm_parse_post_def Let_def split: if_splits option.splits pyval.splits)

lemma rest_parse_not_direct: "rest_parse req c \<noteq> (Direct res meth label rid, c')"
  by (simp add: rest_parse_def Let_def split: option.splits prod.splits)

lemma default_corrupt_keeps:
  "r_reply_headers (fst (default_corrupt res label sc)) = r_reply_headers res
   \<and> r_reply_trailers (fst (default_corrupt res label sc)) = r_reply_trailers res"
  by (simp add: default_corrupt_def)

lemma tm_label_final: "tm_success_label st body req = Inr label \<Longrightarrow> label \<in> final_labels"
  by (auto simp: tm_success_label_def default_success_label_def bind_r_Inr_iff split: if_splits)

lemma hook_labels_final:
  "default_success_label st body req = Inr label \<Longrightarrow> label \<in> final_labels"
  "rest_success_label st body req = Inr label \<Longrightarrow> label \<in> final_labels"
  "jsonrpc_parse raw = Direct res meth label rid \<Longrightarrow> label \<in> final_labels"
  "label \<in> final_labels \<Longrightarrow> snd (default_corrupt res label sc) \<in> final_labels"
  by (auto simp: default_success_label_def rest_success_label_def jsonrpc_parse_def batch_refusal_def
      default_corrupt_def tm_label_final split: if_splits option.splits pyval.splits)

interpretation jsonrpc: listener_contract "jsonrpc_hooks ch ep" for ch ep
  by unfold_locales
    (auto simp: jsonrpc_hooks_def default_corrupt_keeps jsonrpc_body_override_def jsonrpc_parse_bare hook_labels_final
      split: option.splits if_splits dest: chain_content_frame)

interpretation tendermint: listener_contract "tendermint_hooks je ch ep" for je ch ep
  by unfold_locales
    (auto simp: tendermint_hooks_def default_corrupt_keeps no_body_override_def tm_parse_not_direct hook_labels_final
      tm_label_final dest: chain_content_frame)

interpretation rest: listener_contract "rest_hooks ch ep" for ch ep
  by unfold_locales
    (auto simp: rest_hooks_def default_corrupt_keeps no_body_override_def rest_parse_not_direct hook_labels_final
      dest: chain_content_frame)

section \<open>The listener of an endpoint\<close>

text \<open>\<open>_HTTP_ADAPTERS\<close> of the server, for the interfaces of this theory.\<close>

definition http_listener :: "(string \<Rightarrow> string) \<Rightarrow> chains \<Rightarrow> endpoint \<Rightarrow> listener_env hooks option" where
  "http_listener json_error ch ep =
     (if transport ep \<noteq> ''http'' then None
      else if interface ep = ''jsonrpc'' then Some (jsonrpc_hooks ch ep)
      else if interface ep = ''rest'' then Some (rest_hooks ch ep)
      else if interface ep = ''tendermintrpc'' then Some (tendermint_hooks json_error ch ep)
      else None)"

lemma http_listener_contract: "http_listener je ch ep = Some H \<Longrightarrow> listener_contract H"
  using jsonrpc.listener_contract_axioms rest.listener_contract_axioms tendermint.listener_contract_axioms
  by (auto simp: http_listener_def split: if_splits)

lemma http_listener_down: "http_listener je ch ep = Some H \<Longrightarrow> build_down H = default_build_down"
  by (auto simp: http_listener_def jsonrpc_hooks_def rest_hooks_def tendermint_hooks_def split: if_splits)

text \<open>A reachable log stays reachable while a request is annotated and finalized.\<close>

lemma reach_note_request: "log_reach hmax is L \<Longrightarrow> log_reach hmax is (note_request sha H req i L)"
  by (auto simp: note_request_def Let_def intro: reach_body reach_path split: option.split)

lemma length_rows_note [simp]: "length (rows (note_request sha H req i L)) = length (rows L)"
  by (simp add: note_request_def record_body_def record_path_def Let_def split: option.split)

lemma note_request_kept:
  "reset_generation (note_request sha H req i L) = reset_generation L"
  "i < length (rows L) \<Longrightarrow> reset_gen (rows (note_request sha H req i L) ! i) = reset_gen (rows L ! i)
    \<and> e_status (rows (note_request sha H req i L) ! i) = e_status (rows L ! i)"
  "j \<noteq> i \<Longrightarrow> rows (note_request sha H req i L) ! j = rows L ! j"
  by (simp_all add: note_request_def record_body_def record_path_def Let_def split: option.split)

lemma finalize_row:
  "i < length (rows L) \<Longrightarrow> e_status (rows (finalize t i m s lat rid L) ! i) = s"
  "j \<noteq> i \<Longrightarrow> rows (finalize t i m s lat rid L) ! j = rows L ! j"
  "length (rows (finalize t i m s lat rid L)) = length (rows L)"
  by (auto simp: finalize_def append_row_def now_fields_def Let_def)

text \<open>The accounting holds of every interface that meets the contract.\<close>

lemma serve_accounts:
  assumes contract: "listener_contract H" and "log_reach hmax is (p_log p)"
    and "distinct (dict_keys (rq_headers req))"
    and "serve sha rnd H t0 t1 ep req p c = (r, p', c')"
  shows "let i = length (rows (p_log p)) in
      log_reach hmax (is @ [i]) (p_log p') \<and> total_calls (p_log p') = total_calls (p_log p) + 1
    \<and> length (rows (p_log p')) = Suc i \<and> (\<forall>j < i. rows (p_log p') ! j = rows (p_log p) ! j)
    \<and> (case r of Inl e \<Rightarrow> e_status (rows (p_log p') ! i) = ''in_flight''
       | Inr res \<Rightarrow> e_status (rows (p_log p') ! i) \<in> final_labels)
    \<and> (\<exists>n ex. p' = p\<lparr>p_log := p_log p', fail_count := n, executed := ex\<rparr>)"
proof -
  let ?i = "length (rows (p_log p))"
  obtain i p1 where arr: "arrive t0 ep (rq_headers req) VNone p = (i, p1)" by fastforce
  then obtain L where rec: "record_arrival t0 (interface ep) (transport ep) (port ep)
      (filter is_lava_header (rq_headers req)) (rq_headers req) VNone (p_log p) = (i, L)"
    and p1: "p1 = p\<lparr>p_log := L\<rparr>"
    by (auto simp: arrive_def split: prod.splits)
  have i: "i = ?i" and L: "\<exists>e. rows L = rows (p_log p) @ [e] \<and> e_status e = ''in_flight'' \<and> reset_gen e = reset_generation L"
    using rec by (auto simp: record_arrival_def append_row_def new_entry_def now_fields_def Let_def)
  have reach: "log_reach hmax (is @ [i]) L" using reach_arrival [OF assms(2,3) rec] .
  let ?N = "note_request sha H req i L"
  have noted: "log_reach hmax (is @ [i]) ?N" using reach by (rule reach_note_request)
  have iL: "i < length (rows ?N)" using L i by auto
  have total: "total_calls M = total_calls (p_log p) + 1" if "log_reach hmax (is @ [i]) M" for M
    using log_repD(5) [of "is @ [i]" M] log_repD(5) [of "is" "p_log p"] log_reach_rep [OF that]
      log_reach_rep [OF assms(2)] by simp
  have old: "rows ?N ! j = rows (p_log p) ! j" if "j < ?i" for j
    using that L i by (auto simp: note_request_kept nth_append)
  have flight: "e_status (rows ?N ! i) = ''in_flight''"
    using L i note_request_kept(2) [of i L sha H req] by auto
  have run: "serve_entry sha rnd H t1 ep req i p1 c = (r, p', c')"
    using assms(4) arr by (simp add: serve_def)
  note effect = listener_contract.serve_entry_effect [OF contract, where sha = sha and rnd = rnd and t = t1 and ep = ep
    and req = req and i = i and p = p1 and c = c, unfolded run]
  show ?thesis
  proof (cases r)
    case (Inl e)
    with effect obtain n ex where p': "p' = p\<lparr>p_log := ?N, fail_count := n, executed := ex\<rparr>"
      by (auto simp: p1)
    then show ?thesis using Inl noted total [OF noted] old flight L i by (auto simp: Let_def)
  next
    case (Inr res)
    with effect obtain n ex m s lat rid where s: "s \<in> final_labels"
      and p': "p' = p\<lparr>p_log := finalize t1 i m s lat rid ?N, fail_count := n, executed := ex\<rparr>"
      by (auto simp: p1)
    have "log_reach hmax (is @ [i]) (finalize t1 i m s lat rid ?N)"
      using reach_finalize [OF noted iL, of t1 m s lat rid] by simp
    with p' s show ?thesis
      using Inr total iL old L i by (auto simp: Let_def finalize_row)
  qed
qed

text \<open>
  C3. Every request is accounted for exactly once. Serving a request on any of these interfaces
  adds one row to the log of the provider and counts one call, touches no other row, and leaves
  the log reachable (so every counter fact holds of it). If the flow returns a reply, the row
  carries a final status; if an exception ended the flow, the row stays in flight. The scenario,
  the settings, the endpoints and the identity of the provider are unchanged.
\<close>

theorem serve_accounts_once:
  assumes "http_listener je ch ep = Some H" and "log_reach hmax is (p_log p)"
    and "distinct (dict_keys (rq_headers req))"
    and "serve sha rnd H t0 t1 ep req p c = (r, p', c')"
  shows "let i = length (rows (p_log p)) in
      log_reach hmax (is @ [i]) (p_log p') \<and> total_calls (p_log p') = total_calls (p_log p) + 1
    \<and> length (rows (p_log p')) = Suc i \<and> (\<forall>j < i. rows (p_log p') ! j = rows (p_log p) ! j)
    \<and> (case r of Inl e \<Rightarrow> e_status (rows (p_log p') ! i) = ''in_flight''
       | Inr res \<Rightarrow> e_status (rows (p_log p') ! i) \<in> final_labels)
    \<and> (\<exists>n ex. p' = p\<lparr>p_log := p_log p', fail_count := n, executed := ex\<rparr>)"
  using http_listener_contract [OF assms(1)] assms(2-4) by (rule serve_accounts)

section \<open>A provider and a request to try the properties on\<close>

definition sample_endpoint :: endpoint where
  "sample_endpoint = \<lparr>interface = ''jsonrpc'', transport = ''http'', port = 18545\<rparr>"

definition sample_provider :: provider where
  "sample_provider = new_provider \<lparr>pl_name = ''eth-sim'', pl_chain = ''eth'', providers = []\<rparr> EthQuirks ''1''
     [sample_endpoint] ''EthPrimaryProvider1'' False []"

definition sample_request :: raw_request where
  "sample_request = \<lparr>rq_body = [], rq_headers = [(''host'', HText ''sim'')], rq_verb = ''POST'', rq_path = ''/'', rq_query = []\<rparr>"

definition quiet_chains :: chains where
  "quiet_chains chain parsed sc qs iface = Inr (VInt 200, VDict [])"

definition sample_listener :: "listener_env hooks" where
  "sample_listener = jsonrpc_hooks quiet_chains sample_endpoint"

definition sample_env :: listener_env where
  "sample_env = \<lparr>rest_ids = 0, tm_ids = 0\<rparr>"

lemma sample_listener: "http_listener je quiet_chains sample_endpoint = Some sample_listener"
  by (simp add: http_listener_def sample_endpoint_def sample_listener_def)

lemma sample_reach: "log_reach HISTORY_MAX [] (p_log sample_provider)"
  by (simp add: sample_provider_def new_provider_def reach_new)

theorem serve_accounts_once_witness:
  "\<exists>r p' c'. serve (\<lambda>b. b) 0 sample_listener 1 2 sample_endpoint sample_request sample_provider sample_env = (r, p', c')
     \<and> total_calls (p_log p') = 1"
proof -
  obtain r p' c' where run: "serve (\<lambda>b. b) 0 sample_listener 1 2 sample_endpoint sample_request sample_provider sample_env
      = (r, p', c')" by (metis prod.exhaust)
  have "distinct (dict_keys (rq_headers sample_request))" by (simp add: sample_request_def)
  from serve_accounts_once [OF sample_listener sample_reach this run] run show ?thesis
    by (simp add: Let_def sample_provider_def new_provider_def new_log_def)
qed

section \<open>Replies\<close>

text \<open>
  C8. The filters decide where a scenario is felt. Every reply of an endpoint that the scenario
  targets carries exactly its chosen headers and trailers, whatever kind of reply it is. A reply
  of an endpoint that it does not target carries none, is not delayed, not paused and not
  corrupted, and does not use up the window of a sequenced fault.
\<close>

theorem reply_headers_follow_filters:
  assumes "http_listener je ch ep = Some H"
    and "serve sha rnd H t0 t1 ep req p c = (Inr res, p', c')"
  shows "\<exists>tg. targets (cfg_snapshot ScenarioConfig (scenario p)) ep = Inr tg
    \<and> (tg \<longrightarrow> r_reply_headers res = py_or (get_or (cfg_snapshot ScenarioConfig (scenario p)) ''reply_headers'' VNone) (VDict [])
          \<and> r_reply_trailers res = py_or (get_or (cfg_snapshot ScenarioConfig (scenario p)) ''reply_trailers'' VNone) (VDict []))
    \<and> (\<not> tg \<longrightarrow> r_reply_headers res = VDict [] \<and> r_reply_trailers res = VDict [] \<and> r_latency_ms res = VInt 0
          \<and> r_pause_at res = VNone \<and> r_pause_ms res = VInt 0 \<and> r_corruption_mode res = VNone
          \<and> fail_count p' = fail_count p)"
proof -
  from assms(1) have contract: "listener_contract H" by (rule http_listener_contract)
  obtain i p1 where arr: "arrive t0 ep (rq_headers req) VNone p = (i, p1)" by fastforce
  then have p1: "scenario p1 = scenario p" "fail_count p1 = fail_count p"
    by (auto simp: arrive_def split: prod.splits)
  have "serve_entry sha rnd H t1 ep req i p1 c = (Inr res, p', c')" using assms(2) arr by (simp add: serve_def)
  from listener_contract.serve_entry_reply [OF contract this] show ?thesis
    by (auto simp: chosen_of_def bare_def p1)
qed

lemma sample_reply_fields:
  "get_or (cfg_snapshot ScenarioConfig (scenario sample_provider)) ''reply_headers'' VNone = VNone"
  by code_simp

theorem reply_headers_follow_filters_witness:
  "\<exists>res p' c'. serve (\<lambda>b. b) 0 sample_listener 1 2 sample_endpoint sample_request sample_provider sample_env = (Inr res, p', c')
     \<and> r_reply_headers res = VDict []"
proof -
  have "\<not> isl (fst (serve (\<lambda>b. b) 0 sample_listener 1 2 sample_endpoint sample_request sample_provider sample_env))"
    by code_simp
  then obtain res p' c' where run: "serve (\<lambda>b. b) 0 sample_listener 1 2 sample_endpoint sample_request sample_provider sample_env
      = (Inr res, p', c')" by (metis fst_conv isl_def prod.exhaust sum.exhaust)
  have "r_reply_headers res = VDict []"
    using reply_headers_follow_filters [OF sample_listener run] sample_reply_fields by (auto simp: py_or_def)
  with run show ?thesis by blast
qed

text \<open>The flow of a provider that is down on a targeted endpoint.\<close>

lemma serve_down:
  assumes "build_down H = default_build_down"
    and "targets (cfg_snapshot ScenarioConfig (scenario p)) ep = Inr True"
    and "get_or (cfg_snapshot ScenarioConfig (scenario p)) ''mode'' (VStr ''success'') = VStr ''down''"
    and "get_or (cfg_snapshot ScenarioConfig (scenario p)) ''fail_first_n'' (VInt 0) = VInt 0"
    and "arrive t0 ep (rq_headers req) VNone p = (i, p1)"
  shows "serve sha rnd H t0 t1 ep req p c
    = (Inr (with_reply_headers default_build_down
          (chosen_of True (cfg_snapshot ScenarioConfig (scenario p)) ''reply_headers'')
          (chosen_of True (cfg_snapshot ScenarioConfig (scenario p)) ''reply_trailers'')),
       end_row t1 i (VStr ''*'') ''down'' (VInt 0) VNone (p1\<lparr>p_log := note_request sha H req i (p_log p1)\<rparr>), c)"
proof -
  have same: "scenario p1 = scenario p" using assms(5) by (auto simp: arrive_def split: prod.splits)
  show ?thesis using assms
    by (simp add: serve_def serve_entry_def same resolve_mode_def py_lt_def pf_lt_def Let_def after_mode_def add_headers_def)
qed

lemma note_request_row:
  "i < length (rows L) \<Longrightarrow> e_request_id (rows (note_request sha H req i L) ! i) = e_request_id (rows L ! i)"
  by (simp add: note_request_def record_body_def record_path_def Let_def split: option.split)

lemma finalize_fields:
  "i < length (rows L) \<Longrightarrow> e_method (rows (finalize t i m s lat rid L) ! i) = m
    \<and> e_latency_ms (rows (finalize t i m s lat rid L) ! i) = lat
    \<and> e_request_id (rows (finalize t i m s lat rid L) ! i) = (if rid = VNone then e_request_id (rows L ! i) else rid)"
  by (auto simp: finalize_def append_row_def now_fields_def Let_def)

text \<open>
  A provider that is down reads nothing. On a targeted endpoint of a provider whose mode is
  \<open>down\<close>, the reply to any request, valid or not, is the bodyless 503; its row has the method
  \<open>*\<close>, no request id and latency 0; and no state of the interface moves, so the request did not
  even use up a number for its id.
\<close>

theorem down_reads_nothing:
  assumes "http_listener je ch ep = Some H"
    and "targets (cfg_snapshot ScenarioConfig (scenario p)) ep = Inr True"
    and "get_or (cfg_snapshot ScenarioConfig (scenario p)) ''mode'' (VStr ''success'') = VStr ''down''"
    and "get_or (cfg_snapshot ScenarioConfig (scenario p)) ''fail_first_n'' (VInt 0) = VInt 0"
  shows "\<exists>res p'. serve sha rnd H t0 t1 ep req p c = (Inr res, p', c)
    \<and> r_action res = NoBody \<and> r_status res = VInt 503 \<and> r_body res = VNone \<and> r_latency_ms res = VInt 0
    \<and> (let e = rows (p_log p') ! length (rows (p_log p)) in
         e_method e = VStr ''*'' \<and> e_status e = ''down'' \<and> e_request_id e = VNone \<and> e_latency_ms e = VInt 0)"
proof -
  obtain i p1 where arr: "arrive t0 ep (rq_headers req) VNone p = (i, p1)" by fastforce
  note run = serve_down [OF http_listener_down [OF assms(1)] assms(2-4) arr, of sha rnd t1 c]
  have row: "i = length (rows (p_log p))" "i < length (rows (p_log p1))" "e_request_id (rows (p_log p1) ! i) = VNone"
    using arr by (auto simp: arrive_def record_arrival_def append_row_def new_entry_def now_fields_def Let_def
        split: prod.splits)
  let ?L = "note_request sha H req i (p_log p1)"
  have i: "i < length (rows ?L)" using row(2) by simp
  have "e_request_id (rows ?L ! i) = VNone" using row(3) note_request_row [OF row(2)] by simp
  with i have "let e = rows (p_log (end_row t1 i (VStr ''*'') ''down'' (VInt 0) VNone (p1\<lparr>p_log := ?L\<rparr>))) ! i in
      e_method e = VStr ''*'' \<and> e_status e = ''down'' \<and> e_request_id e = VNone \<and> e_latency_ms e = VInt 0"
    by (simp add: end_row_def Let_def finalize_fields finalize_row(1))
  then show ?thesis using run row(1)
    by (simp add: default_build_down_def serve_result_of_def with_reply_headers_def)
qed

definition down_provider :: provider where
  "down_provider = sample_provider\<lparr>scenario :=
     projr (cfg_update ScenarioConfig 0 [(''mode'', VStr ''down'')] (scenario sample_provider))\<rparr>"

theorem down_reads_nothing_witness:
  "\<exists>res p'. serve (\<lambda>b. b) 0 sample_listener 1 2 sample_endpoint (sample_request\<lparr>rq_body := ''not json''\<rparr>) down_provider
      sample_env = (Inr res, p', sample_env) \<and> r_status res = VInt 503"
proof -
  have "targets (cfg_snapshot ScenarioConfig (scenario down_provider)) sample_endpoint = Inr True" by code_simp
  moreover have "get_or (cfg_snapshot ScenarioConfig (scenario down_provider)) ''mode'' (VStr ''success'') = VStr ''down''"
    by code_simp
  moreover have "get_or (cfg_snapshot ScenarioConfig (scenario down_provider)) ''fail_first_n'' (VInt 0) = VInt 0"
    by code_simp
  ultimately show ?thesis
    using down_reads_nothing [OF sample_listener, where p = down_provider and c = sample_env and sha = "\<lambda>b. b" and rnd = 0
        and ?t0.0 = 1 and ?t1.0 = 2 and req = "sample_request\<lparr>rq_body := ''not json''\<rparr>"]
    by blast
qed

text \<open>
  A method that cannot be a key ends the request without a reply. When the body of a JSON-RPC
  request is an object whose method is a list or an object, the lookup of the override raises: no
  reply is sent, and the row of the request stays in flight.
\<close>

theorem unhashable_method_unanswered:
  fixes c :: 'c
  assumes "jsonrpc_parse (rq_body req) = Parsed parsed" and "vget parsed ''method'' = Some m" and "\<not> hashable m"
    and "targets (cfg_snapshot ScenarioConfig (scenario p)) ep = Inr True"
    and "get_or (cfg_snapshot ScenarioConfig (scenario p)) ''mode'' (VStr ''success'') = VStr ''success''"
    and "get_or (cfg_snapshot ScenarioConfig (scenario p)) ''fail_first_n'' (VInt 0) = VInt 0"
    and "get_or (cfg_snapshot ScenarioConfig (scenario p)) ''responses'' VNone = VDict rs"
  shows "\<exists>p' c'. serve sha rnd (jsonrpc_hooks ch ep) t0 t1 ep req p c = (Inl TypeError, p', c')
    \<and> e_status (rows (p_log p') ! length (rows (p_log p))) = ''in_flight''"
proof -
  obtain i p1 where arr: "arrive t0 ep (rq_headers req) VNone p = (i, p1)" by fastforce
  have same: "scenario p1 = scenario p" and row: "i = length (rows (p_log p))" "i < length (rows (p_log p1))"
      "e_status (rows (p_log p1) ! i) = ''in_flight''"
    using arr by (auto simp: arrive_def record_arrival_def append_row_def new_entry_def now_fields_def Let_def
        split: prod.splits)
  let ?H = "jsonrpc_hooks ch ep :: 'c hooks" and ?sc = "cfg_snapshot ScenarioConfig (scenario p)"
  let ?p2 = "p1\<lparr>p_log := note_request sha ?H req i (p_log p1)\<rparr>"
  have key: "method_key ?H parsed = m" "m \<noteq> VNone"
    using assms(2,3) by (auto simp: jsonrpc_hooks_def default_method_key_def vget_or_def)
  have "\<exists>kvs. py_or (VDict rs) (VDict []) = VDict kvs" by (simp add: py_or_def)
  then have "method_config ?H True ?sc parsed = Inl TypeError"
    using key assms(3,7) by (auto simp: method_config_def Let_def pd_get_def)
  then have ans: "answer rnd ?H t1 i req True mode ?sc lat parsed ?p2 c = (Inl TypeError, ?p2, c)" for mode lat
    by (simp add: answer_def)
  have parse: "parse_request ?H req q c = (Parsed parsed, c)" for q using assms(1) by (simp add: jsonrpc_hooks_def)
  have "serve sha rnd ?H t0 t1 ep req p c = (Inl TypeError, ?p2, c)"
    using arr assms(4-6)
    by (simp add: serve_def serve_entry_def same resolve_mode_def py_lt_def pf_lt_def Let_def after_mode_def
        add_headers_def parse ans)
  moreover have "e_status (rows (p_log ?p2) ! i) = ''in_flight''"
    using row note_request_kept(2) [of i "p_log p1" sha ?H req] by simp
  ultimately show ?thesis using row(1) by auto
qed

definition list_method_request :: raw_request where
  "list_method_request = sample_request\<lparr>rq_body := CHR ''{'' # CHR 0x22 # ''method'' @ CHR 0x22 # '':[]}''\<rparr>"

theorem unhashable_method_unanswered_witness:
  "\<exists>p' c'. serve (\<lambda>b. b) 0 (jsonrpc_hooks quiet_chains sample_endpoint) 1 2 sample_endpoint list_method_request
      sample_provider sample_env = (Inl TypeError, p', c')"
proof -
  have "jsonrpc_parse (rq_body list_method_request) = Parsed (VDict [(VStr ''method'', VList [])])" by code_simp
  moreover have "vget (VDict [(VStr ''method'', VList [])]) ''method'' = Some (VList [])" "\<not> hashable (VList [])"
    by simp_all
  moreover have "targets (cfg_snapshot ScenarioConfig (scenario sample_provider)) sample_endpoint = Inr True" by code_simp
  moreover have "get_or (cfg_snapshot ScenarioConfig (scenario sample_provider)) ''mode'' (VStr ''success'') = VStr ''success''"
    by code_simp
  moreover have "get_or (cfg_snapshot ScenarioConfig (scenario sample_provider)) ''fail_first_n'' (VInt 0) = VInt 0"
    by code_simp
  moreover have "get_or (cfg_snapshot ScenarioConfig (scenario sample_provider)) ''responses'' VNone = VDict []"
    by code_simp
  ultimately show ?thesis
    using unhashable_method_unanswered [where p = sample_provider and ep = sample_endpoint and req = list_method_request
        and sha = "\<lambda>b. b" and rnd = 0 and ?t0.0 = 1 and ?t1.0 = 2 and c = sample_env and ch = quiet_chains]
    by blast
qed

end
