(* ===== verification/PortGate.thy ===== *)
theory PortGate
  imports FaultPolicy
begin

text \<open>
  \<open>port_gate.py\<close> and the loops of \<open>server.py\<close> that keep a port in the state that the scenario
  asks for.

  The condition variable makes every operation of a gate one step. A gate holds the two counters
  that order asks and passes. A loop runs passes: begin, read the wish, act, report. Other threads
  write the scenario and ask, at any moment between those steps; the step relation at the end of
  this theory has every such interleaving. What can raise in a pass (the read of the wish, the
  close of a server, a bind, the start of a serve thread) is an argument of the pass.
\<close>

section \<open>The gate\<close>

record port_gate =
  g_asked :: int
  g_done :: int
  g_open :: bool
  g_reported :: bool
  g_in_pass :: bool
  g_wake :: bool

definition new_gate :: port_gate where
  "new_gate = \<lparr>g_asked = 0, g_done = 0, g_open = False, g_reported = False, g_in_pass = False, g_wake = False\<rparr>"

definition wants_closed :: "provider \<Rightarrow> endpoint \<Rightarrow> pyerr + bool" where
  "wants_closed p ep = port_closed (cfg_snapshot ScenarioConfig (scenario p)) ep"

definition attach :: "port_gate \<Rightarrow> port_gate" where
  "attach g = g\<lparr>g_wake := True\<rparr>"

definition begin_pass :: "port_gate \<Rightarrow> int \<times> port_gate" where
  "begin_pass g = (g_asked g, g\<lparr>g_in_pass := True\<rparr>)"

definition end_pass :: "int \<Rightarrow> bool \<Rightarrow> port_gate \<Rightarrow> port_gate" where
  "end_pass seen is_open g =
     g\<lparr>g_done := max (g_done g) seen, g_open := is_open, g_reported := True, g_in_pass := False\<rparr>"

definition last_report :: "port_gate \<Rightarrow> bool option" where
  "last_report g = (if \<not> g_reported g \<or> g_in_pass g \<or> g_done g < g_asked g then None else Some (g_open g))"

text \<open>\<open>ask\<close> returns the ticket and whether it calls the wake of the loop, whose RuntimeError it drops.\<close>

definition ask :: "port_gate \<Rightarrow> (int \<times> bool) \<times> port_gate" where
  "ask g = ((g_asked g + 1, g_wake g), g\<lparr>g_asked := g_asked g + 1\<rparr>)"

text \<open>
  \<open>wait\<close>: the states at which the condition is tested before the time is over, and what one TCP
  connection met then.
\<close>

definition wait_ready :: "int \<Rightarrow> bool \<Rightarrow> port_gate \<Rightarrow> bool" where
  "wait_ready ticket want_open g \<longleftrightarrow> ticket \<le> g_done g \<and> g_open g = want_open"

definition wait :: "int \<Rightarrow> bool \<Rightarrow> port_gate list \<Rightarrow> bool \<Rightarrow> bool" where
  "wait ticket want_open tested accepts \<longleftrightarrow> list_ex (wait_ready ticket want_open) tested \<and> accepts = want_open"

section \<open>One pass of the loop of an http or ws port\<close>

record port_server =
  serve_started :: bool
  closed_by_scenario :: bool

type_synonym port_loop = "port_server option"

text \<open>Which calls of a pass raise.\<close>

record pass_faults =
  close_raises :: bool
  bind_raises :: bool
  serve_raises :: bool

definition no_faults :: pass_faults where
  "no_faults = \<lparr>close_raises = False, bind_raises = False, serve_raises = False\<rparr>"

text \<open>\<open>_ProviderHTTPServer.close_port\<close>: the flag is set first, then the sockets are closed.\<close>

definition close_port :: "port_server \<Rightarrow> port_server" where
  "close_port s = s\<lparr>closed_by_scenario := True\<rparr>"

definition new_server :: port_server where
  "new_server = \<lparr>serve_started = False, closed_by_scenario = False\<rparr>"

text \<open>Closing the server that a loop has; a close that raises keeps it.\<close>

definition close_held :: "pass_faults \<Rightarrow> port_loop \<Rightarrow> port_loop" where
  "close_held f l = (case l of None \<Rightarrow> None | Some s \<Rightarrow> if close_raises f then Some (close_port s) else None)"

text \<open>Opening: a new server when there is none, then its serve thread. A server whose thread did not start is dropped.\<close>

definition open_held :: "pass_faults \<Rightarrow> port_loop \<Rightarrow> port_loop" where
  "open_held f l =
     (let bound = (case l of Some s \<Rightarrow> Some s | None \<Rightarrow> if bind_raises f then None else Some new_server)
      in (case bound of
            None \<Rightarrow> None
          | Some s \<Rightarrow> if serve_started s then Some s
                      else if serve_raises f then None else Some (s\<lparr>serve_started := True\<rparr>)))"

text \<open>The body of \<open>_HttpPortLoop._run\<close> for the wish that was read.\<close>

definition http_pass :: "pyerr + bool \<Rightarrow> pass_faults \<Rightarrow> port_loop \<Rightarrow> port_loop" where
  "http_pass wish f l = (case wish of
     Inl e \<Rightarrow> l
   | Inr shut \<Rightarrow>
       if shut then close_held f l
       else (case l of
               Some s \<Rightarrow>
                 if closed_by_scenario s then (if close_raises f then close_held f l else open_held f None)
                 else open_held f l
             | None \<Rightarrow> open_held f None))"

definition http_is_open :: "port_loop \<Rightarrow> bool" where
  "http_is_open l = (case l of None \<Rightarrow> False | Some s \<Rightarrow> serve_started s \<and> \<not> closed_by_scenario s)"

text \<open>One pass of \<open>_serve\<close> in \<open>_run_grpc_in_thread\<close>: a server object is there or not.\<close>

definition grpc_pass :: "pyerr + bool \<Rightarrow> pass_faults \<Rightarrow> bool \<Rightarrow> bool" where
  "grpc_pass wish f server = (case wish of
     Inl e \<Rightarrow> server
   | Inr shut \<Rightarrow>
       if shut then (if server then close_raises f else False)
       else (if server then True else \<not> bind_raises f \<and> \<not> serve_raises f))"

section \<open>What a pass promises\<close>

text \<open>
  The contract of a loop: a pass in which nothing raises leaves the port as the wish asks, and
  what it reports is what it left.
\<close>

locale serve_loop =
  fixes run_pass :: "pyerr + bool \<Rightarrow> pass_faults \<Rightarrow> 'l \<Rightarrow> 'l"
    and is_open :: "'l \<Rightarrow> bool"
  assumes settles: "is_open (run_pass (Inr shut) no_faults l) \<longleftrightarrow> \<not> shut"
    and unread: "run_pass (Inl e) f l = l"
    and stays_open: "is_open l \<Longrightarrow> is_open (run_pass (Inr False) f l)"
begin

text \<open>Passes that raise delay the change; the first that does not raise makes it.\<close>

fun retries :: "bool \<Rightarrow> pass_faults list \<Rightarrow> 'l \<Rightarrow> 'l" where
  "retries shut [] l = l"
| "retries shut (f # fs) l = retries shut fs (run_pass (Inr shut) f l)"

lemma retries_append: "retries shut (fs @ gs) l = retries shut gs (retries shut fs l)"
  by (induction fs arbitrary: l) auto

lemma retries_settle: "is_open (retries shut (fs @ [no_faults]) l) \<longleftrightarrow> \<not> shut"
  by (simp add: retries_append settles)

lemma retries_keep_open: "is_open l \<Longrightarrow> is_open (retries False fs l)"
  by (induction fs arbitrary: l) (auto intro: stays_open)

end

lemma http_pass_closes: "\<not> http_is_open (http_pass (Inr True) f l)"
  by (auto simp: http_pass_def http_is_open_def close_held_def close_port_def split: option.splits)

interpretation http: serve_loop http_pass http_is_open
proof
  show "http_is_open (http_pass (Inr shut) no_faults l) \<longleftrightarrow> \<not> shut" for shut l
    using http_pass_closes [of no_faults l]
    by (cases shut) (auto simp: http_pass_def http_is_open_def open_held_def close_held_def no_faults_def new_server_def
        split: option.splits)
  show "http_pass (Inl e) f l = l" for e f l by (simp add: http_pass_def)
  show "http_is_open (http_pass (Inr False) f l)" if "http_is_open l" for f l
    using that by (auto simp: http_pass_def http_is_open_def open_held_def split: option.splits)
qed

interpretation grpc: serve_loop grpc_pass "\<lambda>b. b"
  by unfold_locales (auto simp: grpc_pass_def no_faults_def)

section \<open>Interleavings\<close>

text \<open>Where the thread of the loop is: between two passes, after the counter was read, after the wish was read.\<close>

datatype 'w pass_point = Idle | Began int | HasRead int 'w nat

record ('l, 'w) gate_system =
  gate :: port_gate
  held :: 'l
  wish :: 'w
  writes :: nat
  point :: "'w pass_point"
  asked_at :: "int \<Rightarrow> nat"
  finished :: "('w \<times> nat) option"

text \<open>
  \<open>writes\<close> counts the writes of the scenario. \<open>asked_at\<close> and \<open>finished\<close> are for the statements
  only: the number of writes before each ask, and the wish and the number of writes that the
  newest finished pass read.
\<close>

inductive gate_step ::
  "('w \<Rightarrow> pass_faults \<Rightarrow> 'l \<Rightarrow> 'l) \<Rightarrow> ('l \<Rightarrow> bool) \<Rightarrow> ('l, 'w) gate_system \<Rightarrow> ('l, 'w) gate_system \<Rightarrow> bool"
  for run_pass is_open where
  step_write: "gate_step run_pass is_open s (s\<lparr>wish := w, writes := writes s + 1\<rparr>)"
| step_ask: "ask (gate s) = ((ticket, woken), g) \<Longrightarrow>
    gate_step run_pass is_open s (s\<lparr>gate := g, asked_at := (asked_at s)(ticket := writes s)\<rparr>)"
| step_begin: "point s = Idle \<Longrightarrow> begin_pass (gate s) = (seen, g) \<Longrightarrow>
    gate_step run_pass is_open s (s\<lparr>gate := g, point := Began seen\<rparr>)"
| step_read: "point s = Began seen \<Longrightarrow>
    gate_step run_pass is_open s (s\<lparr>point := HasRead seen (wish s) (writes s)\<rparr>)"
| step_end: "point s = HasRead seen w v \<Longrightarrow> l = run_pass w f (held s) \<Longrightarrow>
    gate_step run_pass is_open s
      (s\<lparr>gate := end_pass seen (is_open l) (gate s), held := l, point := Idle, finished := Some (w, v)\<rparr>)"

definition gate_start :: "'l \<Rightarrow> 'w \<Rightarrow> ('l, 'w) gate_system" where
  "gate_start l w = \<lparr>gate = new_gate, held = l, wish = w, writes = 0, point = Idle, asked_at = (\<lambda>_. 0), finished = None\<rparr>"

inductive gate_reach ::
  "('w \<Rightarrow> pass_faults \<Rightarrow> 'l \<Rightarrow> 'l) \<Rightarrow> ('l \<Rightarrow> bool) \<Rightarrow> 'l \<Rightarrow> 'w \<Rightarrow> ('l, 'w) gate_system \<Rightarrow> bool"
  for run_pass is_open l0 w0 where
  reach_start: "gate_reach run_pass is_open l0 w0 (gate_start l0 w0)"
| reach_step: "gate_reach run_pass is_open l0 w0 s \<Longrightarrow> gate_step run_pass is_open s s' \<Longrightarrow>
    gate_reach run_pass is_open l0 w0 s'"

inductive_cases gate_stepE: "gate_step run_pass is_open s s'"

section \<open>The order of asks and passes\<close>

definition asks_ordered :: "('l, 'w) gate_system \<Rightarrow> bool" where
  "asks_ordered s \<longleftrightarrow> 0 \<le> g_done (gate s) \<and> g_done (gate s) \<le> g_asked (gate s)
     \<and> (\<forall>t. 1 \<le> t \<and> t \<le> g_asked (gate s) \<longrightarrow> asked_at s t \<le> writes s)"

text \<open>A read at version \<open>v\<close> of a pass that saw the asks up to \<open>seen\<close>.\<close>

definition fresh_read :: "('l, 'w) gate_system \<Rightarrow> int \<Rightarrow> 'w \<Rightarrow> nat \<Rightarrow> bool" where
  "fresh_read s seen w v \<longleftrightarrow> v \<le> writes s \<and> (v = writes s \<longrightarrow> w = wish s)
     \<and> (\<forall>t. 1 \<le> t \<and> t \<le> seen \<longrightarrow> asked_at s t \<le> v)"

definition point_ok :: "('l, 'w) gate_system \<Rightarrow> bool" where
  "point_ok s = (case point s of
     Idle \<Rightarrow> \<not> g_in_pass (gate s)
   | Began seen \<Rightarrow> g_in_pass (gate s) \<and> g_done (gate s) \<le> seen \<and> seen \<le> g_asked (gate s)
   | HasRead seen w v \<Rightarrow> g_in_pass (gate s) \<and> g_done (gate s) \<le> seen \<and> seen \<le> g_asked (gate s) \<and> fresh_read s seen w v)"

definition report_ok :: "('l \<Rightarrow> bool) \<Rightarrow> ('l, 'w) gate_system \<Rightarrow> bool" where
  "report_ok is_open s = (case finished s of
     None \<Rightarrow> \<not> g_reported (gate s) \<and> g_done (gate s) = 0
   | Some (w, v) \<Rightarrow> g_open (gate s) = is_open (held s) \<and> fresh_read s (g_done (gate s)) w v)"

definition left_by :: "('w \<Rightarrow> pass_faults \<Rightarrow> 'l \<Rightarrow> 'l) \<Rightarrow> ('l, 'w) gate_system \<Rightarrow> bool" where
  "left_by run_pass s = (case finished s of None \<Rightarrow> True | Some (w, v) \<Rightarrow> \<exists>f l. held s = run_pass w f l)"

definition gate_inv :: "('w \<Rightarrow> pass_faults \<Rightarrow> 'l \<Rightarrow> 'l) \<Rightarrow> ('l \<Rightarrow> bool) \<Rightarrow> ('l, 'w) gate_system \<Rightarrow> bool" where
  "gate_inv run_pass is_open s \<longleftrightarrow> asks_ordered s \<and> point_ok s \<and> report_ok is_open s \<and> left_by run_pass s"

lemmas gate_defs = asks_ordered_def point_ok_def report_ok_def left_by_def fresh_read_def

lemma gate_inv_start: "gate_inv run_pass is_open (gate_start l w)"
  by (auto simp: gate_inv_def gate_defs gate_start_def new_gate_def)

lemma fresh_read_write:
  "fresh_read s seen w v \<Longrightarrow> fresh_read (s\<lparr>wish := w', writes := writes s + 1\<rparr>) seen w v"
  by (auto simp: fresh_read_def)

lemma asks_ordered_write: "asks_ordered s \<Longrightarrow> asks_ordered (s\<lparr>wish := w', writes := writes s + 1\<rparr>)"
  by (auto simp: asks_ordered_def intro: le_SucI)

lemma fresh_read_ask:
  "fresh_read s seen w v \<Longrightarrow> seen \<le> g_asked (gate s) \<Longrightarrow>
   fresh_read (s\<lparr>gate := g, asked_at := (asked_at s)(g_asked (gate s) + 1 := n)\<rparr>) seen w v"
  by (auto simp: fresh_read_def)

lemma fresh_read_frame [simp]:
  "fresh_read (s\<lparr>gate := g\<rparr>) = fresh_read s" "fresh_read (s\<lparr>point := q\<rparr>) = fresh_read s"
  "fresh_read (s\<lparr>held := l\<rparr>) = fresh_read s" "fresh_read (s\<lparr>finished := x\<rparr>) = fresh_read s"
  by (auto simp: fresh_read_def fun_eq_iff)

lemma fresh_read_now: "asks_ordered s \<Longrightarrow> seen \<le> g_asked (gate s) \<Longrightarrow> fresh_read s seen (wish s) (writes s)"
  by (auto simp: fresh_read_def asks_ordered_def)

lemmas gate_inv_defs = gate_inv_def point_ok_def report_ok_def left_by_def

lemma gate_inv_write:
  assumes "gate_inv run_pass is_open s"
  shows "gate_inv run_pass is_open (s\<lparr>wish := w', writes := writes s + 1\<rparr>)"
  using assms fresh_read_write [of s _ _ _ w'] asks_ordered_write [of s w']
  by (cases "point s"; cases "finished s") (auto simp: gate_inv_defs)

lemma gate_inv_ask:
  assumes "gate_inv run_pass is_open s" and "ask (gate s) = ((ticket, woken), g)"
  shows "gate_inv run_pass is_open (s\<lparr>gate := g, asked_at := (asked_at s)(ticket := writes s)\<rparr>)"
proof -
  let ?s = "s\<lparr>gate := g, asked_at := (asked_at s)(g_asked (gate s) + 1 := writes s)\<rparr>"
  have g: "ticket = g_asked (gate s) + 1" "g = gate s\<lparr>g_asked := g_asked (gate s) + 1\<rparr>"
    using assms(2) by (auto simp: ask_def)
  have done_le: "g_done (gate s) \<le> g_asked (gate s)" using assms(1) by (simp add: gate_inv_def asks_ordered_def)
  have "asks_ordered ?s" using assms(1) by (auto simp: gate_inv_def asks_ordered_def g)
  moreover have "point_ok ?s" using assms(1) fresh_read_ask [where s = s and g = g and n = "writes s"]
    by (cases "point s") (auto simp: gate_inv_def point_ok_def g)
  moreover have "report_ok is_open ?s" using assms(1) fresh_read_ask [where s = s and g = g and n = "writes s"] done_le
    by (cases "finished s") (auto simp: gate_inv_def report_ok_def g)
  moreover have "left_by run_pass ?s" using assms(1) by (cases "finished s") (auto simp: gate_inv_def left_by_def)
  ultimately show ?thesis by (simp add: gate_inv_def g(1))
qed

lemma gate_inv_step:
  assumes "gate_step run_pass is_open s s'" and "gate_inv run_pass is_open s"
  shows "gate_inv run_pass is_open s'"
  using assms(1)
proof cases
  case (step_write w)
  then show ?thesis using gate_inv_write [OF assms(2)] by simp
next
  case (step_ask ticket woken g)
  then show ?thesis using gate_inv_ask [OF assms(2)] by simp
next
  case (step_begin seen g)
  then show ?thesis using assms(2)
    by (cases "finished s") (auto simp: gate_inv_defs asks_ordered_def begin_pass_def)
next
  case (step_read seen)
  moreover have "asks_ordered s" using assms(2) by (simp add: gate_inv_def)
  ultimately show ?thesis using assms(2) fresh_read_now [of s seen]
    by (cases "finished s") (auto simp: gate_inv_defs asks_ordered_def)
next
  case (step_end seen w v l f)
  then have "g_done (gate s) \<le> seen" "fresh_read s seen w v" "seen \<le> g_asked (gate s)"
    using assms(2) by (auto simp: gate_inv_defs)
  then show ?thesis using step_end assms(2)
    by (auto simp: gate_inv_defs asks_ordered_def end_pass_def max_def)
qed

lemma gate_reach_inv: "gate_reach run_pass is_open l w s \<Longrightarrow> gate_inv run_pass is_open s"
  by (induction rule: gate_reach.induct) (auto intro: gate_inv_start gate_inv_step)

lemma wait_ready_read:
  assumes "gate_reach run_pass is_open l0 w0 s" and "1 \<le> t" and "wait_ready t want (gate s)"
  shows "\<exists>w v f l. finished s = Some (w, v) \<and> asked_at s t \<le> v \<and> (asked_at s t = writes s \<longrightarrow> w = wish s)
    \<and> want = is_open (run_pass w f l)"
proof -
  have inv: "gate_inv run_pass is_open s" using assms(1) by (rule gate_reach_inv)
  have t: "t \<le> g_done (gate s)" "want = g_open (gate s)" using assms(3) by (auto simp: wait_ready_def)
  with inv assms(2) obtain w v where fin: "finished s = Some (w, v)"
    by (cases "finished s") (auto simp: gate_inv_def report_ok_def)
  with inv t assms(2) show ?thesis by (fastforce simp: gate_inv_def gate_defs)
qed

lemma last_report_read:
  assumes "gate_reach run_pass is_open l0 w0 s" and "last_report (gate s) = Some b"
  shows "point s = Idle \<and> b = is_open (held s)
    \<and> (\<exists>w v. finished s = Some (w, v) \<and> (\<forall>t. 1 \<le> t \<and> t \<le> g_asked (gate s) \<longrightarrow> asked_at s t \<le> v))"
proof -
  have inv: "gate_inv run_pass is_open s" using assms(1) by (rule gate_reach_inv)
  from assms(2) have g: "g_reported (gate s)" "\<not> g_in_pass (gate s)" "g_asked (gate s) \<le> g_done (gate s)" "b = g_open (gate s)"
    by (auto simp: last_report_def split: if_splits)
  from g inv obtain w v where fin: "finished s = Some (w, v)"
    by (cases "finished s") (auto simp: gate_inv_def report_ok_def)
  have "point s = Idle" using g inv by (cases "point s") (auto simp: gate_inv_def point_ok_def)
  with fin g inv show ?thesis by (fastforce simp: gate_inv_def gate_defs)
qed

text \<open>A whole pass with no other thread in between.\<close>

definition whole_pass ::
  "('w \<Rightarrow> pass_faults \<Rightarrow> 'l \<Rightarrow> 'l) \<Rightarrow> ('l \<Rightarrow> bool) \<Rightarrow> pass_faults \<Rightarrow> ('l, 'w) gate_system \<Rightarrow> ('l, 'w) gate_system" where
  "whole_pass run_pass is_open f s =
     (case begin_pass (gate s) of (seen, g) \<Rightarrow>
        let l = run_pass (wish s) f (held s)
        in s\<lparr>gate := end_pass seen (is_open l) g, held := l, point := Idle, finished := Some (wish s, writes s)\<rparr>)"

lemma whole_pass_reach:
  assumes "gate_reach run_pass is_open l0 w0 s" and "point s = Idle"
  shows "gate_reach run_pass is_open l0 w0 (whole_pass run_pass is_open f s)"
proof -
  obtain seen g where b: "begin_pass (gate s) = (seen, g)" by fastforce
  let ?s1 = "s\<lparr>gate := g, point := Began seen\<rparr>"
  let ?s2 = "?s1\<lparr>point := HasRead seen (wish ?s1) (writes ?s1)\<rparr>"
  have "gate_reach run_pass is_open l0 w0 ?s1" using assms b by (intro reach_step [OF _ step_begin])
  then have "gate_reach run_pass is_open l0 w0 ?s2" by (intro reach_step [OF _ step_read]) simp_all
  then have "gate_reach run_pass is_open l0 w0 (?s2\<lparr>gate := end_pass seen (is_open (run_pass (wish s) f (held ?s2))) (gate ?s2),
      held := run_pass (wish s) f (held ?s2), point := Idle, finished := Some (wish s, writes s)\<rparr>)"
    by (rule reach_step [OF _ step_end [where seen = seen and w = "wish s" and v = "writes s"]]) simp_all
  then show ?thesis by (simp add: whole_pass_def b Let_def)
qed

lemma whole_pass_fields [simp]:
  "point (whole_pass run_pass is_open f s) = Idle" "wish (whole_pass run_pass is_open f s) = wish s"
  "g_asked (gate (whole_pass run_pass is_open f s)) = g_asked (gate s)"
  "held (whole_pass run_pass is_open f s) = run_pass (wish s) f (held s)"
  "g_open (gate (whole_pass run_pass is_open f s)) = is_open (run_pass (wish s) f (held s))"
  "g_asked (gate s) \<le> g_done (gate (whole_pass run_pass is_open f s))"
  by (simp_all add: whole_pass_def begin_pass_def end_pass_def Let_def)

abbreviation passes ::
  "('w \<Rightarrow> pass_faults \<Rightarrow> 'l \<Rightarrow> 'l) \<Rightarrow> ('l \<Rightarrow> bool) \<Rightarrow> pass_faults list \<Rightarrow> ('l, 'w) gate_system \<Rightarrow> ('l, 'w) gate_system" where
  "passes run_pass is_open \<equiv> fold (whole_pass run_pass is_open)"

lemma passes_fields [simp]:
  "wish (passes run_pass is_open fs s) = wish s" "g_asked (gate (passes run_pass is_open fs s)) = g_asked (gate s)"
  by (induction fs arbitrary: s) simp_all

lemma passes_idle: "point s = Idle \<Longrightarrow> point (passes run_pass is_open fs s) = Idle"
  by (induction fs arbitrary: s) simp_all

lemma passes_reach:
  "gate_reach run_pass is_open l0 w0 s \<Longrightarrow> point s = Idle \<Longrightarrow> gate_reach run_pass is_open l0 w0 (passes run_pass is_open fs s)"
  by (induction fs arbitrary: s) (simp_all add: whole_pass_reach)

context serve_loop
begin

lemma passes_answer:
  assumes "wish s = Inr shut" and "t \<le> g_asked (gate s)"
  shows "wait_ready t (\<not> shut) (gate (passes run_pass is_open (fs @ [no_faults]) s))"
proof -
  let ?s = "passes run_pass is_open fs s"
  have "g_asked (gate ?s) \<le> g_done (gate (whole_pass run_pass is_open no_faults ?s))" by (rule whole_pass_fields)
  then show ?thesis using assms by (simp add: wait_ready_def settles)
qed

end

section \<open>Properties\<close>

text \<open>
  C6. A waiter is answered from a pass that came after its ask. Whatever the threads interleave,
  when the condition of \<open>wait\<close> holds for a ticket that was handed out, the newest finished pass
  read the scenario after every write that came before the ask. If nothing wrote since the ask,
  that pass read the present wish, and a port of an http or ws endpoint that the scenario closes
  is never reported open to the waiter. A report that \<open>last_report\<close> gives is the state that the
  loop left, no pass is running, and the pass that gave it came after the newest ask.
\<close>

theorem port_report_fresh:
  assumes "gate_reach http_pass http_is_open l0 w0 s"
  shows "(\<forall>t want. 1 \<le> t \<and> wait_ready t want (gate s) \<longrightarrow>
      (\<exists>w v. finished s = Some (w, v) \<and> asked_at s t \<le> v
         \<and> (asked_at s t = writes s \<longrightarrow> w = wish s \<and> (wish s = Inr True \<longrightarrow> \<not> want))))
    \<and> (\<forall>b. last_report (gate s) = Some b \<longrightarrow> point s = Idle \<and> b = http_is_open (held s)
         \<and> (\<exists>w v. finished s = Some (w, v) \<and> (\<forall>t. 1 \<le> t \<and> t \<le> g_asked (gate s) \<longrightarrow> asked_at s t \<le> v)))"
proof -
  have "\<exists>w v. finished s = Some (w, v) \<and> asked_at s t \<le> v
      \<and> (asked_at s t = writes s \<longrightarrow> w = wish s \<and> (wish s = Inr True \<longrightarrow> \<not> want))"
    if "1 \<le> t" "wait_ready t want (gate s)" for t want
    using wait_ready_read [OF assms that] http_pass_closes by metis
  then show ?thesis using last_report_read [OF assms] by blast
qed

text \<open>One ask and one whole pass, started with a server that serves.\<close>

definition gate_sample :: "(port_loop, pyerr + bool) gate_system" where
  "gate_sample =
     (let s0 = gate_start (Some \<lparr>serve_started = True, closed_by_scenario = False\<rparr>) (Inr False);
          s1 = s0\<lparr>wish := Inr True, writes := writes s0 + 1\<rparr>;
          s2 = s1\<lparr>gate := snd (ask (gate s1)), asked_at := (asked_at s1)(1 := writes s1)\<rparr>
      in whole_pass http_pass http_is_open no_faults s2)"

lemma gate_sample_reach:
  "gate_reach http_pass http_is_open (Some \<lparr>serve_started = True, closed_by_scenario = False\<rparr>) (Inr False) gate_sample"
  unfolding gate_sample_def Let_def
  by (intro whole_pass_reach reach_step [OF _ step_ask [where woken = False]] reach_step [OF _ step_write] reach_start)
    (simp_all add: gate_start_def new_gate_def ask_def)

theorem port_report_fresh_witness:
  "wait_ready 1 False (gate gate_sample) \<and> (\<exists>w v. finished gate_sample = Some (w, v) \<and> asked_at gate_sample 1 \<le> v)"
proof -
  have ready: "1 \<le> (1 :: int) \<and> wait_ready 1 False (gate gate_sample)" by code_simp
  have "\<forall>t want. 1 \<le> t \<and> wait_ready t want (gate gate_sample) \<longrightarrow>
      (\<exists>w v. finished gate_sample = Some (w, v) \<and> asked_at gate_sample t \<le> v
         \<and> (asked_at gate_sample t = writes gate_sample \<longrightarrow>
              w = wish gate_sample \<and> (wish gate_sample = Inr True \<longrightarrow> \<not> want)))"
    using port_report_fresh [OF gate_sample_reach] by (rule conjunct1)
  with ready show ?thesis by blast
qed

text \<open>
  C23. An ask is answered. Whenever the loop of an http or ws port is between two passes, any number
  of passes that raise and then one that does not make the condition of \<open>wait\<close> true for every
  ticket handed out so far, with the state that the scenario asks for; all of it inside the
  reachable states.
\<close>

theorem ask_is_answered:
  assumes "gate_reach http_pass http_is_open l0 w0 s" and "point s = Idle" and "wish s = Inr shut"
    and "t \<le> g_asked (gate s)"
  shows "let s' = passes http_pass http_is_open (fs @ [no_faults]) s
    in gate_reach http_pass http_is_open l0 w0 s' \<and> wait_ready t (\<not> shut) (gate s')
     \<and> last_report (gate s') = Some (\<not> shut)"
proof -
  let ?s = "passes http_pass http_is_open (fs @ [no_faults]) s"
  have reach: "gate_reach http_pass http_is_open l0 w0 ?s" using assms(1,2) by (rule passes_reach)
  have ready: "wait_ready t (\<not> shut) (gate ?s)" using assms(3,4) by (rule http.passes_answer)
  have "wait_ready (g_asked (gate ?s)) (\<not> shut) (gate ?s)" using http.passes_answer [OF assms(3), of "g_asked (gate s)"] by simp
  moreover have "point ?s = Idle" using assms(2) by (rule passes_idle)
  moreover have "gate_inv http_pass http_is_open ?s" using reach by (rule gate_reach_inv)
  moreover have "finished ?s \<noteq> None" by (simp add: whole_pass_def begin_pass_def Let_def)
  moreover have "g_reported (gate ?s)" by (simp add: whole_pass_def begin_pass_def end_pass_def Let_def)
  ultimately have "last_report (gate ?s) = Some (\<not> shut)"
    by (auto simp: last_report_def wait_ready_def gate_inv_def point_ok_def)
  with reach ready show ?thesis by (simp add: Let_def)
qed

theorem ask_is_answered_witness:
  "wait_ready 1 False (gate (passes http_pass http_is_open [no_faults\<lparr>close_raises := True\<rparr>, no_faults] gate_sample))"
proof -
  have "point gate_sample = Idle" "wish gate_sample = Inr True" "1 \<le> g_asked (gate gate_sample)" by code_simp+
  from ask_is_answered [OF gate_sample_reach this, of "[no_faults\<lparr>close_raises := True\<rparr>]"]
  show ?thesis by (simp add: Let_def)
qed

end
