(* ===== verification/Wire.thy ===== *)
theory Wire
  imports Json
begin

text \<open>
  \<open>listeners/wire.py\<close>: the bytes of a reply body, with the corruption of the scenario. The text
  of a float is the parameter of \<open>json_dumps\<close>. Text leaves as UTF-8; what \<open>json_dumps\<close> writes
  is ASCII, so its bytes are its characters.
\<close>

definition utf8_char :: "char \<Rightarrow> string" where
  "utf8_char c =
     (if code_of c < 128 then [c]
      else [char_of (192 + code_of c div 64), char_of (128 + code_of c mod 64)])"

definition encode_text :: "string \<Rightarrow> string" where
  "encode_text s = concat (map utf8_char s)"

fun swap_type :: "pyval \<Rightarrow> pyval" where
  "swap_type (VBool b) = VInt (if b then 1 else 0)"
| "swap_type (VStr s) = VInt 12345"
| "swap_type v = VStr ''wrong_type_value''"

text \<open>\<open>{k: v for k, v in data.items() if k != key}\<close>.\<close>

definition without_key :: "pyval \<Rightarrow> (pyval \<times> pyval) list \<Rightarrow> (pyval \<times> pyval) list" where
  "without_key key kvs = filter (\<lambda>(k, v). \<not> py_eq k key) kvs"

lemma join_rest_shorter:
  "1 < length (split_on c s) \<Longrightarrow> length (join_with [c] (tl (split_on c s))) < length s"
proof -
  assume "1 < length (split_on c s)"
  then obtain a b rest where split: "split_on c s = a # b # rest"
    by (cases "split_on c s"; cases "tl (split_on c s)") auto
  then have "a @ [c] @ join_with [c] (b # rest) = s" using join_split [of c s] by simp
  from arg_cong [OF this, of length] split show ?thesis by simp
qed

function remove_dotted :: "(pyval \<times> pyval) list \<Rightarrow> string \<Rightarrow> (pyval \<times> pyval) list" where
  "remove_dotted data path =
     (if path = [] then data
      else
        let segments = split_on (CHR ''.'') path
        in if length segments \<le> 1 then without_key (VStr (hd segments)) data
           else (case pd_lookup (VStr (hd segments)) data of
                   Some (VDict inner) \<Rightarrow>
                     pd_put (VStr (hd segments))
                       (VDict (remove_dotted inner (join_with [CHR ''.''] (tl segments)))) data
                 | _ \<Rightarrow> data))"
  by pat_completeness auto

termination
  by (relation "measure (\<lambda>(data, path). length path)") (auto simp: join_rest_shorter)

declare remove_dotted.simps [simp del]

text \<open>\<open>target in data\<close> and \<open>data[target] = _swap_type(data[target])\<close>.\<close>

definition swap_target :: "pyval \<Rightarrow> (pyval \<times> pyval) list \<Rightarrow> pyerr + (pyval \<times> pyval) list" where
  "swap_target target kvs =
     (if \<not> truthy target then Inr kvs
      else bind_r (pd_get target kvs) (\<lambda>found. case found of
             None \<Rightarrow> Inr kvs
           | Some v \<Rightarrow> Inr (pd_put target (swap_type v) kvs)))"

text \<open>The corruption of a dict before it is written; \<open>None\<close> is the empty reply.\<close>

definition corrupt_dict ::
  "pyval \<Rightarrow> pyval \<Rightarrow> bool \<Rightarrow> (pyval \<times> pyval) list \<Rightarrow> pyerr + (pyval \<times> pyval) list option" where
  "corrupt_dict cm mf dotted kvs =
     (if cm = VStr ''missing_field'' \<and> truthy mf then
        (if dotted then
           (case mf of VStr path \<Rightarrow> Inr (Some (remove_dotted kvs path)) | _ \<Rightarrow> Inl AttributeError)
         else Inr (Some (without_key mf kvs)))
      else if cm = VStr ''empty_response'' then Inr None
      else if cm = VStr ''wrong_type'' then
        bind_r (swap_target (if truthy mf then mf
                             else if \<not> dotted then VStr ''result''
                             else (case kvs of (k, v) # _ \<Rightarrow> k | [] \<Rightarrow> VNone)) kvs) (\<lambda>d. Inr (Some d))
      else Inr (Some kvs))"

text \<open>The corruption of the bytes after the body was written.\<close>

definition corrupt_bytes :: "pyval \<Rightarrow> string \<Rightarrow> string" where
  "corrupt_bytes cm raw =
     (if cm = VStr ''truncated'' \<and> 10 < length raw then take (length raw - 10) raw
      else if cm = VStr ''invalid_json'' then ''}{ {{ not valid json''
      else raw)"

definition serialize ::
  "(pyfloat \<Rightarrow> string) \<Rightarrow> pyval \<Rightarrow> pyval \<Rightarrow> pyval \<Rightarrow> pyval \<Rightarrow> bool \<Rightarrow> pyerr + pyval \<times> string \<times> bool" where
  "serialize fl status body cm mf dotted =
     (if cm = VStr ''null_body'' then Inr (status, ''null'', True)
      else (case body of
          VDict kvs \<Rightarrow>
            bind_r (corrupt_dict cm mf dotted kvs) (\<lambda>d. case d of
                None \<Rightarrow> Inr (status, [], False)
              | Some kvs' \<Rightarrow> bind_r (json_dumps default_separators fl (VDict kvs')) (\<lambda>raw.
                  Inr (status, corrupt_bytes cm raw, True)))
        | VStr s \<Rightarrow>
            if cm = VStr ''empty_response'' then Inr (status, [], False)
            else Inr (status, corrupt_bytes cm (encode_text s), True)
        | _ \<Rightarrow> bind_r (json_dumps default_separators fl body) (\<lambda>raw. Inr (status, corrupt_bytes cm raw, True))))"

section \<open>What the caller reads\<close>

lemma default_sep: "json_sep default_separators"
  by code_simp

lemma dumps_loads:
  assumes "plain_json v"
  obtains t where "json_dumps default_separators fl v = Inr t" and "json_loads t = Some v"
  using plain_json_dumps [OF assms] json_roundtrip [OF default_sep assms] by metis

lemma invalid_json_unreadable: "json_loads ''}{ {{ not valid json'' = None"
  by code_simp

lemma null_reads: "json_loads ''null'' = Some VNone"
  by code_simp

lemma pd_lookup_without_key:
  "pd_lookup (VStr k) (without_key (VStr f) kvs) = (if k = f then None else pd_lookup (VStr k) kvs)"
  by (induction kvs) (auto simp: without_key_def)

lemma plain_json_without_key: "plain_json (VDict kvs) \<Longrightarrow> plain_json (VDict (without_key k kvs))"
  by (auto simp: without_key_def list_all_iff distinct_map_filter)

lemma pd_put_mem: "p \<in> set (pd_put (VStr k) v kvs) \<Longrightarrow> p = (VStr k, v) \<or> p \<in> set kvs"
  by (induction kvs) (auto split: if_splits)

lemma plain_json_pd_put:
  "plain_json (VDict kvs) \<Longrightarrow> plain_json v \<Longrightarrow> plain_json (VDict (pd_put (VStr k) v kvs))"
proof (induction kvs)
  case (Cons p kvs)
  obtain a b where p: "p = (a, b)" by (cases p)
  have "a \<notin> fst ` set (pd_put (VStr k) v kvs)" if "a \<noteq> VStr k" "a \<notin> fst ` set kvs"
    using that by (auto dest!: pd_put_mem)
  with Cons p show ?case by (auto split: if_splits)
qed simp

lemma plain_json_swap: "plain_json (swap_type v)"
proof -
  have "plain_json (VInt 12345)" "plain_json (VInt 1)" "plain_json (VInt 0)"
    by (simp_all add: max_int_digits_def nat_text.simps)
  then show ?thesis by (cases v) (simp_all del: plain_json.simps(3))
qed

text \<open>
  What a client reads from a corrupted JSON object over JSON-RPC. With no corruption it reads
  the body itself. With \<open>missing_field\<close> it reads the same object without that field and with
  every other field. With \<open>wrong_type\<close> it reads the same object with the chosen field changed
  to another value. With \<open>null_body\<close> it reads null, with \<open>empty_response\<close> it receives no byte,
  and with \<open>invalid_json\<close> what it receives is not JSON. The status never changes.
\<close>

theorem corruption_effects:
  assumes plain: "plain_json (VDict kvs)" and f: "f \<noteq> []" and v: "vget (VDict kvs) f = Some v"
  shows "(\<exists>raw. serialize fl st (VDict kvs) VNone mf False = Inr (st, raw, True) \<and> json_loads raw = Some (VDict kvs))
    \<and> (\<exists>raw d. serialize fl st (VDict kvs) (VStr ''missing_field'') (VStr f) False = Inr (st, raw, True)
        \<and> json_loads raw = Some d \<and> (\<forall>k. vget d k = (if k = f then None else vget (VDict kvs) k)))
    \<and> (\<exists>raw d. serialize fl st (VDict kvs) (VStr ''wrong_type'') (VStr f) False = Inr (st, raw, True)
        \<and> json_loads raw = Some d \<and> (\<forall>k. vget d k = (if k = f then Some (swap_type v) else vget (VDict kvs) k)))
    \<and> (\<exists>raw. serialize fl st (VDict kvs) (VStr ''null_body'') mf False = Inr (st, raw, True)
        \<and> json_loads raw = Some VNone)
    \<and> serialize fl st (VDict kvs) (VStr ''empty_response'') mf False = Inr (st, [], False)
    \<and> (\<exists>raw. serialize fl st (VDict kvs) (VStr ''invalid_json'') mf False = Inr (st, raw, True)
        \<and> json_loads raw = None)"
proof (intro conjI)
  obtain t where t: "json_dumps default_separators fl (VDict kvs) = Inr t" "json_loads t = Some (VDict kvs)"
    using dumps_loads [OF plain] .
  show "\<exists>raw. serialize fl st (VDict kvs) VNone mf False = Inr (st, raw, True) \<and> json_loads raw = Some (VDict kvs)"
    using t by (simp add: serialize_def corrupt_dict_def corrupt_bytes_def)
  show "\<exists>raw. serialize fl st (VDict kvs) (VStr ''null_body'') mf False = Inr (st, raw, True)
      \<and> json_loads raw = Some VNone"
    using null_reads by (simp add: serialize_def)
  show "serialize fl st (VDict kvs) (VStr ''empty_response'') mf False = Inr (st, [], False)"
    by (simp add: serialize_def corrupt_dict_def)
  show "\<exists>raw. serialize fl st (VDict kvs) (VStr ''invalid_json'') mf False = Inr (st, raw, True) \<and> json_loads raw = None"
    using t invalid_json_unreadable by (simp add: serialize_def corrupt_dict_def corrupt_bytes_def)
  obtain u where u: "json_dumps default_separators fl (VDict (without_key (VStr f) kvs)) = Inr u"
    "json_loads u = Some (VDict (without_key (VStr f) kvs))"
    using dumps_loads [OF plain_json_without_key [OF plain]] .
  with f show "\<exists>raw d. serialize fl st (VDict kvs) (VStr ''missing_field'') (VStr f) False = Inr (st, raw, True)
      \<and> json_loads raw = Some d \<and> (\<forall>k. vget d k = (if k = f then None else vget (VDict kvs) k))"
    by (simp add: serialize_def corrupt_dict_def corrupt_bytes_def pd_lookup_without_key)
  obtain w where w: "json_dumps default_separators fl (VDict (pd_put (VStr f) (swap_type v) kvs)) = Inr w"
    "json_loads w = Some (VDict (pd_put (VStr f) (swap_type v) kvs))"
    using dumps_loads [OF plain_json_pd_put [OF plain plain_json_swap]] .
  with f v show "\<exists>raw d. serialize fl st (VDict kvs) (VStr ''wrong_type'') (VStr f) False = Inr (st, raw, True)
      \<and> json_loads raw = Some d \<and> (\<forall>k. vget d k = (if k = f then Some (swap_type v) else vget (VDict kvs) k))"
    by (simp add: serialize_def corrupt_dict_def corrupt_bytes_def swap_target_def pd_get_def
        pd_lookup_put_same pd_lookup_put_other)
qed

theorem corruption_effects_witness:
  "\<exists>raw d. serialize (\<lambda>_. []) (VInt 200) (jobj [(''id'', VStr ''a''), (''result'', VBool True)])
      (VStr ''missing_field'') (VStr ''result'') False = Inr (VInt 200, raw, True)
    \<and> json_loads raw = Some d \<and> vget d ''result'' = None \<and> vget d ''id'' = Some (VStr ''a'')"
proof -
  have "plain_json (VDict [(VStr ''id'', VStr ''a''), (VStr ''result'', VBool True)])" by simp
  from corruption_effects [OF this, of "''result''" "VBool True" "\<lambda>_. []" "VInt 200" VNone]
  obtain raw d where "serialize (\<lambda>_. []) (VInt 200) (VDict [(VStr ''id'', VStr ''a''), (VStr ''result'', VBool True)])
      (VStr ''missing_field'') (VStr ''result'') False = Inr (VInt 200, raw, True)" "json_loads raw = Some d"
    "\<forall>k. vget d k = (if k = ''result'' then None
        else vget (VDict [(VStr ''id'', VStr ''a''), (VStr ''result'', VBool True)]) k)" by auto
  then show ?thesis by (intro exI [of _ raw] exI [of _ d]) (simp add: jobj_def)
qed

end
