(* ===== verification/Stubs.thy ===== *)
theory Stubs
  imports PyValue
begin

text \<open>
  The reply tables of the chains: \<open>stubs.py\<close>, \<open>stubs_btc.py\<close>, \<open>stubs_lnd.py\<close>, the constants of
  \<open>constants.py\<close> and \<open>stubs_solana.py\<close> that they use, and the error table of
  \<open>chains/solana.py\<close>. A dict with text keys is an association list in the order of the source.
  A float is the rational number that its binary form holds.
\<close>

text \<open>Hexadecimal digits, in small letters and in capitals.\<close>

definition nibble_char :: "nat \<Rightarrow> char" where
  "nibble_char d = (if d < 10 then char_of (48 + d) else char_of (87 + d))"

fun hex_text :: "nat \<Rightarrow> string" where
  "hex_text n = (if n < 16 then [nibble_char n] else hex_text (n div 16) @ [nibble_char (n mod 16)])"

declare hex_text.simps [simp del]

section \<open>Constants of the chains\<close>

definition ETH_CHAIN_ID :: string where
  "ETH_CHAIN_ID = ''0x1''"

definition ETH_LATEST_BLOCK :: string where
  "ETH_LATEST_BLOCK = ''0x1312D00''"

definition ETH_ZERO_ADDR :: string where
  "ETH_ZERO_ADDR = (''0x'' @ (concat (replicate 40 ''0'')))"

definition ETH_ZERO_HASH :: string where
  "ETH_ZERO_HASH = (''0x'' @ (concat (replicate 64 ''0'')))"

definition ETH_BLOCK_HASH :: string where
  "ETH_BLOCK_HASH = (''0xaaaa'' @ (concat (replicate 60 ''a'')))"

definition ETH_TX_HASH :: string where
  "ETH_TX_HASH = (''0xbbbb'' @ (concat (replicate 60 ''b'')))"

definition ETH_BLOOM :: string where
  "ETH_BLOOM = (''0x'' @ (concat (replicate 512 ''0'')))"

definition BTC_LATEST_BLOCK :: int where
  "BTC_LATEST_BLOCK = 850000"

definition BTC_CHAIN :: string where
  "BTC_CHAIN = ''main''"

definition BTC_TX_HASH :: string where
  "BTC_TX_HASH = (concat (replicate 32 ''ab''))"

definition LN_NETWORK :: string where
  "LN_NETWORK = ''regtest''"

definition LN_IDENTITY_PUBKEY :: string where
  "LN_IDENTITY_PUBKEY = (''02'' @ (concat (replicate 32 ''ab'')))"

definition LN_PEER_PUBKEY :: string where
  "LN_PEER_PUBKEY = (''02'' @ (concat (replicate 32 ''cd'')))"

definition LN_BLOCK_HEIGHT :: int where
  "LN_BLOCK_HEIGHT = 850000"

definition LN_NUM_PEERS :: int where
  "LN_NUM_PEERS = 1"

definition LN_NUM_ACTIVE_CHANNELS :: int where
  "LN_NUM_ACTIVE_CHANNELS = 1"

definition LN_CHAN_POINT :: string where
  "LN_CHAN_POINT = concat (replicate 32 ''ab'') @ '':0''"

definition LN_PAYMENT_HASH :: string where
  "LN_PAYMENT_HASH = (concat (replicate 32 ''ef''))"

definition LN_PAYMENT_PREIMAGE :: string where
  "LN_PAYMENT_PREIMAGE = (concat (replicate 32 ''12''))"

definition SOLANA_BASE_SLOT :: int where
  "SOLANA_BASE_SLOT = 419709627"

definition SOLANA_BLOCKHASH :: string where
  "SOLANA_BLOCKHASH = ''SiMu1atorBLockhash1111111111111111111111111''"

definition SOLANA_CORE_VERSION :: string where
  "SOLANA_CORE_VERSION = ''1.18.22''"

definition SOLANA_FEATURE_SET :: int where
  "SOLANA_FEATURE_SET = 3469865029"

section \<open>Ethereum\<close>

definition eth_block :: "string \<Rightarrow> pyval" where
  "eth_block number =
    jobj [(''number'', VStr number), (''hash'', VStr ETH_BLOCK_HASH), (''parentHash'', VStr ETH_ZERO_HASH),
      (''nonce'', VStr ''0x0000000000000000''), (''sha3Uncles'',
      VStr ''0x1dcc4de8dec75d7aab85b567b6ccd41ad312451b948a7413f0a142fd40d49347''), (''logsBloom'', VStr ETH_BLOOM),
      (''transactionsRoot'', VStr ''0x56e81f171bcc55a6ff8345e692c0f86e5b48e01b996cadc001622fb5e363b421''),
      (''stateRoot'', VStr ''0xd7f8974fb5ac78d9ac099b9ad5018bedc2ce0a72dad1827a1709da30580f0544''),
      (''receiptsRoot'', VStr ''0x56e81f171bcc55a6ff8345e692c0f86e5b48e01b996cadc001622fb5e363b421''), (''miner'',
      VStr ETH_ZERO_ADDR), (''difficulty'', VStr ''0x0''), (''totalDifficulty'', VStr ''0x0''), (''extraData'',
      VStr ''0x''), (''size'', VStr ''0x1f4''), (''gasLimit'', VStr ''0x1c9c380''), (''gasUsed'', VStr ''0x0''),
      (''timestamp'', VStr ''0x65f3d4c0''), (''baseFeePerGas'', VStr ''0x3b9aca00''), (''withdrawalsRoot'',
      VStr ETH_ZERO_HASH), (''transactions'', VList []), (''uncles'', VList []), (''withdrawals'', VList [])]"

definition eth_tx :: "pyval" where
  "eth_tx =
    jobj [(''hash'', VStr ETH_TX_HASH), (''nonce'', VStr ''0x0''), (''blockHash'', VStr ETH_BLOCK_HASH),
      (''blockNumber'', VStr ETH_LATEST_BLOCK), (''transactionIndex'', VStr ''0x0''), (''from'',
      VStr ETH_ZERO_ADDR), (''to'', VStr ETH_ZERO_ADDR), (''value'', VStr ''0x0''), (''gas'', VStr ''0x5208''),
      (''gasPrice'', VStr ''0x3b9aca00''), (''maxFeePerGas'', VStr ''0x3b9aca00''), (''maxPriorityFeePerGas'',
      VStr ''0x0''), (''input'', VStr ''0x''), (''v'', VStr ''0x1''), (''r'', VStr ETH_ZERO_HASH), (''s'',
      VStr ETH_ZERO_HASH), (''type'', VStr ''0x2''), (''accessList'', VList []), (''chainId'', VStr ETH_CHAIN_ID)]"

definition eth_receipt :: "pyval" where
  "eth_receipt =
    jobj [(''transactionHash'', VStr ETH_TX_HASH), (''transactionIndex'', VStr ''0x0''), (''blockHash'',
      VStr ETH_BLOCK_HASH), (''blockNumber'', VStr ETH_LATEST_BLOCK), (''from'', VStr ETH_ZERO_ADDR), (''to'',
      VStr ETH_ZERO_ADDR), (''cumulativeGasUsed'', VStr ''0x5208''), (''gasUsed'', VStr ''0x5208''),
      (''effectiveGasPrice'', VStr ''0x3b9aca00''), (''contractAddress'', VNone), (''logs'', VList []),
      (''logsBloom'', VStr ETH_BLOOM), (''status'', VStr ''0x1''), (''type'', VStr ''0x2'')]"

definition eth_trace_frame :: "pyval" where
  "eth_trace_frame =
    jobj [(''type'', VStr ''CALL''), (''from'', VStr ETH_ZERO_ADDR), (''to'', VStr ETH_ZERO_ADDR), (''value'',
      VStr ''0x0''), (''gas'', VStr ''0x5208''), (''gasUsed'', VStr ''0x0''), (''input'', VStr ''0x''), (''output'',
      VStr ''0x''), (''calls'', VList [])]"

definition ETH_METHOD_DEFAULTS :: sdict where
  "ETH_METHOD_DEFAULTS = [
    (''eth_blockNumber'', VStr ETH_LATEST_BLOCK), (''eth_chainId'', VStr ETH_CHAIN_ID), (''eth_protocolVersion'',
      VStr ''0x41''), (''eth_syncing'', VBool False), (''eth_coinbase'', VStr ETH_ZERO_ADDR), (''eth_mining'',
      VBool False), (''eth_hashrate'', VStr ''0x0''), (''eth_accounts'', VList []), (''eth_gasPrice'',
      VStr ''0x3b9aca00''), (''eth_maxPriorityFeePerGas'', VStr ''0x3b9aca00''), (''eth_feeHistory'',
      jobj [(''oldestBlock'', VStr ''0x1312CF0''), (''baseFeePerGas'', VList [VStr ''0x3b9aca00'',
      VStr ''0x3b9aca00'']), (''gasUsedRatio'', VList [VFloat (Fin 0)]), (''reward'',
      VList [VList [VStr ''0x0'']])]), (''eth_getBalance'', VStr ''0x0''), (''eth_getCode'', VStr ''0x''),
      (''eth_getStorageAt'', VStr ETH_ZERO_HASH), (''eth_getTransactionCount'', VStr ''0x0''), (''eth_call'',
      VStr ''0x''), (''eth_estimateGas'', VStr ''0x5208''), (''eth_getBlockByNumber'',
      (eth_block ETH_LATEST_BLOCK)), (''eth_getBlockByHash'', (eth_block ETH_LATEST_BLOCK)),
      (''eth_getBlockTransactionCountByNumber'', VStr ''0x0''), (''eth_getBlockTransactionCountByHash'',
      VStr ''0x0''), (''eth_getUncleCountByBlockNumber'', VStr ''0x0''), (''eth_getUncleCountByBlockHash'',
      VStr ''0x0''), (''eth_getUncleByBlockNumberAndIndex'', VNone), (''eth_getUncleByBlockHashAndIndex'', VNone),
      (''eth_getTransactionByHash'', eth_tx), (''eth_getTransactionByBlockNumberAndIndex'', eth_tx),
      (''eth_getTransactionByBlockHashAndIndex'', eth_tx), (''eth_getTransactionReceipt'', eth_receipt),
      (''eth_sendRawTransaction'', VStr ETH_TX_HASH), (''eth_getLogs'', VList []), (''eth_newFilter'',
      VStr ''0x1''), (''eth_newBlockFilter'', VStr ''0x2''), (''eth_newPendingTransactionFilter'', VStr ''0x3''),
      (''eth_getFilterChanges'', VList []), (''eth_getFilterLogs'', VList []), (''eth_uninstallFilter'',
      VBool True), (''net_version'', VStr ''1''), (''net_listening'', VBool True), (''net_peerCount'',
      VStr ''0x10''), (''web3_clientVersion'', VStr ''simulator/v1.0.0''), (''web3_sha3'',
      VStr (''0x'' @ (concat (replicate 64 ''c'')))), (''trace_block'', VList []), (''trace_transaction'',
      VList [eth_trace_frame]), (''trace_get'', eth_trace_frame), (''trace_call'', jobj [(''output'', VStr ''0x''),
      (''stateDiff'', VNone), (''trace'', VList [eth_trace_frame]), (''vmTrace'', VNone)]), (''trace_callMany'',
      VList []), (''trace_rawTransaction'', jobj [(''output'', VStr ''0x''), (''stateDiff'', VNone), (''trace'',
      VList [eth_trace_frame]), (''vmTrace'', VNone)]), (''trace_replayTransaction'', jobj [(''output'',
      VStr ''0x''), (''stateDiff'', VNone), (''trace'', VList [eth_trace_frame]), (''vmTrace'', VNone)]),
      (''trace_replayBlockTransactions'', VList []), (''trace_filter'', VList []), (''debug_traceTransaction'',
      eth_trace_frame), (''debug_traceBlockByNumber'', VList []), (''debug_traceBlockByHash'', VList []),
      (''debug_traceCall'', eth_trace_frame), (''debug_getRawBlock'', VStr ''0x''), (''debug_getRawHeader'',
      VStr ''0x''), (''debug_getRawReceipts'', VStr ''0x''), (''debug_getRawTransaction'', VStr ''0x'')]"

definition ETH_ERROR_STUBS :: sdict where
  "ETH_ERROR_STUBS = [
    (''revert'', jobj [(''code'', VInt 3), (''message'', VStr ''execution reverted''), (''data'',
      VStr ''0x08c379a0000000000000000000000000000000000000000000000000000000000000002000000000000000000000000000000000000000000000000000000000000000087265766572746564000000000000000000000000000000000000000000000000'')]),
      (''oog'', jobj [(''code'', VInt (- 32000)), (''message'', VStr ''out of gas'')]), (''nonce_too_low'',
      jobj [(''code'', VInt (- 32000)), (''message'', VStr ''nonce too low'')]), (''nonce_too_high'',
      jobj [(''code'', VInt (- 32000)), (''message'', VStr ''nonce too high'')]), (''mempool_full'',
      jobj [(''code'', VInt (- 32000)), (''message'', VStr ''txpool is full'')]), (''pruned_state'',
      jobj [(''code'', VInt (- 32000)), (''message'', VStr ''missing trie node'')]), (''future_block'',
      jobj [(''code'', VInt (- 32000)), (''message'', VStr ''block not found'')]), (''already_known'',
      jobj [(''code'', VInt (- 32000)), (''message'', VStr ''already known'')]), (''insufficient_funds'',
      jobj [(''code'', VInt (- 32000)), (''message'', VStr ''insufficient funds for gas * price + value'')])]"

section \<open>Bitcoin\<close>

text \<open>\<open>f"{height:064x}"\<close>: at least 64 characters, the sign first.\<close>

definition pad_zeros :: "nat \<Rightarrow> string \<Rightarrow> string" where
  "pad_zeros w s = replicate (w - length s) CHR ''0'' @ s"

definition btc_block_hash :: "int \<Rightarrow> string" where
  "btc_block_hash height =
     (if height < 0 then CHR ''-'' # pad_zeros 63 (hex_text (nat (- height))) else pad_zeros 64 (hex_text (nat height)))"

definition btc_block_stub :: "int \<Rightarrow> pyval" where
  "btc_block_stub height =
    jobj [(''hash'', VStr (btc_block_hash height)), (''confirmations'', VInt 1), (''height'', VInt height),
      (''version'', VInt 536870912), (''merkleroot'', VStr (concat (replicate 32 ''ab''))), (''time'',
      VInt 1700000000), (''nonce'', VInt 0), (''previousblockhash'',
      (if 0 < height then VStr (btc_block_hash (height - 1)) else VStr (concat (replicate 64 ''0''))))]"

definition btc_blockheader_stub :: "int \<Rightarrow> pyval" where
  "btc_blockheader_stub height =
    jobj [(''hash'', VStr (btc_block_hash height)), (''confirmations'', VInt 1), (''height'', VInt height),
      (''version'', VInt 536870912), (''time'', VInt 1700000000), (''nonce'', VInt 0), (''bits'',
      VStr ''1d00ffff'')]"

definition BTC_METHOD_DEFAULTS :: sdict where
  "BTC_METHOD_DEFAULTS = [
    (''getblockcount'', VInt BTC_LATEST_BLOCK), (''getblockhash'', VStr (btc_block_hash BTC_LATEST_BLOCK)),
      (''getbestblockhash'', VStr (btc_block_hash BTC_LATEST_BLOCK)), (''getblock'',
      (btc_block_stub BTC_LATEST_BLOCK)), (''getblockheader'', (btc_blockheader_stub BTC_LATEST_BLOCK)),
      (''getblockchaininfo'', jobj [(''chain'', VStr BTC_CHAIN), (''blocks'', VInt BTC_LATEST_BLOCK), (''headers'',
      VInt BTC_LATEST_BLOCK), (''bestblockhash'', VStr (btc_block_hash BTC_LATEST_BLOCK)), (''difficulty'',
      VFloat (Fin 1)), (''mediantime'', VInt 1700000000), (''verificationprogress'', VFloat (Fin 1)),
      (''initialblockdownload'', VBool False), (''pruned'', VBool False), (''chainwork'',
      VStr (concat (replicate 32 ''00'')))]), (''getblockstats'', jobj [(''height'', VInt BTC_LATEST_BLOCK),
      (''blockhash'', VStr (btc_block_hash BTC_LATEST_BLOCK)), (''txs'', VInt 1), (''total_size'', VInt 285)]),
      (''getchaintips'', VList [jobj [(''height'', VInt BTC_LATEST_BLOCK), (''hash'',
      VStr (btc_block_hash BTC_LATEST_BLOCK)), (''branchlen'', VInt 0), (''status'', VStr ''active'')]]),
      (''getchaintxstats'', jobj [(''window_block_count'', VInt 144), (''txcount'', VInt 1000000),
      (''window_tx_count'', VInt 150000)]), (''getdifficulty'', VFloat (Fin 1)), (''getconnectioncount'', VInt 8),
      (''getindexinfo'', jobj [(''txindex'', jobj [(''synced'', VBool True), (''best_block_height'',
      VInt BTC_LATEST_BLOCK)])]), (''getmemoryinfo'', jobj [(''locked'', jobj [(''used'', VInt 0), (''free'',
      VInt 0), (''total'', VInt 0), (''locked'', VInt 0), (''chunks_used'', VInt 0), (''chunks_free'', VInt 0)])]),
      (''getmempoolancestors'', VList []), (''getmempooldescendants'', VList []), (''getmempoolinfo'',
      jobj [(''size'', VInt 0), (''bytes'', VInt 0), (''usage'', VInt 0), (''maxmempool'', VInt 300000000),
      (''mempoolminfee'', VFloat (Fin (5902958103587057 / 590295810358705651712)))]), (''getrawmempool'', VList []),
      (''getrawtransaction'',
      VStr (((''0100000001'' @ (concat (replicate 32 ''00''))) @ ''00000000'') @ ''00ffffffff'')),
      (''gettxoutproof'', VStr []), (''gettxoutsetinfo'', jobj [(''height'', VInt BTC_LATEST_BLOCK), (''bestblock'',
      VStr (btc_block_hash BTC_LATEST_BLOCK)), (''transactions'', VInt 1000000), (''txouts'', VInt 2000000),
      (''total_amount'', VFloat (Fin 19500000))]), (''gettxout'', jobj [(''bestblock'',
      VStr (btc_block_hash BTC_LATEST_BLOCK)), (''confirmations'', VInt 1), (''value'', VFloat (Fin 0)),
      (''scriptPubKey'', jobj [(''asm'', VStr []), (''hex'', VStr []), (''type'', VStr ''nonstandard'')])]),
      (''sendrawtransaction'', VStr BTC_TX_HASH), (''submitpackage'', jobj [(''package_msg'', VStr ''success''),
      (''tx-results'', VList [])]), (''testmempoolaccept'', VList [jobj [(''txid'', VStr BTC_TX_HASH), (''allowed'',
      VBool True)]]), (''decoderawtransaction'', jobj [(''txid'', VStr BTC_TX_HASH), (''hash'', VStr BTC_TX_HASH),
      (''version'', VInt 2), (''vin'', VList []), (''vout'', VList [])]), (''decodescript'', jobj [(''asm'',
      VStr []), (''type'', VStr ''nonstandard''), (''p2sh'', VStr [])]), (''estimatesmartfee'', jobj [(''feerate'',
      VFloat (Fin (5902958103587057 / 590295810358705651712))), (''blocks'', VInt 6)]), (''validateaddress'',
      jobj [(''isvalid'', VBool True), (''address'', VStr ''bc1qexampleaddress00000000000000000000000'')]),
      (''verifymessage'', VBool True)]"

definition BTC_ERROR_STUBS :: sdict where
  "BTC_ERROR_STUBS = [
    (''block_not_found'', jobj [(''code'', VInt (- 5)), (''message'', VStr ''Block not found'')]),
      (''tx_not_found'', jobj [(''code'', VInt (- 5)), (''message'',
      VStr ''No such mempool or blockchain transaction'')]), (''invalid_parameter'', jobj [(''code'', VInt (- 8)),
      (''message'', VStr ''Invalid parameter'')]), (''verify_rejected'', jobj [(''code'', VInt (- 26)),
      (''message'', VStr ''Transaction was rejected'')]), (''already_in_chain'', jobj [(''code'', VInt (- 27)),
      (''message'', VStr ''Transaction already in block chain'')]), (''in_warmup'', jobj [(''code'', VInt (- 28)),
      (''message'', VStr ''Loading block index'')]), (''parse_error'', jobj [(''code'', VInt (- 32700)),
      (''message'', VStr ''Parse error'')]), (''invalid_request'', jobj [(''code'', VInt (- 32600)), (''message'',
      VStr ''Invalid Request'')]), (''method_not_found'', jobj [(''code'', VInt (- 32601)), (''message'',
      VStr ''Method not found'')])]"

section \<open>Lightning\<close>

definition LND_METHOD_DEFAULTS :: sdict where
  "LND_METHOD_DEFAULTS = [
    (''getinfo'', jobj [(''identity_pubkey'', VStr LN_IDENTITY_PUBKEY), (''alias'', VStr ''sim-lnd''),
      (''num_peers'', VInt LN_NUM_PEERS), (''num_active_channels'', VInt LN_NUM_ACTIVE_CHANNELS), (''block_height'',
      VInt LN_BLOCK_HEIGHT), (''synced_to_chain'', VBool True), (''synced_to_graph'', VBool True), (''chains'',
      VList [jobj [(''chain'', VStr ''bitcoin''), (''network'', VStr LN_NETWORK)]])]), (''listchannels'',
      jobj [(''channels'', VList [jobj [(''active'', VBool True), (''remote_pubkey'', VStr LN_PEER_PUBKEY),
      (''channel_point'', VStr LN_CHAN_POINT), (''chan_id'', VStr ''0''), (''capacity'', VStr ''1000000''),
      (''local_balance'', VStr ''500000''), (''remote_balance'', VStr ''500000''), (''private'', VBool False)]])]),
      (''openchannel'', jobj [(''funding_txid_str'', VStr (concat (replicate 32 ''ab''))), (''output_index'',
      VInt 0)]), (''decodepayreq'', jobj [(''destination'', VStr LN_IDENTITY_PUBKEY), (''payment_hash'',
      VStr LN_PAYMENT_HASH), (''num_msat'', VStr ''100000''), (''expiry'', VStr ''3600'')]), (''payinvoice'',
      jobj [(''payment_preimage'', VStr LN_PAYMENT_PREIMAGE), (''payment_hash'', VStr LN_PAYMENT_HASH),
      (''payment_error'', VStr [])]), (''listpeers'', jobj [(''peers'', VList [jobj [(''pub_key'',
      VStr LN_PEER_PUBKEY), (''address'', VStr ''127.0.0.1:9735''), (''inbound'', VBool False), (''sat_sent'',
      VStr ''0''), (''sat_recv'', VStr ''0'')]])])]"

definition LND_ERROR_STUBS :: sdict where
  "LND_ERROR_STUBS = [
    (''no_route'', jobj [(''code'', VInt (- 32000)), (''message'', VStr ''unable to find a path to destination'')]),
      (''invalid_invoice'', jobj [(''code'', VInt (- 32602)), (''message'', VStr ''invalid bolt11 invoice'')]),
      (''channel_not_found'', jobj [(''code'', VInt (- 32000)), (''message'', VStr ''channel not found'')]),
      (''peer_not_connected'', jobj [(''code'', VInt (- 32000)), (''message'', VStr ''peer is not connected'')]),
      (''insufficient_funds'', jobj [(''code'', VInt (- 32000)), (''message'',
      VStr ''insufficient local balance to open channel'')]), (''method_not_found'', jobj [(''code'',
      VInt (- 32601)), (''message'', VStr ''Method not found'')]), (''parse_error'', jobj [(''code'',
      VInt (- 32700)), (''message'', VStr ''Parse error'')])]"

section \<open>Solana\<close>

definition SOLANA_ERROR_STUBS :: sdict where
  "SOLANA_ERROR_STUBS = [
    (''method_not_found'', jobj [(''code'', VInt (- 32601)), (''message'', VStr ''Method not found'')]),
      (''invalid_params'', jobj [(''code'', VInt (- 32602)), (''message'', VStr ''Invalid params'')]),
      (''node_behind'', jobj [(''code'', VInt (- 32005)), (''message'', VStr ''Node is behind by 100 slots''),
      (''data'', jobj [(''numSlotsBehind'', VInt 100)])]), (''slot_skipped'', jobj [(''code'', VInt (- 32007)),
      (''message'', VStr ''Slot 123456789 was skipped, or missing due to ledger jump to recent snapshot'')]),
      (''long_term_storage_slot_skipped'', jobj [(''code'', VInt (- 32009)), (''message'',
      VStr ''Slot 123456789 was skipped, or missing in long-term storage'')]), (''min_context_slot_not_reached'',
      jobj [(''code'', VInt (- 32016)), (''message'', VStr ''Minimum context slot has not been reached'')]),
      (''transaction_simulation_failed'', jobj [(''code'', VInt (- 32002)), (''message'',
      VStr ''Transaction simulation failed'')]), (''blockhash_not_found'', jobj [(''code'', VInt (- 32002)),
      (''message'', VStr ''Transaction simulation failed: Blockhash not found''), (''data'', jobj [(''err'',
      VStr ''BlockhashNotFound'')])])]"

end
