(* ===== verification/Head.thy ===== *)
theory Head
  imports Doubles
begin

text \<open>
  The advancing head of \<open>chains/base.py\<close>: a block height that stands still, moves once by a bump,
  or moves on its own at a rate.

  The monotonic clock is an argument, a number of seconds, and \<open>set_rate\<close> reads it twice. The elapsed
  time and its product with the rate are floats, rounded as \<open>Doubles\<close> has it: a product that is too
  large is an infinity, and \<open>int\<close> of it raises.
\<close>

record head =
  h_base :: int
  h_extra :: int
  h_rate :: pyfloat
  h_anchor :: rat

definition new_head :: "int \<Rightarrow> head" where
  "new_head base = \<lparr>h_base = base, h_extra = 0, h_rate = Fin 0, h_anchor = 0\<rparr>"

fun py_float :: "pyval \<Rightarrow> pyerr + pyfloat" where
  "py_float (VFloat f) = Inr f"
| "py_float (VInt i) = float_of_int i"
| "py_float (VBool b) = Inr (Fin (if b then 1 else 0))"
| "py_float _ = Inl TypeError"

text \<open>The blocks that the rate added since it took effect: \<open>int((time.monotonic() - anchor) * rate)\<close>.\<close>

definition advanced :: "rat \<Rightarrow> head \<Rightarrow> pyerr + int" where
  "advanced now h =
     (if pf_lt (Fin 0) (h_rate h) then int_of_float (pf_mul (to_double (now - h_anchor h)) (h_rate h)) else Inr 0)"

definition current :: "rat \<Rightarrow> head \<Rightarrow> pyerr + int" where
  "current now h = bind_r (advanced now h) (\<lambda>n. Inr (h_base h + (h_extra h + n)))"

text \<open>
  The new rate: \<open>float(rate) if rate and rate > 0.0 else 0.0\<close>.
\<close>

definition rate_of :: "pyval \<Rightarrow> pyerr + pyfloat" where
  "rate_of v =
     (if \<not> truthy v then Inr (Fin 0)
      else bind_r (py_lt (VFloat (Fin 0)) v) (\<lambda>pos. if pos then py_float v else Inr (Fin 0)))"

text \<open>
  \<open>set_rate\<close> folds what the old rate added before it looks at the new one, and returns what it
  raised. The first moment is that of the fold, the second that of the new anchor.
\<close>

definition set_rate :: "rat \<Rightarrow> rat \<Rightarrow> pyval \<Rightarrow> head \<Rightarrow> pyerr option \<times> head" where
  "set_rate now again v h = (case advanced now h of
     Inl e \<Rightarrow> (Some e, h)
   | Inr n \<Rightarrow>
       let h1 = h\<lparr>h_extra := h_extra h + n\<rparr>
       in (case rate_of v of
             Inl e \<Rightarrow> (Some e, h1)
           | Inr r \<Rightarrow> (None, h1\<lparr>h_rate := r, h_anchor := again\<rparr>)))"

definition bump :: "int \<Rightarrow> head \<Rightarrow> head" where
  "bump blocks h = h\<lparr>h_extra := h_extra h + blocks\<rparr>"

definition head_reset :: "head \<Rightarrow> head" where
  "head_reset h = h\<lparr>h_extra := 0, h_rate := Fin 0\<rparr>"

section \<open>The head never moves backwards\<close>

text \<open>A rate that the control API stores and that a float can hold.\<close>

definition plain_rate :: "pyval \<Rightarrow> bool" where
  "plain_rate v \<longleftrightarrow> (\<exists>q \<ge> 0. rate_of v = Inr (Fin q))"

definition head_ok :: "rat \<Rightarrow> head \<Rightarrow> bool" where
  "head_ok now h \<longleftrightarrow> (\<exists>q \<ge> 0. h_rate h = Fin q \<and> (0 < q \<longrightarrow> h_anchor h \<le> now))"

text \<open>A change of the rate holds the second moment at which it reads the clock.\<close>

datatype head_op = SetRate rat pyval | Bump int

fun allowed :: "rat \<Rightarrow> head_op \<Rightarrow> bool" where
  "allowed now (SetRate again v) = (now \<le> again \<and> plain_rate v)"
| "allowed now (Bump n) = (0 \<le> n)"

fun head_apply :: "rat \<Rightarrow> head_op \<Rightarrow> head \<Rightarrow> head" where
  "head_apply now (SetRate again v) h = snd (set_rate now again v h)"
| "head_apply now (Bump n) h = bump n h"

fun op_end :: "rat \<Rightarrow> head_op \<Rightarrow> rat" where
  "op_end now (SetRate again v) = again"
| "op_end now (Bump n) = now"

fun head_run :: "(rat \<times> head_op) list \<Rightarrow> head \<Rightarrow> head" where
  "head_run [] h = h"
| "head_run ((now, op) # ops) h = head_run ops (head_apply now op h)"

text \<open>The moments of a run do not go back.\<close>

fun in_order :: "rat \<Rightarrow> (rat \<times> head_op) list \<Rightarrow> bool" where
  "in_order t [] = True"
| "in_order t ((now, op) # ops) = (t \<le> now \<and> allowed now op \<and> in_order (op_end now op) ops)"

fun run_end :: "rat \<Rightarrow> (rat \<times> head_op) list \<Rightarrow> rat" where
  "run_end t [] = t"
| "run_end t ((now, op) # ops) = run_end (op_end now op) ops"

text \<open>
  A later read against an earlier one: it fails only when its product is too large, and one that
  succeeds follows one that succeeded and gave no more.
\<close>

definition no_less :: "pyerr + int \<Rightarrow> pyerr + int \<Rightarrow> bool" where
  "no_less later earlier \<longleftrightarrow> (case later of Inl e \<Rightarrow> e = OverflowError | Inr b \<Rightarrow> (\<exists>a \<le> b. earlier = Inr a))"

lemma no_less_trans: "no_less z y \<Longrightarrow> no_less y x \<Longrightarrow> no_less z x"
  by (fastforce simp: no_less_def split: sum.splits)

lemma no_less_bind: "no_less y x \<Longrightarrow> no_less (bind_r y (\<lambda>n. Inr (b + (c + n)))) (bind_r x (\<lambda>n. Inr (b + (c + n))))"
  by (auto simp: no_less_def split: sum.splits)

text \<open>At a finite rate the product is a number that is not negative, or an infinity.\<close>

lemma pf_mul_rate:
  assumes "0 \<le> d" and "0 < q"
  shows "pf_mul (to_double d) (Fin q)
    = (if of_int float_limit \<le> d then PosInf else to_double (rounded d * q))"
  using assms by (auto simp: to_double_nonneg pf_lt_def)

lemma advanced_alt:
  assumes "h_rate h = Fin q" and "0 < q" and "h_anchor h \<le> now"
  shows "advanced now h = (let d = now - h_anchor h; p = rounded d * q in
    if of_int float_limit \<le> d \<or> of_int float_limit \<le> p then Inl OverflowError else Inr \<lfloor>rounded p\<rfloor>)"
proof -
  have "0 \<le> rounded (now - h_anchor h) * q" if "now - h_anchor h < of_int float_limit"
    using rounded_nonneg [of "now - h_anchor h"] that assms by simp
  then show ?thesis
    using assms rounded_nonneg [of "rounded (now - h_anchor h) * q"]
    by (auto simp: advanced_def pf_lt_def pf_mul_rate Let_def to_double_nonneg trunc_rat_def)
qed

lemma advanced_idle: "h_rate h = Fin 0 \<Longrightarrow> advanced now h = Inr 0"
  by (simp add: advanced_def pf_lt_def)

lemma advanced_mono:
  assumes "head_ok now h" and "now \<le> later"
  shows "no_less (advanced later h) (advanced now h)"
proof -
  from assms(1) obtain q where q: "0 \<le> q" "h_rate h = Fin q" "0 < q \<longrightarrow> h_anchor h \<le> now"
    by (auto simp: head_ok_def)
  show ?thesis
  proof (cases "q = 0")
    case True
    then show ?thesis using q(2) by (simp add: advanced_idle no_less_def)
  next
    case False
    let ?d = "now - h_anchor h" and ?e = "later - h_anchor h"
    from False q have pos: "0 < q" "h_anchor h \<le> now" "h_anchor h \<le> later" using assms(2) by auto
    have d: "?d \<le> ?e" "0 \<le> ?d" using assms(2) pos by auto
    show ?thesis
    proof (cases "of_int float_limit \<le> ?e \<or> of_int float_limit \<le> rounded ?e * q")
      case True
      then show ?thesis unfolding advanced_alt [OF q(2) pos(1,3)] by (simp add: no_less_def Let_def)
    next
      case False
      then have le: "rounded ?d * q \<le> rounded ?e * q" "0 \<le> rounded ?d * q"
        using rounded_mono [of ?d ?e] rounded_nonneg [of ?d] d pos(1) by (auto intro: mult_right_mono)
      then have "\<lfloor>rounded (rounded ?d * q)\<rfloor> \<le> \<lfloor>rounded (rounded ?e * q)\<rfloor>"
        using False by (intro floor_mono rounded_mono) auto
      moreover have "\<not> of_int float_limit \<le> ?d" "\<not> of_int float_limit \<le> rounded ?d * q" using False d(1) le(1) by linarith+
      ultimately show ?thesis
        unfolding advanced_alt [OF q(2) pos(1,2)] advanced_alt [OF q(2) pos(1,3)] using False by (simp add: no_less_def Let_def)
    qed
  qed
qed

lemma head_ok_later: "head_ok now h \<Longrightarrow> now \<le> later \<Longrightarrow> head_ok later h"
  by (auto simp: head_ok_def)

lemma current_later:
  assumes "head_ok t h" and "t \<le> now"
  shows "head_ok now h" and "no_less (current now h) (current t h)"
  using head_ok_later [OF assms] no_less_bind [OF advanced_mono [OF assms]] by (auto simp: current_def)

text \<open>Setting a rate moves the head by nothing at that moment; when the fold raises, the head is left as it was.\<close>

lemma set_rate_spec:
  assumes "head_ok now h" and "plain_rate v" and "now \<le> again"
  shows "head_ok again (snd (set_rate now again v h))"
    and "no_less (current again (snd (set_rate now again v h))) (current now h)"
proof -
  from assms(2) obtain q where q: "0 \<le> q" "rate_of v = Inr (Fin q)" by (auto simp: plain_rate_def)
  have "head_ok again (snd (set_rate now again v h))
    \<and> no_less (current again (snd (set_rate now again v h))) (current now h)"
  proof (cases "advanced now h")
    case (Inl e)
    then show ?thesis using current_later [OF assms(1,3)] by (simp add: set_rate_def)
  next
    case (Inr n)
    let ?h = "h\<lparr>h_extra := h_extra h + n, h_rate := Fin q, h_anchor := again\<rparr>"
    have "advanced again ?h = Inr 0" by (simp add: advanced_def trunc_rat_def)
    then show ?thesis using Inr q by (simp add: set_rate_def Let_def head_ok_def current_def no_less_def)
  qed
  then show "head_ok again (snd (set_rate now again v h))"
    and "no_less (current again (snd (set_rate now again v h))) (current now h)" by auto
qed

lemma head_apply_forward:
  assumes "head_ok now h" and "allowed now op"
  shows "head_ok (op_end now op) (head_apply now op h)"
    and "no_less (current (op_end now op) (head_apply now op h)) (current now h)"
proof -
  have "advanced now (bump n h) = advanced now h" for n by (simp add: advanced_def bump_def)
  moreover have "advanced now h = Inl OverflowError \<or> (\<exists>n. advanced now h = Inr n)"
    using advanced_mono [OF assms(1), of now] by (auto simp: no_less_def split: sum.splits)
  ultimately have "no_less (current now (bump n h)) (current now h)" if "0 \<le> n" for n
    using that by (auto simp: current_def no_less_def bump_def)
  then show "no_less (current (op_end now op) (head_apply now op h)) (current now h)"
    using set_rate_spec [OF assms(1)] assms(2) by (cases op) auto
  show "head_ok (op_end now op) (head_apply now op h)"
    using set_rate_spec [OF assms(1)] assms by (cases op) (auto simp: head_ok_def bump_def)
qed

lemma head_run_forward:
  assumes "head_ok t h" and "in_order t ops" and "run_end t ops \<le> later"
  shows "no_less (current later (head_run ops h)) (current t h)"
  using assms
proof (induction ops arbitrary: t h)
  case Nil
  then show ?case using current_later(2) [of t h later] by simp
next
  case (Cons step ops)
  obtain now op where step: "step = (now, op)" by (cases step)
  with Cons.prems have tn: "t \<le> now" and op: "allowed now op" and ord: "in_order (op_end now op) ops"
    and le: "run_end (op_end now op) ops \<le> later" by auto
  note now = current_later [OF Cons.prems(1) tn]
  note after = head_apply_forward [OF now(1) op]
  from Cons.IH [OF after(1) ord le] have "no_less (current later (head_run ops (head_apply now op h))) (current t h)"
    using after(2) now(2) no_less_trans by blast
  then show ?case by (simp add: step)
qed

text \<open>Rates up to \<open>2^970\<close> blocks a second, and a clock that counts from zero.\<close>

fun slow :: "pyfloat \<Rightarrow> bool" where
  "slow (Fin q) = (q \<le> 2 ^ 970)"
| "slow _ = False"

fun slow_op :: "head_op \<Rightarrow> bool" where
  "slow_op (SetRate again v) = (case rate_of v of Inr f \<Rightarrow> slow f | Inl e \<Rightarrow> True)"
| "slow_op (Bump n) = True"

definition slow_head :: "rat \<Rightarrow> head \<Rightarrow> bool" where
  "slow_head now h \<longleftrightarrow> 0 \<le> now \<and> slow (h_rate h) \<and> 0 \<le> h_anchor h"

lemma slow_product:
  assumes "0 \<le> d" and "d \<le> 2 ^ 52" and "0 < q" and "q \<le> 2 ^ 970"
  shows "d < of_int float_limit" and "rounded d * q < of_int float_limit"
proof -
  have "2 ^ 52 < (2 ^ 1022 :: rat)" by (rule power_strict_increasing) auto
  moreover have big: "2 ^ 1022 < (of_int float_limit :: rat)"
    using float_limit_bounds(1) by (metis of_int_less_iff of_int_numeral of_int_power)
  ultimately show "d < of_int float_limit" using assms(2) by linarith
  have "2 ^ 52 < (of_int float_limit :: rat)" using \<open>2 ^ 52 < 2 ^ 1022\<close> big by linarith
  then have "rounded d \<le> rounded (of_int (2 ^ 52))" using assms by (intro rounded_mono) auto
  also have "\<dots> = 2 ^ 52" by (subst rounded_int) (simp_all add: precision_def)
  finally have "rounded d * q \<le> 2 ^ 52 * 2 ^ 970" using assms by (intro mult_mono) auto
  also have "\<dots> = (2 ^ 1022 :: rat)" by (simp flip: power_add)
  finally show "rounded d * q < of_int float_limit" using big by linarith
qed

lemma slow_reads:
  assumes "head_ok now h" and "slow_head now h" and "now \<le> 2 ^ 52"
  shows "\<exists>n. advanced now h = Inr n"
proof -
  from assms(1) obtain q where q: "0 \<le> q" "h_rate h = Fin q" "0 < q \<longrightarrow> h_anchor h \<le> now"
    by (auto simp: head_ok_def)
  show ?thesis
  proof (cases "q = 0")
    case False
    then have "0 < q" "h_anchor h \<le> now" using q by auto
    moreover from this have "now - h_anchor h < of_int float_limit" "rounded (now - h_anchor h) * q < of_int float_limit"
      using slow_product [of "now - h_anchor h" q] assms(2,3) q(2) by (auto simp: slow_head_def)
    ultimately show ?thesis using advanced_alt [OF q(2)] by (simp add: Let_def)
  qed (use q(2) in \<open>simp add: advanced_idle\<close>)
qed

lemma slow_head_apply:
  assumes "slow_head now h" and "allowed now op" and "slow_op op"
  shows "slow_head (op_end now op) (head_apply now op h)"
  using assms by (cases op) (auto simp: slow_head_def set_rate_def bump_def Let_def split: sum.splits)

lemma slow_head_run:
  assumes "head_ok t h" and "slow_head t h" and "in_order t ops" and "list_all (\<lambda>(_, op). slow_op op) ops"
    and "run_end t ops \<le> later" and "later \<le> 2 ^ 52"
  shows "\<exists>b. current later (head_run ops h) = Inr b"
  using assms
proof (induction ops arbitrary: t h)
  case Nil
  then have "head_ok later h" "slow_head later h" using head_ok_later by (auto simp: slow_head_def)
  then show ?case using slow_reads Nil.prems(6) by (fastforce simp: current_def)
next
  case (Cons step ops)
  obtain now op where step: "step = (now, op)" by (cases step)
  with Cons.prems have tn: "t \<le> now" and op: "allowed now op" "slow_op op" by auto
  have "slow_head now h" using Cons.prems(2) tn by (simp add: slow_head_def)
  note slow = slow_head_apply [OF this op]
  note ok = head_apply_forward(1) [OF head_ok_later [OF Cons.prems(1) tn] op(1)]
  show ?case using Cons.IH [OF ok slow] Cons.prems by (simp add: step)
qed

text \<open>
  C24. A head never moves backwards. From any state with a finite rate, after any run of bumps and
  of changes of the rate at moments that do not go back, a read at the end or at any later time
  either raises OverflowError, because the product of the elapsed time and the rate is beyond a
  float, or it gives at least the height that was read at the start; a read that succeeds at the
  end succeeded at the start. While every rate is at most \<open>2^970\<close> blocks a second and the clock at most
  \<open>2^52\<close> seconds, the reads succeed.
\<close>

theorem head_never_backwards:
  assumes "head_ok t h" and "in_order t ops" and "run_end t ops \<le> later"
  shows "(case current later (head_run ops h) of
      Inl e \<Rightarrow> e = OverflowError
    | Inr b \<Rightarrow> (\<exists>a \<le> b. current t h = Inr a))
    \<and> (slow_head t h \<and> list_all (\<lambda>(_, op). slow_op op) ops \<and> later \<le> 2 ^ 52
        \<longrightarrow> (\<exists>a b. current t h = Inr a \<and> current later (head_run ops h) = Inr b \<and> a \<le> b))"
proof -
  have forward: "no_less (current later (head_run ops h)) (current t h)" using assms by (rule head_run_forward)
  moreover have "\<exists>b. current later (head_run ops h) = Inr b"
    if "slow_head t h" "list_all (\<lambda>(_, op). slow_op op) ops" "later \<le> 2 ^ 52"
    using slow_head_run [OF assms(1) that(1) assms(2) that(2) assms(3) that(3)] .
  ultimately show ?thesis by (fastforce simp: no_less_def split: sum.splits)
qed

theorem head_never_backwards_witness:
  "\<exists>b. current 12 (head_run [(3, SetRate 4 (VFloat (Fin (1 / 2)))), (7, Bump 5), (9, SetRate 9 (VInt 0))] (new_head 100)) = Inr b
     \<and> 100 \<le> b"
proof -
  let ?ops = "[(3, SetRate 4 (VFloat (Fin (1 / 2)))), (7, Bump 5), (9, SetRate 9 (VInt 0))]"
  have half: "rate_of (VFloat (Fin (1 / 2))) = Inr (Fin (1 / 2))" "rate_of (VInt 0) = Inr (Fin 0)"
    by (simp_all add: rate_of_def py_lt_def pf_lt_def)
  have "head_ok 0 (new_head 100)" "slow_head 0 (new_head 100)" by (simp_all add: head_ok_def slow_head_def new_head_def)
  moreover have "plain_rate (VFloat (Fin (1 / 2)))" "plain_rate (VInt 0)" unfolding plain_rate_def half
    by (rule exI [of _ "1 / 2"], simp) simp
  then have "in_order 0 ?ops" "list_all (\<lambda>(_, op). slow_op op) ?ops" by (simp_all add: half)
  moreover have "current 0 (new_head 100) = Inr 100" by (simp add: current_def advanced_def new_head_def pf_lt_def)
  ultimately show ?thesis using head_never_backwards [of 0 "new_head 100" ?ops 12] by auto
qed

section \<open>Rates that no head can follow\<close>

text \<open>
  A head whose product is too large stays broken: every later read raises OverflowError, and so
  does every attempt to set another rate, which leaves the head as it was. Only a reset makes the
  head readable again.
\<close>

theorem large_rate_breaks_head:
  assumes "head_ok t h" and "current t h = Inl OverflowError" and "t \<le> later"
  shows "current later h = Inl OverflowError \<and> (\<forall>again v. set_rate later again v h = (Some OverflowError, h))
    \<and> current later (head_reset h) = Inr (h_base h)"
proof -
  have "advanced t h = Inl OverflowError" using assms(2) by (cases "advanced t h") (auto simp: current_def)
  then have "advanced later h = Inl OverflowError"
    using advanced_mono [OF assms(1,3)] by (auto simp: no_less_def split: sum.splits)
  then show ?thesis by (simp add: current_def set_rate_def head_reset_def advanced_idle)
qed

text \<open>The control API stores such a rate: \<open>2^1023\<close> blocks a second break the head after two seconds.\<close>

theorem large_rate_breaks_head_witness:
  "\<exists>h. set_rate 0 0 (VFloat (Fin (2 ^ 1023))) (new_head 100) = (None, h)
    \<and> current 3 h = Inl OverflowError \<and> set_rate 3 3 (VInt 0) h = (Some OverflowError, h)"
proof -
  let ?h = "\<lparr>h_base = 100, h_extra = 0, h_rate = Fin (2 ^ 1023), h_anchor = 0\<rparr>"
  have "rate_of (VFloat (Fin (2 ^ 1023))) = Inr (Fin (2 ^ 1023))" by (simp add: rate_of_def py_lt_def pf_lt_def)
  then have "set_rate 0 0 (VFloat (Fin (2 ^ 1023))) (new_head 100) = (None, ?h)"
    by (simp add: set_rate_def new_head_def advanced_idle Let_def)
  moreover have "rounded 2 = 2" using rounded_int [of 2] by (simp add: precision_def)
  then have "current 2 ?h = Inl OverflowError" by (simp add: current_def advanced_alt Let_def float_limit_def)
  ultimately show ?thesis using large_rate_breaks_head [of 2 ?h 3] by (auto simp: head_ok_def)
qed

text \<open>
  An infinite rate is taken like any positive number and breaks the head from the first moment
  that a float can tell from that of the call.
\<close>

theorem infinite_rate_breaks_head:
  assumes "advanced t h = Inr n" and "1 \<le> later - again"
  shows "\<exists>h'. set_rate t again (VFloat PosInf) h = (None, h') \<and> current later h' = Inl OverflowError
    \<and> (\<forall>v moment. set_rate later moment v h' = (Some OverflowError, h')) \<and> current later (head_reset h') = Inr (h_base h)"
proof -
  let ?h = "h\<lparr>h_extra := h_extra h + n, h_rate := PosInf, h_anchor := again\<rparr>"
  have "rate_of (VFloat PosInf) = Inr PosInf" by (simp add: rate_of_def py_lt_def pf_lt_def)
  then have "set_rate t again (VFloat PosInf) h = (None, ?h)" by (simp add: set_rate_def assms Let_def)
  moreover have "1 \<le> rounded (later - again)" if "later - again < of_int float_limit"
    using rounded_mono [of 1 "later - again"] rounded_int [of 1] that assms(2) by (simp add: precision_def)
  then have late: "advanced later ?h = Inl OverflowError"
    using assms(2) by (auto simp: advanced_def pf_lt_def to_double_nonneg)
  then have "current later ?h = Inl OverflowError" "\<forall>v moment. set_rate later moment v ?h = (Some OverflowError, ?h)"
    by (simp_all add: current_def set_rate_def)
  moreover have "current later (head_reset ?h) = Inr (h_base h)" by (simp add: current_def head_reset_def advanced_idle)
  ultimately show ?thesis by blast
qed

theorem infinite_rate_breaks_head_witness:
  "\<exists>h'. set_rate 0 0 (VFloat PosInf) (new_head 100) = (None, h') \<and> current 1 h' = Inl OverflowError"
  using infinite_rate_breaks_head [of 0 "new_head 100" 0 1 0] by (auto simp: new_head_def advanced_idle)

text \<open>
  A rate that is too large for a float moves the head twice. The call raises after it folded
  the blocks of the old rate into the offset and before it moved the anchor, so those blocks are
  counted again by the old rate, which stays.
\<close>

theorem huge_rate_counts_twice:
  assumes "advanced t h = Inr n" and "float_limit \<le> i"
  shows "\<exists>h'. set_rate t again (VInt i) h = (Some OverflowError, h') \<and> h_rate h' = h_rate h
    \<and> current t h = Inr (h_base h + (h_extra h + n)) \<and> current t h' = Inr (h_base h + (h_extra h + n) + n)"
proof -
  have "rate_of (VInt i) = Inl OverflowError"
    using assms(2) float_limit_bounds(2) by (simp add: rate_of_def py_lt_def pf_lt_def float_of_int_def)
  moreover have "advanced t (h\<lparr>h_extra := h_extra h + n\<rparr>) = Inr n" using assms(1)
    by (simp add: advanced_def split: if_splits)
  ultimately show ?thesis using assms(1) by (simp add: set_rate_def Let_def current_def)
qed

theorem huge_rate_counts_twice_witness:
  "\<exists>h'. set_rate 10 10 (VInt (2 ^ 1024)) (snd (set_rate 0 0 (VInt 2) (new_head 100))) = (Some OverflowError, h')
     \<and> current 10 h' = Inr 140"
proof -
  let ?h = "\<lparr>h_base = 100, h_extra = 0, h_rate = Fin 2, h_anchor = 0\<rparr>"
  have ints: "rounded 10 = 10" "rounded 20 = 20" "to_double 2 = Fin 2"
    using rounded_int [of 10] rounded_int [of 20] to_double_int [of 2] by (simp_all add: precision_def)
  have h: "snd (set_rate 0 0 (VInt 2) (new_head 100)) = ?h"
    by (simp add: set_rate_def new_head_def advanced_idle rate_of_def py_lt_def pf_lt_def float_of_int_def ints float_limit_def)
  have "advanced 10 ?h = Inr 20" by (simp add: advanced_alt Let_def ints float_limit_def)
  moreover have "float_limit \<le> 2 ^ 1024" by (simp add: float_limit_def)
  ultimately show ?thesis using huge_rate_counts_twice [of 10 ?h 20 "2 ^ 1024" 10] by (auto simp: h)
qed

end
