(* ===== verification/Chains.thy ===== *)
theory Chains
  imports Stubs Head Listener
begin

text \<open>
  The success replies of the JSON-RPC chains: \<open>chains/eth.py\<close>, \<open>chains/btc.py\<close>, \<open>chains/ln.py\<close> and
  \<open>chains/solana.py\<close>.

  \<open>build_success\<close> of a chain is a function of the height that its head gives when it is read (a
  read can raise, see \<open>Head\<close>), of the parsed request, of the scenario and of the settings. The
  control API does not check the type of \<open>blocks_behind\<close> or of an entry of \<open>responses\<close>, so an
  operation on a value of the wrong type returns the exception that it raises.
\<close>

section \<open>Numbers and texts of a reply\<close>

text \<open>\<open>a + v\<close> and \<open>a - v\<close> of an integer and any value.\<close>

fun int_plus :: "int \<Rightarrow> pyval \<Rightarrow> pyerr + pyval" where
  "int_plus a (VInt i) = Inr (VInt (a + i))"
| "int_plus a (VBool b) = Inr (VInt (a + (if b then 1 else 0)))"
| "int_plus a (VFloat f) = bind_r (float_of_int a) (\<lambda>x. Inr (VFloat (pf_add x f)))"
| "int_plus a _ = Inl TypeError"

fun int_minus :: "int \<Rightarrow> pyval \<Rightarrow> pyerr + pyval" where
  "int_minus a (VInt i) = Inr (VInt (a - i))"
| "int_minus a (VBool b) = Inr (VInt (a - (if b then 1 else 0)))"
| "int_minus a (VFloat f) = bind_r (float_of_int a) (\<lambda>x. Inr (VFloat (pf_add x (pf_neg f))))"
| "int_minus a _ = Inl TypeError"

text \<open>A number plus a small integer.\<close>

fun num_plus :: "pyval \<Rightarrow> int \<Rightarrow> pyval" where
  "num_plus (VInt i) d = VInt (i + d)"
| "num_plus (VFloat f) d = VFloat (pf_add f (Fin (of_int d)))"
| "num_plus v d = v"

text \<open>\<open>v - w\<close> of a number and any value.\<close>

fun num_minus :: "pyval \<Rightarrow> pyval \<Rightarrow> pyerr + pyval" where
  "num_minus (VInt a) w = int_minus a w"
| "num_minus (VFloat f) (VInt i) = bind_r (float_of_int i) (\<lambda>x. Inr (VFloat (pf_add f (pf_neg x))))"
| "num_minus (VFloat f) (VBool b) = Inr (VFloat (pf_add f (Fin (if b then -1 else 0))))"
| "num_minus (VFloat f) (VFloat g) = Inr (VFloat (pf_add f (pf_neg g)))"
| "num_minus v w = Inl TypeError"

text \<open>\<open>"0x" + format(n, "X")\<close>.\<close>

fun hex_upper :: "pyval \<Rightarrow> pyerr + string" where
  "hex_upper (VInt i) =
     Inr (''0x'' @ (if i < 0 then CHR ''-'' # upper (hex_text (nat (- i))) else upper (hex_text (nat i))))"
| "hex_upper (VFloat f) = Inl ValueError"
| "hex_upper v = Inl TypeError"

text \<open>
  \<open>int(text, 16)\<close>: white space around, a sign, an optional \<open>0x\<close>, and digits that single underscores
  may separate (one may follow the \<open>0x\<close>).
\<close>

definition nibble_val :: "char \<Rightarrow> nat option" where
  "nibble_val c =
     (if is_digit c then Some (code_of c - 48)
      else if 65 \<le> code_of c \<and> code_of c \<le> 70 then Some (code_of c - 55)
      else if 97 \<le> code_of c \<and> code_of c \<le> 102 then Some (code_of c - 87)
      else None)"

definition is_hex :: "char \<Rightarrow> bool" where
  "is_hex c \<longleftrightarrow> nibble_val c \<noteq> None"

definition hex_number :: "string \<Rightarrow> nat" where
  "hex_number s = foldl (\<lambda>acc c. 16 * acc + the (nibble_val c)) 0 s"

definition unsigned_hex :: "string \<Rightarrow> int option" where
  "unsigned_hex s =
     (let body = (if starts_with ''0x'' s \<or> starts_with ''0X'' s
                  then (if starts_with ''_'' (drop 2 s) then drop 3 s else drop 2 s) else s)
      in if digit_groups is_hex body then Some (int (hex_number (drop_underscores body))) else None)"

definition int_of_hex :: "string \<Rightarrow> int option" where
  "int_of_hex s = (case strip_by is_space s of
     [] \<Rightarrow> None
   | c # cs \<Rightarrow>
       if c = CHR ''-'' then map_option uminus (unsigned_hex cs)
       else if c = CHR ''+'' then unsigned_hex cs else unsigned_hex (c # cs))"

definition int_of_block_text :: "string \<Rightarrow> int option" where
  "int_of_block_text s = (if starts_with ''0x'' s then int_of_hex s else int_of_text s)"

text \<open>\<open>params[0]\<close>, of parameters that are not empty.\<close>

fun item0 :: "pyval \<Rightarrow> pyerr + pyval" where
  "item0 (VList xs) = (case xs of [] \<Rightarrow> Inl IndexError | x # _ \<Rightarrow> Inr x)"
| "item0 (VTuple xs) = (case xs of [] \<Rightarrow> Inl IndexError | x # _ \<Rightarrow> Inr x)"
| "item0 (VStr s) = (case s of [] \<Rightarrow> Inl IndexError | c # _ \<Rightarrow> Inr (VStr [c]))"
| "item0 (VBytes s) = (case s of [] \<Rightarrow> Inl IndexError | c # _ \<Rightarrow> Inr (VInt (of_char c)))"
| "item0 (VDict kvs) = (case pd_lookup (VInt 0) kvs of None \<Rightarrow> Inl KeyError | Some v \<Rightarrow> Inr v)"
| "item0 _ = Inl TypeError"

section \<open>What the four chains do first\<close>

text \<open>The \<open>responses\<close> of a scenario, and the entry of a method or else the entry \<open>default\<close>.\<close>

definition chain_responses :: "sdict \<Rightarrow> pyerr + (pyval \<times> pyval) list" where
  "chain_responses sc = (case py_or (get_or sc ''responses'' VNone) (VDict []) of
     VDict kvs \<Rightarrow> Inr kvs | _ \<Rightarrow> Inl AttributeError)"

definition default_entry :: "(pyval \<times> pyval) list \<Rightarrow> pyval" where
  "default_entry kvs = (case pd_lookup (VStr ''default'') kvs of None \<Rightarrow> VDict [] | Some v \<Rightarrow> v)"

definition method_entry :: "(pyval \<times> pyval) list \<Rightarrow> pyval \<Rightarrow> pyerr + pyval" where
  "method_entry kvs meth =
     bind_r (pd_get meth kvs) (\<lambda>found. Inr (case found of
        Some v \<Rightarrow> if truthy v then v else default_entry kvs
      | None \<Rightarrow> default_entry kvs))"

definition cfg_item :: "string \<Rightarrow> pyval \<Rightarrow> pyerr + pyval" where
  "cfg_item k cfg = (case cfg of
     VDict m \<Rightarrow> (case pd_lookup (VStr k) m of None \<Rightarrow> Inl KeyError | Some v \<Rightarrow> Inr v)
   | _ \<Rightarrow> Inl TypeError)"

definition cfg_get :: "string \<Rightarrow> pyval \<Rightarrow> pyval \<Rightarrow> pyerr + pyval" where
  "cfg_get k d cfg = (if is_dict cfg then Inr (vget_or cfg k d) else Inl AttributeError)"

text \<open>An error of the catalogue of a chain, by name.\<close>

definition error_stub :: "sdict \<Rightarrow> pyval \<Rightarrow> pyerr + pyval" where
  "error_stub table name =
     (if \<not> hashable name then Inl TypeError
      else (case name of
              VStr s \<Rightarrow> (case map_of table s of None \<Rightarrow> Inl KeyError | Some e \<Rightarrow> Inr e)
            | _ \<Rightarrow> Inl KeyError))"

definition chosen_error :: "sdict \<Rightarrow> pyval \<Rightarrow> pyerr + pyval" where
  "chosen_error table cfg =
     bind_r (py_in (VStr ''error_stub'') cfg) (\<lambda>named.
       if named then bind_r (cfg_item ''error_stub'' cfg) (error_stub table)
       else bind_r (py_in (VStr ''error'') cfg) (\<lambda>raw.
         if raw then cfg_item ''error'' cfg else Inr VNone))"

text \<open>The reply of a per-method error override, or none.\<close>

definition error_reply :: "sdict \<Rightarrow> pyval \<Rightarrow> pyval \<Rightarrow> pyerr + (pyval \<times> pyval) option" where
  "error_reply table rid cfg =
     bind_r (chosen_error table cfg) (\<lambda>err.
       if err = VNone then Inr None
       else bind_r (cfg_get ''http_status'' (VInt 200) cfg) (\<lambda>st. Inr (Some (st, error_envelope rid err))))"

definition result_envelope :: "pyval \<Rightarrow> pyval \<Rightarrow> pyval" where
  "result_envelope rid res = jobj [(''jsonrpc'', VStr ''2.0''), (''id'', rid), (''result'', res)]"

text \<open>A stub of a table of replies, by method.\<close>

definition stub_of :: "sdict \<Rightarrow> pyval \<Rightarrow> pyval option" where
  "stub_of table meth = (case meth of VStr m \<Rightarrow> map_of table m | _ \<Rightarrow> None)"

text \<open>
  The frame of \<open>build_success\<close>: the entry of the method, its error reply, and else the content that
  the chain gives for the responses and the entry.
\<close>

definition with_entry ::
  "sdict \<Rightarrow> pyval \<Rightarrow> sdict \<Rightarrow> ((pyval \<times> pyval) list \<Rightarrow> pyval \<Rightarrow> pyerr + pyval \<times> pyval) \<Rightarrow> pyerr + pyval \<times> pyval" where
  "with_entry table req sc content =
     bind_r (chain_responses sc) (\<lambda>kvs.
     bind_r (method_entry kvs (vget_or req ''method'' (VStr ''unknown''))) (\<lambda>cfg.
     bind_r (error_reply table (vget_or req ''id'' (VInt 1)) cfg) (\<lambda>err.
       case err of Some reply \<Rightarrow> Inr reply | None \<Rightarrow> content kvs cfg)))"

section \<open>Ethereum\<close>

definition BLOCK_TAGS :: "string list" where
  "BLOCK_TAGS = [''latest'', ''safe'', ''finalized'', ''pending'']"

text \<open>A text or an integer as a block number. A bool is an int of Python and is refused by one of the two readers.\<close>

definition number_of_value :: "pyval \<Rightarrow> pyval option" where
  "number_of_value raw = (case raw of
     VStr s \<Rightarrow> map_option VInt (int_of_block_text s)
   | _ \<Rightarrow> if is_int raw then Some raw else None)"

definition resolve_block_tag :: "pyval \<Rightarrow> string \<Rightarrow> pyval \<Rightarrow> pyerr + pyval option" where
  "resolve_block_tag params key head_int =
     (if \<not> truthy params then Inr None
      else bind_r (item0 params) (\<lambda>p.
        if \<not> is_dict p then Inr None
        else
          let raw = vget_or p key (VStr ''latest'')
          in Inr (if in_texts raw BLOCK_TAGS then Some head_int else number_of_value raw)))"

definition parse_block_number :: "pyval \<Rightarrow> pyval option" where
  "parse_block_number raw = (if is_bool raw then None else number_of_value raw)"

definition entry_blocknum_le :: "pyval \<Rightarrow> pyval \<Rightarrow> pyerr + bool" where
  "entry_blocknum_le row threshold =
     (if \<not> is_dict row then Inr False
      else
        let raw = vget_or row ''blockNumber'' VNone
        in if is_int raw then py_le raw threshold
           else (case raw of
                   VStr s \<Rightarrow> (case int_of_hex s of None \<Rightarrow> Inr False | Some n \<Rightarrow> py_le (VInt n) threshold)
                 | _ \<Rightarrow> Inr False))"

text \<open>\<open>head - blocks_behind\<close>.\<close>

definition effective_head :: "pyerr + int \<Rightarrow> sdict \<Rightarrow> pyerr + pyval" where
  "effective_head cur sc = bind_r cur (\<lambda>h. int_minus h (get_or sc ''blocks_behind'' (VInt 0)))"

text \<open>The heights of the named tags of a provider with this effective head.\<close>

definition named_blocks :: "pyval \<Rightarrow> pyerr + sdict" where
  "named_blocks eff =
     bind_r (hex_upper eff) (\<lambda>latest.
     bind_r (hex_upper (num_plus eff 1)) (\<lambda>pending.
     bind_r (hex_upper (num_plus eff (-1))) (\<lambda>final.
       Inr [(''latest'', VStr latest), (''earliest'', VStr ''0x0''), (''pending'', VStr pending),
            (''safe'', VStr latest), (''finalized'', VStr final)])))"

definition above_head :: "pyval \<Rightarrow> pyval \<Rightarrow> pyval \<Rightarrow> pyerr + bool" where
  "above_head behind eff p =
     (if \<not> py_eq behind (VInt 0) \<and> (is_str p \<or> is_int p)
      then (case parse_block_number p of None \<Rightarrow> Inr False | Some n \<Rightarrow> py_lt eff n)
      else Inr False)"

definition eth_get_block :: "pyerr + int \<Rightarrow> sdict \<Rightarrow> pyval \<Rightarrow> pyval \<Rightarrow> pyerr + pyval" where
  "eth_get_block cur sc params result =
     bind_r (effective_head cur sc) (\<lambda>eff.
     bind_r (named_blocks eff) (\<lambda>named.
     bind_r (item0 params) (\<lambda>p.
     bind_r (above_head (get_or sc ''blocks_behind'' (VInt 0)) eff p) (\<lambda>above.
       if above then Inr VNone
       else if \<not> hashable p then Inl TypeError
       else Inr (vput ''number'' (case p of VStr s \<Rightarrow> get_or named s p | _ \<Rightarrow> p) result)))))"

definition eth_logs :: "pyerr + int \<Rightarrow> sdict \<Rightarrow> sdict \<Rightarrow> pyval \<Rightarrow> pyval \<Rightarrow> pyerr + pyval" where
  "eth_logs cur sc qs params result =
     (let indexed = get_or qs ''logs_indexed_up_to'' VNone
      in if indexed = VNone then Inr result
         else
           bind_r (effective_head cur sc) (\<lambda>eff.
           bind_r (resolve_block_tag params ''toBlock'' eff) (\<lambda>to_block. case to_block of
             None \<Rightarrow> Inr result
           | Some n \<Rightarrow> bind_r (py_lt indexed n) (\<lambda>past.
               if \<not> past then Inr result
               else if get_or qs ''logs_lag_mode'' (VStr ''empty'') = VStr ''partial'' then
                 (case result of
                    VList es \<Rightarrow> bind_r (filter_r (\<lambda>e. entry_blocknum_le e indexed) es) (\<lambda>ks. Inr (VList ks))
                  | _ \<Rightarrow> Inr (VList []))
               else Inr (VList [])))))"

definition eth_content ::
  "pyerr + int \<Rightarrow> pyval \<Rightarrow> sdict \<Rightarrow> sdict \<Rightarrow> pyval \<Rightarrow> pyerr + pyval \<times> pyval" where
  "eth_content cur req sc qs cfg =
     (let meth = vget_or req ''method'' (VStr ''unknown'');
          params = vget_or req ''params'' (VList []);
          stub = (case stub_of ETH_METHOD_DEFAULTS meth of None \<Rightarrow> VStr ''0x1'' | Some v \<Rightarrow> v)
      in bind_r (cfg_get ''result'' stub cfg) (\<lambda>result0.
         bind_r (if meth = VStr ''eth_blockNumber'' \<and> \<not> has_key cfg ''result''
                 then bind_r (bind_r (effective_head cur sc) hex_upper) (\<lambda>t. Inr (VStr t)) else Inr result0) (\<lambda>result1.
         bind_r (if meth = VStr ''eth_getBlockByNumber'' \<and> is_dict result1 \<and> truthy params
                 then eth_get_block cur sc params result1 else Inr result1) (\<lambda>result2.
         bind_r (if meth = VStr ''eth_getLogs'' then eth_logs cur sc qs params result2 else Inr result2) (\<lambda>result.
           Inr (get_or sc ''http_status'' (VInt 200), result_envelope (vget_or req ''id'' (VInt 1)) result))))))"

definition eth_build_success :: "pyerr + int \<Rightarrow> pyval \<Rightarrow> sdict \<Rightarrow> sdict \<Rightarrow> pyerr + pyval \<times> pyval" where
  "eth_build_success cur req sc qs =
     with_entry ETH_ERROR_STUBS req sc (\<lambda>kvs cfg. eth_content cur req sc qs cfg)"

section \<open>Bitcoin\<close>

definition BASE_HEAD_HASH :: string where
  "BASE_HEAD_HASH = btc_block_hash BTC_LATEST_BLOCK"

text \<open>
  \<open>_restamp_head\<close>: every base height and every base hash, at any depth of lists and of the values of
  dicts, becomes that of the effective head. The hash of an effective head that is no integer
  raises, so a reply is searched for the base hash first.
\<close>

fun restamp_head :: "pyval \<Rightarrow> string \<Rightarrow> pyval \<Rightarrow> pyval" where
  "restamp_head eff eff_hash (VInt i) = (if i = BTC_LATEST_BLOCK then eff else VInt i)"
| "restamp_head eff eff_hash (VStr s) = (if s = BASE_HEAD_HASH then VStr eff_hash else VStr s)"
| "restamp_head eff eff_hash (VDict kvs) = VDict (map (\<lambda>(k, v). (k, restamp_head eff eff_hash v)) kvs)"
| "restamp_head eff eff_hash (VList xs) = VList (map (restamp_head eff eff_hash) xs)"
| "restamp_head eff eff_hash v = v"

fun names_base_hash :: "pyval \<Rightarrow> bool" where
  "names_base_hash (VStr s) = (s = BASE_HEAD_HASH)"
| "names_base_hash (VDict kvs) = list_ex (\<lambda>(k, v). names_base_hash v) kvs"
| "names_base_hash (VList xs) = list_ex names_base_hash xs"
| "names_base_hash v = False"

fun hash_of_head :: "pyval \<Rightarrow> pyerr + string" where
  "hash_of_head (VInt i) = Inr (btc_block_hash i)"
| "hash_of_head (VFloat f) = Inl ValueError"
| "hash_of_head v = Inl TypeError"

definition restamp :: "pyval \<Rightarrow> pyval \<Rightarrow> pyerr + pyval" where
  "restamp eff v =
     (if names_base_hash v then bind_r (hash_of_head eff) (\<lambda>hash. Inr (restamp_head eff hash v))
      else Inr (restamp_head eff [] v))"

text \<open>The result of a method before the head is looked at.\<close>

definition plain_result :: "sdict \<Rightarrow> pyval \<Rightarrow> pyval \<Rightarrow> pyerr + pyval" where
  "plain_result table meth cfg =
     bind_r (py_in (VStr ''result'') cfg) (\<lambda>own.
       if own then cfg_item ''result'' cfg
       else Inr (case stub_of table meth of None \<Rightarrow> VNone | Some v \<Rightarrow> v))"

text \<open>
  \<open>getblockhash\<close> with a height: \<open>Inr None\<close> is a parameter that is no height, which is answered by an
  error; an exception of another class than the two that are caught escapes.
\<close>

definition requested_height :: "pyval \<Rightarrow> pyerr + int option" where
  "requested_height params = (case bind_r (item0 params) py_int of
     Inr n \<Rightarrow> Inr (Some n)
   | Inl e \<Rightarrow> if e \<in> {TypeError, ValueError} then Inr None else Inl e)"

text \<open>\<open>getblock\<close> and \<open>getblockheader\<close> echo the hash that they are asked for.\<close>

definition echo_first :: "string \<Rightarrow> pyval \<Rightarrow> pyval \<Rightarrow> pyerr + pyval" where
  "echo_first key params result =
     bind_r (item0 params) (\<lambda>p. Inr (if is_str p then vput key p result else result))"

definition btc_content ::
  "pyerr + int \<Rightarrow> pyval \<Rightarrow> sdict \<Rightarrow> (pyval \<times> pyval) list \<Rightarrow> pyval \<Rightarrow> pyerr + pyval \<times> pyval" where
  "btc_content cur req sc kvs cfg =
     (let rid = vget_or req ''id'' (VInt 1);
          meth = vget_or req ''method'' (VStr ''unknown'');
          params = vget_or req ''params'' (VList []);
          own = (pd_lookup meth kvs \<noteq> None);
          by_height = (meth = VStr ''getblockhash'' \<and> truthy params)
      in bind_r (plain_result BTC_METHOD_DEFAULTS meth cfg) (\<lambda>result0.
         bind_r (effective_head cur sc) (\<lambda>eff.
         bind_r (if \<not> own \<and> \<not> by_height then restamp eff result0 else Inr result0) (\<lambda>result1.
         bind_r (if by_height \<and> \<not> own then requested_height params else Inr (Some 0)) (\<lambda>height. case height of
           None \<Rightarrow> bind_r (error_stub BTC_ERROR_STUBS (VStr ''invalid_parameter'')) (\<lambda>e.
                     Inr (VInt 200, error_envelope rid e))
         | Some n \<Rightarrow>
             let result2 = (if by_height \<and> \<not> own then VStr (btc_block_hash n) else result1)
             in bind_r (if meth \<in> {VStr ''getblock'', VStr ''getblockheader''} \<and> truthy params \<and> is_dict result2 \<and> \<not> own
                        then echo_first ''hash'' params result2 else Inr result2) (\<lambda>result.
                  Inr (get_or sc ''http_status'' (VInt 200), result_envelope rid result)))))))"

definition btc_build_success :: "pyerr + int \<Rightarrow> pyval \<Rightarrow> sdict \<Rightarrow> sdict \<Rightarrow> pyerr + pyval \<times> pyval" where
  "btc_build_success cur req sc qs = with_entry BTC_ERROR_STUBS req sc (btc_content cur req sc)"

section \<open>Lightning\<close>

text \<open>\<open>getinfo\<close>: the height follows the head of Bitcoin, and a node that is behind is not synced.\<close>

definition ln_height :: "pyerr + int \<Rightarrow> sdict \<Rightarrow> pyval \<Rightarrow> pyerr + pyval" where
  "ln_height btc_cur sc result =
     bind_r (effective_head btc_cur sc) (\<lambda>eff.
       let shown = vput ''block_height'' eff result
       in Inr (if py_eq (get_or sc ''blocks_behind'' (VInt 0)) (VInt 0) then shown
               else vput ''synced_to_chain'' (VBool False) shown))"

text \<open>The three methods that echo their first parameter when it is a text that is not empty.\<close>

definition LN_ECHOES :: "(string \<times> string) list" where
  "LN_ECHOES = [(''decodepayreq'', ''payment_request''), (''openchannel'', ''node_pubkey''), (''payinvoice'', ''payment_request'')]"

definition ln_echo :: "string \<Rightarrow> pyval \<Rightarrow> pyval \<Rightarrow> pyerr + pyval" where
  "ln_echo key params result =
     bind_r (item0 params) (\<lambda>p. Inr (if is_str p \<and> truthy p then vput key p result else result))"

definition ln_content ::
  "pyerr + int \<Rightarrow> pyval \<Rightarrow> sdict \<Rightarrow> (pyval \<times> pyval) list \<Rightarrow> pyval \<Rightarrow> pyerr + pyval \<times> pyval" where
  "ln_content btc_cur req sc kvs cfg =
     (let rid = vget_or req ''id'' (VInt 1);
          meth = vget_or req ''method'' (VStr ''unknown'');
          params = vget_or req ''params'' (VList []);
          own = (pd_lookup meth kvs \<noteq> None)
      in bind_r (plain_result LND_METHOD_DEFAULTS meth cfg) (\<lambda>result0.
         bind_r (if \<not> own \<and> meth = VStr ''getinfo'' \<and> is_dict result0 then ln_height btc_cur sc result0
                 else Inr result0) (\<lambda>result1.
         bind_r (case (case meth of VStr m \<Rightarrow> map_of LN_ECHOES m | _ \<Rightarrow> None) of
                   Some key \<Rightarrow> if truthy params \<and> \<not> own \<and> is_dict result1 then ln_echo key params result1 else Inr result1
                 | None \<Rightarrow> Inr result1) (\<lambda>result.
           Inr (get_or sc ''http_status'' (VInt 200), result_envelope rid result)))))"

definition ln_build_success :: "pyerr + int \<Rightarrow> pyval \<Rightarrow> sdict \<Rightarrow> sdict \<Rightarrow> pyerr + pyval \<times> pyval" where
  "ln_build_success btc_cur req sc qs = with_entry LND_ERROR_STUBS req sc (ln_content btc_cur req sc)"

section \<open>Solana\<close>

definition solana_stub :: "pyval \<Rightarrow> sdict \<Rightarrow> pyval \<Rightarrow> pyerr + pyval option" where
  "solana_stub slot qs meth =
     (if meth = VStr ''getLatestBlockhash'' then
        bind_r (num_minus slot (get_or qs ''slot_block_gap'' (VInt SOLANA_DEFAULT_SLOT_BLOCK_GAP))) (\<lambda>height.
          Inr (Some (jobj [(''context'', jobj [(''slot'', slot)]),
             (''value'', jobj [(''blockhash'', VStr SOLANA_BLOCKHASH), (''lastValidBlockHeight'', height)])])))
      else if meth = VStr ''getSlot'' then Inr (Some slot)
      else if meth = VStr ''getHealth'' then Inr (Some (VStr ''ok''))
      else if meth = VStr ''getVersion'' then
        Inr (Some (jobj [(''solana-core'', VStr SOLANA_CORE_VERSION), (''feature-set'', VInt SOLANA_FEATURE_SET)]))
      else Inr (if get_or qs ''unknown_method_mode'' VNone = VStr ''error'' then None else Some VNone))"

definition solana_content ::
  "pyerr + int \<Rightarrow> pyval \<Rightarrow> sdict \<Rightarrow> sdict \<Rightarrow> pyval \<Rightarrow> pyerr + pyval \<times> pyval" where
  "solana_content cur req sc qs cfg =
     (let rid = vget_or req ''id'' (VInt 1);
          meth = vget_or req ''method'' (VStr ''unknown'');
          st = get_or sc ''http_status'' (VInt 200)
      in bind_r (py_in (VStr ''result'') cfg) (\<lambda>own.
         if own then bind_r (cfg_item ''result'' cfg) (\<lambda>r. Inr (st, result_envelope rid r))
         else
           bind_r (bind_r cur (\<lambda>h. int_plus h (get_or qs ''slot_offset'' (VInt 0)))) (\<lambda>slot.
           bind_r (solana_stub slot qs meth) (\<lambda>reply. case reply of
             Some result \<Rightarrow> Inr (st, result_envelope rid result)
           | None \<Rightarrow> bind_r (error_stub SOLANA_ERROR_STUBS (VStr ''method_not_found'')) (\<lambda>e.
                       Inr (st, error_envelope rid e))))))"

definition solana_build_success :: "pyerr + int \<Rightarrow> pyval \<Rightarrow> sdict \<Rightarrow> sdict \<Rightarrow> pyerr + pyval \<times> pyval" where
  "solana_build_success cur req sc qs =
     with_entry SOLANA_ERROR_STUBS req sc (\<lambda>kvs cfg. solana_content cur req sc qs cfg)"

end
