(* ===== verification/ChainFacts.thy ===== *)
theory ChainFacts
  imports Chains
begin

text \<open>
  What the JSON-RPC chains promise: a block hash depends on the height alone and on nothing of the
  provider, the height that a provider reports is a block that it has, and every height of one
  Bitcoin reply is the same one.
\<close>

section \<open>Hexadecimal round trip\<close>

lemma nibble_char_val [simp]: "d < 16 \<Longrightarrow> nibble_val (nibble_char d) = Some d"
  by (auto simp: nibble_char_def nibble_val_def is_digit_def)

lemma upper_hex_val [simp]: "d < 16 \<Longrightarrow> nibble_val (upper_char (nibble_char d)) = Some d"
  by (auto simp: nibble_char_def nibble_val_def is_digit_def upper_char_def)

lemma hex_text_Cons: "hex_text n \<noteq> []"
  by (subst hex_text.simps) simp

lemma hex_number_snoc [simp]: "hex_number (s @ [c]) = 16 * hex_number s + the (nibble_val c)"
  by (simp add: hex_number_def)

lemma hex_number_text: "hex_number (hex_text n) = n"
proof (induction n rule: hex_text.induct)
  case (1 n)
  show ?case
  proof (cases "n < 16")
    case True
    then show ?thesis by (subst hex_text.simps) (simp add: hex_number_def)
  next
    case False
    then show ?thesis using 1 by (subst hex_text.simps) simp
  qed
qed

lemma hex_number_upper: "hex_number (upper (hex_text n)) = n"
proof (induction n rule: hex_text.induct)
  case (1 n)
  show ?case
  proof (cases "n < 16")
    case True
    then show ?thesis by (subst hex_text.simps) (simp add: hex_number_def upper_def)
  next
    case False
    then have "upper (hex_text n) = upper (hex_text (n div 16)) @ [upper_char (nibble_char (n mod 16))]"
      by (subst hex_text.simps) (simp add: upper_def)
    then show ?thesis using 1 [OF False] by simp
  qed
qed

lemma hex_text_digits: "c \<in> set (hex_text n) \<Longrightarrow> \<exists>d < 16. c = nibble_char d"
proof (induction n rule: hex_text.induct)
  case (1 n)
  show ?case
  proof (cases "n < 16")
    case True
    with 1 show ?thesis by (subst (asm) (2) hex_text.simps) auto
  next
    case False
    then have "c \<in> set (hex_text (n div 16)) \<or> c = nibble_char (n mod 16)"
      using 1(2) by (subst (asm) hex_text.simps) auto
    moreover have "n mod 16 < 16" by simp
    ultimately show ?thesis using 1(1) [OF False] by blast
  qed
qed

lemma upper_hex_text_digits: "c \<in> set (upper (hex_text n)) \<Longrightarrow> is_hex c"
  using hex_text_digits by (fastforce simp: upper_def is_hex_def)

lemma digit_groups_hex: "s \<noteq> [] \<Longrightarrow> \<forall>c \<in> set s. is_hex c \<Longrightarrow> digit_groups is_hex s"
proof (induction is_hex s rule: digit_groups.induct)
  case (3 c d cs)
  then have "d \<noteq> CHR ''_''" by (auto simp: is_hex_def nibble_val_def is_digit_def)
  with 3 show ?case by auto
qed auto

lemma drop_underscores_hex: "\<forall>c \<in> set s. is_hex c \<Longrightarrow> drop_underscores s = s"
  by (auto simp: drop_underscores_def filter_id_conv is_hex_def nibble_val_def is_digit_def)

text \<open>Reading back what \<open>_hex_upper\<close> writes.\<close>

lemma block_text_roundtrip:
  assumes "hex_upper (VInt i) = Inr t" and "0 \<le> i"
  shows "int_of_block_text t = Some i"
proof -
  let ?d = "upper (hex_text (nat i))"
  have t: "t = CHR ''0'' # CHR ''x'' # ?d" using assms by auto
  have hex: "\<forall>c \<in> set ?d. is_hex c" using upper_hex_text_digits by blast
  have ne: "?d \<noteq> []" by (simp add: hex_text_Cons upper_def)
  then have "last t = last ?d" "last ?d \<in> set ?d" by (simp_all add: t)
  with hex have "is_hex (last t)" by simp
  then have "\<not> is_space (last t)" by (auto simp: is_hex_def nibble_val_def is_digit_def is_space_def split: if_splits)
  then have strip: "strip_by is_space t = t" by (intro strip_by_id) (simp_all add: t is_space_def)
  have "\<not> starts_with ''_'' ?d"
    using hex ne by (cases ?d) (auto simp: starts_with_def is_hex_def nibble_val_def is_digit_def)
  then have "unsigned_hex t = Some i"
    using assms(2) hex ne
    by (simp add: t unsigned_hex_def starts_with_def Let_def digit_groups_hex drop_underscores_hex hex_number_upper)
  then show ?thesis using strip t by (simp add: int_of_block_text_def int_of_hex_def starts_with_def)
qed

section \<open>Requests that no override touches\<close>

definition untouched :: "sdict \<Rightarrow> string \<Rightarrow> bool" where
  "untouched sc meth \<longleftrightarrow> (\<exists>kvs. chain_responses sc = Inr kvs
     \<and> pd_lookup (VStr meth) kvs = None \<and> pd_lookup (VStr ''default'') kvs = None)"

definition rpc :: "string \<Rightarrow> pyval list \<Rightarrow> pyval \<Rightarrow> pyval" where
  "rpc meth params rid = jobj [(''method'', VStr meth), (''params'', VList params), (''id'', rid)]"

lemma rpc_fields [simp]:
  "vget_or (rpc meth params rid) ''method'' d = VStr meth" "vget_or (rpc meth params rid) ''params'' d = VList params"
  "vget_or (rpc meth params rid) ''id'' d = rid"
  by (simp_all add: rpc_def vget_or_def)

lemma with_entry_untouched:
  assumes "untouched sc meth"
  shows "\<exists>kvs. pd_lookup (VStr meth) kvs = None
    \<and> with_entry table (rpc meth params rid) sc content = content kvs (VDict [])"
proof -
  from assms obtain kvs where k: "chain_responses sc = Inr kvs" "pd_lookup (VStr meth) kvs = None"
    "pd_lookup (VStr ''default'') kvs = None" by (auto simp: untouched_def)
  have "error_reply table rid (VDict []) = Inr None" by (simp add: error_reply_def chosen_error_def)
  with k have "with_entry table (rpc meth params rid) sc content = content kvs (VDict [])"
    by (simp add: with_entry_def method_entry_def pd_get_def default_entry_def)
  with k(2) show ?thesis by blast
qed

lemma untouched_no_responses: "get_or sc ''responses'' VNone \<in> {VNone, VDict []} \<Longrightarrow> untouched sc meth"
  by (auto simp: untouched_def chain_responses_def py_or_def)

lemma cfg_get_empty [simp]: "cfg_get k d (VDict []) = Inr d"
  by (simp add: cfg_get_def vget_or_def)

lemma plain_result_empty [simp]:
  "plain_result table meth (VDict []) = Inr (case stub_of table meth of None \<Rightarrow> VNone | Some v \<Rightarrow> v)"
  by (simp add: plain_result_def)

section \<open>Ethereum\<close>

lemma stub_block_number: "is_dict (the (stub_of ETH_METHOD_DEFAULTS (VStr ''eth_getBlockByNumber'')))"
  "stub_of ETH_METHOD_DEFAULTS (VStr ''eth_getBlockByNumber'') \<noteq> None"
  by (simp_all add: stub_of_def ETH_METHOD_DEFAULTS_def eth_block_def)

text \<open>What an Ethereum provider answers to the two methods of the head.\<close>

lemma eth_block_number:
  assumes "untouched sc ''eth_blockNumber''" and "get_or sc ''blocks_behind'' (VInt 0) = VInt b"
    and "hex_upper (VInt (h - b)) = Inr t"
  shows "eth_build_success (Inr h) (rpc ''eth_blockNumber'' [] rid) sc qs
    = Inr (get_or sc ''http_status'' (VInt 200), result_envelope rid (VStr t))"
proof -
  from with_entry_untouched [OF assms(1), of ETH_ERROR_STUBS "[]" rid "\<lambda>kvs cfg. eth_content (Inr h)
      (rpc ''eth_blockNumber'' [] rid) sc qs cfg"]
  show ?thesis using assms(2,3)
    by (simp add: eth_build_success_def eth_content_def effective_head_def has_key_def Let_def del: hex_upper.simps)
qed

lemma eth_get_block_text:
  assumes "get_or sc ''blocks_behind'' (VInt 0) = VInt b" and "int_of_block_text t = Some m" and "is_dict blk"
  shows "eth_get_block (Inr h) sc (VList (VStr t # ps)) blk = Inr (if b \<noteq> 0 \<and> h - b < m then VNone else vput ''number'' (VStr t) blk)"
proof -
  have tag: "t \<notin> {''latest'', ''earliest'', ''pending'', ''safe'', ''finalized''}" using assms(2)
    by (auto simp: int_of_block_text_def starts_with_def int_of_text_def strip_by_def is_space_def unsigned_int_def
        is_digit_def split: if_splits)
  obtain named where named: "named_blocks (VInt (h - b)) = Inr named" "map_of named t = None"
    using tag by (auto simp: named_blocks_def)
  then show ?thesis
    using assms
    by (auto simp: eth_get_block_def effective_head_def above_head_def parse_block_number_def number_of_value_def
        py_lt_def pf_lt_def get_or_def)
qed

lemma eth_block_reply:
  assumes "untouched sc ''eth_getBlockByNumber''" and "get_or sc ''blocks_behind'' (VInt 0) = VInt b"
    and "int_of_block_text t = Some m"
  shows "\<exists>blk. is_dict blk \<and> vget blk ''number'' = Some (VStr t)
    \<and> eth_build_success (Inr h) (rpc ''eth_getBlockByNumber'' (VStr t # ps) rid) sc qs
      = Inr (get_or sc ''http_status'' (VInt 200), result_envelope rid (if b \<noteq> 0 \<and> h - b < m then VNone else blk))"
proof -
  obtain stub where stub: "stub_of ETH_METHOD_DEFAULTS (VStr ''eth_getBlockByNumber'') = Some stub" "is_dict stub"
    using stub_block_number by fastforce
  from with_entry_untouched [OF assms(1), of ETH_ERROR_STUBS "VStr t # ps" rid "\<lambda>kvs cfg. eth_content (Inr h)
      (rpc ''eth_getBlockByNumber'' (VStr t # ps) rid) sc qs cfg"]
  have "eth_build_success (Inr h) (rpc ''eth_getBlockByNumber'' (VStr t # ps) rid) sc qs
      = Inr (get_or sc ''http_status'' (VInt 200),
          result_envelope rid (if b \<noteq> 0 \<and> h - b < m then VNone else vput ''number'' (VStr t) stub))"
    using eth_get_block_text [OF assms(2,3) stub(2), of h ps]
    by (simp add: eth_build_success_def eth_content_def has_key_def Let_def stub)
  moreover have "is_dict (vput ''number'' (VStr t) stub)" "vget (vput ''number'' (VStr t) stub) ''number'' = Some (VStr t)"
    using stub(2) by (simp_all add: vget_vput)
  ultimately show ?thesis by blast
qed

text \<open>
  C26. An Ethereum provider has the block that it reports, and no block above it once it is off the
  head of the chain. With no override, \<open>eth_blockNumber\<close> gives the head minus \<open>blocks_behind\<close>;
  asked for exactly that text, \<open>eth_getBlockByNumber\<close> gives a block with that number; and for a
  provider that is behind or ahead, a number above it in any notation gives null with the
  normal status.
\<close>

theorem eth_has_the_block_it_reports:
  assumes "untouched sc ''eth_blockNumber''" and "untouched sc ''eth_getBlockByNumber''"
    and "get_or sc ''blocks_behind'' (VInt 0) = VInt b" and "b \<le> h"
  shows "\<exists>t blk. int_of_block_text t = Some (h - b)
    \<and> eth_build_success (Inr h) (rpc ''eth_blockNumber'' [] rid) sc qs
        = Inr (get_or sc ''http_status'' (VInt 200), result_envelope rid (VStr t))
    \<and> eth_build_success (Inr h) (rpc ''eth_getBlockByNumber'' [VStr t] rid) sc qs
        = Inr (get_or sc ''http_status'' (VInt 200), result_envelope rid blk)
    \<and> is_dict blk \<and> vget blk ''number'' = Some (VStr t)
    \<and> (\<forall>u m. b \<noteq> 0 \<and> int_of_block_text u = Some m \<and> h - b < m \<longrightarrow>
         eth_build_success (Inr h) (rpc ''eth_getBlockByNumber'' [VStr u] rid) sc qs
           = Inr (get_or sc ''http_status'' (VInt 200), result_envelope rid VNone))"
proof -
  obtain t where t: "hex_upper (VInt (h - b)) = Inr t" by simp
  have reads: "int_of_block_text t = Some (h - b)" using block_text_roundtrip [OF t] assms(4) by simp
  from eth_block_reply [OF assms(2,3) reads, of h "[]" rid qs] obtain blk where blk: "is_dict blk"
    "vget blk ''number'' = Some (VStr t)"
    "eth_build_success (Inr h) (rpc ''eth_getBlockByNumber'' [VStr t] rid) sc qs
      = Inr (get_or sc ''http_status'' (VInt 200), result_envelope rid blk)" by auto
  have "eth_build_success (Inr h) (rpc ''eth_getBlockByNumber'' [VStr u] rid) sc qs
      = Inr (get_or sc ''http_status'' (VInt 200), result_envelope rid VNone)"
    if "b \<noteq> 0" "int_of_block_text u = Some m" "h - b < m" for u m
    using eth_block_reply [OF assms(2,3) that(2), of h "[]" rid qs] that by auto
  then show ?thesis using reads eth_block_number [OF assms(1,3) t] blk by blast
qed

definition behind_scenario :: "int \<Rightarrow> sdict" where
  "behind_scenario b = [(''responses'', VDict []), (''blocks_behind'', VInt b)]"

lemma behind_scenario:
  "untouched (behind_scenario b) meth" "get_or (behind_scenario b) ''blocks_behind'' (VInt 0) = VInt b"
  "get_or (behind_scenario b) ''http_status'' v = v"
  by (auto simp: behind_scenario_def get_or_def intro: untouched_no_responses)

theorem eth_has_the_block_it_reports_witness:
  "\<exists>t blk. int_of_block_text t = Some 95
     \<and> eth_build_success (Inr 100) (rpc ''eth_getBlockByNumber'' [VStr t] (VInt 1)) (behind_scenario 5) []
         = Inr (VInt 200, result_envelope (VInt 1) blk) \<and> vget blk ''number'' = Some (VStr t)"
  using eth_has_the_block_it_reports [where h = 100 and rid = "VInt 1" and qs = "[]" and b = 5, OF behind_scenario(1,1,2)]
  by (auto simp: behind_scenario(3))

section \<open>Bitcoin and Lightning\<close>

lemma hex_number_zeros: "hex_number (replicate k CHR ''0'' @ s) = hex_number s"
proof -
  have "foldl (\<lambda>acc c. 16 * acc + the (nibble_val c)) 0 (replicate k CHR ''0'') = 0"
    by (induction k) (simp_all add: nibble_val_def is_digit_def)
  then show ?thesis by (simp add: hex_number_def)
qed

lemma btc_block_hash_inject: "0 \<le> a \<Longrightarrow> 0 \<le> b \<Longrightarrow> btc_block_hash a = btc_block_hash b \<Longrightarrow> a = b"
proof -
  assume nn: "0 \<le> a" "0 \<le> b" and eq: "btc_block_hash a = btc_block_hash b"
  have "hex_number (btc_block_hash i) = nat i" if "0 \<le> i" for i
    using that by (simp add: btc_block_hash_def pad_zeros_def hex_number_zeros hex_number_text)
  with nn eq show "a = b" by (metis nat_eq_iff2)
qed

text \<open>
  The rule for block hashes. Two Bitcoin providers that are asked for the hash of one height
  give the same hash, whatever their heads, how far behind they are and their settings; and
  different heights have different hashes.
\<close>

theorem btc_block_hash_rule:
  assumes "untouched sc ''getblockhash''" and "get_or sc ''blocks_behind'' (VInt 0) = VInt b"
  shows "btc_build_success (Inr h) (rpc ''getblockhash'' [VInt n] rid) sc qs
      = Inr (get_or sc ''http_status'' (VInt 200), result_envelope rid (VStr (btc_block_hash n)))
    \<and> (\<forall>m. 0 \<le> n \<and> 0 \<le> m \<and> btc_block_hash m = btc_block_hash n \<longrightarrow> m = n)"
proof -
  from with_entry_untouched [OF assms(1), of BTC_ERROR_STUBS "[VInt n]" rid "btc_content (Inr h)
      (rpc ''getblockhash'' [VInt n] rid) sc"]
  have "btc_build_success (Inr h) (rpc ''getblockhash'' [VInt n] rid) sc qs
      = Inr (get_or sc ''http_status'' (VInt 200), result_envelope rid (VStr (btc_block_hash n)))"
    using assms(2) by (auto simp: btc_build_success_def btc_content_def effective_head_def requested_height_def Let_def)
  then show ?thesis using btc_block_hash_inject by blast
qed

theorem btc_block_hash_rule_witness:
  "btc_build_success (Inr 900000) (rpc ''getblockhash'' [VInt 7] (VInt 1)) (behind_scenario 5) []
     = btc_build_success (Inr 850000) (rpc ''getblockhash'' [VInt 7] (VInt 1)) (behind_scenario (- 3)) []"
  using btc_block_hash_rule [where h = 900000 and n = 7 and rid = "VInt 1" and qs = "[]", OF behind_scenario(1,2) [of 5]]
    btc_block_hash_rule [where h = 850000 and n = 7 and rid = "VInt 1" and qs = "[]", OF behind_scenario(1,2) [of "- 3"]]
  by (simp add: behind_scenario(3))

text \<open>A reply that still names the height or the hash that the stubs are written against.\<close>

fun names_base :: "pyval \<Rightarrow> bool" where
  "names_base (VInt i) = (i = BTC_LATEST_BLOCK)"
| "names_base (VStr s) = (s = BASE_HEAD_HASH)"
| "names_base (VDict kvs) = list_ex (\<lambda>(k, v). names_base v) kvs"
| "names_base (VList xs) = list_ex names_base xs"
| "names_base v = False"

lemma restamp_at_rest: "restamp_head (VInt BTC_LATEST_BLOCK) BASE_HEAD_HASH v = v"
  by (induction v) (auto intro: map_idI)

lemma restamp_leaves_none:
  "n \<noteq> BTC_LATEST_BLOCK \<Longrightarrow> eff_hash \<noteq> BASE_HEAD_HASH \<Longrightarrow> \<not> names_base (restamp_head (VInt n) eff_hash v)"
proof (induction v)
  case (VDict kvs)
  then show ?case by (fastforce simp: list_ex_iff)
qed (auto simp: list_ex_iff)

lemma restamp_no_hash: "\<not> names_base_hash v \<Longrightarrow> restamp_head eff x v = restamp_head eff y v"
proof (induction v)
  case (VDict kvs)
  then show ?case by (fastforce simp: list_ex_iff)
qed (auto simp: list_ex_iff)

lemma restamp_int: "restamp (VInt n) v = Inr (restamp_head (VInt n) (btc_block_hash n) v)"
  using restamp_no_hash [of v "VInt n" "[]" "btc_block_hash n"] by (simp add: restamp_def)

text \<open>
  Every height of a Bitcoin reply is the head of its provider. A method that no override
  touches and that is asked without parameters answers its stub with every base height and base
  hash, at any depth, replaced by those of the effective head. At rest that is the stub itself,
  unchanged; at any other head nothing of the old head is left in the reply.
\<close>

theorem btc_reply_has_one_head:
  assumes "untouched sc meth" and "get_or sc ''blocks_behind'' (VInt 0) = VInt b"
    and "stub_of BTC_METHOD_DEFAULTS (VStr meth) = Some stub"
  shows "\<exists>body. btc_build_success (Inr h) (rpc meth [] rid) sc qs
      = Inr (get_or sc ''http_status'' (VInt 200), result_envelope rid body)
    \<and> body = restamp_head (VInt (h - b)) (btc_block_hash (h - b)) stub
    \<and> (h - b = BTC_LATEST_BLOCK \<longrightarrow> body = stub)
    \<and> (h - b \<noteq> BTC_LATEST_BLOCK \<and> b \<le> h \<longrightarrow> \<not> names_base body)"
proof -
  let ?body = "restamp_head (VInt (h - b)) (btc_block_hash (h - b)) stub"
  from with_entry_untouched [OF assms(1), of BTC_ERROR_STUBS "[]" rid "btc_content (Inr h) (rpc meth [] rid) sc"]
  have "btc_build_success (Inr h) (rpc meth [] rid) sc qs
      = Inr (get_or sc ''http_status'' (VInt 200), result_envelope rid ?body)"
    using assms(2,3) by (auto simp: btc_build_success_def btc_content_def effective_head_def restamp_int Let_def)
  moreover have "?body = stub" if "h - b = BTC_LATEST_BLOCK"
    using that restamp_at_rest by (simp add: BASE_HEAD_HASH_def)
  moreover have "\<not> names_base ?body" if "h - b \<noteq> BTC_LATEST_BLOCK" "b \<le> h"
    using that btc_block_hash_inject [of "h - b" BTC_LATEST_BLOCK]
    by (intro restamp_leaves_none) (auto simp: BASE_HEAD_HASH_def BTC_LATEST_BLOCK_def)
  ultimately show ?thesis by blast
qed

theorem btc_reply_has_one_head_witness:
  "\<exists>body. btc_build_success (Inr 850010) (rpc ''getchaintips'' [] (VInt 1)) (behind_scenario 3) []
      = Inr (VInt 200, result_envelope (VInt 1) body) \<and> \<not> names_base body"
proof -
  obtain stub where "stub_of BTC_METHOD_DEFAULTS (VStr ''getchaintips'') = Some stub"
    by (simp add: stub_of_def BTC_METHOD_DEFAULTS_def)
  from btc_reply_has_one_head [where h = 850010 and rid = "VInt 1" and qs = "[]" and b = 3, OF behind_scenario(1,2) this] show ?thesis
    by (auto simp: behind_scenario(3) BTC_LATEST_BLOCK_def)
qed

text \<open>
  A Lightning node follows Bitcoin: \<open>getinfo\<close> reports the head of the Bitcoin chain minus
  \<open>blocks_behind\<close>, and says that it is synced exactly when it is not behind.
\<close>

theorem ln_follows_btc:
  assumes "untouched sc ''getinfo''" and "get_or sc ''blocks_behind'' (VInt 0) = VInt b"
  shows "\<exists>info. ln_build_success (Inr h) (rpc ''getinfo'' [] rid) sc qs
      = Inr (get_or sc ''http_status'' (VInt 200), result_envelope rid info)
    \<and> vget info ''block_height'' = Some (VInt (h - b)) \<and> vget info ''synced_to_chain'' = Some (VBool (b = 0))"
proof -
  obtain stub where stub: "stub_of LND_METHOD_DEFAULTS (VStr ''getinfo'') = Some stub" "is_dict stub"
    "vget stub ''synced_to_chain'' = Some (VBool True)"
    by (simp add: stub_of_def LND_METHOD_DEFAULTS_def)
  let ?shown = "vput ''block_height'' (VInt (h - b)) stub"
  let ?info = "if b = 0 then ?shown else vput ''synced_to_chain'' (VBool False) ?shown"
  from with_entry_untouched [OF assms(1), of LND_ERROR_STUBS "[]" rid "ln_content (Inr h) (rpc ''getinfo'' [] rid) sc"]
  have "ln_build_success (Inr h) (rpc ''getinfo'' [] rid) sc qs
      = Inr (get_or sc ''http_status'' (VInt 200), result_envelope rid ?info)"
    using assms(2) stub
    by (auto simp: ln_build_success_def ln_content_def ln_height_def effective_head_def LN_ECHOES_def Let_def)
  moreover have "vget ?info ''block_height'' = Some (VInt (h - b))" "vget ?info ''synced_to_chain'' = Some (VBool (b = 0))"
    using stub by (simp_all add: vget_vput)
  ultimately show ?thesis by blast
qed

theorem ln_follows_btc_witness:
  "\<exists>info. ln_build_success (Inr 850010) (rpc ''getinfo'' [] (VInt 1)) (behind_scenario 3) []
      = Inr (VInt 200, result_envelope (VInt 1) info) \<and> vget info ''block_height'' = Some (VInt 850007)"
  using ln_follows_btc [where h = 850010 and rid = "VInt 1" and qs = "[]" and b = 3, OF behind_scenario(1,2)] by (auto simp: behind_scenario(3))

section \<open>Values that are accepted and break a reply\<close>

text \<open>
  A \<open>blocks_behind\<close> of the wrong type is accepted and then leaves requests unanswered: the check
  of a scenario has no rule for the field, and with a text in it the head poll of an Ethereum
  provider raises.
\<close>

theorem text_lag_unanswered:
  assumes "untouched sc ''eth_blockNumber''" and "get_or sc ''blocks_behind'' (VInt 0) = VStr s"
  shows "cfg_check ScenarioConfig [(''blocks_behind'', VStr s)] = None
    \<and> eth_build_success (Inr h) (rpc ''eth_blockNumber'' [] rid) sc qs = Inl TypeError"
proof
  show "cfg_check ScenarioConfig [(''blocks_behind'', VStr s)] = None"
    by (simp add: cfg_check_def ScenarioConfig_def scenario_fields_def field_names_def scenario_validate_def get_or_def
        validate_transports_def validate_ports_def validate_pause_def validate_rate_limit_style_def
        validate_unreadable_reply_def validate_chosen_def Let_def)
  from with_entry_untouched [OF assms(1), of ETH_ERROR_STUBS "[]" rid "\<lambda>kvs cfg. eth_content (Inr h)
      (rpc ''eth_blockNumber'' [] rid) sc qs cfg"]
  show "eth_build_success (Inr h) (rpc ''eth_blockNumber'' [] rid) sc qs = Inl TypeError"
    using assms(2) by (simp add: eth_build_success_def eth_content_def effective_head_def has_key_def Let_def)
qed

theorem text_lag_unanswered_witness:
  "eth_build_success (Inr 100) (rpc ''eth_blockNumber'' [] (VInt 1)) [(''blocks_behind'', VStr ''5'')] [] = Inl TypeError"
proof -
  have "untouched [(''blocks_behind'', VStr ''5'')] ''eth_blockNumber''"
    by (rule untouched_no_responses) (simp add: get_or_def)
  moreover have "get_or [(''blocks_behind'', VStr ''5'')] ''blocks_behind'' (VInt 0) = VStr ''5''" by (simp add: get_or_def)
  ultimately show ?thesis using text_lag_unanswered by blast
qed

text \<open>
  \<open>getblockhash\<close> answers a parameter that is no height with an error reply, except an infinite
  number, whose OverflowError is not among the exceptions that it catches.
\<close>

theorem infinite_height_unanswered:
  assumes "untouched sc ''getblockhash''" and "get_or sc ''blocks_behind'' (VInt 0) = VInt b"
  shows "btc_build_success (Inr h) (rpc ''getblockhash'' [VFloat PosInf] rid) sc qs = Inl OverflowError
    \<and> (\<exists>e. btc_build_success (Inr h) (rpc ''getblockhash'' [VFloat NaN] rid) sc qs = Inr (VInt 200, error_envelope rid e))
    \<and> (\<exists>e. btc_build_success (Inr h) (rpc ''getblockhash'' [VNone] rid) sc qs = Inr (VInt 200, error_envelope rid e))"
proof -
  have stub: "error_stub BTC_ERROR_STUBS (VStr ''invalid_parameter'')
      = Inr (jobj [(''code'', VInt (- 8)), (''message'', VStr ''Invalid parameter'')])"
    by (simp add: error_stub_def BTC_ERROR_STUBS_def)
  have "btc_build_success (Inr h) (rpc ''getblockhash'' [p] rid) sc qs = (case py_int p of
      Inr n \<Rightarrow> Inr (get_or sc ''http_status'' (VInt 200), result_envelope rid (VStr (btc_block_hash n)))
    | Inl e \<Rightarrow> if e \<in> {TypeError, ValueError}
        then Inr (VInt 200, error_envelope rid (jobj [(''code'', VInt (- 8)), (''message'', VStr ''Invalid parameter'')]))
        else Inl e)" for p
    using with_entry_untouched [OF assms(1), of BTC_ERROR_STUBS "[p]" rid "btc_content (Inr h)
      (rpc ''getblockhash'' [p] rid) sc"] assms(2)
    by (auto simp: btc_build_success_def btc_content_def effective_head_def requested_height_def stub Let_def
        split: sum.split)
  then show ?thesis by (simp; blast)
qed

theorem infinite_height_unanswered_witness:
  "btc_build_success (Inr 850000) (rpc ''getblockhash'' [VFloat PosInf] (VInt 1)) (behind_scenario 0) [] = Inl OverflowError"
  using infinite_height_unanswered [OF behind_scenario(1,2)] by blast

end
