(* ===== verification/LavaStubs.thy ===== *)
theory LavaStubs
  imports Stubs
begin

text \<open>
  The reply tables of the Lava chain: \<open>stubs_rest.py\<close> and \<open>stubs_tendermintrpc.py\<close>, with the constants of
  \<open>constants.py\<close> that they use.
\<close>

section \<open>Constants\<close>

definition TM_NETWORK_ID :: string where
  "TM_NETWORK_ID = ''lava-sim-tm''"

definition TM_LATEST_HEIGHT :: int where
  "TM_LATEST_HEIGHT = 5000000"

definition TM_APP_HASH :: string where
  "TM_APP_HASH = (concat (replicate 32 ''AB''))"

definition TM_VALIDATOR_ADDR :: string where
  "TM_VALIDATOR_ADDR = (concat (replicate 40 ''C''))"

definition TM_PROPOSER_ADDR :: string where
  "TM_PROPOSER_ADDR = (concat (replicate 40 ''D''))"

definition TM_BLOCK_HASH :: string where
  "TM_BLOCK_HASH = upper (pad_zeros 64 (hex_text (nat TM_LATEST_HEIGHT)))"

definition REST_LATEST_HEIGHT :: int where
  "REST_LATEST_HEIGHT = 20000000"

section \<open>Cosmos REST\<close>

definition rest_block :: "int \<Rightarrow> pyval" where
  "rest_block height =
    jobj [(''block_id'', jobj [(''hash'',
      VStr ''ABABABABABABABABABABABABABABABABABABABABABABABABABABABABABABABAB''), (''part_set_header'',
      jobj [(''total'', VInt 1), (''hash'',
      VStr ''CDCDCDCDCDCDCDCDCDCDCDCDCDCDCDCDCDCDCDCDCDCDCDCDCDCDCDCDCDCDCDCD'')])]), (''block'', jobj [(''header'',
      jobj [(''version'', jobj [(''block'', VStr ''11''), (''app'', VStr ''0'')]), (''chain_id'',
      VStr ''lava-sim''), (''height'', VStr (int_text height)), (''time'', VStr ''2024-01-01T00:00:00Z''),
      (''last_block_id'', jobj [(''hash'', VStr []), (''part_set_header'', jobj [(''total'', VInt 0), (''hash'',
      VStr [])])]), (''last_commit_hash'', VStr []), (''data_hash'', VStr []), (''validators_hash'', VStr []),
      (''next_validators_hash'', VStr []), (''consensus_hash'', VStr []), (''app_hash'', VStr []),
      (''last_results_hash'', VStr []), (''evidence_hash'', VStr []), (''proposer_address'', VStr [])]), (''data'',
      jobj [(''txs'', VList [])]), (''evidence'', jobj [(''evidence'', VList [])]), (''last_commit'',
      jobj [(''height'', VStr (int_text (max (height - 1) 0))), (''round'', VInt 0), (''block_id'', jobj [(''hash'',
      VStr []), (''part_set_header'', jobj [(''total'', VInt 0), (''hash'', VStr [])])]), (''signatures'',
      VList [])])])]"

definition rest_node_info :: "pyval" where
  "rest_node_info =
    jobj [(''default_node_info'', jobj [(''protocol_version'', jobj [(''p2p'', VStr ''8''), (''block'',
      VStr ''11''), (''app'', VStr ''0'')]), (''default_node_id'', VStr ''sim-node-0000''), (''listen_addr'',
      VStr ''tcp://0.0.0.0:26656''), (''network'', VStr ''lava-sim''), (''version'', VStr ''0.38.0''),
      (''channels'', VStr ''40202122233038606100''), (''moniker'', VStr ''lava-sim-provider''), (''other'',
      jobj [(''tx_index'', VStr ''on''), (''rpc_address'', VStr ''tcp://0.0.0.0:26657'')])]),
      (''application_version'', jobj [(''name'', VStr ''lava''), (''app_name'', VStr ''lavad''), (''version'',
      VStr ''5.0.0''), (''git_commit'', VStr ''0000000000000000000000000000000000000000''), (''build_tags'',
      VStr []), (''go_version'', VStr ''1.21''), (''cosmos_sdk_version'', VStr ''0.50.7'')])]"

definition rest_balances :: "string \<Rightarrow> pyval" where
  "rest_balances address =
    jobj [(''balances'', VList [jobj [(''denom'', VStr ''ulava''), (''amount'', VStr ''1000000'')]]),
      (''pagination'', jobj [(''next_key'', VNone), (''total'', VStr ''1'')])]"

definition rest_validators :: "pyval" where
  "rest_validators =
    jobj [(''validators'', VList [jobj [(''operator_address'',
      VStr ''lavavaloper1simulator00000000000000000000000000''), (''consensus_pubkey'', jobj [(''@type'',
      VStr ''/cosmos.crypto.ed25519.PubKey''), (''key'', VStr ''AAAAAAAAAAAAAAAAAAAAAAAAAAAAAAAAAAAAAAAAAAA='')]),
      (''jailed'', VBool False), (''status'', VStr ''BOND_STATUS_BONDED''), (''tokens'', VStr ''1000000''),
      (''delegator_shares'', VStr ''1000000.000000000000000000''), (''description'', jobj [(''moniker'',
      VStr ''lava-sim-validator''), (''identity'', VStr []), (''website'', VStr []), (''security_contact'',
      VStr []), (''details'', VStr [])]), (''unbonding_height'', VStr ''0''), (''unbonding_time'',
      VStr ''1970-01-01T00:00:00Z''), (''commission'', jobj [(''commission_rates'', jobj [(''rate'',
      VStr ''0.100000000000000000''), (''max_rate'', VStr ''0.200000000000000000''), (''max_change_rate'',
      VStr ''0.010000000000000000'')]), (''update_time'', VStr ''1970-01-01T00:00:00Z'')]),
      (''min_self_delegation'', VStr ''1'')]]), (''pagination'', jobj [(''next_key'', VNone), (''total'',
      VStr ''1'')])]"

definition rest_simulate :: "pyval" where
  "rest_simulate =
    jobj [(''gas_info'', jobj [(''gas_wanted'', VStr ''200000''), (''gas_used'', VStr ''85432'')]), (''result'',
      jobj [(''data'', VStr []), (''log'', VStr []), (''events'', VList []), (''msg_responses'', VList [])])]"

definition rest_broadcast :: "pyval" where
  "rest_broadcast =
    jobj [(''tx_response'', jobj [(''height'', VStr ''0''), (''txhash'', VStr (concat (replicate 32 ''EF''))),
      (''codespace'', VStr []), (''code'', VInt 0), (''data'', VStr []), (''raw_log'', VStr ''[]''), (''logs'',
      VList []), (''info'', VStr []), (''gas_wanted'', VStr ''0''), (''gas_used'', VStr ''0''), (''tx'', VNone),
      (''timestamp'', VStr []), (''events'', VList [])])]"

definition REST_METHOD_DEFAULTS :: "((string \<times> string) \<times> pyval) list" where
  "REST_METHOD_DEFAULTS = [
    ((''GET'', ''/cosmos/base/tendermint/v1beta1/blocks/latest''), rest_block REST_LATEST_HEIGHT),
    ((''GET'', ''/cosmos/base/tendermint/v1beta1/blocks/{height}''), rest_block REST_LATEST_HEIGHT),
    ((''GET'', ''/cosmos/base/tendermint/v1beta1/node_info''), rest_node_info),
    ((''GET'', ''/cosmos/bank/v1beta1/balances/{address}''), rest_balances ''lava-sim-address''),
    ((''GET'', ''/cosmos/staking/v1beta1/validators''), rest_validators),
    ((''POST'', ''/cosmos/tx/v1beta1/simulate''), rest_simulate),
    ((''POST'', ''/cosmos/tx/v1beta1/txs''), rest_broadcast)]"

definition REST_ERROR_STUBS :: sdict where
  "REST_ERROR_STUBS = [
    (''not_found'', jobj [(''code'', VInt 5), (''message'', VStr ''rpc error: code = NotFound desc = not found''),
      (''details'', VList [])]), (''internal'', jobj [(''code'', VInt 13), (''message'',
      VStr ''rpc error: code = Internal desc = internal error''), (''details'', VList [])])]"

section \<open>Tendermint RPC\<close>

definition VALIDATOR_POOL :: "pyval list" where
  "VALIDATOR_POOL = map (\<lambda>i. jobj [(''address'', VStr (upper (pad_zeros 40 (hex_text i)))),
      (''pub_key'', jobj [(''type'', VStr ''tendermint/PubKeyEd25519''),
         (''value'', VStr (''pubkey_'' @ nat_text i @ ''_base64==''))]),
      (''voting_power'', VStr (int_text (1000000 - int i * 1000))),
      (''proposer_priority'', VStr (int_text (-1 * int i * 100)))]) [1..<13]"

definition tm_status :: "pyval" where
  "tm_status =
    jobj [(''node_info'', jobj [(''protocol_version'', jobj [(''p2p'', VStr ''8''), (''block'', VStr ''11''),
      (''app'', VStr ''0'')]), (''id'', VStr (concat (replicate 40 ''0''))), (''listen_addr'',
      VStr ''tcp://0.0.0.0:26656''), (''network'', VStr TM_NETWORK_ID), (''version'', VStr ''0.34.27''),
      (''channels'', VStr ''40202122233038606100''), (''moniker'', VStr ''sim-node''), (''other'',
      jobj [(''tx_index'', VStr ''on''), (''rpc_address'', VStr ''tcp://0.0.0.0:26657'')])]), (''sync_info'',
      jobj [(''latest_block_hash'', VStr TM_BLOCK_HASH), (''latest_app_hash'', VStr TM_APP_HASH),
      (''latest_block_height'', VStr (int_text TM_LATEST_HEIGHT)), (''latest_block_time'',
      VStr ''2026-05-16T00:00:00Z''), (''earliest_block_hash'', VStr TM_BLOCK_HASH), (''earliest_app_hash'',
      VStr TM_APP_HASH), (''earliest_block_height'', VStr ''1''), (''earliest_block_time'',
      VStr ''2024-01-01T00:00:00Z''), (''catching_up'', VBool False)]), (''validator_info'', jobj [(''address'',
      VStr TM_VALIDATOR_ADDR), (''pub_key'', jobj [(''type'', VStr ''tendermint/PubKeyEd25519''), (''value'',
      VStr ''sim_validator_pubkey_base64=='')]), (''voting_power'', VStr ''1000000'')])]"

definition tm_abci_info :: "pyval" where
  "tm_abci_info =
    jobj [(''response'', jobj [(''data'', VStr ''sim-app''), (''version'', VStr ''1.0.0''), (''app_version'',
      VStr ''1''), (''last_block_height'', VStr (int_text TM_LATEST_HEIGHT)), (''last_block_app_hash'',
      VStr TM_APP_HASH)])]"

definition tm_block :: "int \<Rightarrow> pyval" where
  "tm_block height =
    jobj [(''block_id'', jobj [(''hash'', VStr TM_BLOCK_HASH), (''parts'', jobj [(''total'', VInt 1), (''hash'',
      VStr TM_BLOCK_HASH)])]), (''block'', jobj [(''header'', jobj [(''version'', jobj [(''block'', VStr ''11''),
      (''app'', VStr ''0'')]), (''chain_id'', VStr TM_NETWORK_ID), (''height'', VStr (int_text height)), (''time'',
      VStr ''2026-05-16T00:00:00Z''), (''last_block_id'', jobj [(''hash'', VStr TM_BLOCK_HASH), (''parts'',
      jobj [(''total'', VInt 1), (''hash'', VStr TM_BLOCK_HASH)])]), (''last_commit_hash'', VStr TM_BLOCK_HASH),
      (''data_hash'', VStr TM_BLOCK_HASH), (''validators_hash'', VStr TM_BLOCK_HASH), (''next_validators_hash'',
      VStr TM_BLOCK_HASH), (''consensus_hash'', VStr TM_BLOCK_HASH), (''app_hash'', VStr TM_APP_HASH),
      (''last_results_hash'', VStr TM_BLOCK_HASH), (''evidence_hash'', VStr TM_BLOCK_HASH), (''proposer_address'',
      VStr TM_PROPOSER_ADDR)]), (''data'', jobj [(''txs'', VList [])]), (''evidence'', jobj [(''evidence'',
      VList [])]), (''last_commit'', jobj [(''height'', VStr (int_text (max (height - 1) 0))), (''round'', VInt 0),
      (''block_id'', jobj [(''hash'', VStr TM_BLOCK_HASH), (''parts'', jobj [(''total'', VInt 1), (''hash'',
      VStr TM_BLOCK_HASH)])]), (''signatures'', VList [])])])]"

text \<open>A page of the validators: the items from \<open>start\<close> to \<open>end\<close>, and the size of the whole pool.\<close>

definition tm_validators :: "int \<Rightarrow> int \<Rightarrow> int \<Rightarrow> pyval" where
  "tm_validators height page per_page =
     (let total = int (length VALIDATOR_POOL);
          start = max ((page - 1) * per_page) 0;
          stop = min (start + per_page) total;
          part = take (nat (stop - start)) (drop (nat start) VALIDATOR_POOL)
      in jobj [(''block_height'', VStr (int_text height)), (''validators'', VList part),
           (''count'', VStr (int_text (int (length part)))), (''total'', VStr (int_text total))])"

definition tm_abci_query :: "int \<Rightarrow> pyval" where
  "tm_abci_query height =
     jobj [(''response'', jobj [(''code'', VInt 0), (''log'', VStr []), (''info'', VStr []), (''index'', VStr ''0''),
       (''key'', VStr []), (''value'', VStr []), (''proofOps'', VNone), (''height'', VStr (int_text height)),
       (''codespace'', VStr [])])]"

definition tm_net_info :: pyval where
  "tm_net_info =
     jobj [(''listening'', VBool True), (''listeners'', VList [VStr ''Listener(@)'']), (''n_peers'', VStr ''3''),
       (''peers'', VList (map (\<lambda>i. jobj [
          (''node_info'', jobj [(''id'', VStr (''peer'' @ pad_zeros 39 (nat_text i))),
             (''listen_addr'', VStr (''tcp://10.0.0.'' @ nat_text i @ '':26656'')), (''network'', VStr TM_NETWORK_ID),
             (''moniker'', VStr (''sim-peer-'' @ nat_text i))]),
          (''is_outbound'', VBool True),
          (''connection_status'', jobj [(''Duration'', VStr (int_text 60000000000)), (''SendMonitor'', VDict []),
             (''RecvMonitor'', VDict []), (''Channels'', VList [])]),
          (''remote_ip'', VStr (''10.0.0.'' @ nat_text i))]) [1..<4]))]"

definition TENDERMINT_METHOD_DEFAULTS :: sdict where
  "TENDERMINT_METHOD_DEFAULTS = [(''status'', tm_status), (''health'', VDict []), (''abci_info'', tm_abci_info),
     (''block'', tm_block TM_LATEST_HEIGHT), (''validators'', tm_validators TM_LATEST_HEIGHT 1 30),
     (''abci_query'', tm_abci_query 0), (''net_info'', tm_net_info)]"

definition TENDERMINT_ERROR_STUBS :: sdict where
  "TENDERMINT_ERROR_STUBS = [
    (''method_not_found'', jobj [(''code'', VInt (- 32601)), (''message'', VStr ''Method not found'')]),
      (''internal'', jobj [(''code'', VInt (- 32603)), (''message'', VStr ''Internal error'')])]"

end
