(* ===== verification/LavaChain.thy ===== *)
theory LavaChain
  imports LavaStubs Chains
begin

text \<open>
  \<open>chains/lava.py\<close>: the replies of the Lava chain over REST, Tendermint RPC and gRPC. Each interface
  has a head of its own, so \<open>build_success\<close> takes the three reads.

  \<open>str\<close> of a float or of a container is a parameter: the source writes such a text only when a
  scenario holds a \<open>blocks_behind\<close> or a message of an unusual type.
\<close>

definition GRPC_LATEST_BLOCK :: int where
  "GRPC_LATEST_BLOCK = 25000000"

definition LAVA_SIM_CHAIN_ID :: string where
  "LAVA_SIM_CHAIN_ID = ''lava-sim''"

text \<open>\<open>max(v, 0)\<close> of a number.\<close>

definition at_least_0 :: "pyval \<Rightarrow> pyval" where
  "at_least_0 v = (if py_lt v (VInt 0) = Inr True then VInt 0 else v)"

text \<open>\<open>d[k1][k2]...[kn] = v\<close> on dicts that have the keys.\<close>

fun vset :: "string list \<Rightarrow> pyval \<Rightarrow> pyval \<Rightarrow> pyval" where
  "vset [] v d = v"
| "vset (k # ks) v d = (case vget d k of
     Some x \<Rightarrow> vput k (vset ks v x) d
   | None \<Rightarrow> if ks = [] then vput k v d else d)"

fun to_int :: "pyval \<Rightarrow> int \<Rightarrow> int" where
  "to_int (VInt i) d = i"
| "to_int (VStr s) d = (case int_of_text s of None \<Rightarrow> d | Some i \<Rightarrow> i)"
| "to_int _ d = d"

definition first_value :: "pyval \<Rightarrow> pyval" where
  "first_value v = (case seq_items v of Some xs \<Rightarrow> (case xs of [] \<Rightarrow> VNone | x # _ \<Rightarrow> x) | None \<Rightarrow> v)"

definition echo_page_key :: "(pyval \<Rightarrow> string) \<Rightarrow> pyval \<Rightarrow> pyval \<Rightarrow> pyval" where
  "echo_page_key other result query =
     (if \<not> is_dict result \<or> \<not> is_dict query \<or> \<not> is_dict (vget_or result ''pagination'' VNone) then result
      else
        let cursor = first_value (vget_or query ''pagination.key'' VNone)
        in vset [''pagination'', ''inbound_key'']
             (if cursor = VNone then VNone else VStr (py_str other cursor)) result)"

definition pick_status :: "pyval \<Rightarrow> string \<Rightarrow> string \<Rightarrow> int \<Rightarrow> pyval" where
  "pick_status cfg primary secondary d =
     (let v = vget_or cfg primary (vget_or cfg secondary (VInt d)) in if is_plain_int v then v else VInt d)"

text \<open>\<open>max(head - blocks_behind, 0)\<close>.\<close>

definition lava_tip :: "pyerr + int \<Rightarrow> sdict \<Rightarrow> pyerr + pyval" where
  "lava_tip cur sc = bind_r (effective_head cur sc) (\<lambda>eff. Inr (at_least_0 eff))"

text \<open>The entry of a request, for an entry that is a dict: its error, or its whole body.\<close>

definition lava_error :: "sdict \<Rightarrow> pyval \<Rightarrow> pyerr + pyval" where
  "lava_error table cfg = (if is_dict cfg then chosen_error table cfg else Inr VNone)"

section \<open>REST\<close>

definition block_heights :: "string \<Rightarrow> string option \<Rightarrow> pyval \<Rightarrow> pyval" where
  "block_heights height commit result =
     (let r = vset [''block'', ''header'', ''height''] (VStr height) result
      in (case commit of None \<Rightarrow> r | Some c \<Rightarrow> vset [''block'', ''last_commit'', ''height''] (VStr c) r))"

text \<open>The height of the commit of a block, from the text of the height of the block.\<close>

definition commit_height :: "string \<Rightarrow> string option" where
  "commit_height t = map_option (\<lambda>n. int_text (max (n - 1) 0)) (int_of_text t)"

definition rest_content :: "(pyval \<Rightarrow> string) \<Rightarrow> pyerr + int \<Rightarrow> pyval \<Rightarrow> sdict \<Rightarrow> pyval \<Rightarrow> pyerr + pyval" where
  "rest_content other cur req sc result =
     (let template = vget_or req ''template'' VNone;
          path_params = py_or (vget_or req ''path_params'' VNone) (VDict [])
      in if template = VStr ''/cosmos/base/tendermint/v1beta1/blocks/latest'' then
           bind_r (lava_tip cur sc) (\<lambda>tip.
             let t = py_str other tip in Inr (block_heights t (commit_height t) result))
         else if template = VStr ''/cosmos/base/tendermint/v1beta1/blocks/{height}'' then
           (case vget_or path_params ''height'' VNone of
              VNone \<Rightarrow> Inr result
            | h \<Rightarrow> let t = py_str other h in Inr (block_heights t (commit_height t) result))
         else if template = VStr ''/cosmos/bank/v1beta1/balances/{address}'' then
           (case vget_or path_params ''address'' VNone of
              VNone \<Rightarrow> Inr result | a \<Rightarrow> Inr (vput ''address'' a result))
         else Inr result)"

definition rest_not_found :: "pyval \<Rightarrow> pyval" where
  "rest_not_found req =
     jobj [(''code'', VStr ''not_found''), (''method'', vget_or req ''verb'' (VStr ''GET'')),
           (''path'', py_or (vget_or req ''path'' VNone) (vget_or req ''template'' VNone))]"

definition rest_stub :: "pyval \<Rightarrow> pyval \<Rightarrow> pyval option" where
  "rest_stub rverb template = (case (rverb, template) of
     (VStr v, VStr t) \<Rightarrow> map_of REST_METHOD_DEFAULTS (v, t) | _ \<Rightarrow> None)"

definition build_rest :: "(pyval \<Rightarrow> string) \<Rightarrow> pyerr + int \<Rightarrow> pyval \<Rightarrow> sdict \<Rightarrow> pyerr + pyval \<times> pyval" where
  "build_rest other cur req sc =
     (let rverb = py_or (vget_or req ''route_verb'' VNone) (vget_or req ''verb'' (VStr ''GET''));
          template = vget_or req ''template'' VNone;
          query = py_or (vget_or req ''query'' VNone) (VDict [])
      in bind_r (chain_responses sc) (\<lambda>kvs.
         bind_r (method_entry kvs (VTuple [rverb, template])) (\<lambda>cfg.
         bind_r (lava_error REST_ERROR_STUBS cfg) (\<lambda>err.
           if err \<noteq> VNone then Inr (pick_status cfg ''http_status'' ''status'' 500, jobj [(''error'', err)])
           else if is_dict cfg \<and> has_key cfg ''body'' then
             Inr (pick_status cfg ''http_status'' ''status'' 200, vget_or cfg ''body'' VNone)
           else (case rest_stub rverb template of
                   None \<Rightarrow> Inr (VInt 404, rest_not_found req)
                 | Some stub \<Rightarrow> bind_r (rest_content other cur req sc stub) (\<lambda>result.
                     Inr (get_or sc ''http_status'' (VInt 200), echo_page_key other result query)))))))"

section \<open>Tendermint RPC\<close>

definition tm_block_at :: "(pyval \<Rightarrow> string) \<Rightarrow> pyval \<Rightarrow> pyval" where
  "tm_block_at other h = (case h of
     VInt i \<Rightarrow> tm_block i
   | _ \<Rightarrow> block_heights (py_str other h) (Some (py_str other (at_least_0 (num_plus h (-1))))) (tm_block 0))"

definition tm_validators_at :: "(pyval \<Rightarrow> string) \<Rightarrow> pyval \<Rightarrow> int \<Rightarrow> int \<Rightarrow> pyval" where
  "tm_validators_at other h page per_page =
     vset [''block_height''] (VStr (py_str other h)) (tm_validators 0 page per_page)"

text \<open>A height that a caller asks for, or else the tip.\<close>

definition tm_result :: "(pyval \<Rightarrow> string) \<Rightarrow> pyerr + int \<Rightarrow> sdict \<Rightarrow> string \<Rightarrow> pyval \<Rightarrow> pyval \<Rightarrow> pyerr + pyval" where
  "tm_result other cur sc meth params stub =
     (let asked = vget_or params ''height'' VNone
      in if meth = ''block'' then
           (if asked \<noteq> VNone then Inr (tm_block (to_int asked 0))
            else bind_r (lava_tip cur sc) (\<lambda>tip. Inr (tm_block_at other tip)))
         else if meth = ''validators'' then
           bind_r (if asked \<noteq> VNone then bind_r cur (\<lambda>h. Inr (VInt (to_int asked h))) else lava_tip cur sc) (\<lambda>h.
             Inr (tm_validators_at other h (max (to_int (vget_or params ''page'' VNone) 1) 1)
                    (max (to_int (vget_or params ''per_page'' VNone) 30) 1)))
         else if meth = ''abci_query'' then
           Inr (tm_abci_query (if asked \<noteq> VNone then to_int asked 0 else 0))
         else
           bind_r (lava_tip cur sc) (\<lambda>tip.
             let h = VStr (py_str other tip);
                 r1 = (if has_key (vget_or stub ''sync_info'' VNone) ''latest_block_height''
                       then vset [''sync_info'', ''latest_block_height''] h stub else stub)
             in Inr (if has_key (vget_or r1 ''response'' VNone) ''last_block_height''
                     then vset [''response'', ''last_block_height''] h r1 else r1)))"

definition build_tm :: "(pyval \<Rightarrow> string) \<Rightarrow> pyerr + int \<Rightarrow> pyval \<Rightarrow> sdict \<Rightarrow> pyerr + pyval \<times> pyval" where
  "build_tm other cur req sc =
     (let rid = vget_or req ''id'' (VInt 1);
          meth = vget_or req ''method'' (VStr ''unknown'');
          params = py_or (vget_or req ''params'' VNone) (VDict []);
          st = get_or sc ''http_status'' (VInt 200)
      in bind_r (chain_responses sc) (\<lambda>kvs.
         bind_r (method_entry kvs meth) (\<lambda>cfg.
         bind_r (lava_error TENDERMINT_ERROR_STUBS cfg) (\<lambda>err.
           if err \<noteq> VNone then Inr (pick_status cfg ''status'' ''http_status'' 200, error_envelope rid err)
           else if is_dict cfg \<and> has_key cfg ''body'' then
             Inr (pick_status cfg ''status'' ''http_status'' 200, result_envelope rid (vget_or cfg ''body'' VNone))
           else (case meth of
                   VStr m \<Rightarrow>
                     (case map_of TENDERMINT_METHOD_DEFAULTS m of
                        None \<Rightarrow> Inr (st, error_envelope rid (code_and_message (VInt (-32601)) (VStr (''Unknown method: '' @ m))))
                      | Some stub \<Rightarrow> bind_r (tm_result other cur sc m params stub) (\<lambda>r. Inr (st, result_envelope rid r)))
                 | _ \<Rightarrow> Inr (st, error_envelope rid (code_and_message (VInt (-32601))
                                  (VStr (''Unknown method: '' @ py_str other meth)))))))))"

section \<open>gRPC\<close>

definition grpc_data :: "pyval \<Rightarrow> (string \<times> pyval) list \<Rightarrow> pyval \<times> pyval" where
  "grpc_data meth kvs = (VInt 200, jobj ((''grpc_method'', meth) # kvs))"

definition grpc_override :: "(pyval \<Rightarrow> string) \<Rightarrow> pyval \<Rightarrow> pyval \<Rightarrow> pyerr + (pyval \<times> pyval) option" where
  "grpc_override other meth cfg =
     (if \<not> is_dict cfg then Inr None
      else if has_key cfg ''error_stub'' then
        let name = vget_or cfg ''error_stub'' VNone
        in Inr (Some (grpc_data meth [(''error'', jobj [(''code'', if is_str name then name else VStr []),
             (''message'', VStr (py_str other (vget_or cfg ''message'' name)))])]))
      else if has_key cfg ''error'' then
        let err = vget_or cfg ''error'' VNone
        in if is_dict err then
             Inr (Some (grpc_data meth [(''error'', jobj [(''code'', vget_or err ''code'' (VStr [])),
               (''message'', vget_or err ''message'' (VStr ''override''))])]))
           else Inl AttributeError
      else if has_key cfg ''result'' then
        Inr (Some (grpc_data meth [(''result'', vget_or cfg ''result'' VNone)]))
      else Inr None)"

definition build_grpc :: "(pyval \<Rightarrow> string) \<Rightarrow> pyerr + int \<Rightarrow> pyval \<Rightarrow> sdict \<Rightarrow> pyerr + pyval \<times> pyval" where
  "build_grpc other cur req sc =
     (let meth = vget_or req ''method'' (VStr ''unknown'')
      in bind_r (chain_responses sc) (\<lambda>kvs.
         bind_r (method_entry kvs meth) (\<lambda>cfg.
         bind_r (grpc_override other meth cfg) (\<lambda>override. case override of
           Some reply \<Rightarrow> Inr reply
         | None \<Rightarrow>
             if meth = VStr ''AllBalances'' then
               Inr (grpc_data meth [(''balances'', vget_or (rest_balances ''lava-sim-address'') ''balances'' VNone)])
             else if meth = VStr ''GetLatestBlock'' then
               bind_r (lava_tip cur sc) (\<lambda>tip.
                 Inr (grpc_data meth [(''height'', tip), (''chain_id'', VStr LAVA_SIM_CHAIN_ID)]))
             else if meth = VStr ''GetNodeInfo'' then
               Inr (grpc_data meth [(''network'', VStr LAVA_SIM_CHAIN_ID), (''moniker'', VStr ''lava-sim-grpc-provider''),
                 (''version'', VStr ''sim-1.0''), (''app_name'', VStr ''lava-sim-app''), (''app_version'', VStr ''sim-1.0'')])
             else Inr (grpc_data meth [])))))"

section \<open>The chain\<close>

definition lava_build_success ::
  "(pyval \<Rightarrow> string) \<Rightarrow> (string \<Rightarrow> pyerr + int) \<Rightarrow> pyval \<Rightarrow> sdict \<Rightarrow> string \<Rightarrow> pyerr + pyval \<times> pyval" where
  "lava_build_success other cur req sc iface =
     (if iface = ''rest'' then build_rest other (cur ''rest'') req sc
      else if iface = ''tendermintrpc'' then build_tm other (cur ''tendermintrpc'') req sc
      else if iface = ''grpc'' then build_grpc other (cur ''grpc'') req sc
      else Inl ValueError)"

section \<open>Pages of validators\<close>

definition validator_page :: "int \<Rightarrow> int \<Rightarrow> pyval list" where
  "validator_page page per_page =
     (case vget (tm_validators 0 page per_page) ''validators'' of Some (VList xs) \<Rightarrow> xs | _ \<Rightarrow> [])"

lemma validator_page_slice:
  assumes "1 \<le> page" and "1 \<le> per_page"
  shows "validator_page page per_page
    = take (nat per_page) (drop ((nat page - 1) * nat per_page) VALIDATOR_POOL)"
proof -
  let ?N = "int (length VALIDATOR_POOL)" and ?s = "(page - 1) * per_page"
  have s: "0 \<le> ?s" "nat ?s = (nat page - 1) * nat per_page" using assms by (simp_all add: nat_mult_distrib nat_diff_distrib)
  have "take (nat (min (?s + per_page) ?N - ?s)) (drop (nat ?s) VALIDATOR_POOL) = take (nat per_page) (drop (nat ?s) VALIDATOR_POOL)"
  proof (cases "?s + per_page \<le> ?N")
    case False
    then have "length (drop (nat ?s) VALIDATOR_POOL) \<le> nat (?N - ?s)" "length (drop (nat ?s) VALIDATOR_POOL) \<le> nat per_page"
      using s(1) by auto
    then show ?thesis using False by (simp add: min_def)
  qed simp
  then show ?thesis using s by (simp add: validator_page_def tm_validators_def Let_def)
qed

lemma pages_join:
  "1 \<le> k \<Longrightarrow> concat (map (\<lambda>p. take k (drop (p * k) xs)) [0..<n]) = take (n * k) xs"
proof (induction n)
  case (Suc n)
  have "take (k + n * k) xs = take (n * k) xs @ take k (drop (n * k) xs)" by (metis add.commute take_add)
  with Suc show ?case by simp
qed simp

text \<open>
  The pages of \<open>validators\<close> tile the pool: for any page size, the pages from the first on, joined,
  are the beginning of the pool, with no gap and no repetition; no page is longer than its
  size, and \<open>total\<close> is the size of the pool whatever the page.
\<close>

theorem validator_pages_tile:
  assumes "1 \<le> per_page"
  shows "concat (map (\<lambda>p. validator_page (int p + 1) per_page) [0..<n]) = take (n * nat per_page) VALIDATOR_POOL
    \<and> int (length (validator_page page per_page)) \<le> max per_page 0
    \<and> vget (tm_validators h page per_page) ''total'' = Some (VStr ''12'')"
proof -
  have "map (\<lambda>p. validator_page (int p + 1) per_page) [0..<n]
      = map (\<lambda>p. take (nat per_page) (drop (p * nat per_page) VALIDATOR_POOL)) [0..<n]"
    using assms by (intro map_cong refl) (simp add: validator_page_slice nat_add_distrib)
  moreover have "int (length (validator_page page per_page)) \<le> max per_page 0"
    by (auto simp: validator_page_def tm_validators_def Let_def min_def)
  moreover have "int_text (int (length VALIDATOR_POOL)) = ''12''"
    by (simp add: VALIDATOR_POOL_def int_text_def nat_text.simps digit_char_def char_of_eq_iff take_bit_eq_mod)
  moreover have "concat (map (\<lambda>p. take (nat per_page) (drop (p * nat per_page) VALIDATOR_POOL)) [0..<n])
      = take (n * nat per_page) VALIDATOR_POOL" using assms by (intro pages_join) simp
  ultimately show ?thesis by (simp only: tm_validators_def Let_def vget_jobj) simp
qed

theorem validator_pages_tile_witness:
  "validator_page 1 5 @ validator_page 2 5 @ validator_page 3 5 = VALIDATOR_POOL"
  using validator_pages_tile [of 5 3 1 0] by (simp add: upt_rec VALIDATOR_POOL_def)

section \<open>Heights over REST and Tendermint RPC\<close>

text \<open>A block that a stub gives has the two heights that are stamped.\<close>

lemma vget_vset [simp]:
  "is_dict d \<Longrightarrow> vget d k \<noteq> None \<Longrightarrow> vget (vset (k # ks) v d) k = Some (vset ks v (the (vget d k)))"
  by (auto simp: vget_vput)

lemma vget_vset_other: "k \<noteq> k' \<Longrightarrow> vget (vset (k # ks) v d) k' = vget d k'"
  by (cases d) (auto simp: pd_lookup_put_other split: option.split)

lemma is_dict_vset [simp]: "is_dict (vset (k # ks) v d) = is_dict d"
  by (auto split: option.split)

declare vset.simps(2) [simp del]

fun height_at :: "string list \<Rightarrow> pyval \<Rightarrow> pyval option" where
  "height_at [] d = Some d"
| "height_at (k # ks) d = Option.bind (vget d k) (height_at ks)"

lemma height_at_vset:
  "height_at ks d \<noteq> None \<Longrightarrow> height_at ks (vset ks v d) = Some v"
proof (induction ks arbitrary: d)
  case (Cons k ks)
  then obtain x where x: "vget d k = Some x" "height_at ks x \<noteq> None" by (auto simp: bind_eq_Some_conv split: Option.bind_splits)
  then have "is_dict d" by (cases d) auto
  with x Cons.IH show ?case by simp
qed simp

lemma lava_tip_int:
  "get_or sc ''blocks_behind'' (VInt 0) = VInt b \<Longrightarrow> lava_tip (Inr h) sc = Inr (VInt (max (h - b) 0))"
  by (auto simp: lava_tip_def effective_head_def at_least_0_def py_lt_def pf_lt_def max_def)

definition rest_request :: "string \<Rightarrow> pyval" where
  "rest_request template = jobj [(''verb'', VStr ''GET''), (''route_verb'', VStr ''GET''), (''template'', VStr template),
     (''path'', VStr template), (''path_params'', VDict []), (''query'', VDict []), (''body'', VNone), (''request_id'', VInt 1)]"

definition tm_request :: "string \<Rightarrow> pyval" where
  "tm_request meth = jobj [(''method'', VStr meth), (''params'', VDict []), (''id'', VInt 1)]"

definition no_overrides :: "sdict \<Rightarrow> bool" where
  "no_overrides sc \<longleftrightarrow> get_or sc ''responses'' VNone \<in> {VNone, VDict []}"

lemma no_overrides_entry:
  assumes "no_overrides sc" and "hashable meth"
  shows "\<exists>kvs. chain_responses sc = Inr kvs \<and> method_entry kvs meth = Inr (VDict [])"
  using assms by (auto simp: no_overrides_def chain_responses_def py_or_def method_entry_def pd_get_def default_entry_def)

lemma lava_error_empty [simp]: "lava_error table (VDict []) = Inr VNone"
  by (simp add: lava_error_def chosen_error_def)

lemma rest_latest_reply:
  assumes "no_overrides sc" and "get_or sc ''blocks_behind'' (VInt 0) = VInt b"
  shows "build_rest other (Inr h) (rest_request ''/cosmos/base/tendermint/v1beta1/blocks/latest'') sc
    = Inr (get_or sc ''http_status'' (VInt 200),
        block_heights (int_text (max (h - b) 0)) (commit_height (int_text (max (h - b) 0))) (rest_block REST_LATEST_HEIGHT))"
proof -
  obtain kvs where kvs: "chain_responses sc = Inr kvs"
    "method_entry kvs (VTuple [VStr ''GET'', VStr ''/cosmos/base/tendermint/v1beta1/blocks/latest'']) = Inr (VDict [])"
    using no_overrides_entry [OF assms(1), of "VTuple [VStr ''GET'', VStr ''/cosmos/base/tendermint/v1beta1/blocks/latest'']"]
    by auto
  let ?t = "int_text (max (h - b) 0)"
  have "vget (block_heights ?t c (rest_block n)) ''pagination'' = None" for c n
    by (auto simp: block_heights_def Let_def vget_vset_other rest_block_def split: option.split)
  then have page: "echo_page_key other (block_heights ?t c (rest_block n)) q = block_heights ?t c (rest_block n)" for c n q
    by (simp add: echo_page_key_def vget_or_def)
  show ?thesis using kvs lava_tip_int [OF assms(2)]
    by (simp add: build_rest_def rest_request_def vget_or_def py_or_def has_key_def rest_stub_def REST_METHOD_DEFAULTS_def
        rest_content_def Let_def page)
qed

lemma tm_status_reply:
  assumes "no_overrides sc" and "get_or sc ''blocks_behind'' (VInt 0) = VInt b"
  shows "\<exists>r. build_tm other (Inr h) (tm_request ''status'') sc
      = Inr (get_or sc ''http_status'' (VInt 200), result_envelope (VInt 1) r)
    \<and> height_at [''sync_info'', ''latest_block_height''] r = Some (VStr (int_text (max (h - b) 0)))"
proof -
  obtain kvs where kvs: "chain_responses sc = Inr kvs" "method_entry kvs (VStr ''status'') = Inr (VDict [])"
    using no_overrides_entry [OF assms(1), of "VStr ''status''"] by auto
  let ?r = "vset [''sync_info'', ''latest_block_height''] (VStr (int_text (max (h - b) 0))) tm_status"
  have old: "height_at [''sync_info'', ''latest_block_height''] tm_status \<noteq> None" by (simp add: tm_status_def)
  have key: "has_key (vget_or tm_status ''sync_info'' VNone) ''latest_block_height''"
    by (simp add: tm_status_def has_key_def vget_or_def)
  have none: "vget_or ?r ''response'' VNone = VNone"
    by (simp add: vget_or_def vget_vset_other tm_status_def)
  have "build_tm other (Inr h) (tm_request ''status'') sc
      = Inr (get_or sc ''http_status'' (VInt 200), result_envelope (VInt 1) ?r)"
    using kvs lava_tip_int [OF assms(2), of h] none key
    by (simp add: build_tm_def tm_request_def vget_or_def has_key_def TENDERMINT_METHOD_DEFAULTS_def tm_result_def Let_def)
  then show ?thesis using height_at_vset [OF old] by blast
qed

text \<open>
  Each interface of Lava reports the tip of its own head. With no override, \<open>blocks/latest\<close> over
  REST, \<open>status\<close> over Tendermint RPC and \<open>GetLatestBlock\<close> over gRPC give the height that the head
  of that interface has, minus \<open>blocks_behind\<close> and never below zero, as a text, a text and a
  number; the commit that a REST block carries is of the height before it.
\<close>

theorem lava_reports_tip:
  assumes "no_overrides sc" and "get_or sc ''blocks_behind'' (VInt 0) = VInt b"
    and "cur = (\<lambda>iface. Inr (heads iface))"
    and "length (nat_text (nat (max (heads ''rest'' - b) 0))) \<le> max_int_digits"
  shows "(\<exists>r. lava_build_success other cur (rest_request ''/cosmos/base/tendermint/v1beta1/blocks/latest'') sc ''rest''
        = Inr (get_or sc ''http_status'' (VInt 200), r)
      \<and> height_at [''block'', ''header'', ''height''] r = Some (VStr (int_text (max (heads ''rest'' - b) 0)))
      \<and> height_at [''block'', ''last_commit'', ''height''] r = Some (VStr (int_text (max (max (heads ''rest'' - b) 0 - 1) 0))))
    \<and> (\<exists>r. lava_build_success other cur (tm_request ''status'') sc ''tendermintrpc''
        = Inr (get_or sc ''http_status'' (VInt 200), result_envelope (VInt 1) r)
      \<and> height_at [''sync_info'', ''latest_block_height''] r = Some (VStr (int_text (max (heads ''tendermintrpc'' - b) 0))))
    \<and> (\<exists>r. lava_build_success other cur (tm_request ''GetLatestBlock'') sc ''grpc'' = Inr (VInt 200, r)
      \<and> vget r ''height'' = Some (VInt (max (heads ''grpc'' - b) 0)))"
proof (intro conjI)
  let ?n = "max (heads ''rest'' - b) 0"
  let ?header = "[''block'', ''header'', ''height'']" and ?commit = "[''block'', ''last_commit'', ''height'']"
  have "int_of_text (int_text ?n) = Some ?n" using assms(4) by (intro int_of_int_text) simp
  then have c: "commit_height (int_text ?n) = Some (int_text (max (?n - 1) 0))" by (simp add: commit_height_def)
  have "height_at ?header (block_heights t (Some c) (rest_block i)) = Some (VStr t)
      \<and> height_at ?commit (block_heights t (Some c) (rest_block i)) = Some (VStr c)" for t c i
    by (simp add: block_heights_def Let_def rest_block_def vget_vput vset.simps)
  then show "\<exists>r. lava_build_success other cur (rest_request ''/cosmos/base/tendermint/v1beta1/blocks/latest'') sc ''rest''
        = Inr (get_or sc ''http_status'' (VInt 200), r)
      \<and> height_at ?header r = Some (VStr (int_text ?n)) \<and> height_at ?commit r = Some (VStr (int_text (max (?n - 1) 0)))"
    using rest_latest_reply [OF assms(1,2), of other "heads ''rest''"] c
    by (simp add: lava_build_success_def assms(3) del: height_at.simps)
  show "\<exists>r. lava_build_success other cur (tm_request ''status'') sc ''tendermintrpc''
        = Inr (get_or sc ''http_status'' (VInt 200), result_envelope (VInt 1) r)
      \<and> height_at [''sync_info'', ''latest_block_height''] r = Some (VStr (int_text (max (heads ''tendermintrpc'' - b) 0)))"
    using tm_status_reply [OF assms(1,2), of other "heads ''tendermintrpc''"]
    by (simp add: lava_build_success_def assms(3) del: height_at.simps)
  obtain kvs where "chain_responses sc = Inr kvs" "method_entry kvs (VStr ''GetLatestBlock'') = Inr (VDict [])"
    using no_overrides_entry [OF assms(1), of "VStr ''GetLatestBlock''"] by auto
  then show "\<exists>r. lava_build_success other cur (tm_request ''GetLatestBlock'') sc ''grpc'' = Inr (VInt 200, r)
      \<and> vget r ''height'' = Some (VInt (max (heads ''grpc'' - b) 0))"
    using lava_tip_int [OF assms(2), of "heads ''grpc''"]
    by (simp add: lava_build_success_def assms(3) build_grpc_def tm_request_def vget_or_def grpc_override_def has_key_def
        grpc_data_def Let_def)
qed

theorem lava_reports_tip_witness:
  "\<exists>r. lava_build_success (\<lambda>_. []) (\<lambda>iface. Inr 7) (tm_request ''GetLatestBlock'') [(''blocks_behind'', VInt 9)] ''grpc''
     = Inr (VInt 200, r) \<and> vget r ''height'' = Some (VInt 0)"
proof -
  have "no_overrides [(''blocks_behind'', VInt 9)]" by (simp add: no_overrides_def get_or_def)
  moreover have "get_or [(''blocks_behind'', VInt 9)] ''blocks_behind'' (VInt 0) = VInt 9" by (simp add: get_or_def)
  moreover have "length (nat_text (nat (max (7 - 9 :: int) 0))) \<le> max_int_digits"
    by (simp add: nat_text.simps max_int_digits_def)
  ultimately show ?thesis
    using lava_reports_tip [where heads = "\<lambda>_. 7" and other = "\<lambda>_. []" and b = 9 and sc = "[(''blocks_behind'', VInt 9)]"]
    by simp
qed

end
