(* ===== verification/ControlRules.thy ===== *)
theory ControlRules
  imports FaultPolicy
begin

text \<open>
  The rules of \<open>control_api.py\<close> that decide whether \<open>POST /scenario\<close> accepts a block: the module
  functions in front of and behind the class \<open>ControlApi\<close>.

  A rule refuses with a reason, which stands for the text of the error, or raises. A value comes
  from a JSON body, so it can have any type, and a value with no hash raises where the source
  looks it up in a set.
\<close>

section \<open>Reasons\<close>

datatype refusal =
    BodyNotObject | MissingProviders | BlockNotObject | KeyNotPoolPid | NoSuchProvider | BadResponses
  | BadEnum string | BadNumber string | UnknownField string
  | PortsNotServed | PauseNotServed | ChosenNotSent string | InvalidJsonNotServed | InvalidProtoNotServed
  | GraphqlOnly string | CannedBodyNotServed
  | ClosesNothing | NoListener "int list" | NeedsARequest string
  | ConfigRefused | NotSettled "(int \<times> bool) list" sdict
  | PoolNotText | NoSuchPool | ChainNotText | NoSuchChain | NoAdvanceableHead | WhichHead | NoSuchHead
  | MissingSubscription | NoSuchSubscription | SubscriptionFull | BadJson | UnknownPath | NoCacheNamed | UnknownCacheAction
  | NoCachePort | ProbeServed | ProbeUnreachable | ProbeNotRecorded
  | BadBodyLen | BadMax | NoSuchCache | EntryNotObject | BadSeenBlock | StagingRefused

text \<open>What ends a call early: an answer with a status and a reason, or an exception that reaches the socket.\<close>

datatype stop = Refuse int refusal | Raise pyerr

text \<open>A \<open>ValueError\<close> that the caller turns into a 400; any other exception goes through.\<close>

definition caught :: "refusal \<Rightarrow> pyerr \<Rightarrow> stop" where
  "caught why e = (if e = ValueError then Refuse 400 why else Raise e)"

section \<open>Values of fields\<close>

definition MODES :: "string list" where
  "MODES = [''success'', ''error'', ''rate_limit'', ''down'', ''hang'', ''drop_connection'', ''port_closed'']"

definition PER_METHOD_MODES :: "string list" where
  "PER_METHOD_MODES = filter (\<lambda>m. m \<notin> {''error'', ''port_closed''}) MODES"

definition CORRUPTION_MODES :: "string list" where
  "CORRUPTION_MODES = [''truncated'', ''missing_field'', ''invalid_json'', ''empty_response'', ''wrong_type'',
     ''null_body'', ''invalid_proto'']"

definition DROP_AT :: "string list" where
  "DROP_AT = [''before_headers'', ''after_headers'', ''mid_body'']"

definition PAUSE_AT :: "string list" where
  "PAUSE_AT = filter (\<lambda>d. d \<noteq> ''before_headers'') DROP_AT"

definition LOGS_LAG_MODES :: "string list" where
  "LOGS_LAG_MODES = [''empty'', ''partial'']"

definition ENUMS :: "(string, string list) dict" where
  "ENUMS = [(''mode'', MODES), (''corruption_mode'', CORRUPTION_MODES), (''drop_at'', DROP_AT),
     (''pause_at'', PAUSE_AT), (''then_mode'', MODES), (''logs_lag_mode'', LOGS_LAG_MODES),
     (''unknown_method_mode'', [''null'', ''error''])]"

definition bad_enum :: "string \<Rightarrow> pyval \<Rightarrow> pyerr + refusal option" where
  "bad_enum f v =
     (if f = ''pause_at'' \<and> v = VStr ''before_headers'' then Inr (Some (BadEnum f))
      else if f = ''then_mode'' \<and> v = VStr ''port_closed'' then Inr (Some (BadEnum f))
      else (case map_of ENUMS f of
              None \<Rightarrow> Inr None
            | Some allowed \<Rightarrow>
                if v = VNone then Inr None
                else if \<not> hashable v then Inl TypeError
                else if in_texts v allowed then Inr None else Inr (Some (BadEnum f))))"

definition is_number :: "pyval \<Rightarrow> bool" where
  "is_number v \<longleftrightarrow> is_int v \<or> is_float v"

definition bad_number :: "string \<Rightarrow> pyval \<Rightarrow> refusal option" where
  "bad_number f v =
     (if f = ''error_probability'' \<and>
         (is_bool v \<or> \<not> is_number v \<or> \<not> (py_le (VFloat (Fin 0)) v = Inr True \<and> py_le v (VFloat (Fin 1)) = Inr True))
      then Some (BadNumber f)
      else if f = ''ports'' then None
      else if f \<in> {''latency_ms'', ''pause_ms'', ''fail_first_n'', ''blocks''} \<and>
         (is_bool v \<or> \<not> is_int v \<or> py_lt v (VInt 0) = Inr True)
      then Some (BadNumber f)
      else if f = ''per_second'' \<and> (is_bool v \<or> \<not> is_number v \<or> py_lt v (VInt 0) = Inr True)
      then Some (BadNumber f)
      else None)"

section \<open>Overrides per method\<close>

definition unknown_per_method_mode :: "pyval \<Rightarrow> bool" where
  "unknown_per_method_mode cfg \<longleftrightarrow>
     (let mode = vget_or cfg ''mode'' VNone in mode \<noteq> VNone \<and> \<not> in_texts mode PER_METHOD_MODES)"

text \<open>The three refusals of a mode that both shapes of \<open>responses\<close> share.\<close>

definition mode_refused :: "pyval \<Rightarrow> pyerr option" where
  "mode_refused cfg =
     (if \<not> is_dict cfg then None
      else if vget_or cfg ''mode'' VNone = VStr ''error'' then Some ValueError
      else if vget_or cfg ''mode'' VNone = VStr ''port_closed'' then Some ValueError
      else if unknown_per_method_mode cfg then Some ValueError
      else None)"

fun canned_status_ok :: "pyval \<Rightarrow> bool" where
  "canned_status_ok (VInt i) = (200 \<le> i \<and> i \<le> 299 \<or> 400 \<le> i \<and> i \<le> 599)"
| "canned_status_ok _ = False"

definition canned_body_refused :: "pyval \<Rightarrow> pyval \<Rightarrow> pyerr option" where
  "canned_body_refused m cfg =
     (case vget cfg ''body'' of
        None \<Rightarrow> None
      | Some body \<Rightarrow>
          if \<not> is_str m then None
          else if \<not> is_dict body then Some ValueError
          else if has_key cfg ''mode'' then Some ValueError
          else first_refusal
            (\<lambda>k. if canned_status_ok (vget_or cfg k (VInt 200)) then None else Some ValueError)
            [''status'', ''http_status''])"

fun pair_of :: "pyval \<Rightarrow> (pyval \<times> pyval) option" where
  "pair_of v = (case seq_items v of Some [a, b] \<Rightarrow> Some (a, b) | _ \<Rightarrow> None)"

text \<open>The pairs of a REST override become a dict with tuple keys.\<close>

fun rest_responses :: "(pyval \<times> pyval) list \<Rightarrow> pyval list \<Rightarrow> pyerr + (pyval \<times> pyval) list" where
  "rest_responses out [] = Inr out"
| "rest_responses out (pair # rest) = (case pair_of pair of
     None \<Rightarrow> Inl ValueError
   | Some (key, cfg) \<Rightarrow> (case pair_of key of
       None \<Rightarrow> Inl ValueError
     | Some (verb, template) \<Rightarrow> (case mode_refused cfg of
         Some e \<Rightarrow> Inl e
       | None \<Rightarrow>
           if hashable verb \<and> hashable template
           then rest_responses (pd_put (VTuple [verb, template]) cfg out) rest
           else Inl TypeError)))"

definition entry_refused :: "pyval \<times> pyval \<Rightarrow> pyerr option" where
  "entry_refused kv = (case kv of (m, cfg) \<Rightarrow>
     if \<not> is_dict cfg then None
     else first_some [mode_refused cfg, canned_body_refused m cfg])"

definition normalise_responses :: "pyval \<Rightarrow> pyerr + pyval" where
  "normalise_responses responses = (case responses of
     VList pairs \<Rightarrow> bind_r (rest_responses [] pairs) (\<lambda>kvs. Inr (VDict kvs))
   | VDict kvs \<Rightarrow> (case first_refusal entry_refused kvs of Some e \<Rightarrow> Inl e | None \<Rightarrow> Inr responses)
   | _ \<Rightarrow> Inl ValueError)"

section \<open>Rules that read the endpoints of a provider\<close>

text \<open>\<open>stored\<close> is the snapshot of the scenario, and \<open>upd\<close> the fields of the request.\<close>

definition ports_not_served :: "endpoint list \<Rightarrow> sdict \<Rightarrow> refusal option" where
  "ports_not_served eps upd =
     (let ports = get_or upd ''ports'' VNone
      in if \<not> truthy ports then None
         else (case seq_items ports of
                 None \<Rightarrow> None
               | Some ps \<Rightarrow>
                   if filter (\<lambda>p. \<not> py_mem p (map (\<lambda>ep. VInt (port ep)) eps)) ps \<noteq> []
                   then Some PortsNotServed else None))"

definition pause_not_served :: "endpoint list \<Rightarrow> sdict \<Rightarrow> sdict \<Rightarrow> pyerr + refusal option" where
  "pause_not_served eps stored upd =
     (let pause_at = get_or upd ''pause_at'' (get_or stored ''pause_at'' VNone);
          ports = get_or upd ''ports'' (get_or stored ''ports'' VNone)
      in if \<not> truthy pause_at \<or> \<not> truthy ports then Inr None
         else (case seq_items ports of
                 None \<Rightarrow> Inr None
               | Some ps \<Rightarrow>
                   if \<not> list_all hashable ps then Inl TypeError
                   else if list_ex (\<lambda>ep. transport ep = ''http'' \<and> py_mem (VInt (port ep)) ps) eps then Inr None
                   else Inr (Some PauseNotServed)))"

definition filter_config_refuses :: "sdict \<Rightarrow> bool" where
  "filter_config_refuses eff \<longleftrightarrow>
     list_ex (\<lambda>f. get_or eff f VNone \<noteq> VNone \<and> seq_items (get_or eff f VNone) = None) [''transports'', ''ports'']
     \<or> (get_or eff ''ports'' VNone \<noteq> VNone \<and> \<not> truthy (get_or eff ''ports'' VNone))"

definition WRITERS_OF_CHOSEN :: "(string, string list) dict" where
  "WRITERS_OF_CHOSEN = [(''reply_headers'', TRANSPORTS), (''reply_trailers'', [''http2''])]"

definition chosen_not_sent :: "endpoint list \<Rightarrow> sdict \<Rightarrow> sdict \<Rightarrow> string \<Rightarrow> pyerr + refusal option" where
  "chosen_not_sent eps stored upd f =
     (let eff = dict_merge stored upd;
          chosen = get_or eff f VNone;
          writers = get_or WRITERS_OF_CHOSEN f []
      in if \<not> truthy chosen \<or> \<not> is_dict chosen then Inr None
         else if filter_config_refuses eff then Inr None
         else bind_r (any_r (\<lambda>ep. if transport ep \<in> set writers then targets eff ep else Inr False) eps)
           (\<lambda>some. Inr (if some then None else Some (ChosenNotSent f))))"

definition invalid_json_not_served :: "endpoint list \<Rightarrow> sdict \<Rightarrow> refusal option" where
  "invalid_json_not_served eps upd =
     (if get_or upd ''corruption_mode'' VNone \<noteq> VStr ''invalid_json'' then None
      else if eps \<noteq> [] \<and> list_all (\<lambda>ep. interface ep = ''grpc'') eps then Some InvalidJsonNotServed
      else None)"

definition invalid_proto_not_served :: "endpoint list \<Rightarrow> sdict \<Rightarrow> refusal option" where
  "invalid_proto_not_served eps upd =
     (if get_or upd ''corruption_mode'' VNone \<noteq> VStr ''invalid_proto'' then None
      else if list_ex (\<lambda>ep. interface ep = ''grpc'') eps then None
      else Some InvalidProtoNotServed)"

definition SERVES_A_CANNED_BODY_BY_METHOD_NAME :: "string list" where
  "SERVES_A_CANNED_BODY_BY_METHOD_NAME = [''jsonrpc'', ''graphql'', ''tendermintrpc'']"

definition canned_body_not_served :: "endpoint list \<Rightarrow> sdict \<Rightarrow> refusal option" where
  "canned_body_not_served eps upd = (case get_or upd ''responses'' VNone of
     VDict kvs \<Rightarrow>
       if \<not> list_ex (\<lambda>ep. interface ep = ''grpc'') eps
          \<or> list_ex (\<lambda>ep. interface ep \<in> set SERVES_A_CANNED_BODY_BY_METHOD_NAME) eps then None
       else if list_ex (\<lambda>(m, cfg). is_str m \<and> is_dict cfg \<and> has_key cfg ''body'') kvs
       then Some CannedBodyNotServed
       else None
   | _ \<Rightarrow> None)"

definition GRAPHQL_ONLY_FIELDS :: sdict where
  "GRAPHQL_ONLY_FIELDS = [(''rate_limit_style'', VStr ''status''), (''error_body'', VNone), (''unreadable_reply'', VNone)]"

definition graphql_only :: "endpoint list \<Rightarrow> sdict \<Rightarrow> refusal option" where
  "graphql_only eps upd =
     (if list_ex (\<lambda>ep. interface ep = ''graphql'') eps then None
      else first_refusal (\<lambda>(f, unset). case map_of upd f of
             Some v \<Rightarrow> if py_eq v unset then None else Some (GraphqlOnly f)
           | None \<Rightarrow> None) GRAPHQL_ONLY_FIELDS)"

definition NEEDS_A_REQUEST :: sdict where
  "NEEDS_A_REQUEST = [(''fail_first_n'', VInt 0), (''error_probability'', VFloat (Fin 0)), (''latency_ms'', VInt 0),
     (''corruption_mode'', VNone), (''pause_at'', VNone)]"

definition port_closed_impossible ::
  "endpoint list \<Rightarrow> sdict \<Rightarrow> int list \<Rightarrow> sdict \<Rightarrow> pyerr + (int \<times> refusal) option" where
  "port_closed_impossible eps stored gated upd =
     (let eff = dict_merge stored upd
      in if get_or eff ''mode'' VNone \<noteq> VStr ''port_closed'' then Inr None
         else if filter_config_refuses eff then Inr None
         else bind_r (filter_r (targets eff) eps) (\<lambda>targeted.
           let no_listener = sort (map port (filter (\<lambda>ep. port ep \<notin> set gated) targeted))
           in Inr (if targeted = [] then Some (400, ClosesNothing)
                   else if no_listener \<noteq> [] then Some (409, NoListener no_listener)
                   else first_refusal (\<lambda>(f, unset).
                     if py_eq (get_or eff f unset) unset then None else Some (400, NeedsARequest f))
                     NEEDS_A_REQUEST)))"

section \<open>One block\<close>

text \<open>The loop over the fields of a block: what goes to the scenario and what to the quirks.\<close>

fun stage_fields ::
  "string list \<Rightarrow> string list \<Rightarrow> sdict \<Rightarrow> sdict \<Rightarrow> sdict \<Rightarrow> stop + sdict \<times> sdict" where
  "stage_fields sf qf su qu [] = Inr (su, qu)"
| "stage_fields sf qf su qu ((f, v) # rest) =
     (if f = ''responses'' then
        (case normalise_responses v of
           Inl e \<Rightarrow> Inl (caught BadResponses e)
         | Inr r \<Rightarrow> stage_fields sf qf (AList.update f r su) qu rest)
      else if f \<in> set sf then
        (case bad_enum f v of
           Inl e \<Rightarrow> Inl (Raise e)
         | Inr (Some why) \<Rightarrow> Inl (Refuse 400 why)
         | Inr None \<Rightarrow> (case bad_number f v of
             Some why \<Rightarrow> Inl (Refuse 400 why)
           | None \<Rightarrow> stage_fields sf qf (AList.update f v su) qu rest))
      else if f \<in> set qf then
        (case bad_enum f v of
           Inl e \<Rightarrow> Inl (Raise e)
         | Inr (Some why) \<Rightarrow> Inl (Refuse 400 why)
         | Inr None \<Rightarrow> stage_fields sf qf su (AList.update f v qu) rest)
      else Inl (Refuse 400 (UnknownField f)))"

text \<open>\<open>a or b or ...\<close> over rules that can raise.\<close>

fun first_rule :: "(pyerr + refusal option) list \<Rightarrow> stop option" where
  "first_rule [] = None"
| "first_rule (Inl e # rs) = Some (Raise e)"
| "first_rule (Inr (Some why) # rs) = Some (Refuse 400 why)"
| "first_rule (Inr None # rs) = first_rule rs"

definition endpoint_rules :: "endpoint list \<Rightarrow> sdict \<Rightarrow> sdict \<Rightarrow> stop option" where
  "endpoint_rules eps stored su = first_rule
     [Inr (ports_not_served eps su),
      pause_not_served eps stored su,
      chosen_not_sent eps stored su ''reply_headers'',
      chosen_not_sent eps stored su ''reply_trailers'',
      Inr (invalid_json_not_served eps su),
      Inr (invalid_proto_not_served eps su),
      Inr (graphql_only eps su),
      Inr (canned_body_not_served eps su)]"

definition config_rules :: "config_class \<Rightarrow> sdict \<Rightarrow> sdict \<Rightarrow> stop option" where
  "config_rules qc su qu = map_option (caught ConfigRefused)
     (first_some [cfg_check ScenarioConfig su, cfg_check qc qu])"

definition check_block :: "int list \<Rightarrow> provider \<Rightarrow> sdict \<Rightarrow> stop + sdict \<times> sdict" where
  "check_block gated p block =
     (let stored = cfg_snapshot ScenarioConfig (scenario p)
      in bind_r (stage_fields (field_names ScenarioConfig) (field_names (quirks_class p)) [] [] block) (\<lambda>(su, qu).
        case endpoint_rules (endpoints p) stored su of
          Some st \<Rightarrow> Inl st
        | None \<Rightarrow> (case port_closed_impossible (endpoints p) stored gated su of
            Inl e \<Rightarrow> Inl (Raise e)
          | Inr (Some (status, why)) \<Rightarrow> Inl (Refuse status why)
          | Inr None \<Rightarrow> (case config_rules (quirks_class p) su qu of
              Some st \<Rightarrow> Inl st
            | None \<Rightarrow> Inr (su, qu)))))"

end
