(* ===== verification/CacheSim.thy ===== *)
theory CacheSim
  imports Provider Json
begin

text \<open>
  \<open>cache_sim.py\<close>: one simulated secondary cache, with the answer that is staged in it and the
  record of the calls that the router made.

  An entry is the dictionary of its declared fields. The names of the gRPC status codes come
  from the gRPC library and are an argument; the list is empty when the library is absent. The
  lock makes every operation one step. The text that \<open>str\<close> gives a float or a container and the
  text that \<open>json.dumps\<close> gives a float are arguments.
\<close>

section \<open>Base64 of byte fields\<close>

text \<open>\<open>text.encode()\<close>: a code point below 256 takes one byte or two.\<close>

definition utf8_bytes :: "string \<Rightarrow> string" where
  "utf8_bytes s = concat (map (\<lambda>c. if code_of c < 128 then [c]
     else [char_of (192 + code_of c div 64), char_of (128 + code_of c mod 64)]) s)"

fun b64 :: "pyval \<Rightarrow> pyval" where
  "b64 (VStr s) = VStr (b64encode (utf8_bytes s))"
| "b64 (VBytes s) = VStr (b64encode s)"
| "b64 v = VNone"

definition b64_val :: "char \<Rightarrow> nat option" where
  "b64_val c =
     (let n = code_of c
      in if 65 \<le> n \<and> n \<le> 90 then Some (n - 65)
         else if 97 \<le> n \<and> n \<le> 122 then Some (n - 71)
         else if 48 \<le> n \<and> n \<le> 57 then Some (n + 4)
         else if n = 43 then Some 62 else if n = 47 then Some 63 else None)"

text \<open>
  \<open>b64decode(value, validate=True)\<close>: whole groups of four characters of the alphabet, with one
  or two padding characters at the very end. \<open>None\<close> is \<open>binascii.Error\<close>.
\<close>

fun b64decode :: "string \<Rightarrow> string option" where
  "b64decode [] = Some []"
| "b64decode (a # b # c # d # rest) =
     (case (b64_val a, b64_val b) of
        (Some x, Some y) \<Rightarrow>
          (if c = CHR ''='' then
             (if d = CHR ''='' \<and> rest = [] then Some [char_of ((x * 64 + y) div 16)] else None)
           else (case b64_val c of
               None \<Rightarrow> None
             | Some z \<Rightarrow>
                 if d = CHR ''='' then
                   (if rest = [] then
                      Some [char_of ((x * 4096 + y * 64 + z) div 1024), char_of ((x * 4096 + y * 64 + z) div 4 mod 256)]
                    else None)
                 else (case b64_val d of
                     None \<Rightarrow> None
                   | Some w \<Rightarrow>
                       let n = ((x * 64 + y) * 64 + z) * 64 + w
                       in map_option (\<lambda>bs. char_of (n div 65536) # char_of (n div 256 mod 256) # char_of (n mod 256) # bs)
                            (b64decode rest))))
      | _ \<Rightarrow> None)"
| "b64decode _ = None"

definition unb64 :: "pyval \<Rightarrow> string" where
  "unb64 v = (case v of
     VStr s \<Rightarrow> if s = [] then [] else (case b64decode s of None \<Rightarrow> [] | Some bs \<Rightarrow> bs)
   | _ \<Rightarrow> [])"

definition bytes_hex :: "string \<Rightarrow> string" where
  "bytes_hex bs = concat (map (\<lambda>c. [hex_digit (code_of c div 16), hex_digit (code_of c mod 16)]) bs)"

text \<open>\<open>_list_or_null\<close> of a list.\<close>

definition list_or_null :: "pyval \<Rightarrow> pyval" where
  "list_or_null v = (if truthy v then v else VNone)"

section \<open>Entries\<close>

type_synonym cache_entry = sdict

definition CacheEntry_fields :: sdict where
  "CacheEntry_fields =
    [(''data'', VBytes []), (''sig'', VBytes []), (''sig_blocks'', VNone),
     (''finalized_blocks_hashes'', VNone), (''latest_block'', VInt 0), (''metadata'', VList []),
     (''optional_metadata'', VList []), (''seen_block'', VInt 0), (''blocks_hashes_to_heights'', VList []),
     (''is_node_error'', VBool False), (''status_code'', VInt 0)]"

fun is_text_or_bytes :: "pyval \<Rightarrow> bool" where
  "is_text_or_bytes (VStr _) = True"
| "is_text_or_bytes (VBytes _) = True"
| "is_text_or_bytes _ = False"

definition entry_validate :: "cache_entry \<Rightarrow> pyerr option" where
  "entry_validate e =
     (let val = (\<lambda>f. get_or e f VNone)
      in first_some
         [first_refusal (\<lambda>f. if val f \<noteq> VNone \<and> \<not> is_text_or_bytes (val f) then Some TypeError else None)
            [''data'', ''sig'', ''sig_blocks'', ''finalized_blocks_hashes''],
          first_refusal (\<lambda>f. if is_plain_int (val f) then None else Some TypeError)
            [''latest_block'', ''seen_block'', ''status_code''],
          if is_bool (val ''is_node_error'') then None else Some TypeError,
          first_refusal (\<lambda>f. if is_list (val f) then None else Some TypeError)
            [''metadata'', ''optional_metadata'', ''blocks_hashes_to_heights'']])"

definition json_rpc_payload :: "(pyfloat \<Rightarrow> string) \<Rightarrow> string \<Rightarrow> pyval \<Rightarrow> pyerr + string" where
  "json_rpc_payload fl key v =
     json_dumps default_separators fl (jobj [(''jsonrpc'', VStr ''2.0''), (''id'', VInt 0), (key, v)])"

definition from_dict :: "(pyfloat \<Rightarrow> string) \<Rightarrow> sdict \<Rightarrow> pyerr + cache_entry" where
  "from_dict fl body0 =
     (let result = map_of body0 ''result'';
          error = map_of body0 ''error'';
          body = AList.delete ''error'' (AList.delete ''result'' body0)
      in if result \<noteq> None \<and> error \<noteq> None then Inl ValueError
         else if (result \<noteq> None \<or> error \<noteq> None) \<and> map_of body ''data'' \<noteq> None then Inl ValueError
         else if \<not> set (dict_keys body) \<subseteq> set (dict_keys CacheEntry_fields) then Inl ValueError
         else
           let e = dict_merge CacheEntry_fields body
           in (case result of
                 Some v \<Rightarrow> bind_r (json_rpc_payload fl ''result'' v) (\<lambda>t. Inr (AList.update ''data'' (VStr t) e))
               | None \<Rightarrow>
                   (case error of
                      Some v \<Rightarrow> bind_r (json_rpc_payload fl ''error'' v) (\<lambda>t.
                          let e' = AList.update ''data'' (VStr t) e
                          in Inr (if map_of body ''is_node_error'' = None
                                  then AList.update ''is_node_error'' (VBool True) e' else e'))
                    | None \<Rightarrow> Inr e)))"

definition to_cache_relay_reply :: "cache_entry \<Rightarrow> pyval" where
  "to_cache_relay_reply e =
     (let val = (\<lambda>f. get_or e f VNone)
      in jobj
         [(''reply'', jobj
             [(''data'', b64 (val ''data'')), (''sig'', b64 (val ''sig'')), (''latest_block'', val ''latest_block''),
              (''finalized_blocks_hashes'', b64 (val ''finalized_blocks_hashes'')),
              (''sig_blocks'', b64 (val ''sig_blocks'')), (''metadata'', val ''metadata'')]),
          (''optional_metadata'', list_or_null (val ''optional_metadata'')),
          (''seen_block'', val ''seen_block''),
          (''blocks_hashes_to_heights'', list_or_null (val ''blocks_hashes_to_heights'')),
          (''is_node_error'', val ''is_node_error''),
          (''status_code'', val ''status_code'')])"

definition miss_reply :: "int \<Rightarrow> pyval" where
  "miss_reply seen = jobj
     [(''reply'', VNone), (''optional_metadata'', VNone), (''seen_block'', VInt seen),
      (''blocks_hashes_to_heights'', VNone), (''is_node_error'', VBool False), (''status_code'', VInt 0)]"

definition relay_key :: "bool \<Rightarrow> string \<Rightarrow> string \<Rightarrow> int \<Rightarrow> string" where
  "relay_key finalized chain_id request_hash block =
     (if finalized then ''rel:f:'' else ''rel:t:'') @ chain_id @ '':'' @ bytes_hex request_hash @ '':'' @ int_text block"

section \<open>A cache\<close>

definition GET_RELAY_METHOD :: string where
  "GET_RELAY_METHOD = ''/smartrouter.pairing.RelayerCache/GetRelay''"

definition CACHE_MODES :: "string list" where
  "CACHE_MODES = [''hit'', ''miss'', ''error'', ''hang'', ''malformed'']"

definition DEFAULT_MODE :: string where
  "DEFAULT_MODE = ''miss''"

definition HANG_SECONDS :: rat where
  "HANG_SECONDS = 2"

record recorded_call =
  rc_method :: string
  rc_chain_id :: string
  rc_request_hash_hex :: string
  rc_requested_block :: int
  rc_finalized :: bool
  rc_seen_block :: int
  rc_shared_state_id :: string
  rc_blocks :: "pyval list"
  rc_key :: string
  rc_mode :: string
  rc_ts :: rat

record cache_sim =
  cs_name :: string
  cs_mode :: string
  cs_entry :: "cache_entry option"
  cs_latency_ms :: int
  cs_error_status :: pyval
  cs_error_message :: pyval
  cs_malformed_body :: pyval
  cs_seen_block :: int
  cs_calls :: "recorded_call list"
  cs_records_total :: int

definition new_cache_sim :: "string \<Rightarrow> cache_sim" where
  "new_cache_sim name =
     \<lparr>cs_name = name, cs_mode = DEFAULT_MODE, cs_entry = None, cs_latency_ms = 0,
      cs_error_status = VStr ''UNAVAILABLE'', cs_error_message = VStr ''cache-sim: injected error'',
      cs_malformed_body = VBytes ''{not json'', cs_seen_block = 0, cs_calls = [], cs_records_total = 0\<rparr>"

definition check_status :: "string list \<Rightarrow> pyval \<Rightarrow> pyerr option" where
  "check_status grpc_names status =
     (if grpc_names = [] then None
      else if status = VStr ''OK'' \<or> \<not> in_texts status grpc_names then Some ValueError else None)"

text \<open>The arguments of \<open>stage\<close>. \<open>latency_ms\<close> and \<open>seen_block\<close> are integers at every call.\<close>

record staging =
  sg_mode :: string
  sg_entry :: "cache_entry option"
  sg_latency_ms :: int
  sg_error_status :: pyval
  sg_error_message :: pyval
  sg_malformed_body :: pyval
  sg_seen_block :: "int option"

definition given :: "pyval \<Rightarrow> pyval \<Rightarrow> pyval" where
  "given v old = (if v \<noteq> VNone then v else old)"

definition encoded_body :: "pyval \<Rightarrow> pyval" where
  "encoded_body v = (case v of VStr s \<Rightarrow> VBytes (utf8_bytes s) | _ \<Rightarrow> v)"

definition stage_refused :: "string list \<Rightarrow> staging \<Rightarrow> pyerr option" where
  "stage_refused grpc_names g = first_some
     [if sg_mode g \<notin> set CACHE_MODES then Some ValueError else None,
      if sg_mode g = ''hit'' \<and> sg_entry g = None then Some ValueError else None,
      if sg_error_status g \<noteq> VNone then check_status grpc_names (sg_error_status g) else None,
      case sg_entry g of None \<Rightarrow> None | Some e \<Rightarrow> entry_validate e]"

definition stage :: "string list \<Rightarrow> staging \<Rightarrow> cache_sim \<Rightarrow> pyerr + cache_sim" where
  "stage grpc_names g c = (case stage_refused grpc_names g of
     Some e \<Rightarrow> Inl e
   | None \<Rightarrow> Inr (c\<lparr>cs_mode := sg_mode g,
                    cs_entry := (case sg_entry g of Some e \<Rightarrow> Some e | None \<Rightarrow> cs_entry c),
                    cs_latency_ms := sg_latency_ms g,
                    cs_error_status := given (sg_error_status g) (cs_error_status c),
                    cs_error_message := given (sg_error_message g) (cs_error_message c),
                    cs_malformed_body := given (encoded_body (sg_malformed_body g)) (cs_malformed_body c),
                    cs_seen_block := (case sg_seen_block g of Some n \<Rightarrow> n | None \<Rightarrow> cs_seen_block c)\<rparr>))"

definition cache_sim_reset :: "cache_sim \<Rightarrow> cache_sim" where
  "cache_sim_reset c =
     c\<lparr>cs_mode := DEFAULT_MODE, cs_entry := None, cs_latency_ms := 0, cs_calls := [], cs_records_total := 0,
       cs_seen_block := 0\<rparr>"

definition record_call :: "recorded_call \<Rightarrow> cache_sim \<Rightarrow> cache_sim" where
  "record_call r c = c\<lparr>cs_records_total := cs_records_total c + 1,
                       cs_calls := bounded_append HISTORY_MAX (cs_calls c) r\<rparr>"

definition record_other_method :: "rat \<Rightarrow> string \<Rightarrow> cache_sim \<Rightarrow> cache_sim" where
  "record_other_method now m c = record_call
     \<lparr>rc_method = m, rc_chain_id = [], rc_request_hash_hex = [], rc_requested_block = 0, rc_finalized = False,
      rc_seen_block = 0, rc_shared_state_id = [], rc_blocks = [], rc_key = [], rc_mode = cs_mode c, rc_ts = now\<rparr> c"

definition clear_calls :: "cache_sim \<Rightarrow> cache_sim" where
  "clear_calls c = c\<lparr>cs_calls := []\<rparr>"

definition call_count :: "cache_sim \<Rightarrow> nat" where
  "call_count c = length (filter (\<lambda>r. rc_method r = GET_RELAY_METHOD) (cs_calls c))"

definition cache_state :: "cache_sim \<Rightarrow> pyval" where
  "cache_state c = jobj
     [(''name'', VStr (cs_name c)), (''mode'', VStr (cs_mode c)), (''latency_ms'', VInt (cs_latency_ms c)),
      (''has_entry'', VBool (cs_entry c \<noteq> None)), (''seen_block'', VInt (cs_seen_block c)),
      (''calls'', VInt (int (call_count c))),
      (''other_method_calls'', VInt (int (length (filter (\<lambda>r. rc_method r \<noteq> GET_RELAY_METHOD) (cs_calls c)))))]"

section \<open>The decision\<close>

datatype cache_plan =
    Respond pyval rat
  | Abort pyval pyval rat
  | RawBody pyval rat

text \<open>A body that is no JSON object reads as an empty one. An empty body reads as \<open>{}\<close>.\<close>

definition decoded_request :: "string \<Rightarrow> pyval" where
  "decoded_request body = (case json_loads_bytes (if body = [] then ''{}'' else body) of
     Some (VDict kvs) \<Rightarrow> VDict kvs
   | _ \<Rightarrow> VDict [])"

definition timed_answer :: "rat \<Rightarrow> cache_sim \<Rightarrow> cache_plan" where
  "timed_answer sleep_s c =
     (if cs_mode c = ''hang'' then Respond (miss_reply (cs_seen_block c)) (max HANG_SECONDS sleep_s)
         else if cs_mode c = ''error'' then Abort (cs_error_status c) (cs_error_message c) sleep_s
         else if cs_mode c = ''malformed'' then RawBody (cs_malformed_body c) sleep_s
         else (case cs_entry c of
                 Some e \<Rightarrow> if cs_mode c = ''hit'' then Respond (to_cache_relay_reply e) sleep_s
                           else Respond (miss_reply (cs_seen_block c)) sleep_s
               | None \<Rightarrow> Respond (miss_reply (cs_seen_block c)) sleep_s))"

text \<open>
  \<open>latency_ms / 1000.0\<close> raises for an integer that is too large for a float. The seconds are exact.
\<close>

definition plan_answer :: "cache_sim \<Rightarrow> pyerr + cache_plan" where
  "plan_answer c = bind_r (float_of_int (cs_latency_ms c)) (\<lambda>_. Inr (timed_answer (of_int (cs_latency_ms c) / 1000) c))"

text \<open>
  \<open>plan\<close> reads the request first, and what \<open>int\<close> or \<open>list\<close> raises there goes to the caller. The
  count goes up before the last three of those reads.
\<close>

definition plan ::
  "(pyval \<Rightarrow> string) \<Rightarrow> rat \<Rightarrow> string \<Rightarrow> cache_sim \<Rightarrow> (pyerr + cache_plan) \<times> cache_sim" where
  "plan other now body c =
     (let req = decoded_request body;
          val = (\<lambda>k d. py_or (vget_or req k VNone) d);
          request_hash = unb64 (vget_or req ''request_hash'' VNone);
          chain_id = py_str other (val ''chain_id'' (VStr []));
          finalized = truthy (vget_or req ''finalized'' VNone)
      in (case py_int (val ''requested_block'' (VInt 0)) of
            Inl e \<Rightarrow> (Inl e, c)
          | Inr block \<Rightarrow>
              (case bind_r (py_int (val ''seen_block'' (VInt 0))) (\<lambda>seen.
                      bind_r (py_iter (val ''blocks_hashes_to_heights'' (VList []))) (\<lambda>blocks. Inr (seen, blocks))) of
                 Inl e \<Rightarrow> (Inl e, c\<lparr>cs_records_total := cs_records_total c + 1\<rparr>)
               | Inr (seen, blocks) \<Rightarrow>
                   (plan_answer c,
                    record_call
                      \<lparr>rc_method = GET_RELAY_METHOD, rc_chain_id = chain_id,
                       rc_request_hash_hex = bytes_hex request_hash, rc_requested_block = block,
                       rc_finalized = finalized, rc_seen_block = seen,
                       rc_shared_state_id = py_str other (val ''shared_state_id'' (VStr [])),
                       rc_blocks = blocks, rc_key = relay_key finalized chain_id request_hash block,
                       rc_mode = cs_mode c, rc_ts = now\<rparr> c))))"

section \<open>The caches of a simulator\<close>

type_synonym cache_registry = "(string, cache_sim) dict"

definition get_or_create :: "string \<Rightarrow> cache_registry \<Rightarrow> cache_sim \<times> cache_registry" where
  "get_or_create name reg = (case map_of reg name of
     Some c \<Rightarrow> (c, reg)
   | None \<Rightarrow> (new_cache_sim name, AList.update name (new_cache_sim name) reg))"

definition caches_reset_all :: "cache_registry \<Rightarrow> cache_registry" where
  "caches_reset_all reg = map (\<lambda>(n, c). (n, cache_sim_reset c)) reg"

section \<open>What is encoded reads back\<close>

lemma b64_char_val:
  assumes "n < 64"
  shows "b64_val (b64_char n) = Some n" and "b64_char n \<noteq> CHR ''=''"
proof -
  show val: "b64_val (b64_char n) = Some n"
    using assms by (auto simp: b64_char_def b64_val_def Let_def)
  have "b64_val (CHR ''='') = None" by code_simp
  with val show "b64_char n \<noteq> CHR ''=''" by auto
qed

lemma code_of_less: "code_of c < 256"
  using nat_of_char_less_256 [of c] by simp

text \<open>A number by its digits in base 64 and by its digits in base 256.\<close>

lemma base64_digits:
  fixes n :: nat
  shows "n div 64 * 64 + n mod 64 = n"
    and "(n div 4096 * 64 + n div 64 mod 64) * 64 + n mod 64 = n"
    and "((n div 262144 * 64 + n div 4096 mod 64) * 64 + n div 64 mod 64) * 64 + n mod 64 = n"
proof -
  have d: "n div 4096 = n div 64 div 64" "n div 262144 = n div 64 div 64 div 64"
    by (simp_all add: div_mult2_eq [symmetric])
  show "n div 64 * 64 + n mod 64 = n" by simp
  show "(n div 4096 * 64 + n div 64 mod 64) * 64 + n mod 64 = n"
    unfolding d by (simp only: div_mult_mod_eq)
  show "((n div 262144 * 64 + n div 4096 mod 64) * 64 + n div 64 mod 64) * 64 + n mod 64 = n"
    unfolding d by (simp only: div_mult_mod_eq)
qed

lemma base256_digits:
  fixes a b c :: nat
  assumes "a < 256" and "b < 256" and "c < 256"
  shows "((a * 256 + b) * 256 + c) mod 256 = c" and "((a * 256 + b) * 256 + c) div 256 mod 256 = b"
    and "((a * 256 + b) * 256 + c) div 65536 = a" and "((a * 256 + b) * 256 + c) div 262144 < 64"
proof -
  have q: "((a * 256 + b) * 256 + c) div 256 = a * 256 + b" using assms(3) by simp
  show "((a * 256 + b) * 256 + c) mod 256 = c" using assms(3) by (simp only: mod_mult_self3 mod_less)
  show "((a * 256 + b) * 256 + c) div 256 mod 256 = b" unfolding q using assms(2) by simp
  have "((a * 256 + b) * 256 + c) div 65536 = ((a * 256 + b) * 256 + c) div 256 div 256"
    by (simp add: div_mult2_eq [symmetric])
  then show top: "((a * 256 + b) * 256 + c) div 65536 = a" unfolding q using assms(2) by simp
  have "((a * 256 + b) * 256 + c) div 262144 = ((a * 256 + b) * 256 + c) div 65536 div 4"
    by (simp add: div_mult2_eq [symmetric])
  then show "((a * 256 + b) * 256 + c) div 262144 < 64" unfolding top using assms(1) by linarith
qed

lemma b64_group:
  fixes a b c :: char
  defines "n \<equiv> (code_of a * 256 + code_of b) * 256 + code_of c"
  shows "b64decode (b64_char (n div 262144) # b64_char (n div 4096 mod 64) # b64_char (n div 64 mod 64)
      # b64_char (n mod 64) # rest) = map_option (\<lambda>bs. a # b # c # bs) (b64decode rest)"
proof -
  note dig = base256_digits [OF code_of_less code_of_less code_of_less, of a b c, folded n_def]
  have "((n div 262144 * 64 + n div 4096 mod 64) * 64 + n div 64 mod 64) * 64 + n mod 64 = n"
    by (rule base64_digits(3))
  then show ?thesis
    using dig by (simp only: b64decode.simps b64_char_val mod_less_divisor prod.case option.case if_False Let_def
        zero_less_numeral char_of_char)
qed

lemma b64_pair:
  assumes "n div 4096 < 64"
  shows "b64decode [b64_char (n div 4096), b64_char (n div 64 mod 64), b64_char (n mod 64), CHR ''='']
      = Some [char_of (n div 1024), char_of (n div 4 mod 256)]"
proof -
  have "n div 4096 * 4096 + n div 64 mod 64 * 64 + n mod 64 = n"
    using base64_digits(2) [of n] by (simp add: algebra_simps)
  then show ?thesis using assms by (simp add: b64_char_val)
qed

lemma b64_roundtrip: "b64decode (b64encode s) = Some s"
proof (induction s rule: b64encode.induct)
  case (2 a)
  have "code_of a * 16 div 64 < 64" using code_of_less [of a] by linarith
  then show ?case
    using base64_digits(1) [of "code_of a * 16"] by (simp add: Let_def b64_char_val)
next
  case (3 a b)
  define n where "n = (code_of a * 256 + code_of b) * 4"
  have "n div 4 = code_of a * 256 + code_of b" by (simp add: n_def)
  moreover have "n div 1024 = n div 4 div 256" by (simp add: div_mult2_eq [symmetric])
  moreover have "n div 4096 = n div 1024 div 4" by (simp add: div_mult2_eq [symmetric])
  ultimately have dig: "n div 1024 = code_of a" "n div 4 mod 256 = code_of b" "n div 4096 = code_of a div 4"
    using code_of_less [of b] by simp_all
  have "code_of a div 4 < 64" using code_of_less [of a] by linarith
  with dig b64_pair [of n] show ?case by (simp only: b64encode.simps Let_def n_def [symmetric] char_of_char)
next
  case (4 a b c rest)
  show ?case using 4 by (simp only: b64encode.simps Let_def append.simps b64_group option.map)
qed simp

lemma b64encode_empty: "b64encode s = [] \<longleftrightarrow> s = []"
  by (induction s rule: b64encode.induct) (auto simp: Let_def)

text \<open>The bytes that a text or bytes field of an entry stands for.\<close>

fun field_bytes :: "pyval \<Rightarrow> string" where
  "field_bytes (VStr s) = utf8_bytes s"
| "field_bytes (VBytes s) = s"
| "field_bytes v = []"

lemma unb64_b64: "unb64 (b64 v) = field_bytes v"
  by (cases v) (auto simp: unb64_def b64_roundtrip b64encode_empty)

section \<open>The staged answer\<close>

text \<open>What a cache holds after any of its operations.\<close>

definition cache_ok :: "cache_sim \<Rightarrow> bool" where
  "cache_ok c \<longleftrightarrow> cs_mode c \<in> set CACHE_MODES \<and> (cs_mode c = ''hit'' \<longrightarrow> cs_entry c \<noteq> None)
     \<and> (\<forall>e. cs_entry c = Some e \<longrightarrow> entry_validate e = None)
     \<and> length (cs_calls c) \<le> HISTORY_MAX \<and> int (length (cs_calls c)) \<le> cs_records_total c"

lemma cache_ok_new: "cache_ok (new_cache_sim name)"
  by (simp add: cache_ok_def new_cache_sim_def CACHE_MODES_def DEFAULT_MODE_def)

lemma cache_ok_stage: "cache_ok c \<Longrightarrow> stage names g c = Inr c' \<Longrightarrow> cache_ok c'"
  by (auto simp: cache_ok_def stage_def stage_refused_def split: option.splits if_splits)

lemma cache_ok_reset: "cache_ok c \<Longrightarrow> cache_ok (cache_sim_reset c)"
  by (simp add: cache_ok_def cache_sim_reset_def CACHE_MODES_def DEFAULT_MODE_def)

lemma cache_ok_clear: "cache_ok c \<Longrightarrow> cache_ok (clear_calls c)"
  by (simp add: cache_ok_def clear_calls_def)

lemma cache_ok_record: "cache_ok c \<Longrightarrow> cache_ok (record_call r c)"
  by (auto simp: cache_ok_def record_call_def)

lemma cache_ok_count: "cache_ok c \<Longrightarrow> cache_ok (c\<lparr>cs_records_total := cs_records_total c + 1\<rparr>)"
  by (simp add: cache_ok_def)

lemma cache_ok_plan: "cache_ok c \<Longrightarrow> cache_ok (snd (plan other now body c))"
  by (auto simp: plan_def Let_def cache_ok_record cache_ok_count split: sum.splits)

text \<open>A lookup whose numbers and list can be read.\<close>

definition request_field :: "string \<Rightarrow> string \<Rightarrow> pyval \<Rightarrow> pyval" where
  "request_field body k d = py_or (vget_or (decoded_request body) k VNone) d"

definition readable_request :: "string \<Rightarrow> bool" where
  "readable_request body \<longleftrightarrow>
     \<not> isl (py_int (request_field body ''requested_block'' (VInt 0)))
     \<and> \<not> isl (py_int (request_field body ''seen_block'' (VInt 0)))
     \<and> \<not> isl (py_iter (request_field body ''blocks_hashes_to_heights'' (VList [])))"

lemma plan_readable:
  assumes "readable_request body"
  shows "\<exists>r. plan other now body c = (plan_answer c, record_call r c)
    \<and> rc_method r = GET_RELAY_METHOD \<and> rc_mode r = cs_mode c"
proof -
  from assms obtain block seen blocks where
    "py_int (request_field body ''requested_block'' (VInt 0)) = Inr block"
    "py_int (request_field body ''seen_block'' (VInt 0)) = Inr seen"
    "py_iter (request_field body ''blocks_hashes_to_heights'' (VList [])) = Inr blocks"
    unfolding readable_request_def by (metis sum.collapse(2))
  then show ?thesis by (auto simp: plan_def Let_def request_field_def)
qed

text \<open>A lookup changes nothing of what is staged.\<close>

definition same_staging :: "cache_sim \<Rightarrow> cache_sim \<Rightarrow> bool" where
  "same_staging c d \<longleftrightarrow> cs_mode d = cs_mode c \<and> cs_entry d = cs_entry c \<and> cs_latency_ms d = cs_latency_ms c
     \<and> cs_error_status d = cs_error_status c \<and> cs_error_message d = cs_error_message c
     \<and> cs_malformed_body d = cs_malformed_body c \<and> cs_seen_block d = cs_seen_block c"

definition lookups :: "(pyval \<Rightarrow> string) \<Rightarrow> (rat \<times> string) list \<Rightarrow> cache_sim \<Rightarrow> cache_sim" where
  "lookups other reqs c = foldl (\<lambda>c (now, body). snd (plan other now body c)) c reqs"

lemma same_staging_plan: "same_staging c (snd (plan other now body c))"
  by (auto simp: same_staging_def plan_def Let_def record_call_def split: sum.splits)

lemma same_staging_lookups: "same_staging c (lookups other reqs c)"
proof (induction reqs arbitrary: c)
  case (Cons r reqs)
  obtain now body where r: "r = (now, body)" by (cases r)
  show ?case
    using Cons.IH [of "snd (plan other now body c)"] same_staging_plan [of c other now body]
    by (simp add: lookups_def r same_staging_def)
qed (simp add: lookups_def same_staging_def)

lemma plan_answer_cong: "same_staging c d \<Longrightarrow> plan_answer d = plan_answer c"
  by (simp add: same_staging_def plan_answer_def timed_answer_def split: option.split)

lemma utf8_pair:
  "\<not> code_of c < 128 \<Longrightarrow> utf8_text (char_of (192 + code_of c div 64) # char_of (128 + code_of c mod 64) # rest)
     = map_option ((#) c) (utf8_text rest)"
proof -
  assume "\<not> code_of c < 128"
  moreover have "code_of c < 256" by (rule code_of_less)
  ultimately have "code_of c div 64 = 2 \<or> code_of c div 64 = 3" by linarith
  moreover have "char_of ((code_of c div 64) * 64 + code_of c mod 64) = c" by simp
  moreover have "code_of c mod 64 < 64" by simp
  moreover have "code_of c div 64 = 2 \<Longrightarrow> code_of c < 192" by linarith
  moreover have "128 \<le> code_of c" using \<open>\<not> code_of c < 128\<close> by simp
  ultimately show ?thesis by (elim disjE) (simp_all del: div_mult_mod_eq mod_div_mult_eq)
qed

lemma utf8_roundtrip: "utf8_text (utf8_bytes s) = Some s"
  by (induction s) (simp_all add: utf8_bytes_def utf8_pair del: utf8_text.simps(2), simp)

lemma from_dict_result:
  assumes "plain_json v"
  shows "\<exists>t. json_rpc_payload fl ''result'' v = Inr t
    \<and> from_dict fl [(''result'', v)] = Inr (AList.update ''data'' (VStr t) CacheEntry_fields)
    \<and> entry_validate (AList.update ''data'' (VStr t) CacheEntry_fields) = None
    \<and> json_loads t = Some (jobj [(''jsonrpc'', VStr ''2.0''), (''id'', VInt 0), (''result'', v)])"
proof -
  let ?p = "jobj [(''jsonrpc'', VStr ''2.0''), (''id'', VInt 0), (''result'', v)]"
  have plain: "plain_json ?p" using assms by (simp add: jobj_def max_int_digits_def nat_text.simps)
  then obtain t where t: "json_dumps default_separators fl ?p = Inr t" using plain_json_dumps by blast
  moreover have "json_loads t = Some ?p" using json_roundtrip [OF _ plain t] by (simp add: json_sep_def default_separators_def)
  moreover have "from_dict fl [(''result'', v)] = Inr (AList.update ''data'' (VStr t) CacheEntry_fields)"
    using t by (simp add: from_dict_def json_rpc_payload_def)
  moreover have "entry_validate (AList.update ''data'' (VStr t) CacheEntry_fields) = None"
    by (simp add: entry_validate_def CacheEntry_fields_def get_or_def is_plain_int_def)
  ultimately show ?thesis by (auto simp: json_rpc_payload_def)
qed

definition staged_hit :: "cache_entry \<Rightarrow> int \<Rightarrow> staging" where
  "staged_hit e ms = \<lparr>sg_mode = ''hit'', sg_entry = Some e, sg_latency_ms = ms, sg_error_status = VNone,
     sg_error_message = VNone, sg_malformed_body = VNone, sg_seen_block = None\<rparr>"

lemma stage_hit:
  assumes "entry_validate e = None"
  shows "\<exists>c'. stage names (staged_hit e ms) c = Inr c'
    \<and> plan_answer c'
      = (if \<bar>ms\<bar> < float_limit then Inr (Respond (to_cache_relay_reply e) (of_int ms / 1000)) else Inl OverflowError)"
  using assms by (simp add: stage_def stage_refused_def staged_hit_def CACHE_MODES_def plan_answer_def timed_answer_def float_of_int_def)

text \<open>
  C13. A result that is staged for a hit reaches the router: whatever the cache held before and
  however many lookups came in between, the next readable lookup is answered after the staged
  delay with a reply whose data, decoded as the router decodes it, is the JSON-RPC envelope of
  that result; and the lookup is the newest call of the record and is counted once, even when
  the record is full. Only a delay that is no float raises OverflowError instead of the answer,
  after the lookup was recorded.
\<close>

theorem staged_result_reaches_router:
  assumes "plain_json v" and "readable_request body"
  shows "\<exists>e c1. from_dict fl [(''result'', v)] = Inr e \<and> stage names (staged_hit e ms) c = Inr c1
    \<and> (\<forall>reqs. let c2 = lookups other reqs c1 in
        \<exists>reply data c3. plan other now body c2
            = (if \<bar>ms\<bar> < float_limit then Inr (Respond reply (of_int ms / 1000)) else Inl OverflowError, c3)
          \<and> Option.bind (vget reply ''reply'') (\<lambda>r. vget r ''data'') = Some data
          \<and> json_loads_bytes (unb64 data)
              = Some (jobj [(''jsonrpc'', VStr ''2.0''), (''id'', VInt 0), (''result'', v)])
          \<and> cs_records_total c3 = cs_records_total c2 + 1
          \<and> cs_calls c3 \<noteq> [] \<and> rc_method (last (cs_calls c3)) = GET_RELAY_METHOD
          \<and> rc_mode (last (cs_calls c3)) = ''hit'')"
proof -
  obtain t where t: "from_dict fl [(''result'', v)] = Inr (AList.update ''data'' (VStr t) CacheEntry_fields)"
    "entry_validate (AList.update ''data'' (VStr t) CacheEntry_fields) = None"
    "json_loads t = Some (jobj [(''jsonrpc'', VStr ''2.0''), (''id'', VInt 0), (''result'', v)])"
    using from_dict_result [OF assms(1)] by blast
  let ?e = "AList.update ''data'' (VStr t) CacheEntry_fields"
  obtain c1 where c1: "stage names (staged_hit ?e ms) c = Inr c1"
    "plan_answer c1
      = (if \<bar>ms\<bar> < float_limit then Inr (Respond (to_cache_relay_reply ?e) (of_int ms / 1000)) else Inl OverflowError)"
    using stage_hit [OF t(2)] by blast
  have mode: "cs_mode c1 = ''hit''"
    using c1(1) by (auto simp: stage_def staged_hit_def split: option.splits)
  have data: "Option.bind (vget (to_cache_relay_reply ?e) ''reply'') (\<lambda>r. vget r ''data'') = Some (b64 (VStr t))"
    by (simp add: to_cache_relay_reply_def)
  have reads: "json_loads_bytes (unb64 (b64 (VStr t))) = json_loads t"
    unfolding unb64_b64 by (simp add: json_loads_bytes_def utf8_roundtrip)
  have "let c2 = lookups other reqs c1 in
        \<exists>reply data c3. plan other now body c2
            = (if \<bar>ms\<bar> < float_limit then Inr (Respond reply (of_int ms / 1000)) else Inl OverflowError, c3)
          \<and> Option.bind (vget reply ''reply'') (\<lambda>r. vget r ''data'') = Some data
          \<and> json_loads_bytes (unb64 data)
              = Some (jobj [(''jsonrpc'', VStr ''2.0''), (''id'', VInt 0), (''result'', v)])
          \<and> cs_records_total c3 = cs_records_total c2 + 1
          \<and> cs_calls c3 \<noteq> [] \<and> rc_method (last (cs_calls c3)) = GET_RELAY_METHOD
          \<and> rc_mode (last (cs_calls c3)) = ''hit''" for reqs
  proof -
    let ?c2 = "lookups other reqs c1"
    have same: "same_staging c1 ?c2" by (rule same_staging_lookups)
    then have ans: "plan_answer ?c2
      = (if \<bar>ms\<bar> < float_limit then Inr (Respond (to_cache_relay_reply ?e) (of_int ms / 1000)) else Inl OverflowError)"
      using c1(2) by (simp add: plan_answer_cong)
    obtain r where r: "plan other now body ?c2 = (plan_answer ?c2, record_call r ?c2)"
      "rc_method r = GET_RELAY_METHOD" "rc_mode r = cs_mode ?c2"
      using plan_readable [OF assms(2)] by blast
    have hit: "cs_mode ?c2 = ''hit''" using same mode by (simp add: same_staging_def)
    have kept: "cs_calls (record_call r ?c2) \<noteq> [] \<and> last (cs_calls (record_call r ?c2)) = r"
      using bounded_append_last [of HISTORY_MAX "cs_calls ?c2" r]
      by (simp add: record_call_def HISTORY_MAX_def)
    have total: "cs_records_total (record_call r ?c2) = cs_records_total ?c2 + 1"
      by (simp add: record_call_def)
    show ?thesis
      unfolding Let_def using r ans data reads t(3) kept hit total by (intro exI conjI) auto
  qed
  with t(1) c1(1) show ?thesis by blast
qed

theorem staged_result_reaches_router_witness:
  "readable_request [] \<and> plain_json (VInt 7) \<and>
   (\<exists>e c1. from_dict (\<lambda>_. []) [(''result'', VInt 7)] = Inr e
      \<and> stage [] (staged_hit e 5) (new_cache_sim ''secondary'') = Inr c1)"
proof -
  have "readable_request []" and "plain_json (VInt 7)" by code_simp+
  with staged_result_reaches_router [where v = "VInt 7" and body = "[]" and fl = "\<lambda>_. []" and names = "[]"
      and ms = 5 and c = "new_cache_sim ''secondary''" and other = "\<lambda>_. []" and now = 0]
  show ?thesis by blast
qed

text \<open>
  A lookup whose block is a text that is no whole number is neither recorded nor answered:
  the decision raises and leaves the cache as it was.
\<close>

theorem unreadable_lookup_lost:
  assumes "json_loads_bytes body = Some (VDict kvs)" and "body \<noteq> []"
    and "vget (VDict kvs) ''requested_block'' = Some (VStr s)" and "s \<noteq> []" and "int_of_text s = None"
  shows "plan other now body c = (Inl ValueError, c)"
proof -
  have "decoded_request body = VDict kvs" using assms(1,2) by (simp add: decoded_request_def)
  then have "py_int (py_or (vget_or (decoded_request body) ''requested_block'' VNone) (VInt 0)) = Inl ValueError"
    using assms(3-5) by (simp add: vget_or_def py_or_def)
  then show ?thesis by (simp add: plan_def Let_def)
qed

theorem unreadable_lookup_lost_witness:
  "plan (\<lambda>_. []) 0 (''{'' @ [CHR 0x22] @ ''requested_block'' @ [CHR 0x22] @ '':'' @ [CHR 0x22] @ ''latest'' @ [CHR 0x22] @ ''}'')
     (new_cache_sim ''secondary'') = (Inl ValueError, new_cache_sim ''secondary'')"
proof -
  let ?b = "''{'' @ [CHR 0x22] @ ''requested_block'' @ [CHR 0x22] @ '':'' @ [CHR 0x22] @ ''latest'' @ [CHR 0x22] @ ''}''"
  have "json_loads_bytes ?b = Some (VDict [(VStr ''requested_block'', VStr ''latest'')])" by code_simp
  moreover have "int_of_text ''latest'' = None" by code_simp
  moreover have "vget (VDict [(VStr ''requested_block'', VStr ''latest'')]) ''requested_block'' = Some (VStr ''latest'')"
    by simp
  ultimately show ?thesis using unreadable_lookup_lost [of ?b] by blast
qed

end
