(* ===== verification/RespProxy.thy ===== *)
theory RespProxy
  imports PyValue
begin

text \<open>
  \<open>resp_proxy.py\<close>: the proxy between the router and its store, with the gate that a test closes,
  and its registry.

  Every operation that holds the lock of the proxy is one definition. A connection runs on a
  thread of its own and goes through the points of \<open>serve\<close>, \<open>_carry\<close>, \<open>_pump_once\<close> and
  \<open>_send_if_forwarding\<close>; a gate move holds \<open>_transitions\<close> and waits for the deliveries. The step
  relation has every interleaving of those threads. What a socket does (a read that times out or
  ends, a write that fails, a dial that fails) is a choice of the environment.
\<close>

section \<open>The proxy\<close>

datatype proxy_gate = FORWARDING | TIMEOUT | ERROR

record proxy_counters =
  accepted :: int
  forwarded :: int
  carried :: int
  closed_by_cut_off :: int
  closed_when_idle :: int

definition no_counts :: proxy_counters where
  "no_counts = \<lparr>accepted = 0, forwarded = 0, carried = 0, closed_by_cut_off = 0, closed_when_idle = 0\<rparr>"

record resp_proxy =
  px_name :: string
  px_target :: string
  px_idle_seconds :: rat
  px_state :: proxy_gate
  px_latency_ms :: int
  px_live :: "nat list"
  px_counters :: proxy_counters
  px_delivering :: int

definition new_proxy :: "string \<Rightarrow> string \<Rightarrow> rat \<Rightarrow> resp_proxy" where
  "new_proxy name target idle =
     \<lparr>px_name = name, px_target = target, px_idle_seconds = idle, px_state = FORWARDING, px_latency_ms = 0,
      px_live = [], px_counters = no_counts, px_delivering = 0\<rparr>"

definition set_latency :: "int \<Rightarrow> resp_proxy \<Rightarrow> pyerr + resp_proxy" where
  "set_latency ms p = (if ms < 0 then Inl ValueError else Inr (p\<lparr>px_latency_ms := ms\<rparr>))"

text \<open>\<open>kind not in CUT_OFF_KINDS\<close> raises \<open>UnknownCutOffKind\<close>.\<close>

definition cut_off_kind :: "pyval \<Rightarrow> pyerr + proxy_gate" where
  "cut_off_kind v =
     (if v = VStr ''timeout'' then Inr TIMEOUT else if v = VStr ''error'' then Inr ERROR else Inl ValueError)"

text \<open>\<open>cut_off\<close> up to its wait: the gate is closed and the live connections are read.\<close>

definition cut_off_close :: "proxy_gate \<Rightarrow> resp_proxy \<Rightarrow> resp_proxy" where
  "cut_off_close g p =
     p\<lparr>px_state := g,
       px_counters := (if g = ERROR
         then (px_counters p)\<lparr>closed_by_cut_off := closed_by_cut_off (px_counters p) + int (length (px_live p))\<rparr>
         else px_counters p)\<rparr>"

definition restore :: "resp_proxy \<Rightarrow> resp_proxy" where
  "restore p = p\<lparr>px_state := FORWARDING\<rparr>"

definition reset_counters :: "resp_proxy \<Rightarrow> resp_proxy" where
  "reset_counters p = p\<lparr>px_counters := no_counts\<rparr>"

section \<open>A connection\<close>

text \<open>\<open>serve\<close>: count the connection and read the gate, then close it or take it on.\<close>

definition accept_connection :: "resp_proxy \<Rightarrow> proxy_gate \<times> resp_proxy" where
  "accept_connection p =
     (px_state p, p\<lparr>px_counters := (px_counters p)\<lparr>accepted := accepted (px_counters p) + 1\<rparr>\<rparr>)"

definition turn_away :: "resp_proxy \<Rightarrow> resp_proxy" where
  "turn_away p =
     p\<lparr>px_counters := (px_counters p)\<lparr>closed_by_cut_off := closed_by_cut_off (px_counters p) + 1\<rparr>\<rparr>"

definition take_on :: "nat \<Rightarrow> resp_proxy \<Rightarrow> resp_proxy" where
  "take_on i p = p\<lparr>px_live := i # px_live p,
     px_counters := (px_counters p)\<lparr>carried := carried (px_counters p) + 1\<rparr>\<rparr>"

definition let_go :: "nat \<Rightarrow> resp_proxy \<Rightarrow> resp_proxy" where
  "let_go i p = p\<lparr>px_live := removeAll i (px_live p)\<rparr>"

text \<open>The parts of \<open>_carry\<close> and \<open>_send_if_forwarding\<close> that hold the lock.\<close>

definition upstream_opened :: "resp_proxy \<Rightarrow> resp_proxy" where
  "upstream_opened p = p\<lparr>px_counters := (px_counters p)\<lparr>forwarded := forwarded (px_counters p) + 1\<rparr>\<rparr>"

definition reclaim :: "resp_proxy \<Rightarrow> resp_proxy option" where
  "reclaim p = (if px_state p = FORWARDING
     then Some (p\<lparr>px_counters := (px_counters p)\<lparr>closed_when_idle := closed_when_idle (px_counters p) + 1\<rparr>\<rparr>)
     else None)"

definition begin_delivery :: "resp_proxy \<Rightarrow> resp_proxy option" where
  "begin_delivery p =
     (if px_state p \<noteq> FORWARDING then None else Some (p\<lparr>px_delivering := px_delivering p + 1\<rparr>))"

definition end_delivery :: "resp_proxy \<Rightarrow> resp_proxy" where
  "end_delivery p = p\<lparr>px_delivering := px_delivering p - 1\<rparr>"

definition idle_expired :: "rat \<Rightarrow> rat \<Rightarrow> resp_proxy \<Rightarrow> bool" where
  "idle_expired now last_active p \<longleftrightarrow> 0 < px_idle_seconds p \<and> px_idle_seconds p < now - last_active"

section \<open>The registry\<close>

type_synonym proxy_registry = "(string, resp_proxy) dict"

definition add_proxy :: "string \<Rightarrow> string \<Rightarrow> rat \<Rightarrow> proxy_registry \<Rightarrow> proxy_registry" where
  "add_proxy name target idle reg = AList.update name (new_proxy name target idle) reg"

definition restore_all :: "proxy_registry \<Rightarrow> proxy_registry" where
  "restore_all reg = map (\<lambda>(n, p). (n, restore p)) reg"

definition clear_latency_all :: "proxy_registry \<Rightarrow> proxy_registry" where
  "clear_latency_all reg = map (\<lambda>(n, p). (n, case set_latency 0 p of Inr q \<Rightarrow> q | Inl e \<Rightarrow> p)) reg"

section \<open>Interleavings\<close>

text \<open>
  Where the thread of a connection is: not accepted yet, accepted with the gate that was read, at
  the top of the loop, with the gate read there, in a pump with some directions left, in a write,
  or finished. \<open>Pump 0\<close> is after the pump, before the idle test.
\<close>

datatype conn_point =
    NotYet
  | Accepted proxy_gate
  | Top
  | HasRead proxy_gate
  | Pump nat
  | Writing nat
  | Finished

record proxy_system =
  px :: resp_proxy
  at_point :: "nat \<Rightarrow> conn_point"
  upstream :: "nat set"
  mover :: "proxy_gate option"
  since_closed :: "nat set"

text \<open>
  \<open>mover\<close> is the cut-off that has closed the gate and waits. \<open>since_closed\<close> is for the statements
  only: the connections that were accepted since the gate was last open.
\<close>

definition goes :: "nat \<Rightarrow> conn_point \<Rightarrow> resp_proxy \<Rightarrow> proxy_system \<Rightarrow> proxy_system" where
  "goes i pt p s = s\<lparr>px := p, at_point := (at_point s)(i := pt)\<rparr>"

inductive proxy_step :: "proxy_system \<Rightarrow> proxy_system \<Rightarrow> bool" where
  s_accept: "at_point s i = NotYet \<Longrightarrow> accept_connection (px s) = (g, p) \<Longrightarrow>
    proxy_step s ((goes i (Accepted g) p s)\<lparr>since_closed :=
      (if px_state (px s) = FORWARDING then since_closed s else insert i (since_closed s))\<rparr>)"
| s_turn_away: "at_point s i = Accepted ERROR \<Longrightarrow> proxy_step s (goes i Finished (turn_away (px s)) s)"
| s_take_on: "at_point s i = Accepted g \<Longrightarrow> g \<noteq> ERROR \<Longrightarrow> proxy_step s (goes i Top (take_on i (px s)) s)"
| s_read: "at_point s i = Top \<Longrightarrow> proxy_step s (goes i (HasRead (px_state (px s))) (px s) s)"
| s_error: "at_point s i = HasRead ERROR \<Longrightarrow> proxy_step s (goes i Finished (let_go i (px s)) s)"
| s_hold: "at_point s i = HasRead TIMEOUT \<Longrightarrow> proxy_step s (goes i Top (px s) s)"
| s_peer_gone: "at_point s i = HasRead TIMEOUT \<Longrightarrow> proxy_step s (goes i Finished (let_go i (px s)) s)"
| s_dial: "at_point s i = HasRead FORWARDING \<Longrightarrow> i \<notin> upstream s \<Longrightarrow>
    proxy_step s ((goes i (Pump 2) (upstream_opened (px s)) s)\<lparr>upstream := insert i (upstream s)\<rparr>)"
| s_dial_failed: "at_point s i = HasRead FORWARDING \<Longrightarrow> i \<notin> upstream s \<Longrightarrow>
    proxy_step s (goes i Finished (let_go i (px s)) s)"
| s_pump: "at_point s i = HasRead FORWARDING \<Longrightarrow> i \<in> upstream s \<Longrightarrow> proxy_step s (goes i (Pump 2) (px s) s)"
| s_no_bytes: "at_point s i = Pump (Suc n) \<Longrightarrow> proxy_step s (goes i (Pump n) (px s) s)"
| s_read_ended: "at_point s i = Pump (Suc n) \<Longrightarrow> proxy_step s (goes i Finished (let_go i (px s)) s)"
| s_dropped: "at_point s i = Pump (Suc n) \<Longrightarrow> begin_delivery (px s) = None \<Longrightarrow> proxy_step s (goes i (Pump n) (px s) s)"
| s_write: "at_point s i = Pump (Suc n) \<Longrightarrow> begin_delivery (px s) = Some p \<Longrightarrow> proxy_step s (goes i (Writing n) p s)"
| s_written: "at_point s i = Writing n \<Longrightarrow> proxy_step s (goes i (Pump n) (end_delivery (px s)) s)"
| s_write_failed: "at_point s i = Writing n \<Longrightarrow>
    proxy_step s (goes i Finished (let_go i (end_delivery (px s))) s)"
| s_not_idle: "at_point s i = Pump 0 \<Longrightarrow> proxy_step s (goes i Top (px s) s)"
| s_reclaim: "at_point s i = Pump 0 \<Longrightarrow> reclaim (px s) = Some p \<Longrightarrow> proxy_step s (goes i Finished (let_go i p) s)"
| s_shut_under: "at_point s i = Pump 0 \<Longrightarrow> reclaim (px s) = None \<Longrightarrow> proxy_step s (goes i Top (px s) s)"
| s_cut_off: "mover s = None \<Longrightarrow> cut_off_kind v = Inr g \<Longrightarrow>
    proxy_step s (s\<lparr>px := cut_off_close g (px s), mover := Some g\<rparr>)"
| s_drained: "mover s = Some g \<Longrightarrow> px_delivering (px s) = 0 \<Longrightarrow> proxy_step s (s\<lparr>mover := None\<rparr>)"
| s_restore: "mover s = None \<Longrightarrow> proxy_step s (s\<lparr>px := restore (px s), since_closed := {}\<rparr>)"
| s_set_latency: "set_latency ms (px s) = Inr p \<Longrightarrow> proxy_step s (s\<lparr>px := p\<rparr>)"
| s_reset_counters: "proxy_step s (s\<lparr>px := reset_counters (px s)\<rparr>)"

inductive_cases proxy_stepE: "proxy_step s t"

inductive proxy_reach :: "resp_proxy \<Rightarrow> proxy_system \<Rightarrow> bool" for p0 where
  at_start: "proxy_reach p0 \<lparr>px = p0, at_point = (\<lambda>_. NotYet), upstream = {}, mover = None, since_closed = {}\<rparr>"
| after_step: "proxy_reach p0 s \<Longrightarrow> proxy_step s t \<Longrightarrow> proxy_reach p0 t"

section \<open>The promise of a cut-off\<close>

definition writers :: "proxy_system \<Rightarrow> nat set" where
  "writers s = {i. \<exists>n. at_point s i = Writing n}"

lemma goes_simps [simp]:
  "px (goes i pt p s) = p" "upstream (goes i pt p s) = upstream s" "mover (goes i pt p s) = mover s"
  "since_closed (goes i pt p s) = since_closed s"
  "at_point (goes i pt p s) j = (if j = i then pt else at_point s j)"
  by (simp_all add: goes_def)

lemmas proxy_op_defs =
  accept_connection_def turn_away_def take_on_def let_go_def upstream_opened_def reclaim_def
  begin_delivery_def end_delivery_def cut_off_close_def restore_def reset_counters_def set_latency_def

text \<open>What one connection does to the set of the writers.\<close>

lemma writers_goes:
  "writers (goes i pt p s) = (if \<exists>n. pt = Writing n then insert i (writers s) else writers s - {i})"
  by (auto simp: writers_def)

lemma writers_upd [simp]:
  "writers (s\<lparr>since_closed := c\<rparr>) = writers s" "writers (s\<lparr>upstream := u\<rparr>) = writers s"
  "writers (s\<lparr>mover := m\<rparr>) = writers s" "writers (s\<lparr>px := p\<rparr>) = writers s"
  by (simp_all add: writers_def)

lemma writers_mem: "i \<in> writers s \<longleftrightarrow> (\<exists>n. at_point s i = Writing n)"
  by (simp add: writers_def)

text \<open>The counter of the deliveries is the number of the writers, and the gate is shut while a cut-off waits.\<close>

definition delivery_inv :: "proxy_system \<Rightarrow> bool" where
  "delivery_inv s \<longleftrightarrow> finite (writers s) \<and> px_delivering (px s) = int (card (writers s))
     \<and> (px_state (px s) \<noteq> FORWARDING \<and> mover s = None \<longrightarrow> px_delivering (px s) = 0)
     \<and> (mover s \<noteq> None \<longrightarrow> px_state (px s) \<noteq> FORWARDING)"

lemma cut_off_kind_closes: "cut_off_kind v = Inr g \<Longrightarrow> g \<noteq> FORWARDING"
  by (auto simp: cut_off_kind_def split: if_splits)

lemma delivery_inv_step:
  assumes "proxy_step s t" and "delivery_inv s"
  shows "delivery_inv t"
  using assms
proof cases
  case (s_write i n p)
  then have "i \<notin> writers s" by (simp add: writers_mem)
  with s_write assms(2) show ?thesis
    by (auto simp: delivery_inv_def writers_goes proxy_op_defs split: if_splits)
next
  case (s_written i n)
  then have "i \<in> writers s" by (simp add: writers_mem)
  with s_written assms(2) show ?thesis
    by (auto simp: delivery_inv_def writers_goes proxy_op_defs card_Diff_singleton int_ops(6) card_gt_0_iff)
next
  case (s_write_failed i n)
  then have "i \<in> writers s" by (simp add: writers_mem)
  with s_write_failed assms(2) show ?thesis
    by (auto simp: delivery_inv_def writers_goes proxy_op_defs card_Diff_singleton int_ops(6) card_gt_0_iff)
next
  case (s_cut_off v g)
  with assms(2) cut_off_kind_closes show ?thesis
    by (auto simp: delivery_inv_def proxy_op_defs)
qed (auto simp: delivery_inv_def writers_goes writers_mem proxy_op_defs split: if_splits)

text \<open>A connection that was accepted with the gate shut has not reached the store.\<close>

definition shut_point :: "conn_point \<Rightarrow> bool" where
  "shut_point pt \<longleftrightarrow> pt \<in> {Top, Finished, Accepted TIMEOUT, Accepted ERROR, HasRead TIMEOUT, HasRead ERROR}"

definition held_inv :: "proxy_system \<Rightarrow> bool" where
  "held_inv s \<longleftrightarrow> (px_state (px s) = FORWARDING \<longrightarrow> since_closed s = {})
     \<and> (\<forall>i \<in> since_closed s. i \<notin> upstream s \<and> shut_point (at_point s i))
     \<and> (\<forall>i \<in> upstream s. at_point s i \<noteq> NotYet)"

lemma not_forwarding: "g \<noteq> FORWARDING \<longleftrightarrow> g = TIMEOUT \<or> g = ERROR"
  by (cases g) auto

lemma held_inv_step:
  assumes "proxy_step s t" and "held_inv s"
  shows "held_inv t"
  using assms
  by cases (auto simp: held_inv_def shut_point_def proxy_op_defs not_forwarding cut_off_kind_def split: if_splits)

lemma proxy_reach_inv:
  assumes "proxy_reach p0 s" and "px_delivering p0 = 0" and "px_state p0 = FORWARDING"
  shows "delivery_inv s \<and> held_inv s"
  using assms
  by (induction rule: proxy_reach.induct)
    (auto simp: delivery_inv_def [of "\<lparr>px = _, at_point = _, upstream = _, mover = _, since_closed = _\<rparr>"]
      held_inv_def [of "\<lparr>px = _, at_point = _, upstream = _, mover = _, since_closed = _\<rparr>"] writers_def
      intro: delivery_inv_step held_inv_step)

lemma new_proxy_inv:
  "proxy_reach (new_proxy name target idle) s \<Longrightarrow> delivery_inv s \<and> held_inv s"
  by (erule proxy_reach_inv) (simp_all add: new_proxy_def)

text \<open>A cut-off of an idle proxy, up to its wait.\<close>

definition first_cut :: "resp_proxy \<Rightarrow> proxy_gate \<Rightarrow> proxy_system" where
  "first_cut p g = \<lparr>px = cut_off_close g p, at_point = (\<lambda>_. NotYet), upstream = {}, mover = Some g, since_closed = {}\<rparr>"

lemma first_cut_reach: "cut_off_kind v = Inr g \<Longrightarrow> proxy_reach p (first_cut p g)"
  using after_step [OF at_start s_cut_off, of p] by (simp add: first_cut_def)

text \<open>
  C7. After a cut-off has answered, and until a restore, nothing is written in either direction,
  whatever the threads of the connections were doing when it came; and a connection that was
  accepted while the gate was shut has not reached the store.
\<close>

theorem cut_off_keeps_promise:
  assumes "proxy_reach (new_proxy name target idle) s" and "mover s = None"
    and "px_state (px s) \<noteq> FORWARDING"
  shows "(\<forall>i n. at_point s i \<noteq> Writing n) \<and> (\<forall>i \<in> since_closed s. i \<notin> upstream s)"
proof -
  from new_proxy_inv [OF assms(1)] have inv: "delivery_inv s" "held_inv s" by auto
  with assms(2,3) have "writers s = {}" by (auto simp: delivery_inv_def)
  with inv(2) show ?thesis by (auto simp: held_inv_def writers_def)
qed

theorem cut_off_keeps_promise_witness:
  "\<exists>s. proxy_reach (new_proxy ''primary'' ''store:6379'' 120) s \<and> mover s = None \<and> px_state (px s) = TIMEOUT
     \<and> (\<forall>i n. at_point s i \<noteq> Writing n)"
proof -
  let ?p = "new_proxy ''primary'' ''store:6379'' 120"
  have "proxy_reach ?p (first_cut ?p TIMEOUT)"
    by (rule first_cut_reach [of "VStr ''timeout''"]) (simp add: cut_off_kind_def)
  moreover have "proxy_step (first_cut ?p TIMEOUT) ((first_cut ?p TIMEOUT)\<lparr>mover := None\<rparr>)"
    by (rule s_drained) (simp_all add: first_cut_def cut_off_close_def new_proxy_def)
  ultimately have reach: "proxy_reach ?p ((first_cut ?p TIMEOUT)\<lparr>mover := None\<rparr>)" by (rule after_step)
  have "px_state (px ((first_cut ?p TIMEOUT)\<lparr>mover := None\<rparr>)) = TIMEOUT"
    by (simp add: first_cut_def cut_off_close_def)
  with reach cut_off_keeps_promise [OF reach] show ?thesis by force
qed

text \<open>While a cut-off waits, a delivery can only end, and there is a way for it to answer.\<close>

lemma draining_step:
  assumes "proxy_step s t" and "delivery_inv s" and "mover s = Some g"
  shows "px_delivering (px t) \<le> px_delivering (px s)"
  using assms by cases (auto simp: delivery_inv_def proxy_op_defs split: if_splits)

lemma draining_run:
  assumes "delivery_inv s" and "mover s = Some g" and "card (writers s) = k"
  shows "\<exists>t. proxy_step\<^sup>*\<^sup>* s t \<and> mover t = None \<and> px_state (px t) = px_state (px s)"
  using assms
proof (induction k arbitrary: s)
  case 0
  then have "proxy_step s (s\<lparr>mover := None\<rparr>)" by (intro s_drained) (simp_all add: delivery_inv_def)
  then show ?case by (intro exI [of _ "s\<lparr>mover := None\<rparr>"]) auto
next
  case (Suc k)
  then obtain i n where i: "at_point s i = Writing n" by (force simp: writers_def card_Suc_eq)
  let ?t = "goes i (Pump n) (end_delivery (px s)) s"
  have step: "proxy_step s ?t" using i by (rule s_written)
  have "i \<in> writers s" and "finite (writers s)"
    using i Suc.prems(1) by (simp_all add: writers_mem delivery_inv_def)
  then have "card (writers ?t) = k" using Suc.prems(3) by (simp add: writers_goes)
  moreover have "delivery_inv ?t" using step Suc.prems(1) by (rule delivery_inv_step)
  moreover have "mover ?t = Some g" using Suc.prems(2) by simp
  ultimately obtain t where "proxy_step\<^sup>*\<^sup>* ?t t" "mover t = None" "px_state (px t) = px_state (px ?t)"
    using Suc.IH by blast
  with step show ?case by (auto simp: end_delivery_def intro: converse_rtranclp_into_rtranclp)
qed

text \<open>
  A cut-off is not kept waiting for ever by new traffic: while it waits no step adds a
  delivery, and from every such state the deliveries that run can end one by one and the cut-off
  answers with the gate still shut.
\<close>

theorem cut_off_drains:
  assumes "proxy_reach (new_proxy name target idle) s" and "mover s = Some g"
  shows "(\<forall>t. proxy_step s t \<longrightarrow> px_delivering (px t) \<le> px_delivering (px s))
    \<and> (\<exists>t. proxy_step\<^sup>*\<^sup>* s t \<and> mover t = None \<and> px_state (px t) = px_state (px s)
          \<and> px_state (px t) \<noteq> FORWARDING)"
proof -
  from new_proxy_inv [OF assms(1)] have inv: "delivery_inv s" by simp
  with assms(2) have "px_state (px s) \<noteq> FORWARDING" by (simp add: delivery_inv_def)
  with draining_run [OF inv assms(2) refl] draining_step [OF _ inv assms(2)] show ?thesis by metis
qed

theorem cut_off_drains_witness:
  "\<exists>s t. proxy_reach (new_proxy ''primary'' ''store:6379'' 120) s \<and> mover s = Some ERROR
     \<and> proxy_step\<^sup>*\<^sup>* s t \<and> mover t = None"
proof -
  let ?p = "new_proxy ''primary'' ''store:6379'' 120"
  have reach: "proxy_reach ?p (first_cut ?p ERROR)"
    by (rule first_cut_reach [of "VStr ''error''"]) (simp add: cut_off_kind_def)
  moreover have "mover (first_cut ?p ERROR) = Some ERROR" by (simp add: first_cut_def)
  ultimately show ?thesis using cut_off_drains [OF reach] by blast
qed

end
