(* ===== verification/ControlApi.thy ===== *)
theory ControlApi
  imports ControlRules PortGate Registry CacheSim RespProxy Head LavaChain
    "HOL-Library.Char_ord" "HOL-Library.List_Lexorder"
begin

text \<open>
  The routes of \<open>ControlApi\<close> in \<open>control_api.py\<close> that change the simulator: \<open>apply_scenario\<close>, the
  resets, \<open>advance\<close>, the staging of a cache, and the sweep of stale scenarios of \<open>server.py\<close>.

  The state holds the registry, the heads of the chains, the gates of the ports, the caches and
  the proxies. \<open>port_lock\<close> makes each of these calls one step. What a wait for a port gives is an
  argument, indexed by the port, the wished state and the ticket; what the loop of a port does
  meanwhile is the step relation of \<open>PortGate\<close>. The clocks are arguments.
\<close>

section \<open>State\<close>

type_synonym chain_heads = "(string, (string, head) dict) dict"

type_synonym gates = "(int, (provider_id \<times> endpoint) \<times> port_gate) dict"

record control =
  registry_of :: registry
  chain_heads_of :: chain_heads
  port_gates :: gates
  caches_of :: cache_registry
  proxies_of :: proxy_registry

type_synonym answer = "stop + int \<times> pyval"

definition SUI_BASE_CHECKPOINT :: int where
  "SUI_BASE_CHECKPOINT = 200000000"

text \<open>
  \<open>CHAINS\<close>, as far as the control API reads it: the heads that \<open>iter_heads\<close> gives. The chain ln
  reads the head of btc and owns none.
\<close>

definition CHAINS :: chain_heads where
  "CHAINS =
    [(''eth'', [(''default'', new_head (case int_of_hex ETH_LATEST_BLOCK of Some n \<Rightarrow> n | None \<Rightarrow> 0))]),
     (''btc'', [(''default'', new_head BTC_LATEST_BLOCK)]),
     (''ln'', []),
     (''solana'', [(''default'', new_head SOLANA_BASE_SLOT)]),
     (''lava'', [(''grpc'', new_head GRPC_LATEST_BLOCK), (''rest'', new_head REST_LATEST_HEIGHT),
                 (''tendermintrpc'', new_head TM_LATEST_HEIGHT)]),
     (''sui'', [(''default'', new_head SUI_BASE_CHECKPOINT)]),
     (''suit'', [(''default'', new_head SUI_BASE_CHECKPOINT)])]"

definition new_control :: "registry \<Rightarrow> control" where
  "new_control reg = \<lparr>registry_of = reg, chain_heads_of = CHAINS, port_gates = [], caches_of = [], proxies_of = []\<rparr>"

text \<open>A change of the providers in place: an object that the registry holds is written through its id.\<close>

definition map_providers :: "(provider_id \<Rightarrow> provider \<Rightarrow> provider) \<Rightarrow> registry \<Rightarrow> registry" where
  "map_providers f reg = reg\<lparr>pools :=
     map (\<lambda>(n, pl). (n, pl\<lparr>providers := map (\<lambda>(i, p). (i, f (n, i) p)) (providers pl)\<rparr>)) (pools reg)\<rparr>"

definition put_provider :: "provider_id \<Rightarrow> provider \<Rightarrow> registry \<Rightarrow> registry" where
  "put_provider k p = map_providers (\<lambda>k' q. if k' = k then p else q)"

text \<open>The ids of all providers in the order of \<open>all_providers\<close>.\<close>

definition provider_ids :: "registry \<Rightarrow> provider_id list" where
  "provider_ids reg = concat (map (\<lambda>(n, pl). map (\<lambda>(i, p). (n, i)) (providers pl)) (pools reg))"

section \<open>Ports that a scenario closes\<close>

text \<open>\<open>gate.wants_closed()\<close> reads the scenario of the provider that the gate was made for.\<close>

definition gate_wants_closed :: "registry \<Rightarrow> provider_id \<times> endpoint \<Rightarrow> pyerr + bool" where
  "gate_wants_closed reg own =
     bind_r (find_provider reg (fst (fst own)) (snd (fst own))) (\<lambda>p. wants_closed p (snd own))"

fun port_wishes :: "registry \<Rightarrow> gates \<Rightarrow> endpoint list \<Rightarrow> pyerr + (int \<times> bool) list" where
  "port_wishes reg gs [] = Inr []"
| "port_wishes reg gs (ep # eps) = (case map_of gs (port ep) of
     None \<Rightarrow> port_wishes reg gs eps
   | Some (own, g) \<Rightarrow>
       bind_r (gate_wants_closed reg own) (\<lambda>shut.
         bind_r (port_wishes reg gs eps) (\<lambda>ws. Inr ((port ep, \<not> shut) # ws))))"

text \<open>\<open>_settle_ports\<close>: the gates that are asked, each with the wished state and the ticket.\<close>

fun ask_gates :: "gates \<Rightarrow> (int \<times> bool) list \<Rightarrow> (int \<times> bool \<times> int) list \<times> gates" where
  "ask_gates gs [] = ([], gs)"
| "ask_gates gs ((prt, want_open) # ws) = (case map_of gs prt of
     None \<Rightarrow> ask_gates gs ws
   | Some (own, g) \<Rightarrow>
       if last_report g = Some want_open then ask_gates gs ws
       else (case ask g of ((ticket, woken), g') \<Rightarrow>
         (case ask_gates (AList.update prt (own, g') gs) ws of
            (asked, gs') \<Rightarrow> ((prt, want_open, ticket) # asked, gs'))))"

type_synonym waits = "int \<Rightarrow> bool \<Rightarrow> int \<Rightarrow> bool"

definition settle_ports :: "waits \<Rightarrow> (int \<times> bool) list \<Rightarrow> gates \<Rightarrow> (int \<times> bool) list \<times> gates" where
  "settle_ports waits wishes gs = (case ask_gates gs wishes of
     (asked, gs') \<Rightarrow> (map (\<lambda>(prt, want, t). (prt, want)) (filter (\<lambda>(prt, want, t). \<not> waits prt want t) asked), gs'))"

definition ports_closed_by_scenario :: "control \<Rightarrow> pyerr + int list" where
  "ports_closed_by_scenario c =
     bind_r (filter_r (\<lambda>(prt, own, g). gate_wants_closed (registry_of c) own) (port_gates c))
       (\<lambda>gs. Inr (sort (map fst gs)))"

section \<open>POST /scenario\<close>

text \<open>The first loop: every block is checked with nothing written.\<close>

fun stage_blocks :: "control \<Rightarrow> sdict \<Rightarrow> stop + (provider_id \<times> sdict \<times> sdict) list" where
  "stage_blocks c [] = Inr []"
| "stage_blocks c ((key, block) # rest) =
     (if \<not> is_dict block then Inl (Refuse 400 BlockNotObject)
      else if CHR '':'' \<notin> set key then Inl (Refuse 400 KeyNotPoolPid)
      else (case partition_on CHR '':'' key of (pl, i) \<Rightarrow>
        (case find_provider (registry_of c) pl i of
           Inl e \<Rightarrow> Inl (Refuse 400 NoSuchProvider)
         | Inr p \<Rightarrow>
             bind_r (check_block (dict_keys (port_gates c)) p (text_items block)) (\<lambda>(su, qu).
               bind_r (stage_blocks c rest) (\<lambda>staged. Inr (((pl, i), su, qu) # staged))))))"

text \<open>The second loop: one block is written. A refusal here would leave what is written so far.\<close>

definition write_block :: "rat \<Rightarrow> sdict \<Rightarrow> sdict \<Rightarrow> provider \<Rightarrow> stop option \<times> provider" where
  "write_block now su qu p0 =
     (let p = (if map_of su ''fail_first_n'' \<noteq> None then reset_fail p0 else p0)
      in (case cfg_update ScenarioConfig now su (scenario p) of
            Inl e \<Rightarrow> (Some (caught ConfigRefused e), p)
          | Inr sc \<Rightarrow>
              let p1 = p\<lparr>scenario := sc\<rparr>
              in if qu = [] then (None, p1)
                 else (case cfg_update (quirks_class p1) now qu (quirks p1) of
                         Inl e \<Rightarrow> (Some (caught ConfigRefused e), p1)
                       | Inr q \<Rightarrow> (None, p1\<lparr>quirks := q\<rparr>))))"

fun write_blocks ::
  "rat \<Rightarrow> gates \<Rightarrow> (provider_id \<times> sdict \<times> sdict) list \<Rightarrow> registry \<Rightarrow> (stop + (int \<times> bool) list) \<times> registry" where
  "write_blocks now gs [] reg = (Inr [], reg)"
| "write_blocks now gs ((k, su, qu) # rest) reg = (case find_provider reg (fst k) (snd k) of
     Inl e \<Rightarrow> (Inl (Raise e), reg)
   | Inr p \<Rightarrow> (case write_block now su qu p of
       (Some st, p') \<Rightarrow> (Inl st, put_provider k p' reg)
     | (None, p') \<Rightarrow>
         let reg' = put_provider k p' reg
         in (case port_wishes reg' gs (endpoints p') of
               Inl e \<Rightarrow> (Inl (Raise e), reg')
             | Inr ws \<Rightarrow> (case write_blocks now gs rest reg' of
                 (r, reg'') \<Rightarrow> (bind_r r (\<lambda>more. Inr (ws @ more)), reg'')))))"

definition applied_fields :: "(provider_id \<times> sdict \<times> sdict) list \<Rightarrow> sdict" where
  "applied_fields staged = map (\<lambda>((pl, i), su, qu).
     (pl @ '':'' @ i, jobj (filter (\<lambda>(f, v). f \<noteq> ''responses'') (dict_merge su qu)))) staged"

definition apply_scenario :: "rat \<Rightarrow> waits \<Rightarrow> pyval \<Rightarrow> control \<Rightarrow> answer \<times> control" where
  "apply_scenario now waits body c =
     (if \<not> is_dict body then (Inl (Refuse 400 BodyNotObject), c)
      else if \<not> is_dict (vget_or body ''providers'' VNone) then (Inl (Refuse 400 MissingProviders), c)
      else (case stage_blocks c (text_items (vget_or body ''providers'' VNone)) of
              Inl st \<Rightarrow> (Inl st, c)
            | Inr staged \<Rightarrow> (case write_blocks now (port_gates c) staged (registry_of c) of
                (Inl st, reg) \<Rightarrow> (Inl st, c\<lparr>registry_of := reg\<rparr>)
              | (Inr wishes, reg) \<Rightarrow> (case settle_ports waits wishes (port_gates c) of
                  (stuck, gs) \<Rightarrow>
                    (if stuck \<noteq> [] then Inl (Refuse 500 (NotSettled stuck (applied_fields staged)))
                     else Inr (200, jobj [(''status'', VStr ''ok''), (''applied'', jobj (applied_fields staged))]),
                     c\<lparr>registry_of := reg, port_gates := gs\<rparr>)))))"

section \<open>Resets\<close>

text \<open>What one reset touches: the ids of the providers and the names of the chains.\<close>

definition scope :: "pyval \<Rightarrow> control \<Rightarrow> stop + provider_id list \<times> string list" where
  "scope pool c = (case pool of
     VNone \<Rightarrow> Inr (provider_ids (registry_of c), dict_keys (chain_heads_of c))
   | VStr n \<Rightarrow> (case map_of (pools (registry_of c)) n of
       None \<Rightarrow> Inl (Refuse 400 NoSuchPool)
     | Some pl \<Rightarrow> Inr (map (\<lambda>(i, p). (n, i)) (providers pl),
                       if map_of (chain_heads_of c) (pl_chain pl) \<noteq> None then [pl_chain pl] else []))
   | _ \<Rightarrow> Inl (Refuse 400 PoolNotText))"

text \<open>No configuration class has a field without a default, so \<open>reset\<close> raises nothing here.\<close>

definition reset_provider :: "bool \<Rightarrow> bool \<Rightarrow> provider \<Rightarrow> provider" where
  "reset_provider scen hist p0 =
     (let p = (if scen
               then forget_executed (reset_fail (p0\<lparr>scenario := fst (cfg_reset ScenarioConfig (scenario p0)),
                                                     quirks := fst (cfg_reset (quirks_class p0) (quirks p0))\<rparr>))
               else p0)
      in if hist then p\<lparr>p_log := clear (p_log p)\<rparr> else p)"

definition reset_heads :: "string list \<Rightarrow> chain_heads \<Rightarrow> chain_heads" where
  "reset_heads names table =
     map (\<lambda>(n, hs). (n, if n \<in> set names then map (\<lambda>(h, hd). (h, head_reset hd)) hs else hs)) table"

text \<open>\<open>sim.stage(mode=DEFAULT_CACHE_MODE)\<close>, which nothing refuses.\<close>

definition default_staging :: staging where
  "default_staging = \<lparr>sg_mode = DEFAULT_MODE, sg_entry = None, sg_latency_ms = 0, sg_error_status = VNone,
     sg_error_message = VNone, sg_malformed_body = VNone, sg_seen_block = None\<rparr>"

definition reset_cache :: "bool \<Rightarrow> bool \<Rightarrow> cache_sim \<Rightarrow> cache_sim" where
  "reset_cache scen hist s =
     (if scen \<and> hist then cache_sim_reset s
      else if scen then (case stage [] default_staging s of Inr s' \<Rightarrow> s' | Inl e \<Rightarrow> s)
      else if hist then clear_calls s
      else s)"

fun wishes_of :: "registry \<Rightarrow> gates \<Rightarrow> provider_id list \<Rightarrow> pyerr + (int \<times> bool) list" where
  "wishes_of reg gs [] = Inr []"
| "wishes_of reg gs (k # ks) =
     bind_r (find_provider reg (fst k) (snd k)) (\<lambda>p.
       bind_r (port_wishes reg gs (endpoints p)) (\<lambda>ws.
         bind_r (wishes_of reg gs ks) (\<lambda>more. Inr (ws @ more))))"

definition key_text_of :: "provider_id \<Rightarrow> string" where
  "key_text_of k = fst k @ '':'' @ snd k"

definition texts :: "string list \<Rightarrow> pyval" where
  "texts xs = VList (map VStr xs)"

definition perform_reset ::
  "waits \<Rightarrow> pyval \<Rightarrow> bool \<Rightarrow> bool \<Rightarrow> string \<Rightarrow> control \<Rightarrow> answer \<times> control" where
  "perform_reset waits pool scen hist status c = (case scope pool c of
     Inl st \<Rightarrow> (Inl st, c)
   | Inr (ids, chs) \<Rightarrow>
       let heads = (if scen then reset_heads chs (chain_heads_of c) else chain_heads_of c);
           reg = map_providers (\<lambda>k p. if k \<in> set ids then reset_provider scen hist p else p) (registry_of c);
           caches = (if pool = VNone then map (\<lambda>(n, s). (n, reset_cache scen hist s)) (caches_of c) else caches_of c);
           opened = (if pool = VNone \<and> scen then restore_all (proxies_of c) else proxies_of c);
           c1 = c\<lparr>registry_of := reg, chain_heads_of := heads, caches_of := caches, proxies_of := clear_latency_all opened\<rparr>
       in (case (if scen then wishes_of reg (port_gates c) ids else Inr []) of
             Inl e \<Rightarrow> (Inl (Raise e), c1)
           | Inr wishes \<Rightarrow> (case settle_ports waits wishes (port_gates c) of
               (stuck, gs) \<Rightarrow>
                 (if stuck \<noteq> [] then Inl (Refuse 500 (NotSettled stuck []))
                  else Inr (200, jobj
                    [(''status'', VStr status), (''pool'', pool),
                     (''providers'', texts (sort (map key_text_of ids))),
                     (''chains'', texts (if scen then sort (remdups chs) else [])),
                     (''caches'', texts (if pool = VNone then sort (dict_keys (caches_of c)) else [])),
                     (''resp_proxies'', texts (if pool = VNone \<and> scen then sort (dict_keys (proxies_of c)) else []))]),
                  c1\<lparr>port_gates := gs\<rparr>))))"

definition reset :: "waits \<Rightarrow> pyval \<Rightarrow> control \<Rightarrow> answer \<times> control" where
  "reset waits pool = perform_reset waits pool True False ''scenario reset''"

definition clear_history :: "waits \<Rightarrow> pyval \<Rightarrow> control \<Rightarrow> answer \<times> control" where
  "clear_history waits pool = perform_reset waits pool False True ''history cleared''"

definition reset_all :: "waits \<Rightarrow> pyval \<Rightarrow> control \<Rightarrow> answer \<times> control" where
  "reset_all waits pool = perform_reset waits pool True True ''scenario reset and history cleared''"

section \<open>POST /advance\<close>

definition put_head :: "string \<Rightarrow> string \<Rightarrow> head \<Rightarrow> chain_heads \<Rightarrow> chain_heads" where
  "put_head chain name h table =
     map (\<lambda>(n, hs). (n, if n = chain then AList.update name h hs else hs)) table"

text \<open>\<open>{name: h.current() for name, h in sorted(heads.items())}\<close>.\<close>

fun read_heads :: "rat \<Rightarrow> (string, head) dict \<Rightarrow> pyerr + sdict" where
  "read_heads now [] = Inr []"
| "read_heads now ((n, h) # hs) =
     bind_r (current now h) (\<lambda>v. bind_r (read_heads now hs) (\<lambda>more. Inr ((n, VInt v) # more)))"

definition number_refused :: "pyval \<Rightarrow> string \<Rightarrow> refusal option" where
  "number_refused body f = (case vget body f of None \<Rightarrow> None | Some v \<Rightarrow> bad_number f v)"

definition is_move :: "pyval \<Rightarrow> bool" where
  "is_move body \<longleftrightarrow> has_key body ''per_second'' \<or> \<not> py_eq (vget_or body ''blocks'' (VInt 0)) (VInt 0)"

text \<open>Which head a body means: \<open>None\<close> is the read of a chain with several.\<close>

definition chosen_head :: "pyval \<Rightarrow> (string, head) dict \<Rightarrow> stop + string option" where
  "chosen_head body hs = (case vget_or body ''head'' VNone of
     VNone \<Rightarrow> (case hs of
         [(n, h)] \<Rightarrow> Inr (Some n)
       | _ \<Rightarrow> if is_move body then Inl (Refuse 400 WhichHead) else Inr None)
   | name \<Rightarrow>
       if \<not> hashable name then Inl (Raise TypeError)
       else (case name of
               VStr n \<Rightarrow> if n \<in> set (dict_keys hs) then Inr (Some n) else Inl (Refuse 400 NoSuchHead)
             | _ \<Rightarrow> Inl (Refuse 400 NoSuchHead)))"

text \<open>The two writes of a move. A rate that raises leaves what \<open>set_rate\<close> did. The clock shows one moment during the call.\<close>

definition move_head :: "rat \<Rightarrow> pyval \<Rightarrow> head \<Rightarrow> pyerr option \<times> head" where
  "move_head now body h0 =
     (case (case vget body ''per_second'' of None \<Rightarrow> (None, h0) | Some r \<Rightarrow> set_rate now now r h0) of
        (Some e, h) \<Rightarrow> (Some e, h)
      | (None, h) \<Rightarrow> (case vget body ''blocks'' of
            Some (VInt n) \<Rightarrow> (None, bump n h)
          | _ \<Rightarrow> (None, h)))"

definition advance :: "rat \<Rightarrow> pyval \<Rightarrow> control \<Rightarrow> answer \<times> control" where
  "advance now body c =
     (if \<not> is_dict body then (Inl (Refuse 400 BodyNotObject), c)
      else (case vget_or body ''chain'' (VStr ''eth'') of
         VStr chain \<Rightarrow> (case map_of (chain_heads_of c) chain of
             None \<Rightarrow> (Inl (Refuse 400 NoSuchChain), c)
           | Some hs \<Rightarrow>
               if hs = [] then (Inl (Refuse 400 NoAdvanceableHead), c)
               else (case first_refusal (number_refused body) [''blocks'', ''per_second''] of
                   Some why \<Rightarrow> (Inl (Refuse 400 why), c)
                 | None \<Rightarrow> (case chosen_head body hs of
                     Inl st \<Rightarrow> (Inl st, c)
                   | Inr chosen \<Rightarrow>
                       let moved = (case chosen of
                             None \<Rightarrow> (None, c)
                           | Some n \<Rightarrow> (case move_head now body (the (map_of hs n)) of
                               (e, h) \<Rightarrow> (e, c\<lparr>chain_heads_of := put_head chain n h (chain_heads_of c)\<rparr>)))
                       in (case moved of
                             (Some e, c') \<Rightarrow> (Inl (Raise e), c')
                           | (None, c') \<Rightarrow>
                               (case read_heads now (sort_key fst (the (map_of (chain_heads_of c') chain))) of
                                  Inl e \<Rightarrow> (Inl (Raise e), c')
                                | Inr vals \<Rightarrow>
                                    (Inr (200, jobj
                                      [(''status'', VStr ''ok''), (''chain'', VStr chain),
                                       (''head_name'', case chosen of None \<Rightarrow> VNone | Some n \<Rightarrow> VStr n),
                                       (''heads'', jobj vals),
                                       (''head'', case chosen of None \<Rightarrow> VNone | Some n \<Rightarrow> get_or vals n VNone)]),
                                     c'))))))
       | _ \<Rightarrow> (Inl (Refuse 400 ChainNotText), c)))"

section \<open>The sweep of stale scenarios\<close>

text \<open>\<open>_revert_stale_scenarios\<close> in \<open>server.py\<close>, for one time to live.\<close>

definition stale :: "int \<Rightarrow> rat \<Rightarrow> provider \<Rightarrow> bool" where
  "stale ttl_s now p \<longleftrightarrow> of_int ttl_s < now - last_write_at now (scenario p)
     \<and> get_or (cfg_snapshot ScenarioConfig (scenario p)) ''mode'' VNone \<noteq> VStr ''success''"

definition revert_scenario :: "provider \<Rightarrow> provider" where
  "revert_scenario p = p\<lparr>scenario := fst (cfg_reset ScenarioConfig (scenario p))\<rparr>"

definition stale_ids :: "int \<Rightarrow> rat \<Rightarrow> registry \<Rightarrow> provider_id list" where
  "stale_ids ttl_s now reg =
     concat (map (\<lambda>(n, pl). map (\<lambda>(i, p). (n, i)) (filter (\<lambda>(i, p). stale ttl_s now p) (providers pl))) (pools reg))"

definition revert_stale_scenarios :: "waits \<Rightarrow> int \<Rightarrow> rat \<Rightarrow> control \<Rightarrow> pyerr option \<times> control" where
  "revert_stale_scenarios waits ttl_s now c =
     (let ids = stale_ids ttl_s now (registry_of c);
          reg = map_providers (\<lambda>k p. if stale ttl_s now p then revert_scenario p else p) (registry_of c)
      in (case wishes_of reg (port_gates c) ids of
            Inl e \<Rightarrow> (Some e, c\<lparr>registry_of := reg\<rparr>)
          | Inr wishes \<Rightarrow> (None, c\<lparr>registry_of := reg, port_gates := snd (settle_ports waits wishes (port_gates c))\<rparr>)))"

section \<open>Caches\<close>

definition as_int :: "(pyval \<Rightarrow> string) \<Rightarrow> pyval \<Rightarrow> int \<Rightarrow> int" where
  "as_int other v d = (case int_of_text (py_str other v) of None \<Rightarrow> d | Some i \<Rightarrow> i)"

definition cache_head :: "pyval \<Rightarrow> pyerr + int option" where
  "cache_head body = (case vget_or body ''seen_block'' VNone of
     VNone \<Rightarrow> Inr None
   | VInt n \<Rightarrow> if n < 0 then Inl ValueError else Inr (Some n)
   | _ \<Rightarrow> Inl ValueError)"

text \<open>The entry that a body stages: none when it is absent or an empty object.\<close>

definition staged_entry :: "(pyfloat \<Rightarrow> string) \<Rightarrow> pyval \<Rightarrow> pyerr + cache_entry option" where
  "staged_entry fl entry =
     (if truthy entry then bind_r (from_dict fl (text_items entry)) (\<lambda>e. Inr (Some e)) else Inr None)"

definition put_cache :: "string \<Rightarrow> cache_sim \<Rightarrow> control \<Rightarrow> control" where
  "put_cache name s c = c\<lparr>caches_of := AList.update name s (caches_of c)\<rparr>"

definition cache_stage ::
  "(pyval \<Rightarrow> string) \<Rightarrow> (pyfloat \<Rightarrow> string) \<Rightarrow> string list \<Rightarrow> string \<Rightarrow> pyval \<Rightarrow> control \<Rightarrow> answer \<times> control" where
  "cache_stage other fl grpc_names name body c =
     (if \<not> is_dict body then (Inl (Refuse 400 BodyNotObject), c)
      else (case map_of (caches_of c) name of
         None \<Rightarrow> (Inl (Refuse 404 NoSuchCache), c)
       | Some s \<Rightarrow>
           let entry = vget_or body ''entry'' VNone
           in if entry \<noteq> VNone \<and> \<not> is_dict entry then (Inl (Refuse 400 EntryNotObject), c)
              else (case cache_head body of
                 Inl e \<Rightarrow> (Inl (caught BadSeenBlock e), c)
               | Inr seen \<Rightarrow>
                   (case bind_r (staged_entry fl entry) (\<lambda>e. stage grpc_names
                        \<lparr>sg_mode = py_str other (vget_or body ''mode'' (VStr ''hit'')), sg_entry = e,
                         sg_latency_ms = as_int other (vget_or body ''latency_ms'' VNone) 0,
                         sg_error_status = vget_or body ''error_status'' VNone,
                         sg_error_message = vget_or body ''error_message'' VNone,
                         sg_malformed_body = vget_or body ''malformed_body'' VNone, sg_seen_block = seen\<rparr> s) of
                      Inl e \<Rightarrow> (Inl (caught StagingRefused e), c)
                    | Inr s' \<Rightarrow> (Inr (200, jobj [(''status'', VStr ''staged''), (''cache'', cache_state s')]),
                                 put_cache name s' c)))))"

definition cache_route ::
  "(cache_sim \<Rightarrow> cache_sim) \<Rightarrow> string \<Rightarrow> string \<Rightarrow> control \<Rightarrow> answer \<times> control" where
  "cache_route f status name c = (case map_of (caches_of c) name of
     None \<Rightarrow> (Inl (Refuse 404 NoSuchCache), c)
   | Some s \<Rightarrow> (Inr (200, jobj [(''status'', VStr status), (''cache'', cache_state (f s))]), put_cache name (f s) c))"

definition cache_reset :: "string \<Rightarrow> control \<Rightarrow> answer \<times> control" where
  "cache_reset = cache_route cache_sim_reset ''reset''"

definition cache_clear_calls :: "string \<Rightarrow> control \<Rightarrow> answer \<times> control" where
  "cache_clear_calls = cache_route clear_calls ''calls cleared''"

end
