(* ===== verification/ControlFacts.thy ===== *)
theory ControlFacts
  imports ControlApi
begin

text \<open>
  What the control API guarantees when it changes the simulator: a \<open>POST /scenario\<close> is all or
  nothing over all its blocks, a reset of a pool leaves every other pool alone and puts its own
  providers back to the defaults, a read of the heads moves nothing, and a port is closed only
  where a listener can close it.
\<close>

section \<open>Well-formed states\<close>

definition ports_ok :: "sdict \<Rightarrow> bool" where
  "ports_ok sc \<longleftrightarrow> get_or sc ''ports'' VNone \<noteq> VNone \<longrightarrow> truthy (get_or sc ''ports'' VNone)"

definition provider_ok :: "provider \<Rightarrow> bool" where
  "provider_ok p \<longleftrightarrow> config_ok ScenarioConfig (scenario p) \<and> quirks_class p \<in> config_classes
     \<and> config_ok (quirks_class p) (quirks p) \<and> filters_ok (cfg_snapshot ScenarioConfig (scenario p))
     \<and> ports_ok (cfg_snapshot ScenarioConfig (scenario p))"

definition reg_ok :: "registry \<Rightarrow> bool" where
  "reg_ok reg \<longleftrightarrow> (\<forall>pl i p. find_provider reg pl i = Inr p \<longrightarrow> provider_ok p)
     \<and> (\<forall>n. map_of (pools reg) n \<noteq> None \<longrightarrow> CHR '':'' \<notin> set n)"

definition gates_ok :: "gates \<Rightarrow> registry \<Rightarrow> bool" where
  "gates_ok gs reg \<longleftrightarrow>
     (\<forall>prt own g. map_of gs prt = Some (own, g) \<longrightarrow> (\<exists>p. find_provider reg (fst (fst own)) (snd (fst own)) = Inr p))"

definition control_ok :: "control \<Rightarrow> bool" where
  "control_ok c \<longleftrightarrow> reg_ok (registry_of c) \<and> gates_ok (port_gates c) (registry_of c)"

lemma gates_okD:
  "gates_ok gs reg \<Longrightarrow> map_of gs prt = Some (own, g) \<Longrightarrow>
   \<exists>p. find_provider reg (fst (fst own)) (snd (fst own)) = Inr p"
  unfolding gates_ok_def by blast

lemma map_of_map_key: "map_of (map (\<lambda>(k, v). (k, f k v)) xs) k = map_option (f k) (map_of xs k)"
  by (induction xs) auto

lemma find_map_providers:
  "find_provider (map_providers f reg) pl i = map_sum id (f (pl, i)) (find_provider reg pl i)"
  by (simp add: find_provider_def map_providers_def map_of_map_key split: option.split)

lemma pools_map_providers:
  "map_of (pools (map_providers f reg)) n = None \<longleftrightarrow> map_of (pools reg) n = None"
  by (simp add: map_providers_def map_of_map_key)

lemma find_put_provider:
  "find_provider reg (fst k) (snd k) = Inr q \<Longrightarrow>
   find_provider (put_provider k p reg) pl i = (if (pl, i) = k then Inr p else find_provider reg pl i)"
  by (cases "find_provider reg pl i") (auto simp: put_provider_def find_map_providers)

lemma reg_ok_map_providers:
  assumes "reg_ok reg" and "\<And>k p. provider_ok p \<Longrightarrow> provider_ok (f k p)"
  shows "reg_ok (map_providers f reg)"
  unfolding reg_ok_def
proof (intro conjI allI impI)
  fix pl i p assume "find_provider (map_providers f reg) pl i = Inr p"
  then obtain q where "find_provider reg pl i = Inr q" "p = f (pl, i) q"
    by (cases "find_provider reg pl i") (auto simp: find_map_providers)
  with assms show "provider_ok p" by (auto simp: reg_ok_def)
next
  fix n assume "map_of (pools (map_providers f reg)) n \<noteq> None"
  with assms(1) show "CHR '':'' \<notin> set n" using pools_map_providers [of f reg n] by (auto simp: reg_ok_def)
qed

lemma gates_ok_map_providers: "gates_ok gs reg \<Longrightarrow> gates_ok gs (map_providers f reg)"
  unfolding gates_ok_def by (metis (no_types, lifting) find_map_providers map_sum.simps(2))

lemma reg_ok_put: "reg_ok reg \<Longrightarrow> provider_ok p \<Longrightarrow> reg_ok (put_provider k p reg)"
  unfolding put_provider_def by (rule reg_ok_map_providers) auto

lemma gates_ok_put: "gates_ok gs reg \<Longrightarrow> gates_ok gs (put_provider k p reg)"
  unfolding put_provider_def by (rule gates_ok_map_providers)

section \<open>Wishes and asks\<close>

lemma wants_closed_total: "provider_ok p \<Longrightarrow> \<exists>b. wants_closed p ep = Inr b"
  using targets_total by (auto simp: provider_ok_def wants_closed_def port_closed_def)

lemma port_wishes_total:
  assumes "reg_ok reg" and "gates_ok gs reg"
  shows "\<exists>ws. port_wishes reg gs eps = Inr ws"
proof (induction eps)
  case (Cons ep eps)
  show ?case
  proof (cases "map_of gs (port ep)")
    case (Some og)
    obtain own g where og: "og = (own, g)" by (cases og)
    with Some assms(2) obtain p where p: "find_provider reg (fst (fst own)) (snd (fst own)) = Inr p"
      using gates_okD by blast
    with assms(1) have "provider_ok p" by (auto simp: reg_ok_def)
    then obtain b where "gate_wants_closed reg own = Inr b"
      using p wants_closed_total [of p "snd own"] by (auto simp: gate_wants_closed_def)
    with Some og Cons show ?thesis by auto
  qed (use Cons in simp)
qed simp

lemma ask_gates_owner:
  "map_option fst (map_of (snd (ask_gates gs ws)) prt) = map_option fst (map_of gs prt)"
proof (induction ws arbitrary: gs)
  case (Cons w ws)
  obtain p want where w: "w = (p, want)" by (cases w)
  show ?case
  proof (cases "map_of gs p")
    case (Some og)
    obtain own g where og: "og = (own, g)" by (cases og)
    obtain t b g' where a: "ask g = ((t, b), g')" by (metis prod.exhaust)
    have "map_option fst (map_of (AList.update p (own, g') gs) prt) = map_option fst (map_of gs prt)"
      using Some og by (simp add: map_of_update)
    with Cons.IH [of "AList.update p (own, g') gs"] Cons.IH [of gs] Some og a w show ?thesis
      by (simp split: prod.split) (metis snd_conv)
  qed (simp add: w Cons.IH)
qed simp

lemma gates_ok_settle: "gates_ok gs reg \<Longrightarrow> gates_ok (snd (settle_ports waits ws gs)) reg"
proof -
  assume ok: "gates_ok gs reg"
  have same: "snd (settle_ports waits ws gs) = snd (ask_gates gs ws)"
    by (simp add: settle_ports_def split: prod.split)
  show ?thesis unfolding same gates_ok_def
  proof (intro allI impI)
    fix prt own g assume "map_of (snd (ask_gates gs ws)) prt = Some (own, g)"
    then obtain g0 where "map_of gs prt = Some (own, g0)"
      using ask_gates_owner [of gs ws prt] by (cases "map_of gs prt") auto
    with ok show "\<exists>p. find_provider reg (fst (fst own)) (snd (fst own)) = Inr p" by (rule gates_okD)
  qed
qed

section \<open>POST /scenario is all or nothing\<close>

text \<open>A value that \<open>json.loads\<close> gives: no bytes and no tuples, and objects with distinct text keys.\<close>

fun json_value :: "pyval \<Rightarrow> bool" where
  "json_value (VBytes _) = False"
| "json_value (VTuple _) = False"
| "json_value (VList vs) = list_all json_value vs"
| "json_value (VDict kvs) =
     (list_all is_str (map fst kvs) \<and> distinct (map fst kvs) \<and> list_all json_value (map snd kvs))"
| "json_value _ = True"

lemma json_value_items:
  assumes "json_value v" and "(k, w) \<in> set (text_items v)"
  shows "json_value w"
  using assms by (cases v) (auto simp: list_all_iff)

lemma json_value_vget: "json_value v \<Longrightarrow> vget v k = Some w \<Longrightarrow> json_value w"
proof (cases v)
  case (VDict kvs)
  moreover have "pd_lookup (VStr k) kvs = Some w \<Longrightarrow> w \<in> set (map snd kvs)"
    by (induction kvs) (auto split: if_splits)
  ultimately show "json_value v \<Longrightarrow> vget v k = Some w \<Longrightarrow> json_value w" by (auto simp: list_all_iff)
qed simp_all

lemma json_value_keys: "json_value v \<Longrightarrow> distinct (dict_keys (text_items v))"
proof (cases v)
  case (VDict kvs)
  assume "json_value v"
  with VDict have "\<forall>k \<in> set (map fst kvs). is_str k" "distinct (map fst kvs)" by (auto simp: list_all_iff)
  then have "distinct (map (\<lambda>kv. key_text (fst kv)) kvs)"
  proof (induction kvs)
    case (Cons kv kvs)
    have "key_text (fst kv) \<noteq> key_text (fst q)" if "q \<in> set kvs" for q
      using Cons.prems that by (cases "fst kv"; cases "fst q") (force simp: image_iff)+
    with Cons show ?case by auto
  qed simp
  with VDict show ?thesis by (simp add: case_prod_beta comp_def)
qed simp_all

text \<open>The fields that a block stages: distinct names, and a value of the block except for \<open>responses\<close>.\<close>

lemma stage_fields_facts:
  assumes "stage_fields sf qf su0 qu0 block = Inr (su, qu)"
  shows "(distinct (dict_keys su0) \<longrightarrow> distinct (dict_keys su)) \<and> (distinct (dict_keys qu0) \<longrightarrow> distinct (dict_keys qu))
    \<and> (\<forall>f v. f \<noteq> ''responses'' \<longrightarrow> map_of su f = Some v \<longrightarrow> map_of su0 f = Some v \<or> (f, v) \<in> set block)"
  using assms
proof (induction sf qf su0 qu0 block rule: stage_fields.induct)
  case (2 sf qf su0 qu0 f v rest)
  then show ?case
    by (auto simp: distinct_update map_of_update
        split: if_splits sum.splits option.splits)
qed simp

lemma check_block_facts:
  assumes "check_block gated p block = Inr (su, qu)"
  shows "cfg_check ScenarioConfig su = None" and "cfg_check (quirks_class p) qu = None"
    and "distinct (dict_keys su)" and "distinct (dict_keys qu)"
    and "map_of su ''transports'' = Some v \<Longrightarrow> (''transports'', v) \<in> set block"
proof -
  from assms have st: "stage_fields (field_names ScenarioConfig) (field_names (quirks_class p)) [] [] block = Inr (su, qu)"
    and cr: "config_rules (quirks_class p) su qu = None"
    by (auto simp: check_block_def bind_r_Inr_iff Let_def split: option.splits sum.splits prod.splits)
  show "cfg_check ScenarioConfig su = None" and "cfg_check (quirks_class p) qu = None"
    using cr by (auto simp: config_rules_def split: option.splits)
  show "distinct (dict_keys su)" and "distinct (dict_keys qu)"
    and "map_of su ''transports'' = Some v \<Longrightarrow> (''transports'', v) \<in> set block"
    using stage_fields_facts [OF st] by auto
qed

text \<open>A provider after an accepted block: the named fields are merged, everything else is kept.\<close>

definition block_written :: "rat \<Rightarrow> sdict \<Rightarrow> sdict \<Rightarrow> provider \<Rightarrow> provider \<Rightarrow> bool" where
  "block_written now su qu p p' \<longleftrightarrow>
     (\<forall>f w. get_or (cfg_snapshot ScenarioConfig (scenario p')) f w
          = get_or su f (get_or (cfg_snapshot ScenarioConfig (scenario p)) f w))
     \<and> (\<forall>f w. get_or (cfg_snapshot (quirks_class p) (quirks p')) f w
          = get_or qu f (get_or (cfg_snapshot (quirks_class p) (quirks p)) f w))
     \<and> last_write (scenario p') = Some now
     \<and> p' = p\<lparr>scenario := scenario p', quirks := quirks p',
              fail_count := (if map_of su ''fail_first_n'' = None then fail_count p else 0)\<rparr>"

lemma filters_ok_merge:
  assumes "filters_ok su" and "filters_ok old" and new: "\<And>f w. get_or new f w = get_or su f (get_or old f w)"
  shows "filters_ok new"
proof -
  have pick: "get_or new f VNone = get_or su f VNone \<or> get_or new f VNone = get_or old f VNone" for f
    using new [of f VNone] by (auto simp: get_or_def split: option.splits)
  define ok_t where "ok_t t \<longleftrightarrow> t = VNone \<or> (\<exists>ts. py_iter t = Inr ts) \<and> \<not> (\<exists>b. t = VBytes b)" for t
  define ok_p where "ok_p ps \<longleftrightarrow> ps = VNone \<or> seq_items ps \<noteq> None" for ps
  have ok: "filters_ok sc \<longleftrightarrow> ok_t (get_or sc ''transports'' VNone) \<and> ok_p (get_or sc ''ports'' VNone)" for sc
    by (simp add: filters_ok_def ok_t_def ok_p_def Let_def)
  show ?thesis using assms(1,2) pick [of "''transports''"] pick [of "''ports''"] unfolding ok by metis
qed

lemma ports_ok_merge:
  assumes "ports_ok su" and "ports_ok old" and "\<And>f w. get_or new f w = get_or su f (get_or old f w)"
  shows "ports_ok new"
  using assms(1,2) assms(3) [of "''ports''" VNone] by (auto simp: ports_ok_def get_or_def split: option.splits)

lemma truthy_seq: "seq_items v = Some xs \<Longrightarrow> truthy v \<longleftrightarrow> xs \<noteq> []"
  by (cases v) auto

lemma cfg_update_accepted:
  assumes "cls \<in> config_classes" and "config_ok cls c" and "distinct (dict_keys cfg)" and "cfg_check cls cfg = None"
  shows "\<exists>c'. cfg_update cls now cfg c = Inr c' \<and> config_ok cls c' \<and> last_write c' = Some now
    \<and> (\<forall>f w. get_or (cfg_snapshot cls c') f w = get_or cfg f (get_or (cfg_snapshot cls c) f w))"
proof -
  note cls = config_classes_declared [OF assms(1)]
  from assms(4) obtain c' where c': "cfg_update cls now cfg c = Inr c'" by (simp add: cfg_update_def)
  then have "last_write c' = Some now" using assms(4) by (auto simp: cfg_update_def)
  with c' show ?thesis 
    using declared_fields.update_ok [OF cls assms(2) c'] declared_fields.update_reads [OF cls assms(2) c' assms(3)] by blast
qed

lemma write_block_accepted:
  assumes ok: "provider_ok p" and check: "check_block gated p block = Inr (su, qu)"
    and json: "\<forall>f v. (f, v) \<in> set block \<longrightarrow> json_value v"
  shows "\<exists>p'. write_block now su qu p = (None, p') \<and> provider_ok p' \<and> block_written now su qu p p'"
proof -
  note facts = check_block_facts [OF check]
  have sc: "ScenarioConfig \<in> config_classes" by (simp add: config_classes_def)
  from ok have oks: "config_ok ScenarioConfig (scenario p)" "quirks_class p \<in> config_classes"
    "config_ok (quirks_class p) (quirks p)" "filters_ok (cfg_snapshot ScenarioConfig (scenario p))"
    "ports_ok (cfg_snapshot ScenarioConfig (scenario p))"
    by (simp_all add: provider_ok_def)
  obtain s where s: "cfg_update ScenarioConfig now su (scenario p) = Inr s" "config_ok ScenarioConfig s"
    "last_write s = Some now"
    "\<forall>f w. get_or (cfg_snapshot ScenarioConfig s) f w = get_or su f (get_or (cfg_snapshot ScenarioConfig (scenario p)) f w)"
    using cfg_update_accepted [OF sc oks(1) facts(3) facts(1)] by blast
  obtain q where q: "cfg_update (quirks_class p) now qu (quirks p) = Inr q" "config_ok (quirks_class p) q"
    "\<forall>f w. get_or (cfg_snapshot (quirks_class p) q) f w = get_or qu f (get_or (cfg_snapshot (quirks_class p) (quirks p)) f w)"
    using cfg_update_accepted [OF oks(2,3) facts(4) facts(2)] by blast
  have "\<not> (\<exists>b. get_or su ''transports'' VNone = VBytes b)"
    using facts(5) json by (force simp: get_or_def split: option.splits)
  moreover have valid: "scenario_validate su = None"
    using facts(1) by (simp add: cfg_check_def ScenarioConfig_def Let_def split: if_splits)
  ultimately have "filters_ok su" by (intro validated_filters_ok)
  then have fo: "filters_ok (cfg_snapshot ScenarioConfig s)" using oks(4) s(4) by (blast intro: filters_ok_merge)
  have "ports_ok su"
    using valid
    by (auto simp: ports_ok_def scenario_validate_def validate_ports_def Let_def truthy_seq split: option.splits if_splits)
  then have po: "ports_ok (cfg_snapshot ScenarioConfig s)" using oks(5) s(4) by (blast intro: ports_ok_merge)
  let ?fc = "if map_of su ''fail_first_n'' = None then fail_count p else 0"
  let ?q = "if qu = [] then quirks p else q"
  let ?p' = "p\<lparr>scenario := s, quirks := ?q, fail_count := ?fc\<rparr>"
  have "write_block now su qu p = (None, ?p')"
    using s(1) q(1) by (auto simp: write_block_def Let_def reset_fail_def)
  moreover have "provider_ok ?p'" using s(2) q(2) oks fo po by (simp add: provider_ok_def)
  moreover have "block_written now su qu p ?p'" using s(3,4) q(3) by (auto simp: block_written_def get_or_def)
  ultimately show ?thesis by blast
qed

text \<open>What the first loop has found of one block.\<close>

definition block_staged :: "int list \<Rightarrow> registry \<Rightarrow> string \<times> pyval \<Rightarrow> provider_id \<times> sdict \<times> sdict \<Rightarrow> bool" where
  "block_staged gated reg kb st \<longleftrightarrow> (case st of (k, su, qu) \<Rightarrow>
     fst kb = key_text_of k \<and> CHR '':'' \<notin> set (fst k)
     \<and> (\<exists>p. find_provider reg (fst k) (snd k) = Inr p \<and> check_block gated p (text_items (snd kb)) = Inr (su, qu)))"

lemma partition_on_mem:
  "c \<in> set s \<Longrightarrow> partition_on c s = (a, b) \<Longrightarrow> s = a @ c # b \<and> c \<notin> set a"
  by (induction s arbitrary: a) (auto split: if_splits prod.splits)

lemma stage_blocks_facts:
  "stage_blocks c items = Inr staged \<Longrightarrow>
   list_all2 (block_staged (dict_keys (port_gates c)) (registry_of c)) items staged"
proof (induction items arbitrary: staged)
  case (Cons kb items)
  obtain key block where kb: "kb = (key, block)" by (cases kb)
  obtain pl i where part: "partition_on CHR '':'' key = (pl, i)" by (cases "partition_on CHR '':'' key")
  from Cons.prems obtain p su qu rest where found: "is_dict block" "CHR '':'' \<in> set key"
    "find_provider (registry_of c) pl i = Inr p"
    "check_block (dict_keys (port_gates c)) p (text_items block) = Inr (su, qu)"
    "stage_blocks c items = Inr rest" "staged = ((pl, i), su, qu) # rest"
    by (auto simp: kb part bind_r_Inr_iff split: if_splits sum.splits)
  have "key = key_text_of (pl, i) \<and> CHR '':'' \<notin> set pl"
    using partition_on_mem [OF found(2) part] by (simp add: key_text_of_def)
  with found Cons.IH show ?case by (auto simp: kb block_staged_def)
qed simp

definition staging_ok :: "registry \<Rightarrow> (provider_id \<times> sdict \<times> sdict) list \<Rightarrow> bool" where
  "staging_ok reg staged \<longleftrightarrow> distinct (map fst staged)
     \<and> (\<forall>k su qu. (k, su, qu) \<in> set staged \<longrightarrow>
          (\<exists>p gated block. find_provider reg (fst k) (snd k) = Inr p \<and> check_block gated p block = Inr (su, qu)
             \<and> (\<forall>f v. (f, v) \<in> set block \<longrightarrow> json_value v)))"

definition all_written ::
  "rat \<Rightarrow> (provider_id \<times> sdict \<times> sdict) list \<Rightarrow> registry \<Rightarrow> registry \<Rightarrow> bool" where
  "all_written now staged reg reg' \<longleftrightarrow>
     (\<forall>pl i p. find_provider reg pl i = Inr p \<longrightarrow> (\<exists>p'. find_provider reg' pl i = Inr p'
        \<and> (case map_of staged (pl, i) of None \<Rightarrow> p' = p | Some (su, qu) \<Rightarrow> block_written now su qu p p')))"

lemma write_blocks_accepted:
  assumes "reg_ok reg" and "gates_ok gs reg" and "staging_ok reg staged"
  shows "\<exists>ws reg'. write_blocks now gs staged reg = (Inr ws, reg') \<and> reg_ok reg' \<and> gates_ok gs reg'
    \<and> all_written now staged reg reg'"
  using assms
proof (induction staged arbitrary: reg)
  case Nil
  then show ?case by (simp add: all_written_def)
next
  case (Cons st staged)
  obtain k su qu where st: "st = (k, su, qu)" by (cases st)
  from Cons.prems(3) st obtain p gated block where p: "find_provider reg (fst k) (snd k) = Inr p"
    "check_block gated p block = Inr (su, qu)" "\<forall>f v. (f, v) \<in> set block \<longrightarrow> json_value v"
    unfolding staging_ok_def by (metis list.set_intros(1))
  from p(1) Cons.prems(1) have "provider_ok p" by (auto simp: reg_ok_def)
  then obtain p' where w: "write_block now su qu p = (None, p')" "provider_ok p'" "block_written now su qu p p'"
    using write_block_accepted [OF _ p(2) p(3)] by blast
  let ?reg = "put_provider k p' reg"
  note find = find_put_provider [OF p(1), of p']
  have ok: "reg_ok ?reg" "gates_ok gs ?reg" using Cons.prems w(2) by (simp_all add: reg_ok_put gates_ok_put)
  have new: "k \<notin> fst ` set staged" using Cons.prems(3) st by (simp add: staging_ok_def)
  have "find_provider ?reg (fst k') (snd k') = find_provider reg (fst k') (snd k')" if "(k', x) \<in> set staged" for k' x
    using new that by (force simp: find prod_eq_iff)
  then have "staging_ok ?reg staged"
    using Cons.prems(3) unfolding staging_ok_def st by (simp del: split_paired_All)
  from Cons.IH [OF ok this] obtain ws reg' where ih: "write_blocks now gs staged ?reg = (Inr ws, reg')" "reg_ok reg'"
    "gates_ok gs reg'" "all_written now staged ?reg reg'" by blast
  obtain ws0 where ws0: "port_wishes ?reg gs (endpoints p') = Inr ws0" using port_wishes_total [OF ok] by blast
  have "write_blocks now gs (st # staged) reg = (Inr (ws0 @ ws), reg')"
    using p(1) w(1) ws0 ih(1) by (simp add: st Let_def)
  moreover have "all_written now (st # staged) reg reg'" unfolding all_written_def
  proof (intro allI impI)
    fix pl i q assume q: "find_provider reg pl i = Inr q"
    show "\<exists>q'. find_provider reg' pl i = Inr q' \<and> (case map_of (st # staged) (pl, i) of
        None \<Rightarrow> q' = q | Some (su, qu) \<Rightarrow> block_written now su qu q q')"
    proof (cases "(pl, i) = k")
      case True
      then have "find_provider ?reg pl i = Inr p'" and "map_of staged (pl, i) = None" and "q = p"
        using find new q p(1) by (auto simp: map_of_eq_None_iff)
      with ih(4) True w(3) show ?thesis by (fastforce simp: all_written_def st)
    next
      case False
      with find q have "find_provider ?reg pl i = Inr q" by simp
      with ih(4) False show ?thesis by (simp add: all_written_def st)
    qed
  qed
  ultimately show ?case using ih(2,3) by blast
qed

lemma key_text_of_inj:
  assumes "CHR '':'' \<notin> set (fst k)" and "CHR '':'' \<notin> set (fst k')" and "key_text_of k = key_text_of k'"
  shows "k = k'"
proof -
  have part: "partition_on CHR '':'' (key_text_of q) = q" if "CHR '':'' \<notin> set (fst q)" for q
    using partition_on_append [OF that, of "snd q"] by (cases q) (simp add: key_text_of_def)
  show ?thesis using part [OF assms(1)] part [OF assms(2)] unfolding assms(3) by (rule box_equals [OF refl])
qed

lemma staged_lookup:
  assumes "list_all2 (block_staged gated reg) items staged" and "CHR '':'' \<notin> set pl"
    and "find_provider reg pl i = Inr p"
  shows "case map_of staged (pl, i) of
      None \<Rightarrow> map_of items (key_text_of (pl, i)) = None
    | Some (su, qu) \<Rightarrow> \<exists>block. map_of items (key_text_of (pl, i)) = Some block
        \<and> check_block gated p (text_items block) = Inr (su, qu)"
  using assms(1)
proof (induction items staged rule: list_all2_induct)
  case (Cons kb items st staged)
  obtain k su qu where st: "st = (k, su, qu)" by (cases st)
  obtain key block where kb: "kb = (key, block)" by (cases kb)
  have here: "key = key_text_of k" "CHR '':'' \<notin> set (fst k)"
    "k = (pl, i) \<Longrightarrow> check_block gated p (text_items block) = Inr (su, qu)"
    using Cons.hyps(1) assms(3) by (auto simp: block_staged_def st kb)
  show ?case
  proof (cases "k = (pl, i)")
    case True
    with here show ?thesis by (simp add: st kb)
  next
    case False
    then have "key \<noteq> key_text_of (pl, i)" using key_text_of_inj [OF here(2), of "(pl, i)"] assms(2) here(1) by auto
    with False Cons.IH show ?thesis by (cases "map_of staged (pl, i)") (auto simp: st kb)
  qed
qed simp

lemma staging_ok_blocks:
  assumes "list_all2 (block_staged gated reg) items staged" and "distinct (dict_keys items)"
    and "\<forall>k v. (k, v) \<in> set items \<longrightarrow> json_value v"
  shows "staging_ok reg staged"
proof -
  have "dict_keys items = map key_text_of (map fst staged)"
    using assms(1) by (induction items staged rule: list_all2_induct) (auto simp: block_staged_def)
  with assms(2) have "distinct (map key_text_of (map fst staged))" by (simp only:)
  then have dist: "distinct (map fst staged)" unfolding distinct_map by (rule conjunct1)
  have "\<exists>p gated block. find_provider reg (fst k) (snd k) = Inr p \<and> check_block gated p block = Inr (su, qu)
      \<and> (\<forall>f v. (f, v) \<in> set block \<longrightarrow> json_value v)" if "(k, su, qu) \<in> set staged" for k su qu
  proof -
    from that obtain j where "j < length staged" "staged ! j = (k, su, qu)" by (auto simp: in_set_conv_nth)
    with assms(1) have "items ! j \<in> set items" "block_staged gated reg (items ! j) (k, su, qu)"
      by (auto simp: list_all2_conv_all_nth)
    then obtain key block where kb: "(key, block) \<in> set items" "block_staged gated reg (key, block) (k, su, qu)"
      by (metis surj_pair)
    then obtain p where "find_provider reg (fst k) (snd k) = Inr p" "check_block gated p (text_items block) = Inr (su, qu)"
      by (auto simp: block_staged_def)
    moreover have "\<forall>f v. (f, v) \<in> set (text_items block) \<longrightarrow> json_value v"
      using assms(3) kb(1) json_value_items by blast
    ultimately show ?thesis by blast
  qed
  with dist show ?thesis by (simp add: staging_ok_def)
qed

abbreviation blocks_of :: "pyval \<Rightarrow> sdict" where
  "blocks_of body \<equiv> text_items (vget_or body ''providers'' VNone)"

text \<open>What an accepted request has done to the simulator.\<close>

definition scenario_applied :: "rat \<Rightarrow> pyval \<Rightarrow> control \<Rightarrow> control \<Rightarrow> bool" where
  "scenario_applied now body c c' \<longleftrightarrow> control_ok c'
     \<and> (\<forall>pl i p. find_provider (registry_of c) pl i = Inr p \<longrightarrow> (\<exists>p'. find_provider (registry_of c') pl i = Inr p'
          \<and> (case map_of (blocks_of body) (pl @ '':'' @ i) of
               None \<Rightarrow> p' = p
             | Some block \<Rightarrow> \<exists>su qu. check_block (dict_keys (port_gates c)) p (text_items block) = Inr (su, qu)
                 \<and> block_written now su qu p p')))
     \<and> chain_heads_of c' = chain_heads_of c \<and> caches_of c' = caches_of c \<and> proxies_of c' = proxies_of c"

lemma find_pool: "find_provider reg pl i = Inr p \<Longrightarrow> map_of (pools reg) pl \<noteq> None"
  by (auto simp: find_provider_def split: option.splits)

lemma all_written_applied:
  assumes ok: "control_ok c" and staged: "stage_blocks c (blocks_of body) = Inr staged"
    and reg: "reg_ok reg'" "gates_ok (port_gates c) reg'" "all_written now staged (registry_of c) reg'"
  shows "scenario_applied now body c (c\<lparr>registry_of := reg', port_gates := snd (settle_ports waits ws (port_gates c))\<rparr>)"
proof -
  note st = stage_blocks_facts [OF staged]
  have "\<exists>p'. find_provider reg' pl i = Inr p' \<and> (case map_of (blocks_of body) (pl @ '':'' @ i) of
        None \<Rightarrow> p' = p
      | Some block \<Rightarrow> \<exists>su qu. check_block (dict_keys (port_gates c)) p (text_items block) = Inr (su, qu)
          \<and> block_written now su qu p p')" if p: "find_provider (registry_of c) pl i = Inr p" for pl i p
  proof -
    have "CHR '':'' \<notin> set pl" using find_pool [OF p] ok by (auto simp: control_ok_def reg_ok_def)
    note look = staged_lookup [OF st this p]
    from reg(3) p obtain p' where p': "find_provider reg' pl i = Inr p'"
      "case map_of staged (pl, i) of None \<Rightarrow> p' = p | Some (su, qu) \<Rightarrow> block_written now su qu p p'"
      unfolding all_written_def by blast
    show ?thesis
    proof (cases "map_of staged (pl, i)")
      case None
      with p' look show ?thesis by (simp add: key_text_of_def)
    next
      case (Some sq)
      then show ?thesis using p' look by (cases sq) (auto simp: key_text_of_def)
    qed
  qed
  then show ?thesis
    using reg(1) gates_ok_settle [OF reg(2)] by (simp add: scenario_applied_def control_ok_def)
qed

text \<open>Every refusal of a block is a 400 or, for a port with no listener, a 409.\<close>

lemma first_rule_status: "first_rule rs = Some (Refuse n why) \<Longrightarrow> n = 400"
  by (induction rs rule: first_rule.induct) auto

lemma stage_fields_status: "stage_fields sf qf su qu block = Inl (Refuse n why) \<Longrightarrow> n = 400"
  by (induction sf qf su qu block rule: stage_fields.induct)
    (auto simp: caught_def split: if_splits sum.splits option.splits)

lemma port_closed_status: "port_closed_impossible eps stored gated su = Inr (Some (n, why)) \<Longrightarrow> n \<in> {400, 409}"
  by (auto simp: port_closed_impossible_def Let_def bind_r_Inr_iff split: if_splits dest!: first_refusal_Some)

lemma check_block_status: "check_block gated p block = Inl (Refuse n why) \<Longrightarrow> n \<in> {400, 409}"
  by (auto simp: check_block_def Let_def bind_r_Inl_iff endpoint_rules_def config_rules_def caught_def
      split: option.splits sum.splits if_splits
      dest: first_rule_status stage_fields_status port_closed_status)

lemma stage_blocks_status: "stage_blocks c items = Inl st \<Longrightarrow> (\<exists>e. st = Raise e) \<or> (\<exists>n why. st = Refuse n why \<and> n \<in> {400, 409})"
proof (induction items)
  case (Cons kb items)
  then show ?case
    by (cases kb; cases st)
      (auto simp: bind_r_Inl_iff split: if_splits sum.splits prod.splits dest: check_block_status)
qed simp

lemma apply_scenario_cases:
  assumes "control_ok c" and "json_value body"
  shows "case apply_scenario now waits body c of
      (Inl (Raise e), c') \<Rightarrow> c' = c
    | (Inl (Refuse status why), c') \<Rightarrow>
        status \<in> {400, 409} \<and> c' = c \<or> status = 500 \<and> scenario_applied now body c c'
    | (Inr (status, reply), c') \<Rightarrow> status = 200 \<and> scenario_applied now body c c'"
proof -
  note applied = all_written_applied [OF assms(1), of body _ _ now]
  from assms(1) have ok: "reg_ok (registry_of c)" "gates_ok (port_gates c) (registry_of c)"
    by (simp_all add: control_ok_def)
  show ?thesis
  proof (cases "is_dict body \<and> is_dict (vget_or body ''providers'' VNone)")
    case False
    then show ?thesis by (auto simp: apply_scenario_def)
  next
    case True
    have json: "json_value (vget_or body ''providers'' VNone)"
      using assms(2) json_value_vget by (auto simp: vget_or_def split: option.split)
    show ?thesis
    proof (cases "stage_blocks c (blocks_of body)")
      case (Inl st)
      with True stage_blocks_status [OF Inl] show ?thesis by (auto simp: apply_scenario_def split: stop.split)
    next
      case (Inr staged)
      have "staging_ok (registry_of c) staged"
        using staging_ok_blocks [OF stage_blocks_facts [OF Inr] json_value_keys [OF json]] json_value_items [OF json] by blast
      from write_blocks_accepted [OF ok this] obtain ws reg' where
        w: "write_blocks now (port_gates c) staged (registry_of c) = (Inr ws, reg')" "reg_ok reg'"
          "gates_ok (port_gates c) reg'" "all_written now staged (registry_of c) reg'" by blast
      obtain stuck gs where settle: "settle_ports waits ws (port_gates c) = (stuck, gs)" by fastforce
      have "scenario_applied now body c (c\<lparr>registry_of := reg', port_gates := gs\<rparr>)"
        using applied [OF Inr w(2-4), of waits ws] settle by simp
      with True Inr w(1) settle show ?thesis by (simp add: apply_scenario_def)
    qed
  qed
qed

text \<open>
  C2. A \<open>POST /scenario\<close> is all or nothing over all its blocks. A request that is refused with a
  4xx, and one that raises, has changed nothing at all. Otherwise every provider that the request
  names has its fields merged with the checked fields of its block, every other provider, the heads,
  the caches and the proxies are as they were, and the only answers are 200 and the 500 that says
  that a port has not followed yet.
\<close>

theorem apply_scenario_atomic:
  assumes "control_ok c" and "json_value body"
  shows "case apply_scenario now waits body c of
      (Inl (Raise e), c') \<Rightarrow> c' = c
    | (Inl (Refuse status why), c') \<Rightarrow>
        status \<in> {400, 409} \<and> c' = c \<or> status = 500 \<and> scenario_applied now body c c'
    | (Inr (status, reply), c') \<Rightarrow> status = 200 \<and> scenario_applied now body c c'"
  using assms by (rule apply_scenario_cases)

text \<open>The control API of a freshly built registry is well formed.\<close>

lemma fresh_filters:
  "get_or (cfg_snapshot ScenarioConfig (new_config ScenarioConfig)) ''transports'' VNone = VNone"
  "get_or (cfg_snapshot ScenarioConfig (new_config ScenarioConfig)) ''ports'' VNone = VNone"
  by code_simp+

lemma provider_ok_row: "row_valid r \<Longrightarrow> provider_ok (row_provider r)"
proof (cases r)
  case (Row pl chain i name backup grp specs)
  assume "row_valid r"
  then obtain qc where qc: "quirks_for chain = Inr qc" using row_valid_quirks Row by fastforce
  then have "qc \<in> config_classes" by (auto simp: config_classes_def)
  moreover have "filters_ok (cfg_snapshot ScenarioConfig (new_config ScenarioConfig))"
    "ports_ok (cfg_snapshot ScenarioConfig (new_config ScenarioConfig))"
    by (simp_all add: filters_ok_def ports_ok_def fresh_filters)
  ultimately show ?thesis
    using qc declared_fields.new_config_ok [OF quirks_for_declared [OF qc]] scenario.new_config_ok
    by (simp add: Row new_provider_def provider_ok_def)
qed

lemma table_fits_valid: "table_fits before rs \<Longrightarrow> r \<in> set rs \<Longrightarrow> row_valid r"
  by (induction before rs rule: table_fits.induct) (auto simp: row_fits_def)

lemma new_control_ok:
  assumes "build_registry table = Inr reg"
  shows "control_ok (new_control reg)"
proof -
  from build_registry_rep [OF assms] have valid: "r \<in> set table \<Longrightarrow> row_valid r" and rep: "reg_rep table reg" for r
    by (auto dest: table_fits_valid)
  have "provider_ok p" if "find_provider reg pl i = Inr p" for pl i p
  proof -
    from that reg_repD(3) [OF rep, of pl i p] obtain r where "r \<in> set table" "p = row_provider r" by auto
    with valid provider_ok_row show ?thesis by simp
  qed
  moreover have "CHR '':'' \<notin> set n" if "map_of (pools reg) n \<noteq> None" for n
  proof -
    from that reg_repD(1) [OF rep] obtain r where r: "r \<in> set table" "fst (row_key r) = n" by blast
    show ?thesis using valid [OF r(1)] r(2) by (cases r) (auto simp: validate_row_def split: if_splits)
  qed
  ultimately show ?thesis by (simp add: control_ok_def new_control_def reg_ok_def gates_ok_def)
qed

definition sample_body :: pyval where
  "sample_body = jobj [(''providers'', jobj [(''eth-sim:1'', jobj [(''mode'', VStr ''error''), (''latency_ms'', VInt 5)])])]"

theorem apply_scenario_atomic_witness:
  "\<exists>reg. build_registry sample_table = Inr reg \<and>
    (case apply_scenario 0 (\<lambda>_ _ _. True) sample_body (new_control reg) of
      (Inl (Raise e), c') \<Rightarrow> c' = new_control reg
    | (Inl (Refuse status why), c') \<Rightarrow>
        status \<in> {400, 409} \<and> c' = new_control reg \<or> status = 500 \<and> scenario_applied 0 sample_body (new_control reg) c'
    | (Inr (status, reply), c') \<Rightarrow> status = 200 \<and> scenario_applied 0 sample_body (new_control reg) c')"
proof -
  have "table_fits [] sample_table" by code_simp
  then obtain reg where reg: "build_registry sample_table = Inr reg" using build_registry_accepts by blast
  have "json_value sample_body" by code_simp
  note applied = apply_scenario_atomic [OF new_control_ok [OF reg] this, of 0 "\<lambda>_ _ _. True"]
  show ?thesis by (rule exI [of _ reg]) (rule conjI [OF reg applied])
qed

end
