(* ===== verification/ControlPorts.thy ===== *)
theory ControlPorts
  imports ControlFacts
begin

text \<open>
  The mode \<open>port_closed\<close>: which requests are accepted, and what a request does that carries a
  value of a type that the rules do not expect.
\<close>

section \<open>A closed port has a listener\<close>

text \<open>A filter in the shape that the documentation names: absent, or a list.\<close>

definition list_filter :: "pyval \<Rightarrow> bool" where
  "list_filter v \<longleftrightarrow> v = VNone \<or> seq_items v \<noteq> None"

lemma sort_Nil_iff: "sort xs = [] \<longleftrightarrow> xs = []"
  by (metis length_0_conv length_sort)

lemma check_block_closed:
  assumes "check_block gated p block = Inr (su, qu)"
  defines "eff \<equiv> dict_merge (cfg_snapshot ScenarioConfig (scenario p)) su"
  assumes "get_or eff ''mode'' VNone = VStr ''port_closed''" and "\<not> filter_config_refuses eff"
  shows "\<exists>targeted. filter_r (targets eff) (endpoints p) = Inr targeted \<and> targeted \<noteq> []
    \<and> (\<forall>ep \<in> set targeted. port ep \<in> set gated)
    \<and> (\<forall>(f, unset) \<in> set NEEDS_A_REQUEST. py_eq (get_or eff f unset) unset)"
proof -
  from assms(1) have none: "port_closed_impossible (endpoints p) (cfg_snapshot ScenarioConfig (scenario p)) gated su = Inr None"
    by (auto simp: check_block_def bind_r_Inr_iff Let_def split: option.splits sum.splits prod.splits)
  then obtain tg where tg: "filter_r (targets eff) (endpoints p) = Inr tg" "tg \<noteq> []"
    "filter (\<lambda>ep. port ep \<notin> set gated) tg = []"
    "first_refusal (\<lambda>(f, unset). if py_eq (get_or eff f unset) unset then None else Some (400, NeedsARequest f))
       NEEDS_A_REQUEST = (None :: (int \<times> refusal) option)"
    using assms(3,4)
    by (auto simp: port_closed_impossible_def eff_def [symmetric] Let_def bind_r_Inr_iff sort_Nil_iff not_None_eq [symmetric]
        simp del: not_None_eq split: if_splits)
  from tg(3) have "\<forall>ep \<in> set tg. port ep \<in> set gated" by (auto simp: filter_empty_conv)
  moreover have "\<forall>(f, unset) \<in> set NEEDS_A_REQUEST. py_eq (get_or eff f unset) unset"
    using tg(4) by (auto simp: first_refusal_None split: if_splits)
  ultimately show ?thesis using tg(1,2) by blast
qed

lemma targets_cong:
  "(\<And>f w. get_or a f w = get_or b f w) \<Longrightarrow> targets a ep = targets b ep"
  unfolding targets_def by presburger

text \<open>The filters of a scenario that was just accepted are what the rule reads.\<close>

lemma filter_not_refused:
  assumes "list_filter (get_or eff ''transports'' VNone)" and "filters_ok eff"
    and "get_or eff ''ports'' VNone \<noteq> VNone \<longrightarrow> truthy (get_or eff ''ports'' VNone)"
  shows "\<not> filter_config_refuses eff"
  using assms by (auto simp: filter_config_refuses_def list_filter_def filters_ok_def Let_def)

text \<open>
  C15. When a request that names a provider is answered with 200 and leaves it in the mode
  \<open>port_closed\<close> with a list as its transport filter, the scenario closes at least one endpoint of
  the provider, and every endpoint that it closes has a listener whose gate can close the port;
  and no field that acts on a request is set.
\<close>

theorem closed_port_has_listener:
  assumes "control_ok c" and "json_value body" and "apply_scenario now waits body c = (Inr result, c')"
    and "find_provider (registry_of c) pl i = Inr p" and "map_of (blocks_of body) (pl @ '':'' @ i) = Some block"
    and "find_provider (registry_of c') pl i = Inr p'"
    and "get_or (cfg_snapshot ScenarioConfig (scenario p')) ''mode'' VNone = VStr ''port_closed''"
    and "list_filter (get_or (cfg_snapshot ScenarioConfig (scenario p')) ''transports'' VNone)"
  shows "(\<exists>ep \<in> set (endpoints p'). wants_closed p' ep = Inr True)
    \<and> (\<forall>ep \<in> set (endpoints p'). wants_closed p' ep = Inr True \<longrightarrow> port ep \<in> set (dict_keys (port_gates c)))
    \<and> (\<forall>(f, unset) \<in> set NEEDS_A_REQUEST. py_eq (get_or (cfg_snapshot ScenarioConfig (scenario p')) f unset) unset)"
proof -
  let ?snap = "\<lambda>p. cfg_snapshot ScenarioConfig (scenario p)"
  obtain status reply where ans: "result = (status, reply)" by (cases result)
  have applied: "scenario_applied now body c c'"
    using apply_scenario_cases [OF assms(1,2), of now waits] assms(3) ans by simp
  then obtain su qu where chk: "check_block (dict_keys (port_gates c)) p (text_items block) = Inr (su, qu)"
    and w: "block_written now su qu p p'"
    using assms(4-6) unfolding scenario_applied_def by fastforce
  define eff where "eff = dict_merge (?snap p) su"
  have read: "get_or (?snap p') f w = get_or eff f w" for f w
    using w check_block_facts(3) [OF chk] by (simp add: block_written_def eff_def get_or_dict_merge)
  have ok': "provider_ok p'" using applied assms(6) by (auto simp: scenario_applied_def control_ok_def reg_ok_def)
  then have total: "\<exists>b. targets (?snap p') ep = Inr b" for ep
    using targets_total by (simp add: provider_ok_def)
  have "\<not> filter_config_refuses eff"
  proof (rule filter_not_refused)
    show "list_filter (get_or eff ''transports'' VNone)" using assms(8) by (simp add: read)
    show "filters_ok eff" using ok' by (simp add: provider_ok_def filters_ok_def read)
    show "get_or eff ''ports'' VNone \<noteq> VNone \<longrightarrow> truthy (get_or eff ''ports'' VNone)"
      using ok' by (simp add: provider_ok_def ports_ok_def read)
  qed
  from check_block_closed [OF chk, folded eff_def, OF _ this] assms(7) obtain tg where
    tg: "filter_r (targets eff) (endpoints p) = Inr tg" "tg \<noteq> []" "\<forall>ep \<in> set tg. port ep \<in> set (dict_keys (port_gates c))"
      "\<forall>(f, unset) \<in> set NEEDS_A_REQUEST. py_eq (get_or eff f unset) unset"
    by (auto simp: read)
  have same: "targets eff ep = targets (?snap p') ep" for ep by (rule targets_cong) (simp add: read)
  have "filter_r (targets eff) (endpoints p) = Inr (filter (\<lambda>ep. targets eff ep = Inr True) (endpoints p))"
  proof (rule filter_r_total)
    show "targets eff ep = Inr (targets eff ep = Inr True)" for ep
      using total [of ep] by (auto simp: same)
  qed
  then have "tg = filter (\<lambda>ep. targets eff ep = Inr True) (endpoints p)" using tg(1) by simp
  moreover have "wants_closed p' ep = targets eff ep" for ep
    using assms(7) by (simp add: wants_closed_def port_closed_def same)
  moreover have "endpoints p' = endpoints p" using w unfolding block_written_def by (metis (no_types, lifting) provider.ext_inject provider.surjective provider.update_convs)
  ultimately have "wants_closed p' ep = Inr True \<and> ep \<in> set (endpoints p') \<longleftrightarrow> ep \<in> set tg" for ep by auto
  with tg(2-4) show ?thesis by (metis (no_types, lifting) last_in_set read split_cong)
qed

text \<open>A simulator of one provider with a gate on its one port.\<close>

definition sample_endpoint_of :: endpoint where
  "sample_endpoint_of = \<lparr>interface = ''jsonrpc'', transport = ''http'', port = 18545\<rparr>"

definition eth_provider :: provider where
  "eth_provider = new_provider \<lparr>pl_name = ''eth-sim'', pl_chain = ''eth'', providers = []\<rparr> EthQuirks ''1''
     [sample_endpoint_of] ''EthPrimaryProvider1'' False []"

definition sample_control :: control where
  "sample_control =
     \<lparr>registry_of = \<lparr>pools = [(''eth-sim'',
        \<lparr>pl_name = ''eth-sim'', pl_chain = ''eth'', providers = [(''1'', eth_provider)]\<rparr>)], by_port_table = []\<rparr>,
      chain_heads_of = [(''eth'', [(''default'', new_head 100)])],
      port_gates = [(18545, ((''eth-sim'', ''1''), sample_endpoint_of), new_gate)],
      caches_of = [(''secondary'', new_cache_sim ''secondary'')], proxies_of = []\<rparr>"

lemma sample_find: "find_provider (registry_of sample_control) ''eth-sim'' ''1'' = Inr eth_provider"
  by (simp add: sample_control_def find_provider_def)

lemma eth_provider_ok: "provider_ok eth_provider"
proof -
  have "EthQuirks \<in> config_classes" by (auto simp: config_classes_def quirks_for_def QUIRKS_BY_CHAIN_def intro!: exI [of _ "''eth''"])
  then show ?thesis
    using scenario.new_config_ok eth_quirks.new_config_ok
    by (simp add: provider_ok_def eth_provider_def new_provider_def filters_ok_def ports_ok_def fresh_filters)
qed

lemma sample_control_ok: "control_ok sample_control"
  using eth_provider_ok
  by (auto simp: control_ok_def reg_ok_def gates_ok_def sample_control_def find_provider_def split: if_splits)

definition closing_body :: pyval where
  "closing_body = jobj [(''providers'', jobj [(''eth-sim:1'', jobj [(''mode'', VStr ''port_closed'')])])]"

definition closed_control :: control where
  "closed_control = snd (apply_scenario 0 (\<lambda>_ _ _. True) closing_body sample_control)"

theorem closed_port_has_listener_witness:
  "\<exists>p'. find_provider (registry_of closed_control) ''eth-sim'' ''1'' = Inr p'
     \<and> (\<exists>ep \<in> set (endpoints p'). wants_closed p' ep = Inr True)"
proof -
  have "\<not> isl (fst (apply_scenario 0 (\<lambda>_ _ _. True) closing_body sample_control))" by code_simp
  then obtain res where res: "apply_scenario 0 (\<lambda>_ _ _. True) closing_body sample_control = (Inr res, closed_control)"
    unfolding closed_control_def by (metis prod.collapse sum.collapse(2))
  have "\<not> isl (find_provider (registry_of closed_control) ''eth-sim'' ''1'')" by code_simp
  then obtain p' where p': "find_provider (registry_of closed_control) ''eth-sim'' ''1'' = Inr p'" by (metis sum.collapse(2))
  have reads: "case find_provider (registry_of closed_control) ''eth-sim'' ''1'' of
      Inr p \<Rightarrow> get_or (cfg_snapshot ScenarioConfig (scenario p)) ''mode'' VNone = VStr ''port_closed''
        \<and> get_or (cfg_snapshot ScenarioConfig (scenario p)) ''transports'' VNone = VNone
    | Inl e \<Rightarrow> False" by code_simp
  have block: "map_of (blocks_of closing_body) (''eth-sim'' @ '':'' @ ''1'') = Some (jobj [(''mode'', VStr ''port_closed'')])"
    by code_simp
  have json: "json_value closing_body" by code_simp
  from closed_port_has_listener [OF sample_control_ok json res sample_find block p'] reads p' show ?thesis
    by (simp add: list_filter_def)
qed

section \<open>Values that the rules do not expect\<close>

lemma empty_quirks_checked: "qc \<in> config_classes \<Longrightarrow> cfg_check qc [] = None"
  by (auto simp: config_classes_def quirks_for_def QUIRKS_BY_CHAIN_def cfg_check_def ScenarioConfig_def
      scenario_validate_def validate_transports_def validate_ports_def validate_pause_def validate_rate_limit_style_def
      validate_unreadable_reply_def validate_chosen_def get_or_def Quirks_class_def EthQuirks_def SolanaQuirks_def
      SuiQuirks_def SuiTestnetQuirks_def sui_validate_def sui_text_refused_def no_validate_def
      split: if_splits)

lemma fresh_reads:
  "get_or (cfg_snapshot ScenarioConfig (new_config ScenarioConfig)) ''mode'' VNone = VStr ''success''"
  "get_or (cfg_snapshot ScenarioConfig (new_config ScenarioConfig)) ''pause_at'' VNone = VNone"
  "get_or (cfg_snapshot ScenarioConfig (new_config ScenarioConfig)) ''reply_headers'' VNone = VNone"
  "get_or (cfg_snapshot ScenarioConfig (new_config ScenarioConfig)) ''reply_trailers'' VNone = VNone"
  by code_simp+

text \<open>The request that closes the ports of one wire.\<close>

definition close_wire :: "pyval \<Rightarrow> sdict" where
  "close_wire flt = [(''mode'', VStr ''port_closed''), (''transports'', flt)]"

lemma close_wire_reads:
  "get_or (close_wire flt) k w =
     (if k = ''mode'' then VStr ''port_closed'' else if k = ''transports'' then flt else w)"
  "map_of (close_wire flt) k =
     (if k = ''mode'' then Some (VStr ''port_closed'') else if k = ''transports'' then Some flt else None)"
  "distinct (dict_keys (close_wire flt))"
  by (simp_all add: close_wire_def get_or_def)

lemma close_wire_staged:
  "stage_fields (field_names ScenarioConfig) qf [] [] (close_wire flt) = Inr (close_wire flt, [])"
proof -
  have "''mode'' \<in> set (field_names ScenarioConfig)" "''transports'' \<in> set (field_names ScenarioConfig)"
    "bad_enum ''mode'' (VStr ''port_closed'') = Inr None" "bad_number ''mode'' (VStr ''port_closed'') = None"
    by code_simp+
  moreover have "bad_enum ''transports'' flt = Inr None" "bad_number ''transports'' flt = None"
    by (simp_all add: bad_enum_def bad_number_def ENUMS_def)
  ultimately show ?thesis by (simp add: close_wire_def)
qed

lemma close_wire_rules:
  "endpoint_rules eps (cfg_snapshot ScenarioConfig (new_config ScenarioConfig)) (close_wire flt) = None"
proof -
  let ?st = "cfg_snapshot ScenarioConfig (new_config ScenarioConfig)"
  have "ports_not_served eps (close_wire flt) = None" "invalid_json_not_served eps (close_wire flt) = None"
    "invalid_proto_not_served eps (close_wire flt) = None" "canned_body_not_served eps (close_wire flt) = None"
    by (simp_all add: ports_not_served_def invalid_json_not_served_def invalid_proto_not_served_def
        canned_body_not_served_def close_wire_reads)
  moreover have "graphql_only eps (close_wire flt) = None"
    by (simp add: graphql_only_def GRAPHQL_ONLY_FIELDS_def close_wire_reads)
  moreover have "pause_not_served eps ?st (close_wire flt) = Inr None"
    by (simp add: pause_not_served_def close_wire_reads fresh_reads)
  moreover have "get_or (dict_merge ?st (close_wire flt)) ''reply_headers'' VNone = VNone"
    "get_or (dict_merge ?st (close_wire flt)) ''reply_trailers'' VNone = VNone"
    by (simp_all add: get_or_dict_merge close_wire_reads fresh_reads)
  then have "chosen_not_sent eps ?st (close_wire flt) ''reply_headers'' = Inr None"
    "chosen_not_sent eps ?st (close_wire flt) ''reply_trailers'' = Inr None"
    by (simp_all add: chosen_not_sent_def)
  ultimately show ?thesis by (simp add: endpoint_rules_def)
qed

lemma close_wire_impossible:
  assumes "seq_items flt = None" and "flt \<noteq> VNone"
  shows "port_closed_impossible eps (cfg_snapshot ScenarioConfig (new_config ScenarioConfig)) gated (close_wire flt) = Inr None"
  using assms
  by (simp add: port_closed_impossible_def filter_config_refuses_def get_or_dict_merge close_wire_reads)

lemma close_http_no_listener:
  assumes "ep \<in> set eps" and "transport ep = ''http''"
  shows "\<exists>why. port_closed_impossible eps (cfg_snapshot ScenarioConfig (new_config ScenarioConfig)) []
      (close_wire (VList [VStr ''http''])) = Inr (Some (409, why))"
proof -
  let ?eff = "dict_merge (cfg_snapshot ScenarioConfig (new_config ScenarioConfig)) (close_wire (VList [VStr ''http'']))"
  have "targets ?eff e = Inr (transport e = ''http'')" for e
    by (simp add: targets_def filter_admits_def get_or_dict_merge close_wire_reads fresh_filters)
  then have "filter_r (targets ?eff) eps = Inr (filter (\<lambda>e. transport e = ''http'') eps)" by (intro filter_r_total)
  moreover have "ep \<in> set (filter (\<lambda>e. transport e = ''http'') eps)" using assms by simp
  then have "filter (\<lambda>e. transport e = ''http'') eps \<noteq> []" by force
  ultimately show ?thesis
    by (simp add: port_closed_impossible_def filter_config_refuses_def get_or_dict_merge close_wire_reads
        fresh_filters sort_Nil_iff)
qed

lemma close_wire_config:
  assumes "qc \<in> config_classes" and "validate_transports [(''transports'', flt)] = None"
  shows "config_rules qc (close_wire flt) [] = None"
proof -
  have "set (dict_keys (close_wire flt)) \<subseteq> set (field_names ScenarioConfig)"
    by (simp add: close_wire_def field_names_def ScenarioConfig_def scenario_fields_def)
  then have "filter (\<lambda>k. k \<notin> set (field_names ScenarioConfig)) (dict_keys (close_wire flt)) = []"
    by (auto simp: filter_empty_conv)
  moreover have "validate_transports (close_wire flt) = None"
    using assms(2) unfolding validate_transports_def close_wire_reads by (simp add: get_or_def)
  then have "scenario_validate (close_wire flt) = None"
    by (simp add: scenario_validate_def validate_ports_def validate_pause_def validate_rate_limit_style_def
        validate_unreadable_reply_def validate_chosen_def close_wire_reads)
  ultimately have "cfg_check ScenarioConfig (close_wire flt) = None"
    by (simp add: cfg_check_def) (simp add: ScenarioConfig_def)
  then show ?thesis using empty_quirks_checked [OF assms(1)] by (simp add: config_rules_def)
qed

text \<open>
  The rules for \<open>port_closed\<close> are skipped when the transport filter is an object instead of a
  list. With no listener at all, a request to close the http ports of a fresh provider is refused
  with 409 when the filter is the list of one name, and accepted and stored when it is an object
  with that key, although the stored scenario asks for the port to be closed.
\<close>

theorem object_filter_skips_port_rule:
  assumes "scenario p = new_config ScenarioConfig" and "quirks_class p \<in> config_classes"
    and "ep \<in> set (endpoints p)" and "transport ep = ''http''"
  shows "(\<exists>why. check_block [] p (close_wire (VList [VStr ''http''])) = Inl (Refuse 409 why))
    \<and> check_block [] p (close_wire (jobj [(''http'', v)])) = Inr (close_wire (jobj [(''http'', v)]), [])
    \<and> port_closed (dict_merge (cfg_snapshot ScenarioConfig (scenario p)) (close_wire (jobj [(''http'', v)]))) ep = Inr True"
proof -
  let ?flt = "jobj [(''http'', v)]"
  obtain why where "port_closed_impossible (endpoints p) (cfg_snapshot ScenarioConfig (scenario p)) []
      (close_wire (VList [VStr ''http''])) = Inr (Some (409, why))"
    using close_http_no_listener [OF assms(3,4)] assms(1) by auto
  then have "check_block [] p (close_wire (VList [VStr ''http''])) = Inl (Refuse 409 why)"
    using assms(1) by (simp add: check_block_def close_wire_staged close_wire_rules)
  moreover have "config_rules (quirks_class p) (close_wire ?flt) [] = None"
    by (rule close_wire_config [OF assms(2)])
      (simp add: validate_transports_def jobj_def get_or_def TRANSPORTS_def in_texts_def)
  moreover have "port_closed_impossible (endpoints p) (cfg_snapshot ScenarioConfig (scenario p)) [] (close_wire ?flt) = Inr None"
    unfolding assms(1) by (rule close_wire_impossible) (simp_all add: jobj_def)
  moreover have "port_closed (dict_merge (cfg_snapshot ScenarioConfig (scenario p)) (close_wire ?flt)) ep = Inr True"
    using assms(1,4)
    by (simp add: port_closed_def targets_def filter_admits_def get_or_dict_merge close_wire_reads fresh_filters jobj_def)
  ultimately show ?thesis
    using assms(1) by (simp add: check_block_def close_wire_staged close_wire_rules)
qed

theorem object_filter_skips_port_rule_witness:
  "\<exists>why. check_block [] eth_provider (close_wire (VList [VStr ''http''])) = Inl (Refuse 409 why)"
  using object_filter_skips_port_rule [of eth_provider sample_endpoint_of VNone] eth_provider_ok
  by (simp add: provider_ok_def eth_provider_def new_provider_def sample_endpoint_of_def)

lemma stage_unhashable:
  assumes "f \<in> {''mode'', ''then_mode'', ''corruption_mode'', ''drop_at'', ''pause_at''}" and "\<not> hashable v"
  shows "stage_fields (field_names ScenarioConfig) qf [] [] [(f, v)] = Inl (Raise TypeError)"
proof -
  have "f \<in> set (field_names ScenarioConfig)" and "f \<noteq> ''responses''"
    using assms(1) by (auto simp: field_names_def ScenarioConfig_def scenario_fields_def)
  moreover have "map_of ENUMS f \<noteq> None" using assms(1) by (auto simp: ENUMS_def)
  then have "bad_enum f v = Inl TypeError"
    using assms(2) by (auto simp: bad_enum_def split: option.split)
  ultimately show ?thesis by simp
qed

lemma unhashable_name_cases:
  assumes "\<not> hashable v"
  shows "find_provider (registry_of c) pl i = Inr p \<Longrightarrow> CHR '':'' \<notin> set pl \<Longrightarrow>
      f \<in> {''mode'', ''then_mode'', ''corruption_mode'', ''drop_at'', ''pause_at''} \<Longrightarrow>
      apply_scenario now waits (jobj [(''providers'', jobj [(pl @ '':'' @ i, jobj [(f, v)])])]) c = (Inl (Raise TypeError), c)"
    and "map_of (chain_heads_of c) chain = Some (h # hs) \<Longrightarrow>
      advance now (jobj [(''chain'', VStr chain), (''head'', v)]) c = (Inl (Raise TypeError), c)"
proof -
  assume p: "find_provider (registry_of c) pl i = Inr p" and pl: "CHR '':'' \<notin> set pl"
    and f: "f \<in> {''mode'', ''then_mode'', ''corruption_mode'', ''drop_at'', ''pause_at''}"
  have part: "partition_on CHR '':'' (pl @ '':'' @ i) = (pl, i)" using partition_on_append [OF pl, of i] by simp
  have "check_block (dict_keys (port_gates c)) p [(f, v)] = Inl (Raise TypeError)"
    using stage_unhashable [OF f assms] by (simp add: check_block_def)
  then have "stage_blocks c [(pl @ '':'' @ i, jobj [(f, v)])] = Inl (Raise TypeError)"
    using p part by simp
  then show "apply_scenario now waits (jobj [(''providers'', jobj [(pl @ '':'' @ i, jobj [(f, v)])])]) c
      = (Inl (Raise TypeError), c)"
    by (simp add: apply_scenario_def vget_or_def)
next
  assume hs: "map_of (chain_heads_of c) chain = Some (h # hs)"
  have "chosen_head (jobj [(''chain'', VStr chain), (''head'', v)]) (h # hs) = Inl (Raise TypeError)"
    using assms by (cases v) (auto simp: chosen_head_def vget_or_def)
  with hs show "advance now (jobj [(''chain'', VStr chain), (''head'', v)]) c = (Inl (Raise TypeError), c)"
    by (simp add: advance_def vget_or_def number_refused_def)
qed

text \<open>
  A list or an object where a name is expected is not refused: the set or the dictionary that
  the value is looked up in raises, and no handler catches it, so the caller gets no answer. This
  holds for every mode field of a scenario and for the name of a head. Nothing has been changed.
\<close>

theorem unhashable_names_raise:
  assumes "\<not> hashable v"
  shows "(find_provider (registry_of c) pl i = Inr p \<and> CHR '':'' \<notin> set pl
        \<and> f \<in> {''mode'', ''then_mode'', ''corruption_mode'', ''drop_at'', ''pause_at''} \<longrightarrow>
      apply_scenario now waits (jobj [(''providers'', jobj [(pl @ '':'' @ i, jobj [(f, v)])])]) c = (Inl (Raise TypeError), c))
    \<and> (map_of (chain_heads_of c) chain = Some (h # hs) \<longrightarrow>
      advance now (jobj [(''chain'', VStr chain), (''head'', v)]) c = (Inl (Raise TypeError), c))"
proof (intro conjI impI)
  assume h: "find_provider (registry_of c) pl i = Inr p \<and> CHR '':'' \<notin> set pl
      \<and> f \<in> {''mode'', ''then_mode'', ''corruption_mode'', ''drop_at'', ''pause_at''}"
  show "apply_scenario now waits (jobj [(''providers'', jobj [(pl @ '':'' @ i, jobj [(f, v)])])]) c = (Inl (Raise TypeError), c)"
    by (rule unhashable_name_cases(1) [OF assms conjunct1 [OF h] conjunct1 [OF conjunct2 [OF h]] conjunct2 [OF conjunct2 [OF h]]])
next
  assume "map_of (chain_heads_of c) chain = Some (h # hs)"
  then show "advance now (jobj [(''chain'', VStr chain), (''head'', v)]) c = (Inl (Raise TypeError), c)"
    by (rule unhashable_name_cases(2) [OF assms])
qed

theorem unhashable_names_raise_witness:
  "apply_scenario 0 (\<lambda>_ _ _. True) (jobj [(''providers'', jobj [(''eth-sim'' @ '':'' @ ''1'', jobj [(''mode'', VList [])])])]) sample_control
     = (Inl (Raise TypeError), sample_control)"
  using unhashable_names_raise [of "VList []" sample_control "''eth-sim''" "''1''" eth_provider "''mode''" 0 "\<lambda>_ _ _. True"]
    sample_find by simp

text \<open>
  An entry of a cache with a field of the wrong type is not refused with a 400: the check of
  the entry raises \<open>TypeError\<close>, the route catches only \<open>ValueError\<close>, and the caller gets no answer.
  Nothing has been staged.
\<close>

theorem mistyped_entry_raises:
  assumes "map_of (caches_of c) name = Some s"
  shows "cache_stage other fl grpc_names name (jobj [(''entry'', jobj [(''data'', VInt n)])]) c = (Inl (Raise TypeError), c)"
proof -
  let ?e = "AList.update ''data'' (VInt n) CacheEntry_fields"
  have "from_dict fl [(''data'', VInt n)] = Inr ?e" by (simp add: from_dict_def CacheEntry_fields_def)
  moreover have "truthy (jobj [(''data'', VInt n)])" by (simp add: jobj_def)
  ultimately have "staged_entry fl (jobj [(''data'', VInt n)]) = Inr (Some ?e)" by (simp add: staged_entry_def)
  moreover have "entry_validate ?e = Some TypeError"
    by (simp add: entry_validate_def CacheEntry_fields_def get_or_def)
  moreover have "jobj [(''data'', VInt n)] \<noteq> VNone" by (simp add: jobj_def)
  ultimately show ?thesis
    using assms
    by (simp add: cache_stage_def vget_or_def cache_head_def stage_def stage_refused_def CACHE_MODES_def caught_def)
qed

theorem mistyped_entry_raises_witness:
  "cache_stage (\<lambda>_. []) (\<lambda>_. []) [] ''secondary'' (jobj [(''entry'', jobj [(''data'', VInt 5)])]) sample_control
     = (Inl (Raise TypeError), sample_control)"
  by (rule mistyped_entry_raises [of _ _ "new_cache_sim ''secondary''"]) (simp add: sample_control_def)

end
