(* ===== verification/ControlResets.thy ===== *)
theory ControlResets
  imports ControlPorts
begin

text \<open>
  The resets, the moves of a head and the sweep of stale scenarios: what each of them changes and
  what it leaves alone.
\<close>

section \<open>Resets\<close>

lemma reset_provider_ok:
  assumes "provider_ok p"
  shows "provider_ok (reset_provider scen hist p)"
    and "scen \<Longrightarrow> cfg_snapshot ScenarioConfig (scenario (reset_provider scen hist p)) = cfg_snapshot ScenarioConfig (new_config ScenarioConfig)"
    and "scen \<Longrightarrow> cfg_snapshot (quirks_class p) (quirks (reset_provider scen hist p)) = cfg_snapshot (quirks_class p) (new_config (quirks_class p))"
proof -
  from assms have ok: "config_ok ScenarioConfig (scenario p)" "config_ok (quirks_class p) (quirks p)"
    and qc: "declared_fields (quirks_class p)"
    by (auto simp: provider_ok_def config_classes_declared)
  note sc_snap = scenario.rst_snap [OF ok(1)] and sc_ok = scenario.rst_ok [OF ok(1)]
  note q = declared_fields.reset_spec [OF qc ok(2)]
  have q_snap: "cfg_snapshot (quirks_class p) (fst (cfg_reset (quirks_class p) (quirks p))) = cfg_snapshot (quirks_class p) (new_config (quirks_class p))"
    by (simp add: q cfg_snapshot_def new_config_def)
  have q_ok: "config_ok (quirks_class p) (fst (cfg_reset (quirks_class p) (quirks p)))"
    using declared_fields.default_keys [OF qc] by (simp add: q config_ok_def)
  have fresh: "filters_ok (cfg_snapshot ScenarioConfig (new_config ScenarioConfig))"
    "ports_ok (cfg_snapshot ScenarioConfig (new_config ScenarioConfig))"
    by (simp_all add: filters_ok_def ports_ok_def fresh_filters)
  show "provider_ok (reset_provider scen hist p)"
    using assms sc_ok q_ok fresh
    by (simp add: provider_ok_def reset_provider_def Let_def forget_executed_def reset_fail_def sc_snap)
  show "scen \<Longrightarrow> cfg_snapshot ScenarioConfig (scenario (reset_provider scen hist p)) = cfg_snapshot ScenarioConfig (new_config ScenarioConfig)"
    by (simp add: reset_provider_def Let_def forget_executed_def reset_fail_def sc_snap)
  show "scen \<Longrightarrow> cfg_snapshot (quirks_class p) (quirks (reset_provider scen hist p)) = cfg_snapshot (quirks_class p) (new_config (quirks_class p))"
    by (simp add: reset_provider_def Let_def forget_executed_def reset_fail_def q_snap)
qed

lemma wishes_of_total:
  assumes "reg_ok reg" and "gates_ok gs reg"
    and "\<And>k. k \<in> set ids \<Longrightarrow> \<exists>p. find_provider reg (fst k) (snd k) = Inr p"
  shows "\<exists>ws. wishes_of reg gs ids = Inr ws"
  using assms(3)
proof (induction ids)
  case (Cons k ids)
  then obtain p ws where "find_provider reg (fst k) (snd k) = Inr p" "wishes_of reg gs ids = Inr ws" by fastforce
  moreover obtain ws0 where "port_wishes reg gs (endpoints p) = Inr ws0" using port_wishes_total [OF assms(1,2)] by blast
  ultimately show ?case by simp
qed simp

lemma map_of_reset_heads:
  "map_of (reset_heads names table) n =
     map_option (\<lambda>hs. if n \<in> set names then map (\<lambda>(h, hd). (h, head_reset hd)) hs else hs) (map_of table n)"
  unfolding reset_heads_def by (rule map_of_map_key)

text \<open>What a reset has done to a provider, and the reset of one pool.\<close>

definition reset_done :: "provider \<Rightarrow> provider \<Rightarrow> bool" where
  "reset_done p p' \<longleftrightarrow> cfg_snapshot ScenarioConfig (scenario p') = cfg_snapshot ScenarioConfig (new_config ScenarioConfig)
     \<and> cfg_snapshot (quirks_class p) (quirks p') = cfg_snapshot (quirks_class p) (new_config (quirks_class p))
     \<and> p' = p\<lparr>scenario := scenario p', quirks := quirks p', fail_count := 0, executed := []\<rparr>"

lemma reset_provider_done: "provider_ok p \<Longrightarrow> reset_done p (reset_provider True False p)"
  using reset_provider_ok(2,3) [of p True False]
  by (simp add: reset_done_def) (simp add: reset_provider_def Let_def forget_executed_def reset_fail_def)

definition pool_reset :: "string \<Rightarrow> pool \<Rightarrow> control \<Rightarrow> control \<Rightarrow> bool" where
  "pool_reset n pl c c' \<longleftrightarrow> control_ok c'
     \<and> (\<forall>n' i. n' \<noteq> n \<longrightarrow> find_provider (registry_of c') n' i = find_provider (registry_of c) n' i)
     \<and> (\<forall>i p. find_provider (registry_of c) n i = Inr p \<longrightarrow> (\<exists>p'. find_provider (registry_of c') n i = Inr p' \<and> reset_done p p'))
     \<and> (\<forall>chain. map_of (chain_heads_of c') chain = map_option (\<lambda>hs.
          if chain = pl_chain pl then map (\<lambda>(h, hd). (h, head_reset hd)) hs else hs) (map_of (chain_heads_of c) chain))
     \<and> caches_of c' = caches_of c \<and> proxies_of c' = clear_latency_all (proxies_of c)"

lemma pool_reset_done:
  assumes ok: "control_ok c" and n: "map_of (pools (registry_of c)) n = Some pl"
  shows "\<exists>ids. scope (VStr n) c = Inr (ids, if map_of (chain_heads_of c) (pl_chain pl) \<noteq> None then [pl_chain pl] else [])
    \<and> (\<forall>i. (n, i) \<in> set ids \<longleftrightarrow> map_of (providers pl) i \<noteq> None) \<and> (\<forall>k \<in> set ids. fst k = n)"
proof -
  let ?ids = "map (\<lambda>(i, p). (n, i)) (providers pl)"
  have "scope (VStr n) c = Inr (?ids, if map_of (chain_heads_of c) (pl_chain pl) \<noteq> None then [pl_chain pl] else [])"
    using n by (simp add: scope_def)
  moreover have "(n, i) \<in> set ?ids \<longleftrightarrow> map_of (providers pl) i \<noteq> None" for i
    by (induction "providers pl") (auto simp: map_of_eq_None_iff rev_image_eqI)
  moreover have "fst k = n" if "k \<in> set ?ids" for k using that by auto
  ultimately show ?thesis by blast
qed

text \<open>
  C5. A scenario reset of one pool puts every provider of the pool back to the defaults, with its
  counter and its memory of executions empty and its log kept, and rewinds the heads of the one
  chain that the pool serves. Every provider of every other pool, every other chain and every
  cache is as it was. The answer is 200, or the 500 that says that a port has not followed; a pool
  that does not exist is a 400 that changes nothing.
\<close>

theorem pool_reset_isolated:
  assumes "control_ok c"
  shows "case reset waits (VStr n) c of (r, c') \<Rightarrow>
      (case map_of (pools (registry_of c)) n of
         None \<Rightarrow> r = Inl (Refuse 400 NoSuchPool) \<and> c' = c
       | Some pl \<Rightarrow> pool_reset n pl c c'
           \<and> (case r of Inr (status, reply) \<Rightarrow> status = 200 | Inl (Refuse status why) \<Rightarrow> status = 500 | _ \<Rightarrow> False))"
proof (cases "map_of (pools (registry_of c)) n")
  case None
  then show ?thesis by (simp add: reset_def perform_reset_def scope_def)
next
  case (Some pl)
  let ?chs = "if map_of (chain_heads_of c) (pl_chain pl) \<noteq> None then [pl_chain pl] else []"
  obtain ids where ids: "scope (VStr n) c = Inr (ids, ?chs)"
    "\<And>i. (n, i) \<in> set ids \<longleftrightarrow> map_of (providers pl) i \<noteq> None" "\<And>k. k \<in> set ids \<Longrightarrow> fst k = n"
    using pool_reset_done [OF assms Some] by blast
  define f where "f k p = (if k \<in> set ids then reset_provider True False p else p)" for k p
  let ?reg = "map_providers f (registry_of c)"
  from assms have ok: "reg_ok (registry_of c)" "gates_ok (port_gates c) (registry_of c)" by (simp_all add: control_ok_def)
  have rok: "reg_ok ?reg" by (rule reg_ok_map_providers [OF ok(1)]) (simp add: f_def reset_provider_ok)
  have gok: "gates_ok (port_gates c) ?reg" using ok(2) by (rule gates_ok_map_providers)
  have "\<exists>p. find_provider ?reg (fst k) (snd k) = Inr p" if "k \<in> set ids" for k
  proof -
    from ids(2,3) that have "map_of (providers pl) (snd k) \<noteq> None" "fst k = n" by (metis prod.collapse)+
    then obtain p where "find_provider (registry_of c) (fst k) (snd k) = Inr p" using Some by (auto simp: find_provider_def)
    then show ?thesis by (simp add: find_map_providers)
  qed
  then obtain ws where ws: "wishes_of ?reg (port_gates c) ids = Inr ws" using wishes_of_total [OF rok gok] by blast
  obtain stuck gs where settle: "settle_ports waits ws (port_gates c) = (stuck, gs)" by fastforce
  let ?c = "c\<lparr>registry_of := ?reg, chain_heads_of := reset_heads ?chs (chain_heads_of c),
      proxies_of := clear_latency_all (proxies_of c), port_gates := gs\<rparr>"
  have fin: "reset waits (VStr n) c = (fst (reset waits (VStr n) c), ?c)
      \<and> (case fst (reset waits (VStr n) c) of Inr (status, reply) \<Rightarrow> status = 200 | Inl (Refuse status why) \<Rightarrow> status = 500 | _ \<Rightarrow> False)"
    using ids(1) ws settle by (simp add: reset_def perform_reset_def Let_def f_def [abs_def])
  have "control_ok ?c"
    using rok gates_ok_settle [OF gok, of waits ws] settle by (simp add: control_ok_def)
  moreover have "find_provider ?reg n' i = find_provider (registry_of c) n' i" if "n' \<noteq> n" for n' i
    using that ids(3) [of "(n', i)"] by (cases "find_provider (registry_of c) n' i") (auto simp: find_map_providers f_def)
  moreover have "\<exists>p'. find_provider ?reg n i = Inr p' \<and> reset_done p p'" if p: "find_provider (registry_of c) n i = Inr p" for i p
  proof -
    have "(n, i) \<in> set ids" using p Some ids(2) by (auto simp: find_provider_def split: option.splits)
    then have "find_provider ?reg n i = Inr (reset_provider True False p)" using p by (simp add: find_map_providers f_def)
    moreover have "provider_ok p" using ok(1) p by (auto simp: reg_ok_def)
    ultimately show ?thesis using reset_provider_done by blast
  qed
  moreover have "map_of (reset_heads ?chs (chain_heads_of c)) chain = map_option (\<lambda>hs.
          if chain = pl_chain pl then map (\<lambda>(h, hd). (h, head_reset hd)) hs else hs) (map_of (chain_heads_of c) chain)" for chain
    by (cases "map_of (chain_heads_of c) chain") (auto simp: map_of_reset_heads)
  ultimately have "pool_reset n pl c ?c" by (simp add: pool_reset_def)
  with fin Some show ?thesis by (simp split: prod.split) (metis fst_conv snd_conv)
qed

theorem pool_reset_isolated_witness:
  "map_of (pools (registry_of sample_control)) ''eth-sim'' \<noteq> None \<and>
   (case reset (\<lambda>_ _ _. True) (VStr ''eth-sim'') sample_control of (r, c') \<Rightarrow>
      (case map_of (pools (registry_of sample_control)) ''eth-sim'' of
         None \<Rightarrow> r = Inl (Refuse 400 NoSuchPool) \<and> c' = sample_control
       | Some pl \<Rightarrow> pool_reset ''eth-sim'' pl sample_control c'
           \<and> (case r of Inr (status, reply) \<Rightarrow> status = 200 | Inl (Refuse status why) \<Rightarrow> status = 500 | _ \<Rightarrow> False)))"
  using pool_reset_isolated [OF sample_control_ok, where waits = "\<lambda>_ _ _. True" and n = "''eth-sim''"]
  by (rule conjI [rotated]) (simp add: sample_control_def)

section \<open>Moves of a head\<close>

text \<open>A table of heads: no chain and no head of a chain is named twice.\<close>

definition heads_ok :: "chain_heads \<Rightarrow> bool" where
  "heads_ok table \<longleftrightarrow> distinct (dict_keys table) \<and> (\<forall>(n, hs) \<in> set table. distinct (dict_keys hs))"

lemma CHAINS_heads_ok: "heads_ok CHAINS"
  by (simp add: heads_ok_def CHAINS_def)

lemma update_same: "map_of al k = Some v \<Longrightarrow> AList.update k v al = al"
  by (induction al) (auto split: if_splits)

lemma map_of_put_head:
  "map_of (put_head chain h x table) n =
     map_option (\<lambda>hs. if n = chain then AList.update h x hs else hs) (map_of table n)"
  unfolding put_head_def by (rule map_of_map_key)

lemma put_head_same:
  assumes "distinct (dict_keys table)" and "map_of table chain = Some hs" and "map_of hs h = Some x"
  shows "put_head chain h x table = table"
proof -
  have "(case kv of (n, hs') \<Rightarrow> (n, if n = chain then AList.update h x hs' else hs')) = kv" if "kv \<in> set table" for kv
  proof -
    obtain n hs' where kv: "kv = (n, hs')" by (cases kv)
    have "map_of table n = Some hs'" using assms(1) that kv by simp
    then have "n = chain \<Longrightarrow> hs' = hs" using assms(2) by simp
    then show ?thesis using assms(3) by (simp add: kv update_same)
  qed
  then show ?thesis by (simp add: put_head_def map_idI)
qed

lemma chosen_head_found:
  assumes "chosen_head body hs = Inr (Some h)"
  shows "\<exists>x. map_of hs h = Some x"
proof -
  have "h \<in> set (dict_keys hs)"
    using assms by (auto simp: chosen_head_def split: pyval.splits list.splits if_splits)
  then show ?thesis by (metis map_of_eq_None_iff not_None_eq set_map)
qed

lemma move_head_read: "\<not> is_move body \<Longrightarrow> move_head now body h = (None, h)"
  by (auto simp: is_move_def move_head_def has_key_def vget_or_def bump_def split: option.splits pyval.splits)

text \<open>The state after the writes of a move.\<close>

definition after_move :: "rat \<Rightarrow> pyval \<Rightarrow> string \<Rightarrow> (string, head) dict \<Rightarrow> string option \<Rightarrow> control \<Rightarrow> control" where
  "after_move now body chain hs chosen c = (case chosen of
     None \<Rightarrow> c
   | Some h \<Rightarrow> c\<lparr>chain_heads_of := put_head chain h (snd (move_head now body (the (map_of hs h)))) (chain_heads_of c)\<rparr>)"

definition heads_reply :: "rat \<Rightarrow> string \<Rightarrow> control \<Rightarrow> pyval \<Rightarrow> bool" where
  "heads_reply now chain c reply \<longleftrightarrow> (\<exists>hs vals. map_of (chain_heads_of c) chain = Some hs
     \<and> read_heads now (sort_key fst hs) = Inr vals \<and> vget reply ''heads'' = Some (jobj vals))"

lemma after_move_heads:
  assumes "map_of (chain_heads_of c) chain = Some hs"
  shows "\<exists>hs'. map_of (chain_heads_of (after_move now body chain hs chosen c)) chain = Some hs'"
  using assms by (auto simp: after_move_def map_of_put_head split: option.split)

lemma advance_cases:
  obtains (refused) st where "advance now body c = (Inl st, c)"
      "(\<exists>e. st = Raise e) \<or> (\<exists>why. st = Refuse 400 why)"
    | (moved) chain hs chosen r where "vget_or body ''chain'' (VStr ''eth'') = VStr chain"
      "map_of (chain_heads_of c) chain = Some hs" "chosen_head body hs = Inr chosen"
      "advance now body c = (r, after_move now body chain hs chosen c)"
      "(\<exists>e. r = Inl (Raise e))
       \<or> (\<exists>reply. r = Inr (200, reply) \<and> heads_reply now chain (after_move now body chain hs chosen c) reply)"
proof (cases "\<exists>chain hs chosen. is_dict body \<and> vget_or body ''chain'' (VStr ''eth'') = VStr chain
    \<and> map_of (chain_heads_of c) chain = Some hs \<and> hs \<noteq> []
    \<and> first_refusal (number_refused body) [''blocks'', ''per_second''] = None \<and> chosen_head body hs = Inr chosen")
  case False
  have "\<exists>st. advance now body c = (Inl st, c) \<and> ((\<exists>e. st = Raise e) \<or> (\<exists>why. st = Refuse 400 why))"
  proof (cases "vget_or body ''chain'' (VStr ''eth'')")
    case (VStr chain)
    show ?thesis
    proof (cases "map_of (chain_heads_of c) chain")
      case (Some hs)
      show ?thesis
      proof (cases "first_refusal (number_refused body) [''blocks'', ''per_second'']")
        case None
        show ?thesis
        proof (cases "chosen_head body hs")
          case (Inl st)
          have "(\<exists>e. st = Raise e) \<or> (\<exists>why. st = Refuse 400 why)"
            using Inl by (auto simp: chosen_head_def split: pyval.splits list.splits if_splits)
          with Inl VStr Some None show ?thesis by (auto simp: advance_def)
        qed (use False VStr Some None in \<open>auto simp: advance_def\<close>)
      qed (use VStr Some in \<open>auto simp: advance_def\<close>)
    qed (use VStr in \<open>auto simp: advance_def\<close>)
  qed (simp_all add: advance_def)
  then show ?thesis using refused by blast
next
  case True
  then obtain chain hs chosen where h: "is_dict body" "vget_or body ''chain'' (VStr ''eth'') = VStr chain"
    "map_of (chain_heads_of c) chain = Some hs" "hs \<noteq> []"
    "first_refusal (number_refused body) [''blocks'', ''per_second''] = None" "chosen_head body hs = Inr chosen" by blast
  let ?c = "after_move now body chain hs chosen c"
  let ?e = "case chosen of None \<Rightarrow> None | Some n \<Rightarrow> fst (move_head now body (the (map_of hs n)))"
  obtain hs' where hs': "map_of (chain_heads_of ?c) chain = Some hs'" using after_move_heads [OF h(3)] by blast
  have moved_eq: "(case chosen of None \<Rightarrow> (None, c)
      | Some n \<Rightarrow> (case move_head now body (the (map_of hs n)) of
          (e, h) \<Rightarrow> (e, c\<lparr>chain_heads_of := put_head chain n h (chain_heads_of c)\<rparr>))) = (?e, ?c)"
    by (simp add: after_move_def split: option.split prod.split)
  have adv: "advance now body c = (case ?e of
      Some e \<Rightarrow> (Inl (Raise e), ?c)
    | None \<Rightarrow> (case read_heads now (sort_key fst hs') of
        Inl e \<Rightarrow> (Inl (Raise e), ?c)
      | Inr vals \<Rightarrow> (Inr (200, jobj
          [(''status'', VStr ''ok''), (''chain'', VStr chain),
           (''head_name'', case chosen of None \<Rightarrow> VNone | Some n \<Rightarrow> VStr n), (''heads'', jobj vals),
           (''head'', case chosen of None \<Rightarrow> VNone | Some n \<Rightarrow> get_or vals n VNone)]), ?c)))"
    using h hs' unfolding advance_def by (simp only: moved_eq if_False if_True pyval.case option.case sum.case Let_def
        not_True_eq_False prod.case option.sel split: option.split sum.split)
  show ?thesis
  proof (cases ?e)
    case (Some e)
    with adv moved [OF h(2,3,6)] show ?thesis by simp
  next
    case None
    show ?thesis
    proof (cases "read_heads now (sort_key fst hs')")
      case (Inl e)
      with None adv moved [OF h(2,3,6)] show ?thesis by simp
    next
      case (Inr vals)
      with None adv moved [OF h(2,3,6)] hs' show ?thesis by (simp add: heads_reply_def)
    qed
  qed
qed

lemma after_move_frame:
  assumes "heads_ok (chain_heads_of c)" and "map_of (chain_heads_of c) chain = Some hs" and "chosen_head body hs = Inr chosen"
  shows "after_move now body chain hs chosen c = c\<lparr>chain_heads_of := chain_heads_of (after_move now body chain hs chosen c)\<rparr>"
    and "\<not> is_move body \<Longrightarrow> after_move now body chain hs chosen c = c"
    and "map_of (chain_heads_of c) n = Some hn \<Longrightarrow>
      \<exists>hn'. map_of (chain_heads_of (after_move now body chain hs chosen c)) n = Some hn' \<and> dict_keys hn' = dict_keys hn
        \<and> (\<forall>h. map_of hn' h \<noteq> map_of hn h \<longrightarrow> n = chain \<and> chosen = Some h)"
proof -
  show "after_move now body chain hs chosen c = c\<lparr>chain_heads_of := chain_heads_of (after_move now body chain hs chosen c)\<rparr>"
    by (simp add: after_move_def split: option.split)
  have dist: "distinct (dict_keys (chain_heads_of c))" using assms(1) by (simp add: heads_ok_def)
  have found: "chosen = Some h \<Longrightarrow> \<exists>x. map_of hs h = Some x" for h using assms(3) chosen_head_found by blast
  show "after_move now body chain hs chosen c = c" if "\<not> is_move body"
  proof (cases chosen)
    case (Some h)
    then obtain x where x: "map_of hs h = Some x" using found by blast
    then show ?thesis
      using put_head_same [OF dist assms(2) x] Some that by (simp add: after_move_def move_head_read)
  qed (simp add: after_move_def)
  show "\<exists>hn'. map_of (chain_heads_of (after_move now body chain hs chosen c)) n = Some hn' \<and> dict_keys hn' = dict_keys hn
        \<and> (\<forall>h. map_of hn' h \<noteq> map_of hn h \<longrightarrow> n = chain \<and> chosen = Some h)"
    if "map_of (chain_heads_of c) n = Some hn"
  proof (cases chosen)
    case (Some h)
    then obtain x where "map_of hs h = Some x" using found by blast
    then have "h \<in> set (dict_keys hs)" by (metis map_of_eq_None_iff option.distinct(1) set_map)
    then have "dict_keys (AList.update h x hs) = dict_keys hs" for x by (rule keys_update_mem)
    with that assms(2) Some show ?thesis
      by (auto simp: after_move_def map_of_put_head map_of_update)
  qed (use that in \<open>simp add: after_move_def\<close>)
qed

text \<open>
  \<open>POST /advance\<close> changes at most the one head that its body names, and nothing else of the
  simulator. A body that asks for no move, and a request that is refused, changes nothing; every
  refusal is a 400. An accepted request answers with the value of every head of the chain after
  the move.
\<close>

theorem advance_changes_named_head:
  assumes "heads_ok (chain_heads_of c)"
  shows "case advance now body c of (r, c') \<Rightarrow>
      c' = c\<lparr>chain_heads_of := chain_heads_of c'\<rparr>
      \<and> (\<not> is_move body \<longrightarrow> c' = c)
      \<and> (case r of
           Inl (Refuse status why) \<Rightarrow> status = 400 \<and> c' = c
         | Inl (Raise e) \<Rightarrow> True
         | Inr (status, reply) \<Rightarrow> status = 200
             \<and> (\<exists>chain. vget_or body ''chain'' (VStr ''eth'') = VStr chain \<and> heads_reply now chain c' reply))
      \<and> (\<forall>n hs. map_of (chain_heads_of c) n = Some hs \<longrightarrow>
           (\<exists>hs'. map_of (chain_heads_of c') n = Some hs' \<and> dict_keys hs' = dict_keys hs
             \<and> (\<forall>h. map_of hs' h \<noteq> map_of hs h \<longrightarrow>
                   vget_or body ''chain'' (VStr ''eth'') = VStr n \<and> chosen_head body hs = Inr (Some h))))"
proof (cases rule: advance_cases [of now body c])
  case (refused st)
  then show ?thesis by auto
next
  case (moved chain hs chosen r)
  let ?c = "after_move now body chain hs chosen c"
  note frame = after_move_frame [OF assms moved(2,3), where now = now]
  have heads: "\<exists>hn'. map_of (chain_heads_of ?c) n = Some hn' \<and> dict_keys hn' = dict_keys hn
      \<and> (\<forall>h. map_of hn' h \<noteq> map_of hn h \<longrightarrow>
            vget_or body ''chain'' (VStr ''eth'') = VStr n \<and> chosen_head body hn = Inr (Some h))"
    if n: "map_of (chain_heads_of c) n = Some hn" for n hn
  proof -
    obtain hn' where hn': "map_of (chain_heads_of ?c) n = Some hn'" "dict_keys hn' = dict_keys hn"
      "\<forall>h. map_of hn' h \<noteq> map_of hn h \<longrightarrow> n = chain \<and> chosen = Some h"
      using frame(3) [OF n] by blast
    have "n = chain \<Longrightarrow> hn = hs" using n moved(2) by simp
    with hn' moved(1,3) show ?thesis by (metis (no_types, lifting))
  qed
  have "case r of Inl (Refuse status why) \<Rightarrow> status = 400 \<and> ?c = c | Inl (Raise e) \<Rightarrow> True
      | Inr (status, reply) \<Rightarrow> status = 200
          \<and> (\<exists>chain. vget_or body ''chain'' (VStr ''eth'') = VStr chain \<and> heads_reply now chain ?c reply)"
    using moved(1,5) by auto
  with frame(1,2) heads show ?thesis unfolding moved(4) prod.case by blast
qed

theorem advance_changes_named_head_witness:
  "heads_ok CHAINS \<and> (case advance 0 (jobj [(''blocks'', VInt 0)]) (new_control new_registry) of (r, c') \<Rightarrow>
     c' = new_control new_registry)"
proof -
  have "\<not> is_move (jobj [(''blocks'', VInt 0)])" by code_simp
  moreover have "heads_ok (chain_heads_of (new_control new_registry))" by (simp add: new_control_def CHAINS_heads_ok)
  ultimately show ?thesis
    using advance_changes_named_head [where c = "new_control new_registry" and now = 0 and body = "jobj [(''blocks'', VInt 0)]"]
      CHAINS_heads_ok by (auto split: prod.splits)
qed

section \<open>The sweep\<close>

lemma revert_scenario_ok:
  assumes "provider_ok p"
  shows "provider_ok (revert_scenario p)"
    and "cfg_snapshot ScenarioConfig (scenario (revert_scenario p)) = cfg_snapshot ScenarioConfig (new_config ScenarioConfig)"
proof -
  from assms have ok: "config_ok ScenarioConfig (scenario p)" by (simp add: provider_ok_def)
  show snap: "cfg_snapshot ScenarioConfig (scenario (revert_scenario p)) = cfg_snapshot ScenarioConfig (new_config ScenarioConfig)"
    using scenario.rst_snap [OF ok] by (simp add: revert_scenario_def)
  show "provider_ok (revert_scenario p)"
    using assms scenario.rst_ok [OF ok] snap
    by (simp add: provider_ok_def revert_scenario_def filters_ok_def ports_ok_def fresh_filters)
qed

lemma stale_ids_found:
  assumes "k \<in> set (stale_ids ttl_s now reg)" and "distinct (dict_keys (pools reg))"
  shows "\<exists>p. find_provider reg (fst k) (snd k) = Inr p"
proof -
  from assms(1) obtain n pl i p where k: "k = (n, i)" "(n, pl) \<in> set (pools reg)" "(i, p) \<in> set (providers pl)"
    by (auto simp: stale_ids_def)
  have "map_of (pools reg) n = Some pl" using k(2) assms(2) by simp
  moreover have "map_of (providers pl) i \<noteq> None" using k(3) by (metis fst_conv map_of_eq_None_iff rev_image_eqI)
  ultimately show ?thesis by (auto simp: k(1) find_provider_def)
qed

text \<open>
  C29. One pass of the sweep reverts the scenario of exactly the providers that were last written
  longer ago than the time to live and are in a mode other than success: they read the defaults
  afterwards, with their quirks, log and counter kept. Every other provider is as it was, whatever
  faults it has beside its mode, and so are the heads, the caches and the proxies. The pass never
  raises.
\<close>

theorem sweep_reverts_stale:
  assumes "control_ok c" and "distinct (dict_keys (pools (registry_of c)))"
  shows "case revert_stale_scenarios waits ttl_s now c of (e, c') \<Rightarrow>
      e = None \<and> control_ok c'
      \<and> (\<forall>pl i p. find_provider (registry_of c) pl i = Inr p \<longrightarrow>
           (\<exists>p'. find_provider (registry_of c') pl i = Inr p'
             \<and> (if of_int ttl_s < now - last_write_at now (scenario p)
                  \<and> get_or (cfg_snapshot ScenarioConfig (scenario p)) ''mode'' VNone \<noteq> VStr ''success''
                then cfg_snapshot ScenarioConfig (scenario p') = cfg_snapshot ScenarioConfig (new_config ScenarioConfig)
                  \<and> p' = p\<lparr>scenario := scenario p'\<rparr>
                else p' = p)))
      \<and> c' = c\<lparr>registry_of := registry_of c', port_gates := port_gates c'\<rparr>"
proof -
  define f where "f = (\<lambda>(k :: provider_id) p. if stale ttl_s now p then revert_scenario p else p)"
  let ?reg = "map_providers f (registry_of c)" and ?ids = "stale_ids ttl_s now (registry_of c)"
  from assms(1) have ok: "reg_ok (registry_of c)" "gates_ok (port_gates c) (registry_of c)" by (simp_all add: control_ok_def)
  have rok: "reg_ok ?reg" by (rule reg_ok_map_providers [OF ok(1)]) (simp add: f_def revert_scenario_ok)
  have gok: "gates_ok (port_gates c) ?reg" using ok(2) by (rule gates_ok_map_providers)
  have "\<exists>p. find_provider ?reg (fst k) (snd k) = Inr p" if k: "k \<in> set ?ids" for k
    using stale_ids_found [OF k assms(2)] by (auto simp: find_map_providers)
  then obtain ws where ws: "wishes_of ?reg (port_gates c) ?ids = Inr ws" using wishes_of_total [OF rok gok] by blast
  let ?c = "c\<lparr>registry_of := ?reg, port_gates := snd (settle_ports waits ws (port_gates c))\<rparr>"
  have run: "revert_stale_scenarios waits ttl_s now c = (None, ?c)"
    using ws by (simp add: revert_stale_scenarios_def f_def)
  have "control_ok ?c" using rok gates_ok_settle [OF gok] by (simp add: control_ok_def)
  moreover have "\<exists>p'. find_provider ?reg pl i = Inr p'
      \<and> (if stale ttl_s now p then cfg_snapshot ScenarioConfig (scenario p') = cfg_snapshot ScenarioConfig (new_config ScenarioConfig)
            \<and> p' = p\<lparr>scenario := scenario p'\<rparr> else p' = p)" if p: "find_provider (registry_of c) pl i = Inr p" for pl i p
  proof -
    have "provider_ok p" using ok(1) p by (auto simp: reg_ok_def)
    from revert_scenario_ok(2) [OF this] p show ?thesis
      by (simp add: find_map_providers f_def) (simp add: revert_scenario_def)
  qed
  ultimately show ?thesis unfolding run by (simp add: stale_def)
qed

theorem sweep_reverts_stale_witness:
  "case revert_stale_scenarios (\<lambda>_ _ _. True) 60 1000 closed_control of (e, c') \<Rightarrow> e = None"
proof -
  have "control_ok closed_control"
    using apply_scenario_cases [OF sample_control_ok, of closing_body 0 "\<lambda>_ _ _. True"] sample_control_ok
    by (auto simp: closed_control_def scenario_applied_def closing_body_def jobj_def split: prod.splits sum.splits stop.splits)
  moreover have "distinct (dict_keys (pools (registry_of closed_control)))" by code_simp
  ultimately show ?thesis
    using sweep_reverts_stale [where c = closed_control and waits = "\<lambda>_ _ _. True" and ttl_s = 60 and now = 1000] by (auto split: prod.splits)
qed

end
