(* ===== verification/Sockets.thy ===== *)
theory Sockets
  imports Prelude "HOL-Library.Word"
begin

text \<open>
  What the code that reads bytes from a socket shares. A byte is an 8-bit word.

  The \<open>recv\<close> of a socket is a function of the segments that the peer has sent and nobody has read;
  after the last one the peer has closed. How the bytes are cut into segments is free, so a theorem
  over all segments holds for every way the network delivers them.

  The locale \<open>byte_reader\<close> is the contract of a reader: what it gives depends on the bytes alone, as
  a specification over one list of bytes says, and bytes that arrive later do not change it. Both
  protocols of the simulator that are read by hand, WebSocket frames and RESP replies, meet it.
\<close>

type_synonym byte = "8 word"
type_synonym sock = "byte list list"

fun recv :: "nat \<Rightarrow> sock \<Rightarrow> byte list \<times> sock" where
  "recv n [] = ([], [])"
| "recv n (seg # rest) = (if length seg \<le> n then (seg, rest) else (take n seg, drop n seg # rest))"

definition unread :: "sock \<Rightarrow> byte list" where
  "unread s = concat s"

lemma unread_simps [simp]: "unread [] = []" "unread (seg # s) = seg @ unread s"
  by (simp_all add: unread_def)

text \<open>A socket with no empty segment: an empty read means that the peer has closed.\<close>

definition flowing :: "sock \<Rightarrow> bool" where
  "flowing s \<longleftrightarrow> [] \<notin> set s"

lemma flowing_simps [simp]: "flowing []" "flowing (seg # s) \<longleftrightarrow> seg \<noteq> [] \<and> flowing s"
  by (auto simp: flowing_def)

lemma recv_bytes: "recv n s = (chunk, s') \<Longrightarrow> unread s = chunk @ unread s' \<and> length chunk \<le> n"
  by (cases s) (auto split: if_splits)

lemma recv_flowing:
  assumes "recv n s = (chunk, s')" and "flowing s" and "0 < n"
  shows "flowing s'" and "chunk = [] \<longleftrightarrow> unread s = []"
  using assms by (cases s; auto split: if_splits)+

lemma still_missing: "m < n \<Longrightarrow> chunk \<noteq> [] \<Longrightarrow> n - (m + length chunk) < n - m"
  by (cases chunk) auto

text \<open>The sequence of two reads, where a failed one ends the parse.\<close>

definition and_then :: "('e + 'a) \<times> 's \<Rightarrow> ('a \<Rightarrow> 's \<Rightarrow> ('e + 'b) \<times> 's) \<Rightarrow> ('e + 'b) \<times> 's" where
  "and_then m f = (case m of (Inl e, s) \<Rightarrow> (Inl e, s) | (Inr x, s) \<Rightarrow> f x s)"

lemma and_then_simps [simp]: "and_then (Inl e, s) f = (Inl e, s)" "and_then (Inr x, s) f = f x s"
  by (simp_all add: and_then_def)

lemma and_then_Inr:
  assumes "and_then m f = (Inr y, s')"
  obtains x s where "m = (Inr x, s)" and "f x s = (Inr y, s')"
  using assms by (cases m; cases "fst m") auto

text \<open>The same sequence over one list of bytes.\<close>

definition seq_spec :: "'e + 'a \<times> byte list \<Rightarrow> ('a \<Rightarrow> byte list \<Rightarrow> 'e + 'b \<times> byte list) \<Rightarrow> 'e + 'b \<times> byte list" where
  "seq_spec m g = bind_r m (\<lambda>(x, rest). g x rest)"

lemma seq_spec_simps [simp]: "seq_spec (Inl e) g = Inl e" "seq_spec (Inr (x, rest)) g = g x rest"
  by (simp_all add: seq_spec_def)

lemma seq_spec_Inr:
  "seq_spec m g = Inr z \<longleftrightarrow> (\<exists>x rest. m = Inr (x, rest) \<and> g x rest = Inr z)"
  by (auto simp: seq_spec_def bind_r_Inr_iff)

locale byte_reader =
  fixes content :: "'s \<Rightarrow> byte list"
    and good :: "'s \<Rightarrow> bool"
    and rd :: "'s \<Rightarrow> ('e + 'a) \<times> 's"
    and spec :: "byte list \<Rightarrow> 'e + 'a \<times> byte list"
  assumes reads: "good s \<Longrightarrow> spec (content s) = Inr (x, rest) \<Longrightarrow>
      \<exists>s'. rd s = (Inr x, s') \<and> content s' = rest \<and> good s'"
    and fails: "good s \<Longrightarrow> spec (content s) = Inl e \<Longrightarrow> \<exists>s'. rd s = (Inl e, s')"
    and stable: "spec bs = Inr (x, rest) \<Longrightarrow> spec (bs @ more) = Inr (x, rest @ more)"
    and suffix: "spec bs = Inr (x, rest) \<Longrightarrow> \<exists>used. bs = used @ rest"
begin

text \<open>The reader gives what the specification gives, and leaves the bytes that it leaves.\<close>

lemma result: "good s \<Longrightarrow> fst (rd s) = (case spec (content s) of Inl e \<Rightarrow> Inl e | Inr (x, rest) \<Rightarrow> Inr x)"
  using reads fails by (cases "spec (content s)") fastforce+

lemma cut_independent: "good s \<Longrightarrow> good t \<Longrightarrow> content s = content t \<Longrightarrow> fst (rd s) = fst (rd t)"
  by (simp add: result)

text \<open>A message that is cut short is never read as a message.\<close>

lemma cut_short:
  assumes "spec (bs @ more) = Inr (x, [])" and "more \<noteq> []" and "good s" and "content s = bs"
  shows "\<exists>e s'. rd s = (Inl e, s')"
proof (cases "spec bs")
  case (Inl e)
  with assms(3,4) fails show ?thesis by blast
next
  case (Inr out)
  then obtain y rest where "spec bs = Inr (y, rest)" by (cases out) auto
  with stable [OF this, of more] assms(1,2) show ?thesis by simp
qed

end

text \<open>Readers are built from readers.\<close>

lemma byte_reader_return: "byte_reader content good (\<lambda>s. (Inr x, s)) (\<lambda>bs. Inr (x, bs))"
  by unfold_locales auto

lemma byte_reader_raise: "byte_reader content good (\<lambda>s. (Inl e, s)) (\<lambda>bs. Inl e)"
  by unfold_locales auto

lemma byte_reader_seq:
  assumes "byte_reader content good rd spec" and "\<And>x. byte_reader content good (f x) (g x)"
  shows "byte_reader content good (\<lambda>s. and_then (rd s) f) (\<lambda>bs. seq_spec (spec bs) g)"
proof
  fix s x rest
  assume "good s" and "seq_spec (spec (content s)) g = Inr (x, rest)"
  then obtain y r where "spec (content s) = Inr (y, r)" and g: "g y r = Inr (x, rest)"
    by (auto simp: seq_spec_Inr)
  with byte_reader.reads [OF assms(1) \<open>good s\<close>] obtain s1 where
    s1: "rd s = (Inr y, s1)" "content s1 = r" "good s1" by blast
  with g byte_reader.reads [OF assms(2) s1(3)] show "\<exists>s'. and_then (rd s) f = (Inr x, s') \<and> content s' = rest \<and> good s'"
    by fastforce
next
  fix s e
  assume "good s" and err: "seq_spec (spec (content s)) g = Inl e"
  show "\<exists>s'. and_then (rd s) f = (Inl e, s')"
  proof (cases "spec (content s)")
    case (Inl e')
    with err byte_reader.fails [OF assms(1) \<open>good s\<close>] show ?thesis by fastforce
  next
    case (Inr out)
    then obtain y r where out: "spec (content s) = Inr (y, r)" by (cases out) auto
    with byte_reader.reads [OF assms(1) \<open>good s\<close>] obtain s1 where
      s1: "rd s = (Inr y, s1)" "content s1 = r" "good s1" by blast
    with out err byte_reader.fails [OF assms(2) s1(3)] show ?thesis by fastforce
  qed
next
  fix bs x rest more
  assume "seq_spec (spec bs) g = Inr (x, rest)"
  then obtain y r where "spec bs = Inr (y, r)" and "g y r = Inr (x, rest)" by (auto simp: seq_spec_Inr)
  with byte_reader.stable [OF assms(1)] byte_reader.stable [OF assms(2)]
  show "seq_spec (spec (bs @ more)) g = Inr (x, rest @ more)" by simp
next
  fix bs x rest
  assume "seq_spec (spec bs) g = Inr (x, rest)"
  then obtain y r where "spec bs = Inr (y, r)" and "g y r = Inr (x, rest)" by (auto simp: seq_spec_Inr)
  then obtain u v where "bs = u @ r" and "r = v @ rest"
    using byte_reader.suffix [OF assms(1)] byte_reader.suffix [OF assms(2)] by blast
  then show "\<exists>used. bs = used @ rest" by simp
qed

lemma byte_reader_if:
  assumes "byte_reader content good rd spec" and "byte_reader content good rd' spec'"
  shows "byte_reader content good (if b then rd else rd') (if b then spec else spec')"
  using assms by simp

end
