(* ===== verification/WsProtocol.thy ===== *)
theory WsProtocol
  imports Sockets
begin

text \<open>
  \<open>listeners/ws_protocol.py\<close>: the codec of WebSocket frames, over the sockets of \<open>Sockets\<close>.

  The four random bytes of a mask are an argument. The handshake needs SHA-1 and base64, which are
  arguments of its definitions.
\<close>

unbundle bit_operations_syntax

section \<open>Exact reads\<close>

datatype codec_error = OpcodeOutOfRange | StructError | FrameParseError nat nat

text \<open>\<open>_recv_exact\<close>, with the bytes that are there so far.\<close>

function recv_exact :: "nat \<Rightarrow> byte list \<Rightarrow> sock \<Rightarrow> (codec_error + byte list) \<times> sock" where
  "recv_exact n buf s =
     (if length buf < n
      then (case recv (n - length buf) s of (chunk, s') \<Rightarrow>
              if chunk = [] then (Inl (FrameParseError (length buf) n), s')
              else recv_exact n (buf @ chunk) s')
      else (Inr buf, s))"
  by pat_completeness auto

termination
  by (relation "measure (\<lambda>(n, buf, s). n - length buf)") (auto intro: still_missing)

declare recv_exact.simps [simp del]

section \<open>Frames\<close>

definition OPCODE_CONTINUATION :: int where "OPCODE_CONTINUATION = 0"
definition OPCODE_TEXT :: int where "OPCODE_TEXT = 1"
definition OPCODE_BINARY :: int where "OPCODE_BINARY = 2"
definition OPCODE_CLOSE :: int where "OPCODE_CLOSE = 8"
definition OPCODE_PING :: int where "OPCODE_PING = 9"
definition OPCODE_PONG :: int where "OPCODE_PONG = 10"

lemmas opcode_defs = OPCODE_CONTINUATION_def OPCODE_TEXT_def OPCODE_BINARY_def OPCODE_CLOSE_def
  OPCODE_PING_def OPCODE_PONG_def

record frame =
  fin :: bool
  opcode :: int
  payload :: "byte list"

text \<open>\<open>struct.pack\<close> and \<open>struct.unpack\<close> of a big-endian number of \<open>n\<close> bytes.\<close>

fun be_bytes :: "nat \<Rightarrow> nat \<Rightarrow> byte list" where
  "be_bytes 0 v = []"
| "be_bytes (Suc n) v = word_of_nat (v div 256 ^ n) # be_bytes n v"

definition be_value :: "byte list \<Rightarrow> nat" where
  "be_value bs = foldl (\<lambda>acc b. acc * 256 + unat b) 0 bs"

definition masked_bytes :: "byte list \<Rightarrow> byte list \<Rightarrow> byte list" where
  "masked_bytes key bs = map (\<lambda>(i, b). b XOR key ! (i mod 4)) (enumerate 0 bs)"

definition mask_bit :: "byte list option \<Rightarrow> byte" where
  "mask_bit key = (if key = None then 0x00 else 0x80)"

definition length_field :: "byte list option \<Rightarrow> nat \<Rightarrow> codec_error + byte list" where
  "length_field key n =
     (if n < 126 then Inr [mask_bit key OR word_of_nat n]
      else if n < 2 ^ 16 then Inr ((mask_bit key OR 126) # be_bytes 2 n)
      else if n < 2 ^ 64 then Inr ((mask_bit key OR 127) # be_bytes 8 n)
      else Inl StructError)"

definition encode_frame :: "int \<Rightarrow> byte list \<Rightarrow> byte list option \<Rightarrow> codec_error + byte list" where
  "encode_frame op pl key =
     (if op < 0 \<or> op > 0xF then Inl OpcodeOutOfRange
      else let b1 = 0x80 OR (word_of_int op AND 0x0F)
           in bind_r (length_field key (length pl)) (\<lambda>len_field.
                Inr (case key of
                       Some k \<Rightarrow> [b1] @ len_field @ k @ masked_bytes k pl
                     | None \<Rightarrow> [b1] @ len_field @ pl)))"

text \<open>The extended length, the mask key and the payload of one frame.\<close>

definition read_length :: "nat \<Rightarrow> sock \<Rightarrow> (codec_error + nat) \<times> sock" where
  "read_length n s =
     (if n = 126 then and_then (recv_exact 2 [] s) (\<lambda>bs s. (Inr (be_value bs), s))
      else if n = 127 then and_then (recv_exact 8 [] s) (\<lambda>bs s. (Inr (be_value bs), s))
      else (Inr n, s))"

definition read_mask_key :: "bool \<Rightarrow> sock \<Rightarrow> (codec_error + byte list option) \<times> sock" where
  "read_mask_key masked s =
     (if masked then and_then (recv_exact 4 [] s) (\<lambda>k s. (Inr (Some k), s)) else (Inr None, s))"

definition read_payload :: "nat \<Rightarrow> byte list option \<Rightarrow> sock \<Rightarrow> (codec_error + byte list) \<times> sock" where
  "read_payload n key s =
     and_then (if n \<noteq> 0 then recv_exact n [] s else (Inr [], s)) (\<lambda>pl s.
       (Inr (case key of Some k \<Rightarrow> if pl \<noteq> [] then masked_bytes k pl else pl | None \<Rightarrow> pl), s))"

definition read_one :: "sock \<Rightarrow> (codec_error + bool \<times> int \<times> byte list) \<times> sock" where
  "read_one s =
     and_then (recv_exact 2 [] s) (\<lambda>header s.
       and_then (read_length (unat (header ! 1 AND 0x7F)) s) (\<lambda>n s.
         and_then (read_mask_key (header ! 1 AND 0x80 \<noteq> 0) s) (\<lambda>key s.
           and_then (read_payload n key s) (\<lambda>pl s.
             (Inr (header ! 0 AND 0x80 \<noteq> 0, uint (header ! 0 AND 0x0F), pl), s)))))"

text \<open>Every frame that is read takes at least its header from the socket.\<close>

lemma recv_exact_bytes:
  "recv_exact n buf s = (Inr bs, s') \<Longrightarrow> bs @ unread s' = buf @ unread s \<and> n \<le> length bs"
proof (induction n buf s arbitrary: bs s' rule: recv_exact.induct)
  case (1 n buf s)
  show ?case
  proof (cases "length buf < n")
    case True
    obtain chunk s1 where r: "recv (n - length buf) s = (chunk, s1)" by fastforce
    from 1(2) True r have "chunk \<noteq> []" and "recv_exact n (buf @ chunk) s1 = (Inr bs, s')"
      by (auto simp: recv_exact.simps [of n buf s] split: if_splits)
    from 1(1) [OF True r [symmetric] this] recv_bytes [OF r] show ?thesis by auto
  qed (use 1(2) in \<open>auto simp: recv_exact.simps [of n buf s]\<close>)
qed

lemma recv_exact_shrinks:
  "recv_exact n [] s = (Inr bs, s') \<Longrightarrow> length (unread s') + n \<le> length (unread s)"
  using recv_exact_bytes [of n "[]" s bs s'] by (metis add.commute add_right_mono append_Nil length_append)

lemma read_one_shrinks:
  assumes "read_one s = (Inr out, s')"
  shows "length (unread s') < length (unread s)"
proof -
  have len: "length (unread s') \<le> length (unread s)" if "read_length n s = (Inr m, s')" for n m s s'
    using that by (auto simp: read_length_def split: if_splits elim!: and_then_Inr dest!: recv_exact_shrinks)
  have key: "length (unread s') \<le> length (unread s)" if "read_mask_key b s = (Inr m, s')" for b m s s'
    using that by (auto simp: read_mask_key_def split: if_splits elim!: and_then_Inr dest!: recv_exact_shrinks)
  have pay: "length (unread s') \<le> length (unread s)" if "read_payload n k s = (Inr m, s')" for n k m s s'
    using that by (auto simp: read_payload_def split: if_splits elim!: and_then_Inr dest!: recv_exact_shrinks)
  from assms show ?thesis
    by (auto simp: read_one_def elim!: and_then_Inr dest!: recv_exact_shrinks len key pay)
qed

text \<open>The loop of \<open>parse_frame\<close>: the opcode of the first frame and the payloads so far.\<close>

function parse_loop :: "int option \<Rightarrow> byte list \<Rightarrow> sock \<Rightarrow> (codec_error + frame) \<times> sock" where
  "parse_loop first assembled s =
     (case read_one s of
        (Inl e, s') \<Rightarrow> (Inl e, s')
      | (Inr (final, op, pl), s') \<Rightarrow>
          let first_opcode = (case first of None \<Rightarrow> op | Some f \<Rightarrow> f)
          in if op \<ge> 8 then (Inr \<lparr>fin = final, opcode = op, payload = pl\<rparr>, s')
             else if final then (Inr \<lparr>fin = True, opcode = first_opcode, payload = assembled @ pl\<rparr>, s')
             else parse_loop (Some first_opcode) (assembled @ pl) s')"
  by pat_completeness auto

termination
  by (relation "measure (\<lambda>(first, acc, s). length (unread s))") (auto dest: sym read_one_shrinks)

declare parse_loop.simps [simp del]

definition parse_frame :: "sock \<Rightarrow> (codec_error + frame) \<times> sock" where
  "parse_frame s = parse_loop None [] s"

section \<open>The handshake\<close>

definition WS_GUID :: string where
  "WS_GUID = ''258EAFA5-E914-47DA-95CA-C5AB0DC85B11''"

text \<open>\<open>.encode("ascii")\<close> raises on a character above 127.\<close>

definition is_ascii :: "string \<Rightarrow> bool" where
  "is_ascii s \<longleftrightarrow> (\<forall>c \<in> set s. of_char c < (128 :: nat))"

definition compute_accept :: "(string \<Rightarrow> string) \<Rightarrow> (string \<Rightarrow> string) \<Rightarrow> string \<Rightarrow> string option" where
  "compute_accept sha1 b64encode client_key =
     (if is_ascii (client_key @ WS_GUID) then Some (b64encode (sha1 (client_key @ WS_GUID))) else None)"

definition crlf :: string where
  "crlf = [CHR 0x0D, CHR 0x0A]"

definition handshake_lines :: "string \<Rightarrow> (string, string) dict \<Rightarrow> string list" where
  "handshake_lines accept extra =
     [''HTTP/1.1 101 Switching Protocols'', ''Upgrade: websocket'', ''Connection: Upgrade'',
      ''Sec-WebSocket-Accept: '' @ accept] @ map (\<lambda>(n, v). n @ '': '' @ v) extra"

text \<open>\<open>b"\r\n".join(lines) + b"\r\n\r\n"\<close>.\<close>

definition build_handshake_response ::
  "(string \<Rightarrow> string) \<Rightarrow> (string \<Rightarrow> string) \<Rightarrow> string \<Rightarrow> (string, string) dict \<Rightarrow> string option" where
  "build_handshake_response sha1 b64encode client_key extra =
     (case compute_accept sha1 b64encode client_key of
        None \<Rightarrow> None
      | Some accept \<Rightarrow>
          if list_all is_ascii (handshake_lines accept extra)
          then Some (concat (map (\<lambda>l. l @ crlf) (handshake_lines accept extra)) @ crlf)
          else None)"

section \<open>Parsing over one list of bytes\<close>

definition take_exact :: "nat \<Rightarrow> byte list \<Rightarrow> codec_error + byte list \<times> byte list" where
  "take_exact n bs = (if n \<le> length bs then Inr (take n bs, drop n bs) else Inl (FrameParseError (length bs) n))"

definition length_spec :: "nat \<Rightarrow> byte list \<Rightarrow> codec_error + nat \<times> byte list" where
  "length_spec n =
     (if n = 126 then (\<lambda>bs. seq_spec (take_exact 2 bs) (\<lambda>b rest. Inr (be_value b, rest)))
      else if n = 127 then (\<lambda>bs. seq_spec (take_exact 8 bs) (\<lambda>b rest. Inr (be_value b, rest)))
      else (\<lambda>bs. Inr (n, bs)))"

definition key_spec :: "bool \<Rightarrow> byte list \<Rightarrow> codec_error + byte list option \<times> byte list" where
  "key_spec masked =
     (if masked then (\<lambda>bs. seq_spec (take_exact 4 bs) (\<lambda>k rest. Inr (Some k, rest))) else (\<lambda>bs. Inr (None, bs)))"

definition unmasked :: "byte list option \<Rightarrow> byte list \<Rightarrow> byte list" where
  "unmasked key pl = (case key of Some k \<Rightarrow> masked_bytes k pl | None \<Rightarrow> pl)"

definition one_spec :: "byte list \<Rightarrow> codec_error + (bool \<times> int \<times> byte list) \<times> byte list" where
  "one_spec bs =
     seq_spec (take_exact 2 bs) (\<lambda>h bs.
       seq_spec (length_spec (unat (h ! 1 AND 0x7F)) bs) (\<lambda>n bs.
         seq_spec (key_spec (h ! 1 AND 0x80 \<noteq> 0) bs) (\<lambda>key bs.
           seq_spec (take_exact n bs) (\<lambda>pl bs.
             Inr ((h ! 0 AND 0x80 \<noteq> 0, uint (h ! 0 AND 0x0F), unmasked key pl), bs)))))"

lemma recv_exact_reads:
  assumes "flowing s" and "n \<le> length buf + length (unread s)"
  shows "\<exists>s'. recv_exact n buf s = (Inr (buf @ take (n - length buf) (unread s)), s')
    \<and> unread s' = drop (n - length buf) (unread s) \<and> flowing s'"
  using assms
proof (induction n buf s rule: recv_exact.induct)
  case (1 n buf s)
  show ?case
  proof (cases "length buf < n")
    case True
    obtain chunk s1 where r: "recv (n - length buf) s = (chunk, s1)" by fastforce
    from True 1(3) have "unread s \<noteq> []" by auto
    with recv_flowing [OF r 1(2)] True have c: "chunk \<noteq> []" "flowing s1" by auto
    have "n \<le> length (buf @ chunk) + length (unread s1)" using 1(3) recv_bytes [OF r] by simp
    from 1(1) [OF True r [symmetric] c(1) c(2) this] True r c(1) recv_bytes [OF r] show ?thesis
      by (auto simp: recv_exact.simps [of n buf s] diff_diff_left [symmetric] simp del: diff_diff_left)
  next
    case False
    with 1(2) show ?thesis by (auto simp: recv_exact.simps [of n buf s])
  qed
qed

lemma recv_exact_fails:
  assumes "flowing s" and "length buf + length (unread s) < n"
  shows "\<exists>s'. recv_exact n buf s = (Inl (FrameParseError (length buf + length (unread s)) n), s')"
  using assms
proof (induction n buf s rule: recv_exact.induct)
  case (1 n buf s)
  obtain chunk s1 where r: "recv (n - length buf) s = (chunk, s1)" by fastforce
  have less: "length buf < n" using 1(3) by simp
  with recv_flowing [OF r 1(2)] have c: "chunk = [] \<longleftrightarrow> unread s = []" "flowing s1" by auto
  have "length (buf @ chunk) + length (unread s1) < n" using 1(3) recv_bytes [OF r] by simp
  then have more: "chunk \<noteq> [] \<Longrightarrow> \<exists>s'. recv_exact n (buf @ chunk) s1
      = (Inl (FrameParseError (length (buf @ chunk) + length (unread s1)) n), s')"
    using 1(1) [OF less r [symmetric] _ c(2)] by blast
  show ?case
  proof (cases "chunk = []")
    case True
    with c(1) less r show ?thesis by (simp add: recv_exact.simps [of n buf s])
  next
    case False
    with more less r recv_bytes [OF r] show ?thesis by (simp add: recv_exact.simps [of n buf s] add.assoc)
  qed
qed

lemma recv_exact_reader: "byte_reader unread flowing (recv_exact n []) (take_exact n)"
proof
  show "\<exists>s'. recv_exact n [] s = (Inr x, s') \<and> unread s' = rest \<and> flowing s'"
    if "flowing s" and "take_exact n (unread s) = Inr (x, rest)" for s x rest
    using that recv_exact_reads [of s n "[]"] by (auto simp: take_exact_def split: if_splits)
  show "\<exists>s'. recv_exact n [] s = (Inl e, s')"
    if "flowing s" and "take_exact n (unread s) = Inl e" for s e
    using that recv_exact_fails [of s "[]" n] by (auto simp: take_exact_def split: if_splits)
  show "take_exact n (bs @ more) = Inr (x, rest @ more)"
    if "take_exact n bs = Inr (x, rest)" for bs x rest more
    using that by (auto simp: take_exact_def split: if_splits)
  show "\<exists>used. bs = used @ rest" if "take_exact n bs = Inr (x, rest)" for bs x rest
    using that by (auto simp: take_exact_def intro!: exI [of _ x] split: if_splits)
qed

lemma read_length_reader: "byte_reader unread flowing (read_length n) (length_spec n)"
proof -
  have "read_length n =
      (if n = 126 then (\<lambda>s. and_then (recv_exact 2 [] s) (\<lambda>bs s. (Inr (be_value bs), s)))
       else if n = 127 then (\<lambda>s. and_then (recv_exact 8 [] s) (\<lambda>bs s. (Inr (be_value bs), s)))
       else (\<lambda>s. (Inr n, s)))"
    by (auto simp: read_length_def)
  then show ?thesis unfolding length_spec_def
    by (simp only:) (intro byte_reader_if byte_reader_seq recv_exact_reader byte_reader_return)
qed

lemma read_mask_key_reader: "byte_reader unread flowing (read_mask_key b) (key_spec b)"
proof -
  have "read_mask_key b =
      (if b then (\<lambda>s. and_then (recv_exact 4 [] s) (\<lambda>k s. (Inr (Some k), s))) else (\<lambda>s. (Inr None, s)))"
    by (auto simp: read_mask_key_def)
  then show ?thesis unfolding key_spec_def
    by (simp only:) (intro byte_reader_if byte_reader_seq recv_exact_reader byte_reader_return)
qed

lemma recv_nothing: "recv_exact 0 [] s = (Inr [], s)"
  by (simp add: recv_exact.simps)

lemma read_payload_eq:
  "read_payload n key s = and_then (recv_exact n [] s) (\<lambda>pl s. (Inr (unmasked key pl), s))"
proof -
  have "(case key of None \<Rightarrow> pl | Some k \<Rightarrow> if pl \<noteq> [] then masked_bytes k pl else pl) = unmasked key pl" for pl
    by (auto simp: unmasked_def masked_bytes_def split: option.split)
  then show ?thesis by (simp add: read_payload_def recv_nothing)
qed

lemma and_then_assoc: "and_then (and_then m f) g = and_then m (\<lambda>x s. and_then (f x s) g)"
  by (cases m; cases "fst m") auto

lemma read_one_reader: "byte_reader unread flowing read_one one_spec"
  unfolding read_one_def one_spec_def read_payload_eq and_then_assoc
  by (simp only: and_then_simps)
    (intro byte_reader_seq recv_exact_reader read_length_reader read_mask_key_reader byte_reader_return)

interpretation one: byte_reader unread flowing read_one one_spec
  by (rule read_one_reader)

lemma one_spec_shrinks: "one_spec bs = Inr (out, rest) \<Longrightarrow> length rest < length bs"
  by (auto simp: one_spec_def length_spec_def key_spec_def take_exact_def seq_spec_Inr split: if_splits)

text \<open>A whole message: data frames up to the last one, or one control frame.\<close>

function message_spec :: "int option \<Rightarrow> byte list \<Rightarrow> byte list \<Rightarrow> codec_error + frame \<times> byte list" where
  "message_spec first assembled bs =
     (case one_spec bs of
        Inl e \<Rightarrow> Inl e
      | Inr ((final, op, pl), rest) \<Rightarrow>
          let first_opcode = (case first of None \<Rightarrow> op | Some f \<Rightarrow> f)
          in if op \<ge> 8 then Inr (\<lparr>fin = final, opcode = op, payload = pl\<rparr>, rest)
             else if final then Inr (\<lparr>fin = True, opcode = first_opcode, payload = assembled @ pl\<rparr>, rest)
             else message_spec (Some first_opcode) (assembled @ pl) rest)"
  by pat_completeness auto

termination
  by (relation "measure (\<lambda>(first, acc, bs). length bs)") (auto dest: one_spec_shrinks)

declare message_spec.simps [simp del]

lemma parse_loop_reads:
  assumes "flowing s"
  shows "case message_spec first acc (unread s) of
      Inl e \<Rightarrow> \<exists>s'. parse_loop first acc s = (Inl e, s')
    | Inr (f, rest) \<Rightarrow> \<exists>s'. parse_loop first acc s = (Inr f, s') \<and> unread s' = rest \<and> flowing s'"
  using assms
proof (induction first acc s rule: parse_loop.induct)
  case (1 first acc s)
  show ?case
  proof (cases "one_spec (unread s)")
    case (Inl e)
    with one.fails [OF 1(2)] show ?thesis
      by (fastforce simp: message_spec.simps [of first acc] parse_loop.simps [of first acc])
  next
    case (Inr out)
    then obtain final op pl rest where o: "one_spec (unread s) = Inr ((final, op, pl), rest)" by (cases out) auto
    with one.reads [OF 1(2)] obtain s1 where
      s1: "read_one s = (Inr (final, op, pl), s1)" "unread s1 = rest" "flowing s1" by blast
    let ?first = "case first of None \<Rightarrow> op | Some f \<Rightarrow> f"
    show ?thesis
    proof (cases "op < 8 \<and> \<not> final")
      case True
      with o s1 have "message_spec first acc (unread s) = message_spec (Some ?first) (acc @ pl) (unread s1)"
        and "parse_loop first acc s = parse_loop (Some ?first) (acc @ pl) s1"
        by (simp_all add: message_spec.simps [of first acc "unread s"] parse_loop.simps [of first acc s] Let_def)
      moreover from 1(1) [of _ s1 "(final, op, pl)" final "(op, pl)" op pl ?first] True s1
      have "case message_spec (Some ?first) (acc @ pl) (unread s1) of
          Inl e \<Rightarrow> \<exists>s'. parse_loop (Some ?first) (acc @ pl) s1 = (Inl e, s')
        | Inr (f, rest) \<Rightarrow> \<exists>s'. parse_loop (Some ?first) (acc @ pl) s1 = (Inr f, s') \<and> unread s' = rest \<and> flowing s'"
        by simp
      ultimately show ?thesis by (simp only:)
    next
      case False
      with o s1 show ?thesis
        by (auto simp: message_spec.simps [of first acc "unread s"] parse_loop.simps [of first acc s] Let_def)
    qed
  qed
qed

lemma message_spec_stable:
  "message_spec first acc bs = Inr (f, rest) \<Longrightarrow> message_spec first acc (bs @ later) = Inr (f, rest @ later)"
proof (induction first acc bs rule: message_spec.induct)
  case (1 first acc bs)
  then obtain final op pl r where o: "one_spec bs = Inr ((final, op, pl), r)"
    by (auto simp: message_spec.simps [of first acc bs] split: sum.splits)
  from 1(1) [OF o refl refl refl] 1(2) o one.stable [OF o, of later] show ?case
    by (auto simp: message_spec.simps [of first acc bs] message_spec.simps [of first acc "bs @ later"] Let_def
        split: if_splits)
qed

lemma message_spec_suffix: "message_spec first acc bs = Inr (f, rest) \<Longrightarrow> \<exists>used. bs = used @ rest"
proof (induction first acc bs rule: message_spec.induct)
  case (1 first acc bs)
  then obtain final op pl r where o: "one_spec bs = Inr ((final, op, pl), r)"
    by (auto simp: message_spec.simps [of first acc bs] split: sum.splits)
  from one.suffix [OF o] obtain u where "bs = u @ r" by blast
  moreover from 1(1) [OF o refl refl refl] 1(2) o have "\<exists>v. r = v @ rest"
    by (auto simp: message_spec.simps [of first acc bs] Let_def split: if_splits)
  ultimately show ?case by auto
qed

interpretation frames: byte_reader unread flowing parse_frame "message_spec None []"
proof
  show "\<exists>s'. parse_frame s = (Inr x, s') \<and> unread s' = rest \<and> flowing s'"
    if "flowing s" and "message_spec None [] (unread s) = Inr (x, rest)" for s x rest
    using parse_loop_reads [of s None "[]"] that by (simp add: parse_frame_def)
  show "\<exists>s'. parse_frame s = (Inl e, s')"
    if "flowing s" and "message_spec None [] (unread s) = Inl e" for s e
    using parse_loop_reads [of s None "[]"] that by (simp add: parse_frame_def)
qed (use message_spec_stable message_spec_suffix in blast)+

section \<open>What the encoder writes\<close>

lemma low_mask: "n < 2 ^ m \<Longrightarrow> (word_of_nat n :: byte) AND mask m = word_of_nat n"
proof -
  assume n: "n < 2 ^ m"
  have "(word_of_nat n :: byte) AND mask m = take_bit m (word_of_nat n)" by (simp add: take_bit_eq_mask)
  also have "\<dots> = word_of_nat (take_bit m n)" by (simp add: of_nat_take_bit)
  also have "take_bit m n = n" using n by (simp add: take_bit_nat_eq_self)
  finally show ?thesis .
qed

lemma low_bits: "n < 128 \<Longrightarrow> (word_of_nat n :: byte) AND 0x7F = word_of_nat n"
  using low_mask [of n 7] by (simp add: mask_eq_exp_minus_1)

lemma no_high_bit: "n < 128 \<Longrightarrow> (word_of_nat n :: byte) AND 0x80 = 0"
proof -
  assume "n < 128"
  then have "(word_of_nat n :: byte) AND 0x80 = (word_of_nat n AND 0x7F) AND 0x80" by (simp only: low_bits)
  also have "\<dots> = 0" by (simp only: and.assoc) simp
  finally show ?thesis .
qed

lemma flag_bits:
  assumes "n < 128" and "flag = 0 \<or> flag = (0x80 :: byte)"
  shows "(flag OR word_of_nat n) AND 0x7F = word_of_nat n" and "(flag OR word_of_nat n) AND 0x80 = flag"
  using assms(2) low_bits [OF assms(1)] no_high_bit [OF assms(1)]
  by (auto simp: bit.conj_disj_distrib2)

lemma opcode_bits:
  assumes "0 \<le> op" and "op \<le> 15" and "flag = 0 \<or> flag = (0x80 :: byte)"
  shows "uint ((flag OR word_of_int op) AND 0x0F) = op" and "(flag OR word_of_int op) AND 0x80 = flag"
    and "word_of_int op AND 0x0F = (word_of_int op :: byte)"
proof -
  define n where "n = nat op"
  then have n: "op = int n" "n < 16" using assms(1,2) by auto
  then have low: "(word_of_nat n :: byte) AND 0x0F = word_of_nat n"
    using low_mask [of n 4] by (simp add: mask_eq_exp_minus_1)
  show "word_of_int op AND 0x0F = (word_of_int op :: byte)" using low n by simp
  show "(flag OR word_of_int op) AND 0x80 = flag" using flag_bits(2) [of n flag] assms(3) n by simp
  show "uint ((flag OR word_of_int op) AND 0x0F) = op" using assms(3) low n
    by (auto simp: bit.conj_disj_distrib2 unsigned_of_nat take_bit_nat_eq_self of_nat_inverse)
qed

lemma be_bytes_length [simp]: "length (be_bytes n v) = n"
  by (induction n) auto

lemma be_fold: "foldl (\<lambda>acc b. acc * 256 + unat b) a (be_bytes n v) = a * 256 ^ n + v mod 256 ^ n"
proof (induction n arbitrary: a)
  case (Suc n)
  have "v mod 256 ^ Suc n = 256 ^ n * (v div 256 ^ n mod 256) + v mod 256 ^ n"
    using mod_mult2_eq [of v "256 ^ n" 256] by (simp only: power_Suc2)
  moreover have "foldl (\<lambda>acc b. acc * 256 + unat b) a (be_bytes (Suc n) v)
      = (a * 256 + v div 256 ^ n mod 256) * 256 ^ n + v mod 256 ^ n"
    by (simp add: Suc unat_of_nat)
  ultimately show ?case by (simp add: algebra_simps)
qed simp

lemma be_roundtrip: "v < 256 ^ n \<Longrightarrow> be_value (be_bytes n v) = v"
  by (simp add: be_value_def be_fold)

lemma masked_length [simp]: "length (masked_bytes key bs) = length bs"
  by (simp add: masked_bytes_def)

lemma masked_twice [simp]: "masked_bytes key (masked_bytes key bs) = bs"
  by (rule nth_equalityI) (simp_all add: masked_bytes_def nth_enumerate_eq xor.assoc)

definition valid_key :: "byte list option \<Rightarrow> bool" where
  "valid_key key \<longleftrightarrow> (case key of None \<Rightarrow> True | Some k \<Rightarrow> length k = 4)"

text \<open>The bytes of one frame of a message, which need not be the last.\<close>

definition wire_frame :: "bool \<Rightarrow> int \<Rightarrow> byte list option \<Rightarrow> byte list \<Rightarrow> byte list" where
  "wire_frame final op key pl =
     ((if final then 0x80 else 0) OR word_of_int op)
     # projr (length_field key (length pl)) @ (case key of None \<Rightarrow> [] | Some k \<Rightarrow> k) @ unmasked key pl"

lemma encode_is_wire:
  assumes "encode_frame op pl key = Inr bs"
  shows "bs = wire_frame True op key pl" and "0 \<le> op" and "op \<le> 15" and "length pl < 2 ^ 64"
  using assms opcode_bits(3) [of op 0]
  by (auto simp: encode_frame_def wire_frame_def Let_def bind_r_Inr_iff unmasked_def length_field_def
      split: if_splits option.splits)

lemma take_exact_append: "length xs = n \<Longrightarrow> take_exact n (xs @ rest) = Inr (xs, rest)"
  by (simp add: take_exact_def)

lemma length_field_read:
  assumes "n < 2 ^ 64"
  obtains h ext where "length_field key n = Inr (h # ext)" and "h AND 0x80 = mask_bit key"
    and "\<And>rest. length_spec (unat (h AND 0x7F)) (ext @ rest) = Inr (n, rest)"
proof -
  have flag: "mask_bit key = 0 \<or> mask_bit key = 0x80" by (simp add: mask_bit_def)
  consider "n < 126" | "126 \<le> n" "n < 2 ^ 16" | "2 ^ 16 \<le> n" by linarith
  then show ?thesis
  proof cases
    case 1
    then show ?thesis using flag_bits [OF _ flag, of n]
      by (intro that [of "mask_bit key OR word_of_nat n" "[]"])
        (simp_all add: length_field_def length_spec_def unsigned_of_nat take_bit_nat_eq_self)
  next
    case 2
    then show ?thesis using flag_bits [OF _ flag, of 126]
      by (intro that [of "mask_bit key OR 126" "be_bytes 2 n"])
        (simp_all add: length_field_def length_spec_def take_exact_append be_roundtrip)
  next
    case 3
    with assms show ?thesis using flag_bits [OF _ flag, of 127]
      by (intro that [of "mask_bit key OR 127" "be_bytes 8 n"])
        (simp_all add: length_field_def length_spec_def take_exact_append be_roundtrip)
  qed
qed

lemma one_spec_wire:
  assumes "0 \<le> op" and "op \<le> 15" and "length pl < 2 ^ 64" and "valid_key key"
  shows "one_spec (wire_frame final op key pl @ rest) = Inr ((final, op, pl), rest)"
proof -
  let ?flag = "if final then 0x80 else (0 :: byte)"
  obtain h ext where lf: "length_field key (length pl) = Inr (h # ext)" "h AND 0x80 = mask_bit key"
    "\<And>rest. length_spec (unat (h AND 0x7F)) (ext @ rest) = Inr (length pl, rest)"
    using length_field_read [OF assms(3), of key] by blast
  let ?tail = "(case key of None \<Rightarrow> [] | Some k \<Rightarrow> k) @ unmasked key pl @ rest"
  define b1 where "b1 = ?flag OR word_of_int op"
  have wire: "wire_frame final op key pl @ rest = [b1, h] @ ext @ ?tail"
    using lf(1) by (simp add: wire_frame_def b1_def)
  have keyed: "seq_spec (key_spec (h AND 0x80 \<noteq> 0) ?tail) (\<lambda>k bs. seq_spec (take_exact (length pl) bs) (\<lambda>b bs. Inr (f (unmasked k b), bs)))
      = Inr (f pl, rest)" for f :: "byte list \<Rightarrow> bool \<times> int \<times> byte list"
    using assms(4) lf(2)
    by (cases key) (simp_all add: key_spec_def mask_bit_def take_exact_append valid_key_def unmasked_def)
  have "?flag = 0 \<or> ?flag = 0x80" by simp
  note bits = opcode_bits [OF assms(1,2) this, folded b1_def]
  have "b1 AND 0x80 \<noteq> 0 \<longleftrightarrow> final" using bits(2) by simp
  then show ?thesis unfolding one_spec_def wire
    using keyed [of "\<lambda>b. (final, op, b)"] bits(1) take_exact_append [of "[b1, h]" 2 "ext @ ?tail"] by (simp add: lf(3))
qed

section \<open>Messages\<close>

text \<open>The frames that carry the rest of a message after its first: continuations, and a last one.\<close>

fun wire_rest :: "(byte list option \<times> byte list) list \<Rightarrow> byte list" where
  "wire_rest [] = []"
| "wire_rest [(key, pl)] = wire_frame True OPCODE_CONTINUATION key pl"
| "wire_rest ((key, pl) # part # parts) = wire_frame False OPCODE_CONTINUATION key pl @ wire_rest (part # parts)"

definition wire_message :: "int \<Rightarrow> byte list option \<times> byte list \<Rightarrow> (byte list option \<times> byte list) list \<Rightarrow> byte list" where
  "wire_message op part parts = wire_frame (parts = []) op (fst part) (snd part) @ wire_rest parts"

definition part_ok :: "byte list option \<times> byte list \<Rightarrow> bool" where
  "part_ok part \<longleftrightarrow> valid_key (fst part) \<and> length (snd part) < 2 ^ 64"

lemma message_step:
  assumes "0 \<le> op" and "op \<le> 7" and "length pl < 2 ^ 64" and "valid_key key"
  shows "message_spec first acc (wire_frame final op key pl @ rest) =
    (let f = (case first of None \<Rightarrow> op | Some f \<Rightarrow> f)
     in if final then Inr (\<lparr>fin = True, opcode = f, payload = acc @ pl\<rparr>, rest)
        else message_spec (Some f) (acc @ pl) rest)"
  using one_spec_wire [of op pl key final rest] assms
  by (simp add: message_spec.simps [of first acc "wire_frame final op key pl @ rest"] Let_def)

lemma message_rest:
  "parts \<noteq> [] \<Longrightarrow> list_all part_ok parts \<Longrightarrow> message_spec (Some op) acc (wire_rest parts @ rest)
    = Inr (\<lparr>fin = True, opcode = op, payload = acc @ concat (map snd parts)\<rparr>, rest)"
proof (induction parts arbitrary: acc rule: wire_rest.induct)
  case (2 key pl)
  then show ?case by (simp add: message_step part_ok_def OPCODE_CONTINUATION_def Let_def)
next
  case (3 key pl part parts)
  then show ?case by (simp add: message_step part_ok_def OPCODE_CONTINUATION_def Let_def)
qed simp

lemma message_whole:
  assumes "0 \<le> op" and "op \<le> 7" and "list_all part_ok (part # parts)"
  shows "message_spec None [] (wire_message op part parts @ rest)
    = Inr (\<lparr>fin = True, opcode = op, payload = concat (map snd (part # parts))\<rparr>, rest)"
  using assms message_rest [of parts op "snd part" rest]
  by (cases "parts = []") (simp_all add: wire_message_def message_step part_ok_def Let_def)

lemma control_frame:
  assumes "8 \<le> op" and "op \<le> 15" and "length pl < 2 ^ 64" and "valid_key key"
  shows "message_spec first acc (wire_frame final op key pl @ rest) = Inr (\<lparr>fin = final, opcode = op, payload = pl\<rparr>, rest)"
  using one_spec_wire [of op pl key final rest] assms
  by (simp add: message_spec.simps [of first acc "wire_frame final op key pl @ rest"] Let_def)

lemma encoded_message:
  assumes "encode_frame op pl key = Inr bs" and "valid_key key"
  shows "message_spec None [] (bs @ rest) = Inr (\<lparr>fin = True, opcode = op, payload = pl\<rparr>, rest)"
  using encode_is_wire [OF assms(1)] control_frame [of op pl key None "[]" True rest]
    message_step [of op pl key None "[]" True rest] assms(2)
  by (cases "op \<le> 7") (simp_all add: Let_def)

text \<open>
  C18. A frame that the codec writes is read back, with or without a mask and for each of the three
  encodings of its length, however the network cuts the bytes: the reader gives the opcode and the
  payload and leaves exactly the bytes behind the frame. A connection that closes inside the frame
  gives an error, never a shorter message.
\<close>

theorem frame_roundtrip:
  assumes "encode_frame op pl key = Inr bs" and "valid_key key" and "flowing s"
  shows "(unread s = bs @ rest \<longrightarrow>
      (\<exists>s'. parse_frame s = (Inr \<lparr>fin = True, opcode = op, payload = pl\<rparr>, s') \<and> unread s' = rest \<and> flowing s'))
    \<and> (unread s @ lost = bs \<longrightarrow> lost \<noteq> [] \<longrightarrow> (\<exists>e s'. parse_frame s = (Inl e, s')))"
proof (intro conjI impI)
  show "\<exists>s'. parse_frame s = (Inr \<lparr>fin = True, opcode = op, payload = pl\<rparr>, s') \<and> unread s' = rest \<and> flowing s'"
    if "unread s = bs @ rest"
    using frames.reads [OF assms(3)] encoded_message [OF assms(1,2), of rest] that by simp
  show "\<exists>e s'. parse_frame s = (Inl e, s')" if "unread s @ lost = bs" and "lost \<noteq> []"
    using frames.cut_short [of "unread s" lost _ s] encoded_message [OF assms(1,2), of "[]"] that assms(3) by simp
qed

definition hello :: "byte list" where
  "hello = [0x81, 0x82, 1, 2, 3, 4, 0x49, 0x6B]"

lemma hello_encoded: "encode_frame OPCODE_TEXT [0x48, 0x69] (Some [1, 2, 3, 4]) = Inr hello"
  by (simp add: encode_frame_def length_field_def mask_bit_def masked_bytes_def hello_def OPCODE_TEXT_def)

theorem frame_roundtrip_witness:
  "encode_frame OPCODE_TEXT [0x48, 0x69] (Some [1, 2, 3, 4]) = Inr hello
   \<and> (\<exists>s'. parse_frame [take 1 hello, drop 1 hello] = (Inr \<lparr>fin = True, opcode = 1, payload = [0x48, 0x69]\<rparr>, s'))
   \<and> (\<exists>e s'. parse_frame [take 5 hello] = (Inl e, s'))"
  using frame_roundtrip [OF hello_encoded, where s = "[take 1 hello, drop 1 hello]" and rest = "[]"]
    frame_roundtrip [OF hello_encoded, where s = "[take 5 hello]" and lost = "drop 5 hello"] hello_encoded
  by (auto simp: valid_key_def hello_def OPCODE_TEXT_def)

text \<open>
  C20. A data message that the peer sends in fragments is read as one message: the opcode of the
  first frame and the payloads in order, whatever the keys of the fragments and however the network
  cuts the bytes.
\<close>

theorem fragments_reassembled:
  assumes "0 \<le> op" and "op \<le> 7" and "list_all part_ok (part # parts)"
    and "flowing s" and "unread s = wire_message op part parts @ rest"
  shows "\<exists>s'. parse_frame s = (Inr \<lparr>fin = True, opcode = op, payload = concat (map snd (part # parts))\<rparr>, s')
    \<and> unread s' = rest \<and> flowing s'"
  using frames.reads [OF assms(4)] message_whole [OF assms(1-3), of rest] assms(5) by simp

theorem fragments_reassembled_witness:
  "let parts = [(Some [9, 9, 9, 9], [2]), (None, [3])];
       s = [wire_message OPCODE_TEXT (None, [1]) parts]
   in \<exists>s'. parse_frame s = (Inr \<lparr>fin = True, opcode = 1, payload = [1, 2, 3]\<rparr>, s') \<and> unread s' = []"
  using fragments_reassembled [where op = OPCODE_TEXT and part = "(None, [1])" and rest = "[]"
      and parts = "[(Some [9, 9, 9, 9], [2]), (None, [3])]"
      and s = "[wire_message OPCODE_TEXT (None, [1]) [(Some [9, 9, 9, 9], [2]), (None, [3])]]"]
  by (auto simp: part_ok_def valid_key_def OPCODE_TEXT_def wire_message_def wire_frame_def)

text \<open>
  A control frame between the fragments of a message, which the protocol allows, loses the
  fragments that came before it: the control frame is read, and what follows is read as a message
  with the opcode of a continuation and without the first payload.
\<close>

theorem control_frame_drops_fragments:
  assumes "0 \<le> op" and "op \<le> 7" and "8 \<le> ctl" and "ctl \<le> 15"
    and "part_ok first_part" and "part_ok ping" and "part_ok second_part"
    and "flowing s" and "unread s = wire_frame False op (fst first_part) (snd first_part)
      @ wire_frame True ctl (fst ping) (snd ping) @ wire_frame True OPCODE_CONTINUATION (fst second_part) (snd second_part)"
  shows "\<exists>s1 s2. parse_frame s = (Inr \<lparr>fin = True, opcode = ctl, payload = snd ping\<rparr>, s1)
    \<and> parse_frame s1 = (Inr \<lparr>fin = True, opcode = OPCODE_CONTINUATION, payload = snd second_part\<rparr>, s2) \<and> unread s2 = []"
proof -
  let ?second = "wire_frame True OPCODE_CONTINUATION (fst second_part) (snd second_part)"
  have "message_spec None [] (unread s) = Inr (\<lparr>fin = True, opcode = ctl, payload = snd ping\<rparr>, ?second)"
    using assms by (simp add: message_step control_frame part_ok_def Let_def)
  with frames.reads [OF assms(8)] obtain s1 where
    s1: "parse_frame s = (Inr \<lparr>fin = True, opcode = ctl, payload = snd ping\<rparr>, s1)" "unread s1 = ?second" "flowing s1"
    by blast
  have "message_spec None [] (unread s1) = Inr (\<lparr>fin = True, opcode = OPCODE_CONTINUATION, payload = snd second_part\<rparr>, [])"
    using assms(7) s1(2) message_step [of OPCODE_CONTINUATION "snd second_part" "fst second_part" None "[]" True "[]"]
    by (simp add: part_ok_def OPCODE_CONTINUATION_def Let_def)
  with frames.reads [OF s1(3)] s1(1) show ?thesis by blast
qed

theorem control_frame_drops_fragments_witness:
  "let s = [wire_frame False OPCODE_TEXT None [1], wire_frame True OPCODE_PING None [],
            wire_frame True OPCODE_CONTINUATION None [2]]
   in \<exists>s1 s2. parse_frame s = (Inr \<lparr>fin = True, opcode = 9, payload = []\<rparr>, s1)
     \<and> parse_frame s1 = (Inr \<lparr>fin = True, opcode = 0, payload = [2]\<rparr>, s2)"
  using control_frame_drops_fragments [where op = OPCODE_TEXT and ctl = OPCODE_PING and first_part = "(None, [1])"
      and ping = "(None, [])" and second_part = "(None, [2])"
      and s = "[wire_frame False OPCODE_TEXT None [1], wire_frame True OPCODE_PING None [],
            wire_frame True OPCODE_CONTINUATION None [2]]"]
  by (auto simp: part_ok_def valid_key_def opcode_defs wire_frame_def)

end
