(* ===== verification/WsListener.thy ===== *)
theory WsListener
  imports Interfaces Chains Registry Wire WsProtocol
begin

text \<open>
  \<open>listeners/ws.py\<close>, \<open>stubs_ws.py\<close> and the WebSocket adapter of \<open>server.py\<close>: the registry of the
  subscriptions, the listener of a ws endpoint, the upgrade, and the loop that reads the frames of
  one connection.

  A connection and its queue are objects that the registry and the reader share, so they live in
  one table and are named by a number; a connection that ended stays in it. The random id of a
  subscription, the draw of the fault ladder and the clocks are arguments. The writer thread takes
  the items of a queue one by one, which is one step of the environment. Sleeps are not timed.
\<close>

section \<open>The tables of stubs_ws.py\<close>

text \<open>The chain and the envelope of each subscribe method.\<close>

definition SUBSCRIBE_METHODS :: "(string, string \<times> string) dict" where
  "SUBSCRIBE_METHODS =
     [(''eth_subscribe'', (''eth'', ''eth_subscription'')), (''subscribe'', (''tendermint'', ''tendermint_event'')),
      (''accountSubscribe'', (''solana'', ''solana_account'')), (''logsSubscribe'', (''solana'', ''solana_logs''))]"

definition UNSUBSCRIBE_METHODS :: "string list" where
  "UNSUBSCRIBE_METHODS = [''eth_unsubscribe'', ''unsubscribe'', ''accountUnsubscribe'', ''logsUnsubscribe'']"

definition notification :: "string \<Rightarrow> pyval \<Rightarrow> pyval \<Rightarrow> pyval" where
  "notification meth sub event = jobj [(''jsonrpc'', VStr ''2.0''), (''method'', VStr meth),
     (''params'', jobj [(''subscription'', sub), (''result'', event)])]"

definition build_event_frame :: "string \<Rightarrow> string \<Rightarrow> pyval \<Rightarrow> pyerr + pyval" where
  "build_event_frame envelope sub_id event =
     (if envelope = ''eth_subscription'' then Inr (notification ''eth_subscription'' (VStr sub_id) event)
      else if envelope = ''tendermint_event'' then
        Inr (jobj [(''jsonrpc'', VStr ''2.0''), (''id'', VStr sub_id),
          (''result'', jobj [(''query'', VStr (''tm.event='' @ [CHR 0x27] @ ''NewBlock'' @ [CHR 0x27])),
             (''data'', jobj [(''type'', VStr ''tendermint/event/NewBlock''), (''value'', event)])])])
      else if envelope = ''solana_account'' then
        (case int_of_hex sub_id of None \<Rightarrow> Inl ValueError
         | Some n \<Rightarrow> Inr (notification ''accountNotification'' (VInt n) event))
      else if envelope = ''solana_logs'' then
        (case int_of_hex sub_id of None \<Rightarrow> Inl ValueError
         | Some n \<Rightarrow> Inr (notification ''logsNotification'' (VInt n) event))
      else Inl ValueError)"

section \<open>Connections and subscriptions\<close>

record subscription =
  sub_id :: string
  sub_pool :: string
  sub_pid :: string
  sub_method :: string
  sub_conn :: nat
  sub_closed :: bool

record ws_connection =
  out_queue :: "byte list list"
  subscription_ids :: "string list"
  c_ended :: bool

record ws_world =
  subs :: "(string, subscription) dict"
  conns :: "(nat, ws_connection) dict"

definition no_connections :: ws_world where
  "no_connections = \<lparr>subs = [], conns = []\<rparr>"

text \<open>\<open>queue.Queue(maxsize=1000)\<close>: \<open>put_nowait\<close> on a full queue raises, which is \<open>None\<close> here.\<close>

definition QUEUE_MAX :: nat where
  "QUEUE_MAX = 1000"

definition put_nowait :: "byte list \<Rightarrow> nat \<Rightarrow> ws_world \<Rightarrow> ws_world option" where
  "put_nowait item cid w = (case map_of (conns w) cid of
     None \<Rightarrow> None
   | Some cn \<Rightarrow>
       if length (out_queue cn) < QUEUE_MAX
       then Some (w\<lparr>conns := AList.update cid (cn\<lparr>out_queue := out_queue cn @ [item]\<rparr>) (conns w)\<rparr>)
       else None)"

text \<open>One turn of \<open>_ws_writer_loop\<close>: the oldest item leaves the queue for the socket.\<close>

definition write_next :: "nat \<Rightarrow> ws_world \<Rightarrow> (byte list \<times> ws_world) option" where
  "write_next cid w = (case map_of (conns w) cid of
     None \<Rightarrow> None
   | Some cn \<Rightarrow> (case out_queue cn of
       [] \<Rightarrow> None
     | item # items \<Rightarrow> Some (item, w\<lparr>conns := AList.update cid (cn\<lparr>out_queue := items\<rparr>) (conns w)\<rparr>)))"

definition register :: "string \<Rightarrow> string \<Rightarrow> string \<Rightarrow> string \<Rightarrow> nat \<Rightarrow> ws_world \<Rightarrow> ws_world" where
  "register i pl who meth cid w = w\<lparr>subs := AList.update i
     \<lparr>sub_id = i, sub_pool = pl, sub_pid = who, sub_method = meth, sub_conn = cid, sub_closed = False\<rparr> (subs w)\<rparr>"

text \<open>\<open>unregister\<close> marks the object that it takes out; nobody reads the mark of an object that is out.\<close>

definition unregister :: "string \<Rightarrow> ws_world \<Rightarrow> bool \<times> ws_world" where
  "unregister i w = (case map_of (subs w) i of
     None \<Rightarrow> (False, w)
   | Some sub \<Rightarrow> (True, w\<lparr>subs := AList.delete i (subs w)\<rparr>))"

definition set_ids :: "nat \<Rightarrow> string list \<Rightarrow> ws_world \<Rightarrow> ws_world" where
  "set_ids cid ids w = (case map_of (conns w) cid of
     None \<Rightarrow> w
   | Some cn \<Rightarrow> w\<lparr>conns := AList.update cid (cn\<lparr>subscription_ids := ids\<rparr>) (conns w)\<rparr>)"

text \<open>\<open>_envelope\<close> and \<open>event_message\<close>.\<close>

definition envelope_of :: "string \<Rightarrow> string" where
  "envelope_of meth = (case map_of SUBSCRIBE_METHODS meth of
     None \<Rightarrow> ''eth_subscription'' | Some (chain, env) \<Rightarrow> env)"

definition event_message :: "subscription \<Rightarrow> pyval \<Rightarrow> pyerr + pyval" where
  "event_message sub event =
     build_event_frame (envelope_of (sub_method sub)) (sub_id sub) (if is_dict event then event else VDict [])"

text \<open>\<open>list\<close>: what \<open>GET /ws/subscriptions\<close> shows.\<close>

definition ws_list :: "ws_world \<Rightarrow> pyval list" where
  "ws_list w = map (\<lambda>(i, s). jobj
     [(''subscription_id'', VStr (sub_id s)), (''pool'', VStr (sub_pool s)), (''pid'', VStr (sub_pid s)),
      (''method'', VStr (sub_method s)),
      (''queue_depth'', VInt (case map_of (conns w) (sub_conn s) of
          None \<Rightarrow> 0 | Some cn \<Rightarrow> int (length (out_queue cn))))]) (subs w)"

section \<open>Frames of the simulator\<close>

definition bytes_of :: "string \<Rightarrow> byte list" where
  "bytes_of s = map (\<lambda>c. word_of_nat (of_char c)) s"

definition text_of_bytes :: "byte list \<Rightarrow> string" where
  "text_of_bytes bs = map (\<lambda>b. char_of (unat b)) bs"

text \<open>\<open>_ws_text_frame\<close>. A frame that the codec refuses is longer than any memory.\<close>

definition ws_text_frame :: "(pyfloat \<Rightarrow> string) \<Rightarrow> pyval \<Rightarrow> pyval \<Rightarrow> pyval \<Rightarrow> pyerr + byte list" where
  "ws_text_frame fl body cm mf =
     bind_r (serialize fl (VInt 200) body cm mf False) (\<lambda>(st, raw, emit_body).
       (case encode_frame OPCODE_TEXT (bytes_of (if emit_body then raw else [])) None of
          Inl e \<Rightarrow> Inl OverflowError | Inr bs \<Rightarrow> Inr bs))"

definition frame_of :: "(pyfloat \<Rightarrow> string) \<Rightarrow> subscription \<Rightarrow> pyval \<Rightarrow> pyerr + byte list" where
  "frame_of fl sub event = bind_r (event_message sub event) (\<lambda>m. ws_text_frame fl m VNone VNone)"

section \<open>Pushed events\<close>

datatype emitted = Emitted | Unknown | QueueFull

text \<open>The history row of a push, in the log of the provider of the subscription.\<close>

definition push_row :: "rat \<Rightarrow> subscription \<Rightarrow> provider \<Rightarrow> provider" where
  "push_row now sub p =
     (let ws = find (\<lambda>ep. transport ep = ''ws'') (endpoints p)
      in p\<lparr>p_log := snd (push now (VStr (envelope_of (sub_method sub) @ '' push'')) ''success'' (VInt 0)
            (case ws of None \<Rightarrow> ''jsonrpc'' | Some ep \<Rightarrow> interface ep) ''ws''
            (case ws of None \<Rightarrow> 0 | Some ep \<Rightarrow> port ep) (VStr (sub_id sub)) [] [] (p_log p))\<rparr>)"

definition emit ::
  "(pyfloat \<Rightarrow> string) \<Rightarrow> rat \<Rightarrow> string \<Rightarrow> pyval \<Rightarrow> registry \<Rightarrow> ws_world \<Rightarrow> pyerr + emitted \<times> (provider_id \<times> provider) option \<times> ws_world" where
  "emit fl now i event reg w = (case map_of (subs w) i of
     None \<Rightarrow> Inr (Unknown, None, w)
   | Some sub \<Rightarrow>
       if sub_closed sub then Inr (Unknown, None, w)
       else bind_r (frame_of fl sub event) (\<lambda>item.
         (case put_nowait item (sub_conn sub) w of
            None \<Rightarrow> Inr (QueueFull, None, w)
          | Some w' \<Rightarrow> (case find_provider reg (sub_pool sub) (sub_pid sub) of
              Inl e \<Rightarrow> Inr (Emitted, None, w')
            | Inr p \<Rightarrow> Inr (Emitted, Some ((sub_pool sub, sub_pid sub), push_row now sub p), w')))))"

section \<open>The listener\<close>

definition rpc_result :: "pyval \<Rightarrow> pyval \<Rightarrow> pyval \<times> pyval" where
  "rpc_result parsed v =
     (VInt 200, jobj [(''jsonrpc'', VStr ''2.0''), (''id'', vget_or parsed ''id'' VNone), (''result'', v)])"

definition subscribe :: "string \<Rightarrow> nat \<Rightarrow> string \<Rightarrow> provider \<Rightarrow> ws_world \<Rightarrow> ws_world" where
  "subscribe i cid meth p w =
     set_ids cid (List.insert i (case map_of (conns w) cid of None \<Rightarrow> [] | Some cn \<Rightarrow> subscription_ids cn))
       (register i (pool_name p) (pid p) meth cid w)"

text \<open>\<open>params[0] if params else None\<close>, where \<open>params\<close> is the parameter or the empty list.\<close>

definition target_id :: "pyval \<Rightarrow> pyerr + pyval" where
  "target_id parsed = (let params = py_or (vget_or parsed ''params'' VNone) (VList [])
     in if truthy params then item0 params else Inr VNone)"

definition unsubscribe :: "pyval \<Rightarrow> nat \<Rightarrow> ws_world \<Rightarrow> pyerr + bool \<times> ws_world" where
  "unsubscribe target cid w =
     (let ids = (case map_of (conns w) cid of None \<Rightarrow> [] | Some cn \<Rightarrow> subscription_ids cn)
      in if \<not> truthy target then Inr (False, w)
         else if \<not> hashable target then Inl TypeError
         else (case target of
                 VStr i \<Rightarrow>
                   if i \<in> set ids then
                     (case unregister i w of
                        (True, w') \<Rightarrow> Inr (True, set_ids cid (remove1 i ids) w')
                      | (False, w') \<Rightarrow> Inr (False, w'))
                   else Inr (False, w)
               | _ \<Rightarrow> Inr (False, w)))"

definition ws_content ::
  "chains \<Rightarrow> endpoint \<Rightarrow> string \<Rightarrow> nat option \<Rightarrow> pyval \<Rightarrow> sdict \<Rightarrow> raw_request \<Rightarrow> provider \<Rightarrow> ws_world
   \<Rightarrow> pyerr + (pyval \<times> pyval) \<times> provider \<times> ws_world" where
  "ws_content ch ep token conn parsed sc req p w =
     (let meth = vget_or parsed ''method'' VNone
      in if \<not> hashable meth then Inl TypeError
         else if \<not> in_texts meth (dict_keys SUBSCRIBE_METHODS) \<and> \<not> in_texts meth UNSUBSCRIBE_METHODS
         then chain_content ch ep parsed sc req p w
         else (case conn of
                 None \<Rightarrow> Inl ValueError
               | Some cid \<Rightarrow>
                   if in_texts meth (dict_keys SUBSCRIBE_METHODS) then
                     Inr (rpc_result parsed (VStr (''0x'' @ token)), p,
                          subscribe (''0x'' @ token) cid (text_of meth) p w)
                   else bind_r (target_id parsed) (\<lambda>target.
                     bind_r (unsubscribe target cid w) (\<lambda>(removed, w').
                       Inr (rpc_result parsed (VBool removed), p, w')))))"

definition ws_hooks :: "chains \<Rightarrow> endpoint \<Rightarrow> string \<Rightarrow> nat option \<Rightarrow> ws_world hooks" where
  "ws_hooks ch ep token conn = (jsonrpc_hooks ch ep)\<lparr>build_content := ws_content ch ep token conn\<rparr>"

text \<open>\<open>release\<close>: every subscription of a connection that ended.\<close>

definition release :: "nat \<Rightarrow> ws_world \<Rightarrow> ws_world" where
  "release cid w = (case map_of (conns w) cid of
     None \<Rightarrow> w
   | Some cn \<Rightarrow> fold (\<lambda>i w. snd (unregister i w)) (subscription_ids cn) w)"

section \<open>The upgrade\<close>

text \<open>\<open>decide_upgrade\<close>: the row of a refusal is complete when it is written.\<close>

definition refused :: "rat \<Rightarrow> endpoint \<Rightarrow> headers \<Rightarrow> string \<Rightarrow> string \<Rightarrow> provider \<Rightarrow> provider" where
  "refused now ep hs meth stat p =
     p\<lparr>p_log := snd (push now (VStr meth) stat (VInt 0) (interface ep) (transport ep) (port ep) VNone
        (filter is_lava_header hs) hs (p_log p))\<rparr>"

definition upgrade_reply :: "int \<Rightarrow> pyval \<Rightarrow> serve_result" where
  "upgrade_reply st message = serve_result_of Respond (VInt st) (jobj [(''error'', message)])"

definition answer_upgrade :: "rat \<Rightarrow> endpoint \<Rightarrow> headers \<Rightarrow> sdict \<Rightarrow> pyval \<Rightarrow> verdict \<Rightarrow> provider \<Rightarrow> serve_result \<times> provider" where
  "answer_upgrade now ep hs sc chosen v p = (case kind v of
     KNone \<Rightarrow> (with_reply_headers (serve_result_of Respond (VInt 101) VNone) chosen VNone, p)
   | KDown \<Rightarrow> (with_reply_headers (upgrade_reply 503 (VStr ''provider down'')) chosen VNone,
               refused now ep hs ''*'' ''down'' p)
   | KRateLimit \<Rightarrow> (with_reply_headers (upgrade_reply 429 (VStr ''rate limited'')) chosen VNone,
               refused now ep hs ''ws_upgrade'' ''rate_limit'' p)
   | KError \<Rightarrow> (with_reply_headers (upgrade_reply 400 (get_or sc ''error_message'' (VStr ''Internal error''))) chosen VNone,
               refused now ep hs ''ws_upgrade'' ''error'' p)
   | KHang \<Rightarrow> (serve_result_of Hang (VInt 200) VNone, refused now ep hs ''ws_upgrade'' ''hang'' p)
   | KDrop \<Rightarrow> (with_reply_headers ((serve_result_of Drop (VInt 200) VNone)\<lparr>r_drop_at := v_drop_at v\<rparr>) chosen VNone,
               refused now ep hs ''ws_upgrade'' ''drop_connection'' p))"

definition decide_upgrade :: "rat \<Rightarrow> rat \<Rightarrow> endpoint \<Rightarrow> headers \<Rightarrow> provider \<Rightarrow> pyerr + serve_result \<times> provider" where
  "decide_upgrade rnd now ep hs p =
     (let sc = cfg_snapshot ScenarioConfig (scenario p)
      in bind_r (targets sc ep) (\<lambda>targeted.
           bind_r (decide rnd sc ep p) (\<lambda>(v, p1).
             Inr (answer_upgrade now ep hs sc (chosen_of targeted sc ''reply_headers'') v p1))))"

text \<open>\<open>self.headers.get(name)\<close>: names are compared in lower case, and the first one counts.\<close>

definition http_header :: "string \<Rightarrow> headers \<Rightarrow> string option" where
  "http_header name hs = (case find (\<lambda>(n, v). lower n = lower name) hs of
     Some (n, HText v) \<Rightarrow> Some v | _ \<Rightarrow> None)"

definition text_or_empty :: "string option \<Rightarrow> string" where
  "text_or_empty v = (case v of None \<Rightarrow> [] | Some s \<Rightarrow> s)"

definition upgrade_request_ok :: "headers \<Rightarrow> bool" where
  "upgrade_request_ok hs \<longleftrightarrow>
     lower (text_or_empty (http_header ''Upgrade'' hs)) = ''websocket''
     \<and> sublist ''upgrade'' (lower (text_or_empty (http_header ''Connection'' hs)))
     \<and> http_header ''Sec-WebSocket-Version'' hs = Some ''13''
     \<and> text_or_empty (http_header ''Sec-WebSocket-Key'' hs) \<noteq> []"

datatype upgrade_outcome = PortIsClosed | SimpleError int string | Decided serve_result

text \<open>\<open>do_GET\<close> of the adapter, up to what it performs. The path is the one without the query.\<close>

definition do_upgrade ::
  "rat \<Rightarrow> rat \<Rightarrow> bool \<Rightarrow> endpoint \<Rightarrow> string \<Rightarrow> headers \<Rightarrow> provider \<Rightarrow> pyerr + upgrade_outcome \<times> provider" where
  "do_upgrade rnd now port_is_closed ep path hs p =
     (if port_is_closed then Inr (PortIsClosed, p)
      else if path \<noteq> ''/ws'' then Inr (SimpleError 404 ''not found'', p)
      else if \<not> upgrade_request_ok hs then Inr (SimpleError 400 ''bad WS upgrade request'', p)
      else bind_r (decide_upgrade rnd now ep hs p) (\<lambda>(res, p'). Inr (Decided res, p')))"

text \<open>A connection that was upgraded: an empty queue and no subscriptions.\<close>

definition open_connection :: "nat \<Rightarrow> ws_world \<Rightarrow> ws_world" where
  "open_connection cid w = w\<lparr>conns := AList.update cid \<lparr>out_queue = [], subscription_ids = [], c_ended = False\<rparr> (conns w)\<rparr>"

section \<open>The reader of a connection\<close>

datatype reader = KeepReading | CloseConnection

text \<open>What a dropped reply leaves on the socket: a frame header that promises a hundred bytes.\<close>

definition cut_reply :: "pyval \<Rightarrow> byte list" where
  "cut_reply at_what =
     (if at_what = VStr ''after_headers'' then [0x81, 100]
      else if at_what = VStr ''mid_body'' then [0x81, 100] @ replicate 50 0x58
      else [])"

definition perform_frame ::
  "(pyfloat \<Rightarrow> string) \<Rightarrow> nat \<Rightarrow> serve_result \<Rightarrow> ws_world \<Rightarrow> reader \<times> byte list \<times> ws_world" where
  "perform_frame fl cid res w =
     (if r_action res = NoBody then (CloseConnection, [], w)
      else if r_action res = Hang then (KeepReading, [], w)
      else if r_action res = Drop then (CloseConnection, cut_reply (r_drop_at res), w)
      else (case ws_text_frame fl (r_body res) (r_corruption_mode res) (r_missing_field res) of
              Inl e \<Rightarrow> (CloseConnection, [], w)
            | Inr item \<Rightarrow> (case put_nowait item cid w of
                None \<Rightarrow> (CloseConnection, [], w)
              | Some w' \<Rightarrow> (KeepReading, [], w'))))"

text \<open>What changes from frame to frame: the draw, the two clocks, the random token, and whether the port is closed.\<close>

record draws =
  d_rnd :: rat
  d_arrival :: rat
  d_end :: rat
  d_token :: string
  d_port_closed :: bool

definition frame_request :: "headers \<Rightarrow> frame \<Rightarrow> raw_request" where
  "frame_request hs f =
     \<lparr>rq_body = text_of_bytes (payload f), rq_headers = hs, rq_verb = ''POST'', rq_path = ''/'', rq_query = []\<rparr>"

text \<open>The body of the loop for one frame. What a frame raises ends the loop.\<close>

definition on_frame ::
  "(pyfloat \<Rightarrow> string) \<Rightarrow> (string \<Rightarrow> string) \<Rightarrow> chains \<Rightarrow> endpoint \<Rightarrow> headers \<Rightarrow> nat \<Rightarrow> draws \<Rightarrow> frame \<Rightarrow> provider \<Rightarrow> ws_world
   \<Rightarrow> (reader \<times> byte list) \<times> provider \<times> ws_world" where
  "on_frame fl sha ch ep hs cid d f p w =
     (if d_port_closed d then ((CloseConnection, []), p, w)
      else if opcode f = OPCODE_CLOSE then ((CloseConnection, []), p, w)
      else if opcode f = OPCODE_PING then
        (case encode_frame OPCODE_PONG (payload f) None of
           Inl e \<Rightarrow> ((CloseConnection, []), p, w)
         | Inr item \<Rightarrow> (case put_nowait item cid w of
             None \<Rightarrow> ((CloseConnection, []), p, w)
           | Some w' \<Rightarrow> ((KeepReading, []), p, w')))
      else if opcode f \<noteq> OPCODE_TEXT then ((KeepReading, []), p, w)
      else (case json_loads_bytes (text_of_bytes (payload f)) of
        None \<Rightarrow> ((KeepReading, []), p, w)
      | Some body \<Rightarrow>
          if is_dict body \<and> (is_dict (vget_or body ''method'' VNone) \<or> is_list (vget_or body ''method'' VNone))
          then ((CloseConnection, []), p, w)
          else (case serve sha (d_rnd d) (ws_hooks ch ep (d_token d) (Some cid)) (d_arrival d) (d_end d) ep (frame_request hs f) p w of
            (Inl e, p', w') \<Rightarrow> ((CloseConnection, []), p', w')
          | (Inr res, p', w') \<Rightarrow> (case perform_frame fl cid res w' of (r, sent, w'') \<Rightarrow> ((r, sent), p', w'')))))"

text \<open>The end of a connection: its subscriptions are removed and nobody reads from it again.\<close>

definition end_connection :: "nat \<Rightarrow> ws_world \<Rightarrow> ws_world" where
  "end_connection cid w =
     (let w' = release cid w
      in (case map_of (conns w') cid of
            None \<Rightarrow> w'
          | Some cn \<Rightarrow> w'\<lparr>conns := AList.update cid (cn\<lparr>c_ended := True\<rparr>) (conns w')\<rparr>))"

lemma parse_loop_shrinks:
  "parse_loop first acc s = (Inr f, s') \<Longrightarrow> length (unread s') < length (unread s)"
proof (induction first acc s rule: parse_loop.induct)
  case (1 first acc s)
  then obtain final op pl s1 where one: "read_one s = (Inr (final, op, pl), s1)"
    by (auto simp: parse_loop.simps [of first acc s] split: prod.splits sum.splits)
  with 1(1) [OF one [symmetric] refl refl refl refl] 1(2) read_one_shrinks [OF one] show ?case
    by (auto simp: parse_loop.simps [of first acc s] Let_def split: if_splits)
qed

text \<open>\<open>_reader_loop\<close>: the frames of one connection in order, with the draws of each.\<close>

function reader_loop ::
  "(pyfloat \<Rightarrow> string) \<Rightarrow> (string \<Rightarrow> string) \<Rightarrow> chains \<Rightarrow> endpoint \<Rightarrow> headers \<Rightarrow> nat \<Rightarrow> (nat \<Rightarrow> draws) \<Rightarrow> nat \<Rightarrow> sock
   \<Rightarrow> provider \<Rightarrow> ws_world \<Rightarrow> provider \<times> ws_world" where
  "reader_loop fl sha ch ep hs cid d n s p w =
     (case parse_frame s of
        (Inl e, s') \<Rightarrow> (p, end_connection cid w)
      | (Inr f, s') \<Rightarrow>
          (case on_frame fl sha ch ep hs cid (d n) f p w of
             ((KeepReading, sent), p', w') \<Rightarrow> reader_loop fl sha ch ep hs cid d (Suc n) s' p' w'
           | ((CloseConnection, sent), p', w') \<Rightarrow> (p', end_connection cid w')))"
  by pat_completeness auto

termination
  by (relation "measure (\<lambda>(fl, sha, ch, ep, hs, cid, d, n, s, p, w). length (unread s))")
    (auto simp: parse_frame_def dest: sym parse_loop_shrinks)

declare reader_loop.simps [simp del]

end
