(* ===== verification/WsFacts.thy ===== *)
theory WsFacts
  imports WsListener
begin

text \<open>
  What the WebSocket side of the simulator promises: the registry holds exactly the subscriptions
  that open connections own, over every interleaving of connections and pushes; a pushed event
  reaches the connection that asked for it; a refused upgrade is one row of the history; and the
  reader of a connection ends and leaves no subscription behind.
\<close>

section \<open>The steps of the connections\<close>

definition is_open :: "nat \<Rightarrow> ws_world \<Rightarrow> bool" where
  "is_open cid w \<longleftrightarrow> (\<exists>cn. map_of (conns w) cid = Some cn \<and> \<not> c_ended cn)"

text \<open>An id that no other connection uses, which is what the random ids are for.\<close>

definition free_for :: "nat \<Rightarrow> string \<Rightarrow> ws_world \<Rightarrow> bool" where
  "free_for cid i w \<longleftrightarrow> (\<forall>sub. map_of (subs w) i = Some sub \<longrightarrow> sub_conn sub = cid)"

inductive ws_step :: "ws_world \<Rightarrow> ws_world \<Rightarrow> bool" where
  w_open: "map_of (conns w) cid = None \<Longrightarrow> ws_step w (open_connection cid w)"
| w_subscribe: "is_open cid w \<Longrightarrow> free_for cid i w \<Longrightarrow> ws_step w (subscribe i cid meth p w)"
| w_unsubscribe: "is_open cid w \<Longrightarrow> unsubscribe target cid w = Inr (removed, w') \<Longrightarrow> ws_step w w'"
| w_put: "put_nowait item cid w = Some w' \<Longrightarrow> ws_step w w'"
| w_emit: "emit fl now i event reg w = Inr (out, row, w') \<Longrightarrow> ws_step w w'"
| w_write: "write_next cid w = Some (item, w') \<Longrightarrow> ws_step w w'"
| w_end: "is_open cid w \<Longrightarrow> ws_step w (end_connection cid w)"

inductive ws_reach :: "ws_world \<Rightarrow> bool" where
  ws_start: "ws_reach no_connections"
| ws_next: "ws_reach w \<Longrightarrow> ws_step w w' \<Longrightarrow> ws_reach w'"

section \<open>The invariant\<close>

definition owns :: "ws_world \<Rightarrow> nat \<Rightarrow> string \<Rightarrow> bool" where
  "owns w cid i \<longleftrightarrow> (\<exists>cn. map_of (conns w) cid = Some cn \<and> \<not> c_ended cn \<and> i \<in> set (subscription_ids cn))"

definition ws_ok :: "ws_world \<Rightarrow> bool" where
  "ws_ok w \<longleftrightarrow>
     (\<forall>i sub. map_of (subs w) i = Some sub \<longrightarrow> sub_id sub = i \<and> \<not> sub_closed sub \<and> owns w (sub_conn sub) i)
     \<and> (\<forall>cid i. owns w cid i \<longrightarrow> (\<exists>sub. map_of (subs w) i = Some sub \<and> sub_conn sub = cid))
     \<and> (\<forall>cid cn. map_of (conns w) cid = Some cn \<longrightarrow> distinct (subscription_ids cn) \<and> length (out_queue cn) \<le> QUEUE_MAX)"

lemma map_of_delete [simp]: "map_of (AList.delete k al) k' = (if k' = k then None else map_of al k')"
  by (simp add: delete_conv')

lemma map_of_upd [simp]: "map_of (AList.update k v al) k' = (if k' = k then Some v else map_of al k')"
  by (simp add: update_conv')

lemma ws_okD:
  assumes "ws_ok w"
  shows "map_of (subs w) i = Some sub \<Longrightarrow> sub_id sub = i \<and> \<not> sub_closed sub \<and> owns w (sub_conn sub) i"
    and "owns w cid i \<Longrightarrow> \<exists>sub. map_of (subs w) i = Some sub \<and> sub_conn sub = cid"
    and "map_of (conns w) cid = Some cn \<Longrightarrow> distinct (subscription_ids cn) \<and> length (out_queue cn) \<le> QUEUE_MAX"
  using assms by (auto simp: ws_ok_def)

text \<open>A step that touches a queue only.\<close>

definition same_owners :: "ws_world \<Rightarrow> ws_world \<Rightarrow> bool" where
  "same_owners w w' \<longleftrightarrow> subs w' = subs w \<and> (\<forall>cid i. owns w' cid i = owns w cid i)
     \<and> (\<forall>cid cn. map_of (conns w') cid = Some cn \<longrightarrow>
         (\<exists>cn0. map_of (conns w) cid = Some cn0 \<and> subscription_ids cn = subscription_ids cn0
            \<and> (length (out_queue cn0) \<le> QUEUE_MAX \<longrightarrow> length (out_queue cn) \<le> QUEUE_MAX)))"

lemma same_owners_ok: "same_owners w w' \<Longrightarrow> ws_ok w \<Longrightarrow> ws_ok w'"
  unfolding same_owners_def ws_ok_def by (simp, metis)

lemma put_same: "put_nowait item cid w = Some w' \<Longrightarrow> same_owners w w'"
  by (auto simp: put_nowait_def same_owners_def owns_def split: option.splits if_splits)

lemma write_same: "write_next cid w = Some (item, w') \<Longrightarrow> same_owners w w'"
  by (fastforce simp: write_next_def same_owners_def owns_def split: option.splits list.splits if_splits)

lemma same_owners_refl: "same_owners w w"
  by (simp add: same_owners_def)

lemma emit_same:
  assumes "emit fl now i event reg w = Inr (out, row, w')"
  shows "same_owners w w'"
proof (cases "map_of (subs w) i")
  case (Some sub)
  show ?thesis
  proof (cases "sub_closed sub")
    case False
    with Some assms obtain item where item: "frame_of fl sub event = Inr item"
      by (auto simp: emit_def bind_r_Inr_iff)
    with Some False assms show ?thesis using put_same [of item "sub_conn sub" w w'] same_owners_refl [of w]
      by (cases "put_nowait item (sub_conn sub) w"; cases "find_provider reg (sub_pool sub) (sub_pid sub)")
        (auto simp: emit_def)
  qed (use Some assms same_owners_refl in \<open>auto simp: emit_def\<close>)
qed (use assms same_owners_refl in \<open>auto simp: emit_def\<close>)

lemma ws_okI:
  assumes "\<And>i sub. map_of (subs w) i = Some sub \<Longrightarrow> sub_id sub = i \<and> \<not> sub_closed sub \<and> owns w (sub_conn sub) i"
    and "\<And>cid i. owns w cid i \<Longrightarrow> \<exists>sub. map_of (subs w) i = Some sub \<and> sub_conn sub = cid"
    and "\<And>cid cn. map_of (conns w) cid = Some cn \<Longrightarrow> distinct (subscription_ids cn) \<and> length (out_queue cn) \<le> QUEUE_MAX"
  shows "ws_ok w"
  using assms by (simp add: ws_ok_def)

text \<open>What each step does to the owners and to the registry.\<close>

lemma open_effect:
  "owns (open_connection cid w) c i \<longleftrightarrow> c \<noteq> cid \<and> owns w c i" "subs (open_connection cid w) = subs w"
  by (auto simp: open_connection_def owns_def)

lemma subscribe_effect:
  assumes "is_open cid w"
  shows "owns (subscribe i cid meth p w) c j \<longleftrightarrow> owns w c j \<or> c = cid \<and> j = i"
    and "map_of (subs (subscribe i cid meth p w)) j = (if j = i
      then Some \<lparr>sub_id = i, sub_pool = pool_name p, sub_pid = pid p, sub_method = meth, sub_conn = cid, sub_closed = False\<rparr>
      else map_of (subs w) j)"
  using assms by (auto simp: subscribe_def set_ids_def register_def owns_def is_open_def split: if_splits)

lemma open_ok:
  assumes "map_of (conns w) cid = None" and "ws_ok w"
  shows "ws_ok (open_connection cid w)"
proof (rule ws_okI)
  have none: "\<not> owns w cid i" for i using assms(1) by (simp add: owns_def)
  show "sub_id sub = i \<and> \<not> sub_closed sub \<and> owns (open_connection cid w) (sub_conn sub) i"
    if "map_of (subs (open_connection cid w)) i = Some sub" for i sub
    using ws_okD(1) [OF assms(2), of i sub] that none by (auto simp: open_effect)
  show "\<exists>sub. map_of (subs (open_connection cid w)) i = Some sub \<and> sub_conn sub = c"
    if "owns (open_connection cid w) c i" for c i
    using ws_okD(2) [OF assms(2), of c i] that by (simp add: open_effect)
  show "distinct (subscription_ids cn) \<and> length (out_queue cn) \<le> QUEUE_MAX"
    if "map_of (conns (open_connection cid w)) c = Some cn" for c cn
    using ws_okD(3) [OF assms(2), of c cn] that by (auto simp: open_connection_def split: if_splits)
qed

lemma subscribe_ok:
  assumes "ws_ok w" and "is_open cid w" and "free_for cid i w"
  shows "ws_ok (subscribe i cid meth p w)"
proof (rule ws_okI)
  note eff = subscribe_effect [OF assms(2), of i meth p]
  show "sub_id sub = j \<and> \<not> sub_closed sub \<and> owns (subscribe i cid meth p w) (sub_conn sub) j"
    if "map_of (subs (subscribe i cid meth p w)) j = Some sub" for j sub
    using ws_okD(1) [OF assms(1), of j sub] that by (auto simp: eff split: if_splits)
  show "\<exists>sub. map_of (subs (subscribe i cid meth p w)) j = Some sub \<and> sub_conn sub = c"
    if "owns (subscribe i cid meth p w) c j" for c j
    using ws_okD(2) [OF assms(1), of c j] assms(3) that by (auto simp: eff free_for_def)
  show "distinct (subscription_ids cn) \<and> length (out_queue cn) \<le> QUEUE_MAX"
    if "map_of (conns (subscribe i cid meth p w)) c = Some cn" for c cn
    using ws_okD(3) [OF assms(1), of c] that
    by (auto simp: subscribe_def set_ids_def register_def distinct_insert split: option.splits if_splits)
qed

definition ids_of :: "nat \<Rightarrow> ws_world \<Rightarrow> string list" where
  "ids_of cid w = (case map_of (conns w) cid of None \<Rightarrow> [] | Some cn \<Rightarrow> subscription_ids cn)"

lemma unsubscribe_cases:
  assumes "unsubscribe target cid w = Inr (removed, w')"
  obtains (kept) "w' = w" and "\<not> removed"
  | (gone) i where "removed" and "target = VStr i" and "i \<in> set (ids_of cid w)"
    and "w' = set_ids cid (remove1 i (ids_of cid w)) (w\<lparr>subs := AList.delete i (subs w)\<rparr>)"
proof (cases target)
  case (VStr i)
  have eq: "unsubscribe (VStr i) cid w =
      (if i = [] \<or> i \<notin> set (ids_of cid w) \<or> map_of (subs w) i = None then Inr (False, w)
       else Inr (True, set_ids cid (remove1 i (ids_of cid w)) (w\<lparr>subs := AList.delete i (subs w)\<rparr>)))"
    by (simp add: unsubscribe_def unregister_def ids_of_def [symmetric] Let_def split: option.split)
  show ?thesis
  proof (cases "i = [] \<or> i \<notin> set (ids_of cid w) \<or> map_of (subs w) i = None")
    case True
    with assms VStr eq have "w' = w" "\<not> removed" by auto
    then show ?thesis by (rule kept)
  next
    case False
    with assms VStr eq have "removed" "w' = set_ids cid (remove1 i (ids_of cid w)) (w\<lparr>subs := AList.delete i (subs w)\<rparr>)"
      by auto
    with False VStr show ?thesis by (intro gone) auto
  qed
qed (use assms in \<open>simp add: unsubscribe_def Let_def kept split: if_splits\<close>)+

lemma unsubscribe_ok:
  assumes "ws_ok w" and "is_open cid w" and "unsubscribe target cid w = Inr (removed, w')"
  shows "ws_ok w'"
  using assms(3)
proof (cases rule: unsubscribe_cases)
  case (gone i)
  from assms(2) obtain cn where cn: "map_of (conns w) cid = Some cn" "\<not> c_ended cn" by (auto simp: is_open_def)
  with gone have w': "w' = w\<lparr>subs := AList.delete i (subs w),
      conns := AList.update cid (cn\<lparr>subscription_ids := remove1 i (subscription_ids cn)\<rparr>) (conns w)\<rparr>"
    and i: "i \<in> set (subscription_ids cn)" by (simp_all add: set_ids_def ids_of_def)
  have d: "distinct (subscription_ids cn)" using ws_okD(3) [OF assms(1) cn(1)] by simp
  have own: "owns w' c j \<longleftrightarrow> owns w c j \<and> (c, j) \<noteq> (cid, i)" for c j
    using cn d by (auto simp: w' owns_def split: if_splits)
  have sub: "map_of (subs w') j = (if j = i then None else map_of (subs w) j)" for j by (simp add: w')
  have con: "map_of (conns w') c = (if c = cid then Some (cn\<lparr>subscription_ids := remove1 i (subscription_ids cn)\<rparr>)
      else map_of (conns w) c)" for c by (simp add: w')
  have "owns w cid i" using cn i by (auto simp: owns_def)
  then have sole: "owns w c i \<Longrightarrow> c = cid" for c
    using ws_okD(2) [OF assms(1), of c i] ws_okD(2) [OF assms(1), of cid i] by auto
  show ?thesis
  proof (rule ws_okI)
    show "sub_id sub = j \<and> \<not> sub_closed sub \<and> owns w' (sub_conn sub) j" if "map_of (subs w') j = Some sub" for j sub
      using ws_okD(1) [OF assms(1), of j sub] that by (simp add: own sub split: if_splits)
    show "\<exists>sub. map_of (subs w') j = Some sub \<and> sub_conn sub = c" if "owns w' c j" for c j
      using ws_okD(2) [OF assms(1), of c j] that sole [of c] by (auto simp: own sub)
    show "distinct (subscription_ids cn') \<and> length (out_queue cn') \<le> QUEUE_MAX" if "map_of (conns w') c = Some cn'" for c cn'
      using ws_okD(3) [OF assms(1), of c] that cn d by (auto simp: con split: if_splits)
  qed
qed (use assms(1) in simp)

text \<open>The end of a connection takes out exactly what it owned.\<close>

lemma unregister_effect:
  "map_of (subs (snd (unregister i w))) j = (if j = i then None else map_of (subs w) j)"
  "conns (snd (unregister i w)) = conns w"
  by (auto simp: unregister_def split: option.splits)

lemma unregister_all:
  "map_of (subs (fold (\<lambda>i w. snd (unregister i w)) ids w)) j = (if j \<in> set ids then None else map_of (subs w) j)
   \<and> conns (fold (\<lambda>i w. snd (unregister i w)) ids w) = conns w"
  by (induction ids arbitrary: w) (auto simp: unregister_effect)

lemma end_effect:
  assumes "is_open cid w"
  shows "map_of (subs (end_connection cid w)) j = (if owns w cid j then None else map_of (subs w) j)"
    and "owns (end_connection cid w) c j \<longleftrightarrow> c \<noteq> cid \<and> owns w c j"
    and "map_of (conns (end_connection cid w)) c = Some cn \<Longrightarrow>
      \<exists>cn0. map_of (conns w) c = Some cn0 \<and> subscription_ids cn = subscription_ids cn0 \<and> out_queue cn = out_queue cn0"
  using assms unregister_all [of _ w]
  by (auto simp: end_connection_def release_def owns_def is_open_def Let_def split: if_splits)

lemma end_ok:
  assumes "ws_ok w" and "is_open cid w"
  shows "ws_ok (end_connection cid w)"
proof (rule ws_okI)
  note eff = end_effect [OF assms(2)]
  have mine: "owns w cid i" if "map_of (subs w) i = Some sub" "sub_conn sub = cid" for i sub
    using ws_okD(1) [OF assms(1) that(1)] that(2) by simp
  show "sub_id sub = j \<and> \<not> sub_closed sub \<and> owns (end_connection cid w) (sub_conn sub) j"
    if "map_of (subs (end_connection cid w)) j = Some sub" for j sub
    using ws_okD(1) [OF assms(1), of j sub] mine [of j sub] that by (auto simp: eff(1,2) split: if_splits)
  show "\<exists>sub. map_of (subs (end_connection cid w)) j = Some sub \<and> sub_conn sub = c"
    if "owns (end_connection cid w) c j" for c j
    using ws_okD(2) [OF assms(1), of c j] ws_okD(2) [OF assms(1), of cid j] that by (auto simp: eff(1,2))
  show "distinct (subscription_ids cn) \<and> length (out_queue cn) \<le> QUEUE_MAX"
    if "map_of (conns (end_connection cid w)) c = Some cn" for c cn
    using ws_okD(3) [OF assms(1), of c] eff(3) [OF that] by auto
qed

lemma ws_step_ok: "ws_step w w' \<Longrightarrow> ws_ok w \<Longrightarrow> ws_ok w'"
  by (induction rule: ws_step.induct)
    (auto intro: open_ok subscribe_ok unsubscribe_ok end_ok same_owners_ok [OF put_same]
      same_owners_ok [OF emit_same] same_owners_ok [OF write_same])

lemma ws_reach_ok: "ws_reach w \<Longrightarrow> ws_ok w"
  by (induction rule: ws_reach.induct)
    (auto intro: ws_step_ok simp: no_connections_def ws_ok_def [of "\<lparr>subs = _, conns = _\<rparr>"] owns_def)

text \<open>
  C12. The registry of the subscriptions follows the connections. Over every interleaving of
  upgrades, subscribe and unsubscribe frames, replies, pushes, writes and ends of connections, an
  id is registered exactly when one open connection owns it, and that is the connection whose
  queue gets its events; no queue is longer than its bound.
\<close>

theorem subscriptions_follow_connections:
  assumes "ws_reach w"
  shows "(\<exists>sub. map_of (subs w) i = Some sub \<and> sub_conn sub = cid) = owns w cid i
    \<and> (\<forall>cn. map_of (conns w) cid = Some cn \<longrightarrow> length (out_queue cn) \<le> QUEUE_MAX)"
  using ws_okD [OF ws_reach_ok [OF assms]] by blast

section \<open>The listener\<close>

lemma ws_content_provider: "ws_content ch ep token conn parsed sc req p w = Inr (r, p', w') \<Longrightarrow> p' = p"
  by (auto simp: ws_content_def chain_content_def Let_def bind_r_Inr_iff split: if_splits option.splits)

lemma ws_content_frame:
  assumes "ws_content ch ep token conn parsed sc req p w = Inr (r, p', w')"
  shows "\<exists>ex. p' = p\<lparr>executed := ex\<rparr>"
  using ws_content_provider [OF assms] by (intro exI [of _ "executed p"]) simp

interpretation ws: listener_contract "ws_hooks ch ep token conn" for ch ep token conn
  by unfold_locales
    (auto simp: ws_hooks_def jsonrpc_hooks_def default_corrupt_keeps jsonrpc_body_override_def jsonrpc_parse_bare
      hook_labels_final split: option.splits if_splits dest: ws_content_frame)

text \<open>The flow changes its environment in the content hook only, when parsing leaves it alone.\<close>

lemma serve_env:
  assumes "\<And>req p c. snd (parse_request H req p c) = c"
    and "serve sha rnd H t0 t1 ep req p c = (r, p', c')"
  shows "c' = c \<or> (\<exists>parsed sc p0 res p1. build_content H parsed sc req p0 c = Inr (res, p1, c'))"
proof -
  have give: "c' = c \<or> (\<exists>res p1. build_content H parsed sc req p c = Inr (res, p1, c'))"
    if "give_content H t i req tg sc lat parsed p c = (r, p', c')" for t i tg sc lat parsed p r p'
    using that by (cases "build_content H parsed sc req p c")
      (auto simp: give_content_def replied_def split: sum.splits prod.splits)
  have act: "c' = c \<or> (\<exists>parsed sc p res p1. build_content H parsed sc req p c = Inr (res, p1, c'))"
    if "act_on v H t i req tg sc lat parsed p c = (r, p', c')" for v t i tg sc lat parsed p r p'
    using that give by (auto simp: act_on_def replied_def split: if_splits sum.splits prod.splits)
  have ans: "c' = c \<or> (\<exists>parsed sc p res p1. build_content H parsed sc req p c = Inr (res, p1, c'))"
    if "answer rnd H t i req tg mode sc lat parsed p c = (r, p', c')" for t i tg mode sc lat parsed p r p'
    using that act by (auto simp: answer_def replied_def split: sum.splits prod.splits option.splits)
  have flow: "c' = c \<or> (\<exists>parsed sc p res p1. build_content H parsed sc req p c = Inr (res, p1, c'))"
    if "after_mode rnd H t i req tg mode sc p c = (r, p', c')" for t i tg mode sc p r p'
  proof -
    obtain out where out: "parse_request H req p c = (out, c)" using assms(1) by (metis prod.collapse)
    have env: "snd (snd (add_headers b sc x)) = snd (snd x)" for b x
      by (auto simp: add_headers_def split: sum.splits prod.splits)
    have ans': "snd (snd (answer rnd H t i req tg mode sc lat parsed p c)) = c' \<Longrightarrow>
        c' = c \<or> (\<exists>parsed sc p res p1. build_content H parsed sc req p c = Inr (res, p1, c'))" for lat parsed
      using ans by (metis prod.collapse)
    from that have "c' = snd (snd (after_mode rnd H t i req tg mode sc p c))" by simp
    with out ans' show ?thesis
      by (cases out) (auto simp: after_mode_def env split: if_splits)
  qed
  show ?thesis
    using assms(2) flow by (auto simp: serve_def serve_entry_def Let_def split: prod.splits sum.splits)
qed

section \<open>The reader\<close>

text \<open>One frame is at most two steps of the world: what the content does, and the reply in the queue.\<close>

definition frame_step :: "nat \<Rightarrow> string \<Rightarrow> ws_world \<Rightarrow> ws_world \<Rightarrow> bool" where
  "frame_step cid token w w' \<longleftrightarrow> w' = w \<or> (\<exists>meth p. w' = subscribe (''0x'' @ token) cid meth p w)
     \<or> (\<exists>target removed. unsubscribe target cid w = Inr (removed, w'))"

lemma ws_content_step:
  assumes "ws_content ch ep token (Some cid) parsed sc req p w = Inr (r, p', w')"
  shows "frame_step cid token w w'"
  using assms unfolding frame_step_def
  by (auto simp: ws_content_def chain_content_def Let_def bind_r_Inr_iff split: if_splits)

lemma ws_serve_step:
  assumes "serve sha rnd (ws_hooks ch ep token (Some cid)) t0 t1 ep' req p w = (r, p', w')"
  shows "frame_step cid token w w'"
proof -
  have "snd (parse_request (ws_hooks ch ep token (Some cid)) req p c) = c" for req p c
    by (simp add: ws_hooks_def jsonrpc_hooks_def)
  from serve_env [OF this assms] show ?thesis
    by (auto simp: ws_hooks_def frame_step_def [of _ _ w w] dest: ws_content_step)
qed

lemma on_frame_world:
  assumes "on_frame fl sha ch ep hs cid d f p w = (out, p', w')"
  shows "\<exists>w1. frame_step cid (d_token d) w w1 \<and> (w' = w1 \<or> (\<exists>item. put_nowait item cid w1 = Some w'))"
proof -
  have still: "frame_step cid (d_token d) w w" by (simp add: frame_step_def)
  have perform: "w2 = w1 \<or> (\<exists>item. put_nowait item cid w1 = Some w2)"
    if "perform_frame fl cid res w1 = (r, sent, w2)" for res w1 r sent w2
    using that by (auto simp: perform_frame_def split: if_splits sum.splits option.splits)
  show ?thesis
  proof (cases "d_port_closed d \<or> opcode f = OPCODE_CLOSE \<or> opcode f \<noteq> OPCODE_TEXT")
    case True
    with assms still show ?thesis
      by (auto simp: on_frame_def split: if_splits sum.splits option.splits)
  next
    case False
    then have plain: "\<not> d_port_closed d" "opcode f = OPCODE_TEXT" "opcode f \<noteq> OPCODE_CLOSE" "opcode f \<noteq> OPCODE_PING"
      by (auto simp: opcode_defs)
    obtain r p1 w1 where run: "serve sha (d_rnd d) (ws_hooks ch ep (d_token d) (Some cid)) (d_arrival d) (d_end d) ep
        (frame_request hs f) p w = (r, p1, w1)" by (metis prod.exhaust)
    with assms plain still ws_serve_step [OF run] show ?thesis
      by (cases r; cases "json_loads_bytes (text_of_bytes (payload f))")
        (auto simp: on_frame_def split: if_splits prod.splits dest!: perform)
  qed
qed

text \<open>What a frame of one connection leaves alone: the connection stays open, and so do the others with what they own.\<close>

definition only_own :: "nat \<Rightarrow> ws_world \<Rightarrow> ws_world \<Rightarrow> bool" where
  "only_own cid w w' \<longleftrightarrow> ws_ok w' \<and> is_open cid w' \<and> (\<forall>c j. c \<noteq> cid \<longrightarrow> owns w' c j = owns w c j)
     \<and> (\<forall>j sub. sub_conn sub \<noteq> cid \<longrightarrow> (map_of (subs w') j = Some sub) = (map_of (subs w) j = Some sub))"

lemma only_own_trans: "only_own cid w w1 \<Longrightarrow> only_own cid w1 w2 \<Longrightarrow> only_own cid w w2"
  by (simp add: only_own_def)

lemma put_only_own:
  assumes "ws_ok w" and "is_open cid w" and "put_nowait item c w = Some w'"
  shows "only_own cid w w'"
  using assms same_owners_ok [OF put_same [OF assms(3)]] put_same [OF assms(3)]
  by (auto simp: only_own_def same_owners_def put_nowait_def is_open_def split: option.splits if_splits)

lemma frame_step_only_own:
  assumes "ws_ok w" and "is_open cid w" and "free_for cid (''0x'' @ token) w" and "frame_step cid token w w'"
  shows "only_own cid w w'"
proof -
  consider "w' = w" | (sub) meth p where "w' = subscribe (''0x'' @ token) cid meth p w"
    | (unsub) target removed where "unsubscribe target cid w = Inr (removed, w')"
    using assms(4) by (auto simp: frame_step_def)
  then show ?thesis
  proof cases
    case sub
    moreover have "is_open cid w'" using assms(2) sub
      by (auto simp: is_open_def subscribe_def set_ids_def register_def)
    ultimately show ?thesis
      using subscribe_ok [OF assms(1-3)] subscribe_effect [OF assms(2)] assms(3)
      by (auto simp: only_own_def free_for_def)
  next
    case unsub
    note ok = unsubscribe_ok [OF assms(1,2) unsub]
    from unsub show ?thesis
    proof (cases rule: unsubscribe_cases)
      case (gone i)
      from assms(2) obtain cn where cn: "map_of (conns w) cid = Some cn" "\<not> c_ended cn" by (auto simp: is_open_def)
      with gone(3) have "owns w cid i" by (auto simp: owns_def ids_of_def)
      then have "sub_conn sub = cid" if "map_of (subs w) i = Some sub" for sub
        using ws_okD(2) [OF assms(1), of cid i] that by auto
      with gone cn ok show ?thesis
        by (auto simp: only_own_def set_ids_def is_open_def owns_def split: if_splits)
    qed (use assms ok in \<open>simp add: only_own_def\<close>)
  qed (use assms in \<open>simp add: only_own_def\<close>)
qed

lemma on_frame_only_own:
  assumes "ws_ok w" and "is_open cid w" and "free_for cid (''0x'' @ d_token d) w"
    and "on_frame fl sha ch ep hs cid d f p w = (out, p', w')"
  shows "only_own cid w w'"
proof -
  from on_frame_world [OF assms(4)] obtain w1 where
    step: "frame_step cid (d_token d) w w1" and rest: "w' = w1 \<or> (\<exists>item. put_nowait item cid w1 = Some w')" by blast
  have own: "only_own cid w w1" using frame_step_only_own [OF assms(1-3) step] .
  then have "ws_ok w1" "is_open cid w1" by (simp_all add: only_own_def)
  with own rest put_only_own only_own_trans show ?thesis by blast
qed

lemma free_for_kept: "only_own cid w w' \<Longrightarrow> free_for cid i w \<Longrightarrow> free_for cid i w'"
  unfolding only_own_def free_for_def by metis

lemma end_only_own:
  assumes "ws_ok w" and "is_open cid w"
  shows "(\<forall>i sub. map_of (subs (end_connection cid w)) i = Some sub \<longrightarrow> sub_conn sub \<noteq> cid)
    \<and> (\<forall>j sub. sub_conn sub \<noteq> cid \<longrightarrow>
         (map_of (subs (end_connection cid w)) j = Some sub) = (map_of (subs w) j = Some sub))"
  using ws_okD(1,2) [OF assms(1)] end_effect(1) [OF assms(2)] by (fastforce split: if_splits)

text \<open>
  C17. The reader of a connection ends on every stream of bytes: whatever the frames are, wherever
  the stream stops and whatever the flow raises. When it has ended, no subscription of the
  connection is registered, and the subscriptions of every other connection are as they were.
\<close>

theorem reader_ends_clean:
  assumes "ws_reach w" and "is_open cid w" and "\<forall>k. free_for cid (''0x'' @ d_token (d k)) w"
    and "reader_loop fl sha ch ep hs cid d n s p w = (p', w')"
  shows "(\<forall>i sub. map_of (subs w') i = Some sub \<longrightarrow> sub_conn sub \<noteq> cid)
    \<and> (\<forall>j sub. sub_conn sub \<noteq> cid \<longrightarrow> (map_of (subs w') j = Some sub) = (map_of (subs w) j = Some sub))"
proof -
  have "ws_ok w" using assms(1) by (rule ws_reach_ok)
  from this assms(2-4) show ?thesis
  proof (induction fl sha ch ep hs cid d n s p w arbitrary: p' w' rule: reader_loop.induct)
    case (1 fl sha ch ep hs cid d n s p w)
    note end_here = end_only_own [OF 1(2,3)]
    show ?case
    proof (cases "fst (parse_frame s)")
      case (Inl e)
      with 1(5) end_here show ?thesis
        by (cases "parse_frame s") (auto simp: reader_loop.simps [of fl sha ch ep hs cid d n s p w])
    next
      case (Inr f)
      then obtain s1 where f: "parse_frame s = (Inr f, s1)" by (cases "parse_frame s") auto
      obtain r sent p1 w1 where run: "on_frame fl sha ch ep hs cid (d n) f p w = ((r, sent), p1, w1)"
        by (metis prod.exhaust)
      have own: "only_own cid w w1" using on_frame_only_own [OF 1(2,3) _ run] 1(4) by blast
      then have ok: "ws_ok w1" "is_open cid w1" by (simp_all add: only_own_def)
      have same: "(map_of (subs w1) j = Some sub) = (map_of (subs w) j = Some sub)" if "sub_conn sub \<noteq> cid" for j sub
        using own that by (simp add: only_own_def)
      show ?thesis
      proof (cases r)
        case KeepReading
        have "reader_loop fl sha ch ep hs cid d (Suc n) s1 p1 w1 = (p', w')"
          using 1(5) f run KeepReading by (simp add: reader_loop.simps [of fl sha ch ep hs cid d n s p w])
        moreover have "\<forall>k. free_for cid (''0x'' @ d_token (d k)) w1" using 1(4) free_for_kept [OF own] by blast
        ultimately show ?thesis
          using 1(1) [OF f [symmetric] refl run [symmetric] refl KeepReading refl ok, of p' w'] same by simp blast
      next
        case CloseConnection
        then have "w' = end_connection cid w1"
          using 1(5) f run by (simp add: reader_loop.simps [of fl sha ch ep hs cid d n s p w])
        with end_only_own [OF ok] same show ?thesis by simp blast
      qed
    qed
  qed
qed

section \<open>Pushed events\<close>

lemma bytes_roundtrip [simp]: "text_of_bytes (bytes_of s) = s"
proof -
  have "char_of (unat (word_of_nat (of_char c) :: byte)) = c" for c :: char
    by (simp add: unat_of_nat)
  then show ?thesis by (simp add: bytes_of_def text_of_bytes_def comp_def)
qed

lemma length_bytes_of [simp]: "length (bytes_of s) = length s"
  by (simp add: bytes_of_def)

lemma text_frame_parses:
  assumes "ws_text_frame fl (VDict kvs) VNone mf = Inr item" and "plain_json (VDict kvs)"
  shows "\<exists>raw s'. parse_frame [item] = (Inr \<lparr>fin = True, opcode = OPCODE_TEXT, payload = bytes_of raw\<rparr>, s')
    \<and> json_loads raw = Some (VDict kvs)"
proof -
  obtain raw where raw: "json_dumps default_separators fl (VDict kvs) = Inr raw" "json_loads raw = Some (VDict kvs)"
    using dumps_loads [OF assms(2)] .
  with assms(1) have enc: "encode_frame OPCODE_TEXT (bytes_of raw) None = Inr item"
    by (auto simp: ws_text_frame_def serialize_def corrupt_dict_def corrupt_bytes_def split: sum.splits)
  then have "item \<noteq> []" by (auto simp: encode_frame_def bind_r_Inr_iff Let_def split: if_splits)
  then have "flowing [item]" by simp
  from frames.reads [OF this] encoded_message [OF enc, of "[]"] raw(2) show ?thesis
    by (fastforce simp: valid_key_def)
qed

text \<open>
  C21. A pushed event reaches the connection that subscribed. With room in its queue the push is
  answered as emitted; exactly that queue gets one more item, at its end; the client that reads the
  item gets one text message, and its JSON is the event in the envelope of the subscribe method.
  The log of the provider of the subscription gets one row with the status success.
\<close>

theorem push_reaches_subscriber:
  assumes "ws_reach w" and "map_of (subs w) i = Some sub"
    and "map_of (conns w) (sub_conn sub) = Some cn" and "length (out_queue cn) < QUEUE_MAX"
    and "event_message sub event = Inr (VDict kvs)" and "plain_json (VDict kvs)"
    and "frame_of fl sub event = Inr item"
  shows "\<exists>row w'. emit fl now i event reg w = Inr (Emitted, row, w') \<and> subs w' = subs w
    \<and> map_of (conns w') = (map_of (conns w))(sub_conn sub \<mapsto> cn\<lparr>out_queue := out_queue cn @ [item]\<rparr>)
    \<and> (\<exists>raw s'. parse_frame [item] = (Inr \<lparr>fin = True, opcode = OPCODE_TEXT, payload = bytes_of raw\<rparr>, s')
        \<and> json_loads raw = Some (VDict kvs))
    \<and> (\<forall>p. find_provider reg (sub_pool sub) (sub_pid sub) = Inr p \<longrightarrow>
        (\<exists>p' e. row = Some ((sub_pool sub, sub_pid sub), p') \<and> rows (p_log p') = rows (p_log p) @ [e]
          \<and> e_status e = ''success'' \<and> e_request_id e = VStr i \<and> total_calls (p_log p') = total_calls (p_log p) + 1))"
proof -
  have open_sub: "\<not> sub_closed sub" "sub_id sub = i" using ws_okD(1) [OF ws_reach_ok [OF assms(1)] assms(2)] by auto
  let ?w = "w\<lparr>conns := AList.update (sub_conn sub) (cn\<lparr>out_queue := out_queue cn @ [item]\<rparr>) (conns w)\<rparr>"
  have put: "put_nowait item (sub_conn sub) w = Some ?w" using assms(3,4) by (simp add: put_nowait_def)
  have parsed: "\<exists>raw s'. parse_frame [item] = (Inr \<lparr>fin = True, opcode = OPCODE_TEXT, payload = bytes_of raw\<rparr>, s')
      \<and> json_loads raw = Some (VDict kvs)"
    using text_frame_parses [OF _ assms(6)] assms(5,7) by (auto simp: frame_of_def)
  let ?row = "case find_provider reg (sub_pool sub) (sub_pid sub) of Inl e \<Rightarrow> None
    | Inr p \<Rightarrow> Some ((sub_pool sub, sub_pid sub), push_row now sub p)"
  have run: "emit fl now i event reg w = Inr (Emitted, ?row, ?w)"
    using assms(2,7) open_sub put
    by (cases "find_provider reg (sub_pool sub) (sub_pid sub)") (simp_all add: emit_def)
  have conns: "map_of (conns ?w) = (map_of (conns w))(sub_conn sub \<mapsto> cn\<lparr>out_queue := out_queue cn @ [item]\<rparr>)"
    by (simp add: update_conv')
  have logged: "\<exists>e. rows (p_log (push_row now sub p)) = rows (p_log p) @ [e] \<and> e_status e = ''success''
      \<and> e_request_id e = VStr i \<and> total_calls (p_log (push_row now sub p)) = total_calls (p_log p) + 1" for p
    using open_sub(2) by (simp add: push_row_def push_def append_row_def new_entry_def now_fields_def Let_def)
  show ?thesis
    by (intro exI [of _ ?row] exI [of _ ?w] conjI) (use run conns parsed logged in auto)
qed

section \<open>The upgrade\<close>

lemma decide_frame: "decide rnd sc ep p = Inr (v, p') \<Longrightarrow> \<exists>n. p' = p\<lparr>fail_count := n\<rparr>"
  by (auto simp: decide_def bind_r_Inr_iff dest!: resolve_mode_targets split: if_splits)

lemma refused_row:
  assumes "log_reach hmax is (p_log p)" and "distinct (dict_keys hs)"
  shows "\<exists>e. rows (p_log (refused now ep hs m st p)) = rows (p_log p) @ [e] \<and> e_status e = st
      \<and> headers_json e = headers_as_json hs
      \<and> log_reach hmax (is @ [length (rows (p_log p))]) (p_log (refused now ep hs m st p))"
proof -
  obtain i L where push: "push now (VStr m) st (VInt 0) (interface ep) (transport ep) (port ep) VNone
      (filter is_lava_header hs) hs (p_log p) = (i, L)" by fastforce
  then have "i = length (rows (p_log p))" and "\<exists>e. rows L = rows (p_log p) @ [e] \<and> e_status e = st
      \<and> headers_json e = headers_as_json hs"
    by (auto simp: push_def append_row_def new_entry_def now_fields_def Let_def)
  with push reach_push [OF assms push] show ?thesis by (simp add: refused_def)
qed

text \<open>
  An upgrade that the provider accepts writes nothing in the history. A refused one writes
  exactly one row, which is complete when it is written and holds every header of the request; the
  log stays reachable. Nothing else of the provider changes but the window of a sequenced fault.
\<close>

theorem upgrade_rows:
  assumes "decide_upgrade rnd now ep hs p = Inr (res, p')" and "log_reach hmax is (p_log p)" and "distinct (dict_keys hs)"
  shows "(\<exists>n. p' = p\<lparr>fail_count := n, p_log := p_log p'\<rparr>)
    \<and> (if r_action res = Respond \<and> r_status res = VInt 101 then p_log p' = p_log p
       else \<exists>e. rows (p_log p') = rows (p_log p) @ [e] \<and> e_status e \<in> final_labels - {''success''}
         \<and> headers_json e = headers_as_json hs \<and> log_reach hmax (is @ [length (rows (p_log p))]) (p_log p'))"
proof -
  let ?sc = "cfg_snapshot ScenarioConfig (scenario p)"
  from assms(1) obtain targeted v p1 where v: "decide rnd ?sc ep p = Inr (v, p1)"
    by (auto simp: decide_upgrade_def Let_def bind_r_Inr_iff)
  then obtain n where p1: "p1 = p\<lparr>fail_count := n\<rparr>" using decide_frame by blast
  have row: "\<exists>e. rows (p_log (refused now ep hs m st p1)) = rows (p_log p) @ [e] \<and> e_status e = st
      \<and> headers_json e = headers_as_json hs
      \<and> log_reach hmax (is @ [length (rows (p_log p))]) (p_log (refused now ep hs m st p1))" for m st
    using refused_row [of hmax "is" p1] assms(2,3) by (simp add: p1)
  have frame: "\<exists>n. refused now ep hs m st p1 = p\<lparr>fail_count := n, p_log := p_log (refused now ep hs m st p1)\<rparr>" for m st
    by (auto simp: refused_def p1)
  have same: "\<exists>n. p1 = p\<lparr>fail_count := n, p_log := p_log p1\<rparr>" "p_log p1 = p_log p" by (auto simp: p1)
  have plain: "r_action (with_reply_headers r c t) = r_action r" "r_status (with_reply_headers r c t) = r_status r" for r c t
    by (simp_all add: with_reply_headers_def)
  from assms(1) v obtain c where out: "answer_upgrade now ep hs ?sc c v p1 = (res, p')"
    by (auto simp: decide_upgrade_def Let_def bind_r_Inr_iff)
  define m where "m = (if kind v = KDown then ''*'' else ''ws_upgrade'')"
  define label where "label = STATUS_LABEL (kind v)"
  have p': "p' = (if kind v = KNone then p1 else refused now ep hs m label p1)"
    and st: "(r_action res = Respond \<and> r_status res = VInt 101) = (kind v = KNone)"
    using out by (cases "kind v"; force simp: answer_upgrade_def m_def label_def STATUS_LABEL_def plain serve_result_of_def
        upgrade_reply_def)+
  show ?thesis
  proof (cases "kind v = KNone")
    case True
    with same p' st show ?thesis by simp
  next
    case False
    then have "label \<in> final_labels - {''success''}"
      by (cases "kind v") (simp_all add: label_def STATUS_LABEL_def final_labels_def)
    with False p' st row [of m label] frame [of m label] show ?thesis by auto
  qed
qed

section \<open>A connection to try the properties on\<close>

definition sample_world :: ws_world where
  "sample_world = subscribe ''0xab'' 0 ''eth_subscribe'' sample_provider (open_connection 0 no_connections)"

definition sample_sub :: subscription where
  "sample_sub = \<lparr>sub_id = ''0xab'', sub_pool = ''eth-sim'', sub_pid = ''1'', sub_method = ''eth_subscribe'', sub_conn = 0, sub_closed = False\<rparr>"

definition sample_event :: pyval where
  "sample_event = jobj [(''number'', VStr ''0x1'')]"

lemma sample_world_subs: "subs sample_world = [(''0xab'', sample_sub)]"
  and sample_world_conns: "conns sample_world = [(0, \<lparr>out_queue = [], subscription_ids = [''0xab''], c_ended = False\<rparr>)]"
  by (simp_all add: sample_world_def subscribe_def set_ids_def register_def open_connection_def no_connections_def
      sample_sub_def sample_provider_def new_provider_def)

lemma sample_world_open: "is_open 0 sample_world"
  by (simp add: is_open_def sample_world_conns)

lemma sample_world_reach: "ws_reach sample_world"
  unfolding sample_world_def
  by (intro ws_next [OF ws_next [OF ws_start w_open] w_subscribe])
    (simp_all add: is_open_def open_connection_def free_for_def no_connections_def)

theorem subscriptions_follow_connections_witness:
  "ws_reach sample_world \<and> map_of (subs sample_world) ''0xab'' = Some sample_sub \<and> owns sample_world 0 ''0xab''"
  using subscriptions_follow_connections [OF sample_world_reach, where i = "''0xab''" and cid = 0] sample_world_reach
  by (auto simp: sample_world_subs sample_sub_def)

definition sample_draws :: "nat \<Rightarrow> draws" where
  "sample_draws n = \<lparr>d_rnd = 0, d_arrival = 1, d_end = 2, d_token = ''cd'', d_port_closed = False\<rparr>"

theorem reader_ends_clean_witness:
  "\<exists>p' w'. reader_loop (\<lambda>_. []) (\<lambda>b. b) quiet_chains sample_endpoint [] 0 sample_draws 0 [hello] sample_provider sample_world = (p', w')
     \<and> map_of (subs sample_world) ''0xab'' \<noteq> None \<and> map_of (subs w') ''0xab'' = None"
proof -
  obtain p' w' where run: "reader_loop (\<lambda>_. []) (\<lambda>b. b) quiet_chains sample_endpoint [] 0 sample_draws 0 [hello] sample_provider sample_world
      = (p', w')" by fastforce
  have free: "\<forall>k. free_for 0 (''0x'' @ d_token (sample_draws k)) sample_world"
    by (simp add: free_for_def sample_draws_def sample_world_subs)
  note clean = reader_ends_clean [OF sample_world_reach sample_world_open free run]
  have "map_of (subs w') ''0xab'' = None"
  proof (cases "map_of (subs w') ''0xab''")
    case (Some sub)
    with clean have "sub_conn sub \<noteq> 0" and "map_of (subs sample_world) ''0xab'' = Some sub" by auto
    then show ?thesis by (auto simp: sample_world_subs sample_sub_def)
  qed
  with run show ?thesis by (simp add: sample_world_subs)
qed

lemma sample_frame: "\<not> isl (frame_of (\<lambda>_. []) sample_sub sample_event)"
  by code_simp

theorem push_reaches_subscriber_witness:
  "\<exists>row w' cn. emit (\<lambda>_. []) 1 ''0xab'' sample_event \<lparr>pools = [], by_port_table = []\<rparr> sample_world = Inr (Emitted, row, w')
     \<and> map_of (conns w') 0 = Some cn \<and> length (out_queue cn) = 1"
proof -
  obtain item where item: "frame_of (\<lambda>_. []) sample_sub sample_event = Inr item"
    using sample_frame by (cases "frame_of (\<lambda>_. []) sample_sub sample_event") auto
  obtain kvs where kvs: "event_message sample_sub sample_event = Inr (VDict kvs)" "plain_json (VDict kvs)"
    by (simp add: event_message_def sample_sub_def sample_event_def envelope_of_def SUBSCRIBE_METHODS_def build_event_frame_def
        notification_def jobj_def)
  show ?thesis
    using push_reaches_subscriber [OF sample_world_reach _ _ _ kvs item, where i = "''0xab''" and now = 1
        and reg = "\<lparr>pools = [], by_port_table = []\<rparr>"]
    by (auto simp: sample_world_subs sample_world_conns sample_sub_def QUEUE_MAX_def)
qed

lemma down_upgrade:
  "case decide_upgrade 0 1 sample_endpoint [(''host'', HText ''sim'')] down_provider of
     Inl e \<Rightarrow> False | Inr (res, p') \<Rightarrow> r_status res = VInt 503"
  by code_simp

theorem upgrade_rows_witness:
  "\<exists>res p'. decide_upgrade 0 1 sample_endpoint [(''host'', HText ''sim'')] down_provider = Inr (res, p')
     \<and> r_status res = VInt 503 \<and> length (rows (p_log p')) = 1"
proof -
  obtain res p' where run: "decide_upgrade 0 1 sample_endpoint [(''host'', HText ''sim'')] down_provider = Inr (res, p')"
    and st: "r_status res = VInt 503"
    using down_upgrade by (cases "decide_upgrade 0 1 sample_endpoint [(''host'', HText ''sim'')] down_provider") auto
  have "log_reach HISTORY_MAX [] (p_log down_provider)"
    by (simp add: down_provider_def sample_provider_def new_provider_def reach_new)
  from upgrade_rows [OF run this] run st show ?thesis
    by (auto simp: down_provider_def sample_provider_def new_provider_def new_log_def)
qed

end
