(* ===== verification/RespStore.thy ===== *)
theory RespStore
  imports PyValue Sockets "HOL-Library.List_Lexorder"
begin

text \<open>
  \<open>resp_store.py\<close>: the client that reads the store behind the router, over the sockets of \<open>Sockets\<close>.

  The store is code outside this repository. It is a parameter: a function from the bytes of a
  command and a state to the segments of its answer, or no answer at all. A Python text that was
  decoded from bytes is represented by its UTF-8 bytes. The depth of the recursion that the
  interpreter allows is an argument.
\<close>

section \<open>Replies\<close>

datatype resp_value = RNone | RInt int | RText "byte list" | RBytes "byte list" | RList "resp_value list"

datatype resp_error = RespStoreError | RespValueError | RespRecursionError

definition to_bytes :: "string \<Rightarrow> byte list" where
  "to_bytes s = map (\<lambda>c. word_of_nat (of_char c)) s"

definition to_text :: "byte list \<Rightarrow> string" where
  "to_text bs = map (\<lambda>b. char_of (unat b)) bs"

definition CRLF :: "byte list" where
  "CRLF = [13, 10]"

section \<open>UTF-8\<close>

definition is_cont :: "byte \<Rightarrow> bool" where
  "is_cont b \<longleftrightarrow> 0x80 \<le> b \<and> b \<le> 0xBF"

text \<open>How many bytes follow a first byte, and which range the second one has.\<close>

definition utf8_head :: "byte \<Rightarrow> (nat \<times> byte \<times> byte) option" where
  "utf8_head b =
     (if b < 0x80 then Some (0, 0, 0)
      else if 0xC2 \<le> b \<and> b \<le> 0xDF then Some (1, 0x80, 0xBF)
      else if b = 0xE0 then Some (2, 0xA0, 0xBF)
      else if b = 0xED then Some (2, 0x80, 0x9F)
      else if 0xE1 \<le> b \<and> b \<le> 0xEF then Some (2, 0x80, 0xBF)
      else if b = 0xF0 then Some (3, 0x90, 0xBF)
      else if b = 0xF4 then Some (3, 0x80, 0x8F)
      else if 0xF1 \<le> b \<and> b \<le> 0xF3 then Some (3, 0x80, 0xBF)
      else None)"

text \<open>The well-formed part of a sequence behind its first byte, as far as it goes.\<close>

definition utf8_tail :: "nat \<times> byte \<times> byte \<Rightarrow> byte list \<Rightarrow> nat" where
  "utf8_tail h bs = (case h of (n, lo, hi) \<Rightarrow>
     (case bs of
        [] \<Rightarrow> 0
      | b # rest \<Rightarrow> if n = 0 \<or> \<not> (lo \<le> b \<and> b \<le> hi) then 0 else Suc (length (takeWhile is_cont (take (n - 1) rest)))))"

text \<open>\<open>decode(errors="replace")\<close>: a broken sequence becomes one replacement character. \<open>decode()\<close> refuses it.\<close>

function utf8_replace :: "byte list \<Rightarrow> byte list" where
  "utf8_replace [] = []"
| "utf8_replace (b # bs) = (case utf8_head b of
     None \<Rightarrow> [0xEF, 0xBF, 0xBD] @ utf8_replace bs
   | Some h \<Rightarrow>
       (let k = utf8_tail h bs
        in if k = fst h then (b # take k bs) @ utf8_replace (drop k bs)
           else [0xEF, 0xBF, 0xBD] @ utf8_replace (drop k bs)))"
  by pat_completeness auto

termination
  by (relation "measure length") auto

function utf8_valid :: "byte list \<Rightarrow> bool" where
  "utf8_valid [] = True"
| "utf8_valid (b # bs) = (case utf8_head b of
     None \<Rightarrow> False
   | Some h \<Rightarrow> utf8_tail h bs = fst h \<and> utf8_valid (drop (fst h) bs))"
  by pat_completeness auto

termination
  by (relation "measure length") auto

section \<open>The reader\<close>

text \<open>The buffer of a \<open>_Reader\<close> and the socket behind it.\<close>

type_synonym rstate = "byte list \<times> sock"

fun cut_line :: "byte list \<Rightarrow> (byte list \<times> byte list) option" where
  "cut_line (b # c # bs) =
     (if b = 13 \<and> c = 10 then Some ([], bs)
      else (case cut_line (c # bs) of None \<Rightarrow> None | Some (l, rest) \<Rightarrow> Some (b # l, rest)))"
| "cut_line _ = None"

function reader_line :: "rstate \<Rightarrow> (resp_error + byte list) \<times> rstate" where
  "reader_line (buf, s) = (case cut_line buf of
     Some (l, rest) \<Rightarrow> (Inr l, (rest, s))
   | None \<Rightarrow> (case recv 65536 s of (chunk, s') \<Rightarrow>
       if chunk = [] then (Inl RespStoreError, (buf, s')) else reader_line (buf @ chunk, s')))"
  by pat_completeness auto

termination
  by (relation "measure (\<lambda>(buf, s). length (unread s))") (auto dest!: sym [of "(_, _)"] recv_bytes)

text \<open>\<open>buf[:n]\<close> and \<open>del buf[:n]\<close>, where a negative \<open>n\<close> counts from the end.\<close>

definition upto :: "int \<Rightarrow> byte list \<Rightarrow> nat" where
  "upto n buf = (if 0 \<le> n then min (nat n) (length buf) else length buf - nat (- n))"

function reader_exactly :: "int \<Rightarrow> rstate \<Rightarrow> (resp_error + byte list) \<times> rstate" where
  "reader_exactly n (buf, s) =
     (if int (length buf) < n + 2 then
        (case recv 65536 s of (chunk, s') \<Rightarrow>
           if chunk = [] then (Inl RespStoreError, (buf, s')) else reader_exactly n (buf @ chunk, s'))
      else (Inr (take (upto n buf) buf), (drop (upto (n + 2) buf) buf, s)))"
  by pat_completeness auto

termination
  by (relation "measure (\<lambda>(n, buf, s). length (unread s))") (auto dest!: sym [of "(_, _)"] recv_bytes)

declare reader_line.simps [simp del] reader_exactly.simps [simp del]

text \<open>A list of replies, one after the other.\<close>

fun read_n :: "('s \<Rightarrow> ('e + 'a) \<times> 's) \<Rightarrow> nat \<Rightarrow> 's \<Rightarrow> ('e + 'a list) \<times> 's" where
  "read_n rd 0 s = (Inr [], s)"
| "read_n rd (Suc n) s = and_then (rd s) (\<lambda>x s. and_then (read_n rd n s) (\<lambda>xs s. (Inr (x # xs), s)))"

definition int_of_line :: "byte list \<Rightarrow> resp_error + int" where
  "int_of_line bs = (case int_of_text (to_text bs) of None \<Rightarrow> Inl RespValueError | Some n \<Rightarrow> Inr n)"

definition decoded :: "byte list \<Rightarrow> resp_error + byte list" where
  "decoded bs = (if utf8_valid bs then Inr bs else Inl RespValueError)"

text \<open>What a line starts, by its first byte.\<close>

definition read_kind :: "(rstate \<Rightarrow> (resp_error + resp_value) \<times> rstate) \<Rightarrow> byte list \<Rightarrow> rstate \<Rightarrow> (resp_error + resp_value) \<times> rstate" where
  "read_kind again l st = (case l of
     [] \<Rightarrow> (Inl RespStoreError, st)
   | kind # rest \<Rightarrow>
       if kind = 0x2B then (bind_r (decoded rest) (\<lambda>t. Inr (RText t)), st)
       else if kind = 0x2D then (bind_r (decoded rest) (\<lambda>t. Inl RespStoreError), st)
       else if kind = 0x3A then (bind_r (int_of_line rest) (\<lambda>n. Inr (RInt n)), st)
       else if kind = 0x24 then
         (case int_of_line rest of
            Inl e \<Rightarrow> (Inl e, st)
          | Inr n \<Rightarrow> if n = -1 then (Inr RNone, st)
                      else and_then (reader_exactly n st) (\<lambda>b st. (Inr (RBytes b), st)))
       else if kind = 0x2A then
         (case int_of_line rest of
            Inl e \<Rightarrow> (Inl e, st)
          | Inr n \<Rightarrow> if n = -1 then (Inr RNone, st)
                      else and_then (read_n again (nat n) st) (\<lambda>xs st. (Inr (RList xs), st)))
       else (Inl RespStoreError, st))"

fun read_reply :: "nat \<Rightarrow> rstate \<Rightarrow> (resp_error + resp_value) \<times> rstate" where
  "read_reply 0 st = (Inl RespRecursionError, st)"
| "read_reply (Suc depth) st = and_then (reader_line st) (read_kind (read_reply depth))"

section \<open>Commands\<close>

definition decimal :: "nat \<Rightarrow> byte list" where
  "decimal n = to_bytes (int_text (int n))"

definition resp_encode :: "byte list list \<Rightarrow> byte list" where
  "resp_encode parts = [0x2A] @ decimal (length parts) @ CRLF
     @ concat (map (\<lambda>part. [0x24] @ decimal (length part) @ CRLF @ part @ CRLF) parts)"

text \<open>The store: the bytes of one command and a state, to the segments of the answer; \<open>None\<close> is an \<open>OSError\<close>.\<close>

type_synonym 'st store = "byte list \<Rightarrow> 'st \<Rightarrow> sock option \<times> 'st"

text \<open>\<open>_run\<close>: the reader is new for each command, so what it read too much is gone.\<close>

definition run_command :: "nat \<Rightarrow> 'st store \<Rightarrow> byte list list \<Rightarrow> 'st \<times> sock \<Rightarrow> (resp_error + resp_value) \<times> 'st \<times> sock" where
  "run_command depth srv parts conn = (case conn of (st, pending) \<Rightarrow>
     (case srv (resp_encode parts) st of
        (None, st') \<Rightarrow> (Inl RespStoreError, st', pending)
      | (Some segs, st') \<Rightarrow> (case read_reply depth ([], pending @ segs) of
          (r, (buf, rest)) \<Rightarrow> (r, st', rest))))"

section \<open>The reads of the control service\<close>

definition MAX_SCAN_ROUNDS :: nat where "MAX_SCAN_ROUNDS = 1000"
definition SCAN_COUNT :: nat where "SCAN_COUNT = 500"
definition DELETE_BATCH :: nat where "DELETE_BATCH = 500"
definition TTL_NO_SUCH_KEY :: int where "TTL_NO_SUCH_KEY = -2"

text \<open>\<open>str(raw)\<close> of a decoded reply that is not bytes; a list is rendered by a parameter.\<close>

definition as_text :: "(resp_value list \<Rightarrow> byte list) \<Rightarrow> resp_value \<Rightarrow> byte list" where
  "as_text list_text raw = (case raw of
     RBytes b \<Rightarrow> utf8_replace b
   | RText t \<Rightarrow> t
   | RInt n \<Rightarrow> to_bytes (int_text n)
   | RNone \<Rightarrow> to_bytes ''None''
   | RList xs \<Rightarrow> list_text xs)"

definition scan_command :: "byte list \<Rightarrow> byte list \<Rightarrow> byte list list" where
  "scan_command cursor pattern =
     [to_bytes ''SCAN'', cursor, to_bytes ''MATCH'', pattern, to_bytes ''COUNT'', decimal SCAN_COUNT]"

text \<open>The keys of one batch that were not seen before, in order.\<close>

fun add_keys :: "byte list list \<Rightarrow> byte list list \<Rightarrow> byte list list" where
  "add_keys found [] = found"
| "add_keys found (k # ks) = add_keys (if k \<in> set found then found else found @ [k]) ks"

text \<open>The cursor loop of \<open>_scan_on\<close>, with the rounds that are left.\<close>

fun scan_rounds ::
  "(resp_value list \<Rightarrow> byte list) \<Rightarrow> nat \<Rightarrow> 'st store \<Rightarrow> byte list \<Rightarrow> nat \<Rightarrow> byte list \<Rightarrow> byte list list \<Rightarrow> 'st \<times> sock
   \<Rightarrow> (resp_error + byte list list) \<times> 'st \<times> sock" where
  "scan_rounds lt depth srv pattern 0 cursor found conn = (Inl RespStoreError, conn)"
| "scan_rounds lt depth srv pattern (Suc n) cursor found conn =
     and_then (run_command depth srv (scan_command cursor pattern) conn) (\<lambda>reply conn.
       (case reply of
          RList [c, RList batch] \<Rightarrow>
            let cursor' = as_text lt c;
                found' = add_keys found (map (as_text lt) batch)
            in if cursor' = to_bytes ''0'' then (Inr (sort found'), conn)
               else scan_rounds lt depth srv pattern n cursor' found' conn
        | _ \<Rightarrow> (Inl RespStoreError, conn)))"

definition scan_on ::
  "(resp_value list \<Rightarrow> byte list) \<Rightarrow> nat \<Rightarrow> 'st store \<Rightarrow> byte list \<Rightarrow> 'st \<times> sock \<Rightarrow> (resp_error + byte list list) \<times> 'st \<times> sock" where
  "scan_on lt depth srv pattern conn = scan_rounds lt depth srv pattern MAX_SCAN_ROUNDS (to_bytes ''0'') [] conn"

definition get_on ::
  "(resp_value list \<Rightarrow> byte list) \<Rightarrow> nat \<Rightarrow> 'st store \<Rightarrow> byte list \<Rightarrow> 'st \<times> sock \<Rightarrow> (resp_error + byte list option) \<times> 'st \<times> sock" where
  "get_on lt depth srv key conn =
     and_then (run_command depth srv [to_bytes ''GET'', key] conn) (\<lambda>reply conn.
       (Inr (if reply = RNone then None else Some (as_text lt reply)), conn))"

definition ttl_on :: "nat \<Rightarrow> 'st store \<Rightarrow> byte list \<Rightarrow> 'st \<times> sock \<Rightarrow> (resp_error + int) \<times> 'st \<times> sock" where
  "ttl_on depth srv key conn =
     and_then (run_command depth srv [to_bytes ''TTL'', key] conn) (\<lambda>reply conn.
       (case reply of RInt n \<Rightarrow> (Inr n, conn) | _ \<Rightarrow> (Inl RespStoreError, conn)))"

record store_entry =
  en_key :: "byte list"
  en_value :: "byte list"
  en_ttl :: int

text \<open>The loop of \<open>entries\<close>: a key that left between two reads is dropped.\<close>

fun entries_of ::
  "(resp_value list \<Rightarrow> byte list) \<Rightarrow> nat \<Rightarrow> 'st store \<Rightarrow> byte list list \<Rightarrow> 'st \<times> sock \<Rightarrow> (resp_error + store_entry list) \<times> 'st \<times> sock" where
  "entries_of lt depth srv [] conn = (Inr [], conn)"
| "entries_of lt depth srv (key # keys) conn =
     and_then (get_on lt depth srv key conn) (\<lambda>v conn.
       (case v of
          None \<Rightarrow> entries_of lt depth srv keys conn
        | Some val \<Rightarrow> and_then (ttl_on depth srv key conn) (\<lambda>t conn.
            if t = TTL_NO_SUCH_KEY then entries_of lt depth srv keys conn
            else and_then (entries_of lt depth srv keys conn) (\<lambda>es conn.
              (Inr (\<lparr>en_key = key, en_value = val, en_ttl = t\<rparr> # es), conn)))))"

fun batches :: "nat \<Rightarrow> nat \<Rightarrow> 'a list \<Rightarrow> 'a list list" where
  "batches 0 sz xs = []"
| "batches (Suc n) sz xs = (if xs = [] then [] else take sz xs # batches n sz (drop sz xs))"

definition key_batches :: "byte list list \<Rightarrow> byte list list list" where
  "key_batches keys = batches (length keys) DELETE_BATCH keys"

text \<open>The DELs of \<open>delete_matching\<close>. A reply that is no number counts nothing.\<close>

fun delete_batches :: "nat \<Rightarrow> 'st store \<Rightarrow> byte list list list \<Rightarrow> 'st \<times> sock \<Rightarrow> (resp_error + int) \<times> 'st \<times> sock" where
  "delete_batches depth srv [] conn = (Inr 0, conn)"
| "delete_batches depth srv (keys # rest) conn =
     and_then (run_command depth srv (to_bytes ''DEL'' # keys) conn) (\<lambda>reply conn.
       and_then (delete_batches depth srv rest conn) (\<lambda>n conn.
         (Inr ((case reply of RInt k \<Rightarrow> k | _ \<Rightarrow> 0) + n), conn)))"

text \<open>\<open>_session\<close>: AUTH and SELECT go first, when they are configured. A connection has nothing to read yet.\<close>

record credentials =
  cr_username :: "byte list option"
  cr_password :: "byte list option"
  cr_db :: int

definition auth_parts :: "credentials \<Rightarrow> byte list list list" where
  "auth_parts cr = (case cr_password cr of
     None \<Rightarrow> []
   | Some pw \<Rightarrow> (case cr_username cr of
       Some (u # us) \<Rightarrow> [[to_bytes ''AUTH'', u # us, pw]]
     | _ \<Rightarrow> [[to_bytes ''AUTH'', pw]]))"

definition select_parts :: "credentials \<Rightarrow> byte list list list" where
  "select_parts cr = (if cr_db cr \<noteq> 0 then [[to_bytes ''SELECT'', to_bytes (int_text (cr_db cr))]] else [])"

fun run_all :: "nat \<Rightarrow> 'st store \<Rightarrow> byte list list list \<Rightarrow> 'st \<times> sock \<Rightarrow> (resp_error + unit) \<times> 'st \<times> sock" where
  "run_all depth srv [] conn = (Inr (), conn)"
| "run_all depth srv (parts # rest) conn =
     and_then (run_command depth srv parts conn) (\<lambda>reply conn. run_all depth srv rest conn)"

definition session ::
  "nat \<Rightarrow> credentials \<Rightarrow> bool \<Rightarrow> 'st store \<Rightarrow> ('st \<times> sock \<Rightarrow> (resp_error + 'a) \<times> 'st \<times> sock) \<Rightarrow> 'st \<Rightarrow> (resp_error + 'a) \<times> 'st" where
  "session depth cr reachable srv body st =
     (if \<not> reachable then (Inl RespStoreError, st)
      else (case and_then (run_all depth srv (auth_parts cr @ select_parts cr) (st, [])) (\<lambda>u conn. body conn) of
              (r, st', pending) \<Rightarrow> (r, st')))"

definition ping :: "nat \<Rightarrow> credentials \<Rightarrow> bool \<Rightarrow> 'st store \<Rightarrow> 'st \<Rightarrow> (resp_error + bool) \<times> 'st" where
  "ping depth cr reachable srv st =
     (case session depth cr reachable srv (run_command depth srv [to_bytes ''PING'']) st of
        (Inr v, st') \<Rightarrow> (Inr (v = RText (to_bytes ''PONG'')), st')
      | (Inl e, st') \<Rightarrow> (if e = RespStoreError then Inr False else Inl e, st'))"

definition store_scan ::
  "(resp_value list \<Rightarrow> byte list) \<Rightarrow> nat \<Rightarrow> credentials \<Rightarrow> bool \<Rightarrow> 'st store \<Rightarrow> byte list \<Rightarrow> 'st \<Rightarrow> (resp_error + byte list list) \<times> 'st" where
  "store_scan lt depth cr reachable srv pattern st = session depth cr reachable srv (scan_on lt depth srv pattern) st"

definition store_get ::
  "(resp_value list \<Rightarrow> byte list) \<Rightarrow> nat \<Rightarrow> credentials \<Rightarrow> bool \<Rightarrow> 'st store \<Rightarrow> byte list \<Rightarrow> 'st \<Rightarrow> (resp_error + byte list option) \<times> 'st" where
  "store_get lt depth cr reachable srv key st = session depth cr reachable srv (get_on lt depth srv key) st"

definition store_ttl ::
  "nat \<Rightarrow> credentials \<Rightarrow> bool \<Rightarrow> 'st store \<Rightarrow> byte list \<Rightarrow> 'st \<Rightarrow> (resp_error + int) \<times> 'st" where
  "store_ttl depth cr reachable srv key st = session depth cr reachable srv (ttl_on depth srv key) st"

definition store_entries ::
  "(resp_value list \<Rightarrow> byte list) \<Rightarrow> nat \<Rightarrow> credentials \<Rightarrow> bool \<Rightarrow> 'st store \<Rightarrow> byte list \<Rightarrow> 'st \<Rightarrow> (resp_error + store_entry list) \<times> 'st" where
  "store_entries lt depth cr reachable srv pattern st =
     session depth cr reachable srv (\<lambda>conn.
       and_then (scan_on lt depth srv pattern conn) (\<lambda>keys conn. entries_of lt depth srv keys conn)) st"

definition delete_matching ::
  "(resp_value list \<Rightarrow> byte list) \<Rightarrow> nat \<Rightarrow> credentials \<Rightarrow> bool \<Rightarrow> 'st store \<Rightarrow> byte list \<Rightarrow> 'st \<Rightarrow> (resp_error + int) \<times> 'st" where
  "delete_matching lt depth cr reachable srv pattern st =
     session depth cr reachable srv (\<lambda>conn.
       and_then (scan_on lt depth srv pattern conn) (\<lambda>keys conn.
         if keys = [] then (Inr 0, conn) else delete_batches depth srv (key_batches keys) conn)) st"

end
