(* ===== verification/RespFacts.thy ===== *)
theory RespFacts
  imports RespStore
begin

text \<open>
  What the client of the store promises: a reply that the protocol allows is read as the value that
  it encodes, however the network cuts its bytes; a scan that pages through the store collects
  every key once; and a deletion sends every key once, in bounded commands.
\<close>

section \<open>The reader meets the contract of Sockets\<close>

definition buffered :: "rstate \<Rightarrow> byte list" where
  "buffered st = fst st @ unread (snd st)"

definition reader_ok :: "rstate \<Rightarrow> bool" where
  "reader_ok st \<longleftrightarrow> flowing (snd st)"

definition line_spec :: "byte list \<Rightarrow> resp_error + byte list \<times> byte list" where
  "line_spec bs = (case cut_line bs of None \<Rightarrow> Inl RespStoreError | Some (l, rest) \<Rightarrow> Inr (l, rest))"

definition exact_spec :: "nat \<Rightarrow> byte list \<Rightarrow> resp_error + byte list \<times> byte list" where
  "exact_spec n bs = (if n + 2 \<le> length bs then Inr (take n bs, drop (n + 2) bs) else Inl RespStoreError)"

lemma cut_line_append: "cut_line bs = Some (l, rest) \<Longrightarrow> cut_line (bs @ later) = Some (l, rest @ later)"
  by (induction bs arbitrary: l rule: cut_line.induct) (auto split: if_splits option.splits)

lemma cut_line_parts: "cut_line bs = Some (l, rest) \<Longrightarrow> bs = l @ CRLF @ rest"
  by (induction bs arbitrary: l rule: cut_line.induct) (auto simp: CRLF_def split: if_splits option.splits)

lemma cut_line_line: "13 \<notin> set l \<Longrightarrow> cut_line (l @ CRLF @ rest) = Some (l, rest)"
proof (induction l)
  case (Cons b l)
  obtain c cs where cs: "l @ CRLF @ rest = c # cs" by (cases l) (auto simp: CRLF_def)
  with Cons show ?case by simp
qed (simp add: CRLF_def)

lemma reader_line_result:
  assumes "flowing s"
  shows "case line_spec (buf @ unread s) of
      Inl e \<Rightarrow> \<exists>st'. reader_line (buf, s) = (Inl e, st')
    | Inr (l, rest) \<Rightarrow> \<exists>st'. reader_line (buf, s) = (Inr l, st') \<and> buffered st' = rest \<and> reader_ok st'"
  using assms
proof (induction "(buf, s)" arbitrary: buf s rule: reader_line.induct)
  case (1 buf s)
  show ?case
  proof (cases "cut_line buf")
    case (Some p)
    then obtain l rest where p: "cut_line buf = Some (l, rest)" by (cases p) auto
    with cut_line_append [OF p, of "unread s"] 1(2) show ?thesis
      by (simp add: line_spec_def reader_line.simps [of buf s] buffered_def reader_ok_def)
  next
    case None
    obtain chunk s1 where r: "recv 65536 s = (chunk, s1)" by fastforce
    note flow = recv_flowing [OF r 1(2)] and bytes = recv_bytes [OF r]
    show ?thesis
    proof (cases "chunk = []")
      case True
      with flow None r show ?thesis by (simp add: line_spec_def reader_line.simps [of buf s])
    next
      case False
      from 1(1) [OF None r [symmetric] False] flow bytes
      have "case line_spec (buf @ unread s) of
          Inl e \<Rightarrow> \<exists>st'. reader_line (buf @ chunk, s1) = (Inl e, st')
        | Inr (l, rest) \<Rightarrow> \<exists>st'. reader_line (buf @ chunk, s1) = (Inr l, st') \<and> buffered st' = rest \<and> reader_ok st'"
        by simp
      moreover have "reader_line (buf, s) = reader_line (buf @ chunk, s1)"
        using None r False by (simp add: reader_line.simps [of buf s])
      ultimately show ?thesis by (simp only:)
    qed
  qed
qed

interpretation line: byte_reader buffered reader_ok reader_line line_spec
proof
  show "\<exists>st'. reader_line st = (Inr x, st') \<and> buffered st' = rest \<and> reader_ok st'"
    if "reader_ok st" and "line_spec (buffered st) = Inr (x, rest)" for st x rest
    using reader_line_result [of "snd st" "fst st"] that by (simp add: reader_ok_def buffered_def)
  show "\<exists>st'. reader_line st = (Inl e, st')" if "reader_ok st" and "line_spec (buffered st) = Inl e" for st e
    using reader_line_result [of "snd st" "fst st"] that by (simp add: reader_ok_def buffered_def)
  show "line_spec (bs @ later) = Inr (x, rest @ later)" if "line_spec bs = Inr (x, rest)" for bs x rest later
    using that by (auto simp: line_spec_def cut_line_append split: option.splits)
  show "\<exists>used. bs = used @ rest" if "line_spec bs = Inr (x, rest)" for bs x rest
    using that by (auto simp: line_spec_def dest: cut_line_parts split: option.splits intro: exI [of _ "x @ CRLF"])
qed

lemma reader_exactly_result:
  assumes "flowing s"
  shows "case exact_spec n (buf @ unread s) of
      Inl e \<Rightarrow> \<exists>st'. reader_exactly (int n) (buf, s) = (Inl e, st')
    | Inr (b, rest) \<Rightarrow> \<exists>st'. reader_exactly (int n) (buf, s) = (Inr b, st') \<and> buffered st' = rest \<and> reader_ok st'"
  using assms
proof (induction "int n" "(buf, s)" arbitrary: buf s rule: reader_exactly.induct)
  case (1 buf s)
  show ?case
  proof (cases "n + 2 \<le> length buf")
    case True
    then have "upto (int n) buf = n" "upto (int n + 2) buf = n + 2" by (simp_all add: upto_def nat_add_distrib)
    with True 1(2) show ?thesis
      by (simp add: exact_spec_def reader_exactly.simps [of "int n" buf s] buffered_def reader_ok_def)
  next
    case False
    obtain chunk s1 where r: "recv 65536 s = (chunk, s1)" by fastforce
    note flow = recv_flowing [OF r 1(2)] and bytes = recv_bytes [OF r]
    have less: "int (length buf) < int n + 2" using False by linarith
    show ?thesis
    proof (cases "chunk = []")
      case True
      with flow less r show ?thesis by (simp add: exact_spec_def reader_exactly.simps [of "int n" buf s])
    next
      case False
      from 1(1) [OF less r [symmetric] False] flow bytes
      have "case exact_spec n (buf @ unread s) of
          Inl e \<Rightarrow> \<exists>st'. reader_exactly (int n) (buf @ chunk, s1) = (Inl e, st')
        | Inr (b, rest) \<Rightarrow> \<exists>st'. reader_exactly (int n) (buf @ chunk, s1) = (Inr b, st') \<and> buffered st' = rest \<and> reader_ok st'"
        by simp
      moreover have "reader_exactly (int n) (buf, s) = reader_exactly (int n) (buf @ chunk, s1)"
        using less r False by (simp add: reader_exactly.simps [of "int n" buf s])
      ultimately show ?thesis by (simp only:)
    qed
  qed
qed

interpretation exactly: byte_reader buffered reader_ok "reader_exactly (int n)" "exact_spec n" for n
proof
  show "\<exists>st'. reader_exactly (int n) st = (Inr x, st') \<and> buffered st' = rest \<and> reader_ok st'"
    if "reader_ok st" and "exact_spec n (buffered st) = Inr (x, rest)" for st x rest
    using reader_exactly_result [of "snd st" n "fst st"] that by (simp add: reader_ok_def buffered_def)
  show "\<exists>st'. reader_exactly (int n) st = (Inl e, st')" if "reader_ok st" and "exact_spec n (buffered st) = Inl e" for st e
    using reader_exactly_result [of "snd st" n "fst st"] that by (simp add: reader_ok_def buffered_def)
  show "exact_spec n (bs @ later) = Inr (x, rest @ later)" if "exact_spec n bs = Inr (x, rest)" for bs x rest later
    using that by (auto simp: exact_spec_def split: if_splits)
  show "\<exists>used. bs = used @ rest" if "exact_spec n bs = Inr (x, rest)" for bs x rest
    using that by (auto simp: exact_spec_def split: if_splits intro: exI [of _ "take (n + 2) bs"])
qed

section \<open>Replies on the wire\<close>

text \<open>How the protocol writes a value.\<close>

fun wire_reply :: "resp_value \<Rightarrow> byte list" where
  "wire_reply RNone = [0x24] @ to_bytes ''-1'' @ CRLF"
| "wire_reply (RInt n) = [0x3A] @ to_bytes (int_text n) @ CRLF"
| "wire_reply (RText t) = [0x2B] @ t @ CRLF"
| "wire_reply (RBytes b) = [0x24] @ decimal (length b) @ CRLF @ b @ CRLF"
| "wire_reply (RList xs) = [0x2A] @ decimal (length xs) @ CRLF @ concat (map wire_reply xs)"

definition short :: "nat \<Rightarrow> bool" where
  "short n \<longleftrightarrow> length (nat_text n) \<le> max_int_digits"

fun wf_reply :: "resp_value \<Rightarrow> bool" where
  "wf_reply RNone = True"
| "wf_reply (RInt n) = short (nat \<bar>n\<bar>)"
| "wf_reply (RText t) = (utf8_valid t \<and> 13 \<notin> set t)"
| "wf_reply (RBytes b) = short (length b)"
| "wf_reply (RList xs) = (short (length xs) \<and> list_all wf_reply xs)"

fun depth_of :: "resp_value \<Rightarrow> nat" where
  "depth_of (RList xs) = Suc (foldr (\<lambda>x. max (depth_of x)) xs 0)"
| "depth_of _ = 1"

lemma byte_of_char: "unat (word_of_nat (of_char c) :: byte) = of_char c"
  by (simp add: unat_of_nat)

lemma to_text_to_bytes [simp]: "to_text (to_bytes s) = s"
  by (simp add: to_text_def to_bytes_def comp_def byte_of_char)

lemma int_text_no_cr: "13 \<notin> set (to_bytes (int_text n))"
proof
  assume "13 \<in> set (to_bytes (int_text n))"
  then obtain c where c: "c \<in> set (int_text n)" "word_of_nat (of_char c) = (13 :: byte)"
    by (auto simp: to_bytes_def)
  from c(2) have "of_char c = (13 :: nat)" using byte_of_char [of c] by simp
  moreover from c(1) have "is_digit c \<or> c = CHR ''-''" by (auto simp: int_text_def nat_text_digits split: if_splits)
  ultimately show False by (auto simp: is_digit_def)
qed

lemma int_of_line_text: "short (nat \<bar>n\<bar>) \<Longrightarrow> int_of_line (to_bytes (int_text n)) = Inr n"
  by (simp add: int_of_line_def int_of_int_text short_def)

lemma int_of_line_decimal: "short n \<Longrightarrow> int_of_line (decimal n) = Inr (int n)"
  using int_of_line_text [of "int n"] by (simp add: decimal_def)

lemma minus_one: "int_text (- 1) = ''-1''"
  by code_simp

lemma read_line_of:
  assumes "reader_ok st" and "buffered st = l @ CRLF @ rest" and "13 \<notin> set l"
  obtains st' where "reader_line st = (Inr l, st')" and "buffered st' = rest" and "reader_ok st'"
  using line.reads [OF assms(1), of l rest] assms(2) cut_line_line [OF assms(3)] by (auto simp: line_spec_def)

lemma read_body_of:
  assumes "reader_ok st" and "buffered st = b @ CRLF @ rest"
  obtains st' where "reader_exactly (int (length b)) st = (Inr b, st')" and "buffered st' = rest" and "reader_ok st'"
  using exactly.reads [OF assms(1), of "length b" b rest] assms(2) by (auto simp: exact_spec_def CRLF_def)

text \<open>A list of values is read one by one, when each value can be.\<close>

lemma read_n_of:
  assumes "\<And>x st rest. x \<in> set xs \<Longrightarrow> reader_ok st \<Longrightarrow> buffered st = wire_reply x @ rest \<Longrightarrow>
      \<exists>st'. rd st = (Inr x, st') \<and> buffered st' = rest \<and> reader_ok st'"
    and "reader_ok st" and "buffered st = concat (map wire_reply xs) @ rest"
  shows "\<exists>st'. read_n rd (length xs) st = (Inr xs, st') \<and> buffered st' = rest \<and> reader_ok st'"
  using assms
proof (induction xs arbitrary: st)
  case (Cons x xs)
  from Cons(2) [of x st "concat (map wire_reply xs) @ rest"] Cons(3,4) obtain st1 where
    st1: "rd st = (Inr x, st1)" "buffered st1 = concat (map wire_reply xs) @ rest" "reader_ok st1" by auto
  have "\<exists>st2. read_n rd (length xs) st1 = (Inr xs, st2) \<and> buffered st2 = rest \<and> reader_ok st2"
  proof (rule Cons(1))
    show "\<exists>st'. rd st = (Inr y, st') \<and> buffered st' = rest' \<and> reader_ok st'"
      if "y \<in> set xs" "reader_ok st" "buffered st = wire_reply y @ rest'" for y st rest'
      using Cons(2) [of y st rest'] that by simp
  qed (rule st1(3), rule st1(2))
  then obtain st2 where "read_n rd (length xs) st1 = (Inr xs, st2)" "buffered st2 = rest" "reader_ok st2" by blast
  with st1 show ?case by simp
qed simp

lemma depth_member: "x \<in> set xs \<Longrightarrow> depth_of x \<le> foldr (\<lambda>x. max (depth_of x)) xs 0"
  by (induction xs) auto

lemma read_reply_of:
  "wf_reply v \<Longrightarrow> depth_of v \<le> depth \<Longrightarrow> reader_ok st \<Longrightarrow> buffered st = wire_reply v @ rest \<Longrightarrow>
    \<exists>st'. read_reply depth st = (Inr v, st') \<and> buffered st' = rest \<and> reader_ok st'"
proof (induction v arbitrary: depth st rest)
  case RNone
  then obtain d where d: "depth = Suc d" by (cases depth) auto
  have "13 \<notin> set (0x24 # to_bytes ''-1'')" using int_text_no_cr [of "-1"] by (simp add: minus_one)
  with RNone obtain st' where "reader_line st = (Inr (0x24 # to_bytes ''-1''), st')" "buffered st' = rest" "reader_ok st'"
    using read_line_of [of st "0x24 # to_bytes ''-1''" rest] by auto
  moreover have "int_of_line (to_bytes ''-1'') = Inr (-1)"
    using int_of_line_text [of "-1"] by (simp add: short_def minus_one nat_text.simps max_int_digits_def)
  ultimately show ?case by (simp add: d read_kind_def)
next
  case (RInt n)
  then obtain d where d: "depth = Suc d" by (cases depth) auto
  have "13 \<notin> set (0x3A # to_bytes (int_text n))" using int_text_no_cr [of n] by simp
  with RInt obtain st' where "reader_line st = (Inr (0x3A # to_bytes (int_text n)), st')" "buffered st' = rest" "reader_ok st'"
    using read_line_of [of st "0x3A # to_bytes (int_text n)" rest] by auto
  with RInt(1) show ?case by (simp add: d read_kind_def int_of_line_text)
next
  case (RText t)
  then obtain d where d: "depth = Suc d" by (cases depth) auto
  from RText obtain st' where "reader_line st = (Inr (0x2B # t), st')" "buffered st' = rest" "reader_ok st'"
    using read_line_of [of st "0x2B # t" rest] by auto
  with RText(1) show ?case by (simp add: d read_kind_def decoded_def)
next
  case (RBytes b)
  then obtain d where d: "depth = Suc d" by (cases depth) auto
  have "13 \<notin> set (0x24 # decimal (length b))" using int_text_no_cr by (simp add: decimal_def)
  with RBytes obtain st1 where st1: "reader_line st = (Inr (0x24 # decimal (length b)), st1)"
    "buffered st1 = b @ CRLF @ rest" "reader_ok st1"
    using read_line_of [of st "0x24 # decimal (length b)" "b @ CRLF @ rest"] by auto
  obtain st2 where "reader_exactly (int (length b)) st1 = (Inr b, st2)" "buffered st2 = rest" "reader_ok st2"
    using read_body_of [OF st1(3,2)] .
  with st1 RBytes(1) show ?case by (simp add: d read_kind_def int_of_line_decimal)
next
  case (RList xs)
  then obtain d where d: "depth = Suc d" by (cases depth) auto
  have cr: "13 \<notin> set (0x2A # decimal (length xs))" using int_text_no_cr by (simp add: decimal_def)
  have buf: "buffered st = (0x2A # decimal (length xs)) @ CRLF @ (concat (map wire_reply xs) @ rest)"
    using RList(5) by simp
  obtain st1 where st1: "reader_line st = (Inr (0x2A # decimal (length xs)), st1)"
    "buffered st1 = concat (map wire_reply xs) @ rest" "reader_ok st1"
    using read_line_of [OF RList(4) buf cr] .
  have each: "\<exists>st'. read_reply d st = (Inr x, st') \<and> buffered st' = rest' \<and> reader_ok st'"
    if "x \<in> set xs" "reader_ok st" "buffered st = wire_reply x @ rest'" for x st rest'
  proof -
    from that(1) RList(2,3) have "wf_reply x" "depth_of x \<le> d" using depth_member [OF that(1)]
      by (auto simp: d list_all_iff)
    with RList(1) that show ?thesis by blast
  qed
  from read_n_of [where rd = "read_reply d", OF each st1(3,2)] obtain st2 where
    "read_n (read_reply d) (length xs) st1 = (Inr xs, st2)" "buffered st2 = rest" "reader_ok st2" by blast
  with st1 RList(2) show ?case by (simp add: d read_kind_def int_of_line_decimal)
qed

text \<open>The command that the client writes is the array of its parts, so a store decodes it by the same rules.\<close>

lemma command_is_wire: "resp_encode parts = wire_reply (RList (map RBytes parts))"
  by (simp add: resp_encode_def comp_def)

text \<open>
  C19. A reply of the store is read as the value that it encodes: nil, numbers, texts, byte strings
  of any content (line ends included) and arrays of replies, however the network cuts the bytes, and
  nothing behind it is lost. What the client itself writes is such an encoding of its command.
\<close>

theorem reply_roundtrip:
  assumes "wf_reply v" and "depth_of v \<le> depth" and "flowing s" and "buf @ unread s = wire_reply v @ rest"
  shows "\<exists>buf' s'. read_reply depth (buf, s) = (Inr v, (buf', s')) \<and> buf' @ unread s' = rest \<and> flowing s'
    \<and> resp_encode parts = wire_reply (RList (map RBytes parts))"
  using read_reply_of [OF assms(1,2), of "(buf, s)" rest] assms(3,4) command_is_wire
  by (auto simp: reader_ok_def buffered_def)

definition sample_reply :: resp_value where
  "sample_reply = RList [RBytes (to_bytes ''0''), RList [RBytes [13, 10], RNone, RInt (-2)]]"

theorem reply_roundtrip_witness:
  "\<exists>buf' s'. read_reply 5 ([], [take 7 (wire_reply sample_reply), drop 7 (wire_reply sample_reply)])
     = (Inr sample_reply, (buf', s')) \<and> buf' @ unread s' = []"
proof -
  let ?s = "[take 7 (wire_reply sample_reply), drop 7 (wire_reply sample_reply)]"
  have wf: "wf_reply sample_reply" and depth: "depth_of sample_reply \<le> 5" and flow: "flowing ?s" by code_simp+
  have "[] @ unread ?s = wire_reply sample_reply @ []" by simp
  from reply_roundtrip [OF wf depth flow this, of "[]"] show ?thesis by blast
qed

section \<open>Commands\<close>

lemma run_command_value:
  assumes "srv (resp_encode parts) st = (Some segs, st')" and "flowing segs" and "unread segs = wire_reply v"
    and "wf_reply v" and "depth_of v \<le> depth"
  shows "run_command depth srv parts (st, []) = (Inr v, st', [])"
proof -
  from read_reply_of [OF assms(4,5), of "([], segs)" "[]"] assms(2,3) obtain buf s where
    run: "read_reply depth ([], segs) = (Inr v, (buf, s))" "buf @ unread s = []" "flowing s"
    by (auto simp: reader_ok_def buffered_def)
  from run(2,3) have "s = []" by (cases s) auto
  with run(1) assms(1) show ?thesis by (simp add: run_command_def)
qed

lemma utf8_replace_valid: "utf8_valid bs \<Longrightarrow> utf8_replace bs = bs"
  by (induction bs rule: utf8_valid.induct) (auto simp: Let_def split: option.splits)

text \<open>How a store pages through its keys: each round gives a batch and the next cursor, and the cursor 0 ends it.\<close>

definition page_reply :: "byte list \<Rightarrow> byte list list \<Rightarrow> resp_value" where
  "page_reply cursor keys = RList [RBytes cursor, RList (map RBytes keys)]"

inductive pages :: "'st store \<Rightarrow> byte list \<Rightarrow> byte list \<Rightarrow> 'st \<Rightarrow> byte list list list \<Rightarrow> 'st \<Rightarrow> bool" where
  last_page: "srv (resp_encode (scan_command cursor pattern)) st = (Some segs, st') \<Longrightarrow> flowing segs \<Longrightarrow>
    unread segs = wire_reply (page_reply (to_bytes ''0'') keys) \<Longrightarrow> wf_reply (page_reply (to_bytes ''0'') keys) \<Longrightarrow>
    list_all utf8_valid keys \<Longrightarrow> pages srv pattern cursor st [keys] st'"
| next_page: "srv (resp_encode (scan_command cursor pattern)) st = (Some segs, st1) \<Longrightarrow> flowing segs \<Longrightarrow>
    unread segs = wire_reply (page_reply cursor1 keys) \<Longrightarrow> wf_reply (page_reply cursor1 keys) \<Longrightarrow>
    list_all utf8_valid keys \<Longrightarrow> utf8_valid cursor1 \<Longrightarrow> cursor1 \<noteq> to_bytes ''0'' \<Longrightarrow>
    pages srv pattern cursor1 st1 rest st' \<Longrightarrow> pages srv pattern cursor st (keys # rest) st'"

lemma add_keys_set: "set (add_keys found ks) = set found \<union> set ks"
  by (induction ks arbitrary: found) auto

lemma add_keys_distinct: "distinct found \<Longrightarrow> distinct (add_keys found ks)"
  by (induction ks arbitrary: found) auto

lemma depth_page: "depth_of (page_reply cursor keys) \<le> 3"
proof -
  have "foldr (\<lambda>x. max (depth_of x)) (map RBytes ks) 0 \<le> 1" for ks by (induction ks) auto
  then show ?thesis by (simp add: page_reply_def)
qed

lemma as_text_keys: "list_all utf8_valid keys \<Longrightarrow> map (as_text lt) (map RBytes keys) = keys"
  by (induction keys) (auto simp: as_text_def utf8_replace_valid)

lemma scan_rounds_pages:
  assumes "pages srv pattern cursor st pgs st'" and "length pgs \<le> n" and "3 \<le> depth"
  shows "\<exists>keys. scan_rounds lt depth srv pattern n cursor found (st, []) = (Inr (sort keys), st', [])
    \<and> set keys = set found \<union> set (concat pgs) \<and> (distinct found \<longrightarrow> distinct keys)"
  using assms
proof (induction arbitrary: n found rule: pages.induct)
  case (last_page srv cursor pattern st segs st' keys)
  then obtain m where n: "n = Suc m" by (cases n) auto
  have "run_command depth srv (scan_command cursor pattern) (st, []) = (Inr (page_reply (to_bytes ''0'') keys), st', [])"
    using run_command_value [where srv = srv and parts = "scan_command cursor pattern", OF last_page(1-4)] depth_page [of "to_bytes ''0''" keys] last_page(7) by simp
  moreover have "as_text lt (RBytes (to_bytes ''0'')) = to_bytes ''0''"
    by (simp add: as_text_def utf8_replace_valid [of "to_bytes ''0''"]) code_simp
  ultimately show ?case using as_text_keys [OF last_page(5), of lt] add_keys_set add_keys_distinct
    by (auto simp: n page_reply_def Let_def intro!: exI [of _ "add_keys found keys"])
next
  case (next_page srv cursor pattern st segs st1 cursor1 keys rest st')
  then obtain m where n: "n = Suc m" "length rest \<le> m" by (cases n) auto
  have "run_command depth srv (scan_command cursor pattern) (st, []) = (Inr (page_reply cursor1 keys), st1, [])"
    using run_command_value [where srv = srv and parts = "scan_command cursor pattern", OF next_page(1-4)] depth_page [of cursor1 keys] next_page(11) by simp
  then have "scan_rounds lt depth srv pattern n cursor found (st, [])
      = scan_rounds lt depth srv pattern m cursor1 (add_keys found keys) (st1, [])"
    using next_page(6,7) as_text_keys [OF next_page(5), of lt]
    by (simp add: n(1) page_reply_def Let_def as_text_def utf8_replace_valid)
  moreover obtain ks where "scan_rounds lt depth srv pattern m cursor1 (add_keys found keys) (st1, []) = (Inr (sort ks), st', [])"
    "set ks = set (add_keys found keys) \<union> set (concat rest)" "distinct (add_keys found keys) \<longrightarrow> distinct ks"
    using next_page(9) [OF n(2) next_page(11), of "add_keys found keys"] by blast
  ultimately show ?case using add_keys_distinct [of found keys] by (auto simp: add_keys_set intro!: exI [of _ ks])
qed

lemma scan_rounds_too_many:
  assumes "pages srv pattern cursor st pgs st'" and "n < length pgs" and "3 \<le> depth"
  shows "\<exists>conn. scan_rounds lt depth srv pattern n cursor found (st, []) = (Inl RespStoreError, conn)"
  using assms
proof (induction arbitrary: n found rule: pages.induct)
  case (next_page srv cursor pattern st segs st1 cursor1 keys rest st')
  show ?case
  proof (cases n)
    case (Suc m)
    have "run_command depth srv (scan_command cursor pattern) (st, []) = (Inr (page_reply cursor1 keys), st1, [])"
      using run_command_value [where srv = srv and parts = "scan_command cursor pattern", OF next_page(1-4)] depth_page [of cursor1 keys] next_page(11) by simp
    then have "scan_rounds lt depth srv pattern n cursor found (st, [])
        = scan_rounds lt depth srv pattern m cursor1 (add_keys found keys) (st1, [])"
      using next_page(6,7) as_text_keys [OF next_page(5), of lt]
      by (simp add: Suc page_reply_def Let_def as_text_def utf8_replace_valid)
    with next_page(9) [of m "add_keys found keys"] next_page(10,11) Suc show ?thesis by simp
  qed simp
qed simp

text \<open>
  C22. A scan follows the cursor to its end and gives every key of every page exactly once, in
  order, also when a key was on several pages, and it leaves the connection ready for the next
  command. It makes at most a thousand rounds; a store that needs more gets an error and never a
  partial answer.
\<close>

theorem scan_collects:
  assumes "pages srv pattern (to_bytes ''0'') st pgs st'" and "3 \<le> depth"
  shows "(length pgs \<le> MAX_SCAN_ROUNDS \<longrightarrow>
      (\<exists>keys. scan_on lt depth srv pattern (st, []) = (Inr keys, st', []) \<and> sorted keys \<and> distinct keys
        \<and> set keys = set (concat pgs)))
    \<and> (MAX_SCAN_ROUNDS < length pgs \<longrightarrow> (\<exists>conn. scan_on lt depth srv pattern (st, []) = (Inl RespStoreError, conn)))"
  using scan_rounds_pages [OF assms(1) _ assms(2), of MAX_SCAN_ROUNDS lt "[]"]
    scan_rounds_too_many [OF assms(1) _ assms(2), of MAX_SCAN_ROUNDS lt "[]"]
  by (auto simp: scan_on_def)

text \<open>A store with one page that lists a key twice.\<close>

definition one_page_store :: "nat store" where
  "one_page_store cmd st = (Some [wire_reply (page_reply (to_bytes ''0'') [to_bytes ''b'', to_bytes ''a'', to_bytes ''b''])], Suc st)"

theorem scan_collects_witness:
  "\<exists>keys. scan_on (\<lambda>_. []) 3 one_page_store (to_bytes ''*'') (0, []) = (Inr keys, 1, []) \<and> sorted keys \<and> distinct keys
     \<and> set keys = {to_bytes ''a'', to_bytes ''b''}"
proof -
  let ?keys = "[to_bytes ''b'', to_bytes ''a'', to_bytes ''b'']"
  have wf: "wf_reply (page_reply (to_bytes ''0'') ?keys)" "list_all utf8_valid ?keys" by code_simp+
  have "pages one_page_store (to_bytes ''*'') (to_bytes ''0'') 0 [?keys] 1"
    by (rule last_page [OF _ _ _ wf, where segs = "[wire_reply (page_reply (to_bytes ''0'') ?keys)]"])
      (simp_all add: one_page_store_def page_reply_def)
  from scan_collects [OF this, of 3 "\<lambda>_. []"] show ?thesis by (auto simp: MAX_SCAN_ROUNDS_def)
qed

text \<open>A deletion in batches: every key once, in order, and no command with more than its bound.\<close>

lemma batches_tile:
  "0 < sz \<Longrightarrow> length xs \<le> n \<Longrightarrow> concat (batches n sz xs) = xs \<and> (\<forall>b \<in> set (batches n sz xs). b \<noteq> [] \<and> length b \<le> sz)"
proof (induction n sz xs rule: batches.induct)
  case (2 n sz xs)
  show ?case
  proof (cases "xs = []")
    case False
    then have "length (drop sz xs) \<le> n" using 2(2,3) by (cases xs) auto
    with 2(1) [OF False 2(2)] False 2(2) show ?thesis by simp
  qed simp
qed simp

lemma one_batch: "ks \<noteq> [] \<Longrightarrow> length ks \<le> sz \<Longrightarrow> batches (length ks) sz ks = [ks]"
proof -
  have "batches n sz [] = []" for n :: nat by (cases n) auto
  then show "ks \<noteq> [] \<Longrightarrow> length ks \<le> sz \<Longrightarrow> ?thesis" by (cases ks) auto
qed

text \<open>What a store counts when it answers each DEL with the number of its keys that were there.\<close>

inductive deletes :: "'st store \<Rightarrow> 'st \<Rightarrow> byte list list list \<Rightarrow> int list \<Rightarrow> 'st \<Rightarrow> bool" where
  no_more: "deletes srv st [] [] st"
| one_more: "srv (resp_encode (to_bytes ''DEL'' # keys)) st = (Some segs, st1) \<Longrightarrow> flowing segs \<Longrightarrow>
    unread segs = wire_reply (RInt k) \<Longrightarrow> wf_reply (RInt k) \<Longrightarrow> deletes srv st1 rest ks st' \<Longrightarrow>
    deletes srv st (keys # rest) (k # ks) st'"

lemma delete_batches_count:
  assumes "deletes srv st bs ks st'" and "1 \<le> depth"
  shows "delete_batches depth srv bs (st, []) = (Inr (sum_list ks), st', [])"
  using assms
proof (induction rule: deletes.induct)
  case (one_more srv keys st segs st1 k rest ks st')
  from run_command_value [where srv = srv and parts = "to_bytes ''DEL'' # keys", OF one_more(1-4)] one_more(6,7) show ?case by simp
qed simp

text \<open>
  A deletion sends every key that the scan found in exactly one DEL, in order and in commands
  of at most five hundred keys, and gives the sum of what the store counted.
\<close>

theorem delete_covers_keys:
  assumes "scan_on lt depth srv pattern (st, []) = (Inr keys, st1, [])" and "deletes srv st1 (key_batches keys) ks st'"
    and "1 \<le> depth" and "auth_parts cr = []" and "select_parts cr = []"
  shows "delete_matching lt depth cr True srv pattern st = (Inr (sum_list ks), st')
    \<and> concat (key_batches keys) = keys \<and> (\<forall>b \<in> set (key_batches keys). b \<noteq> [] \<and> length b \<le> DELETE_BATCH)"
proof -
  have "ks = [] \<and> st' = st1" if "keys = []"
    using assms(2) that by (auto simp: key_batches_def elim: deletes.cases)
  then have "delete_matching lt depth cr True srv pattern st = (Inr (sum_list ks), st')"
    using assms(1,4,5) delete_batches_count [OF assms(2,3)] by (auto simp: delete_matching_def session_def)
  then show ?thesis using batches_tile [of DELETE_BATCH keys "length keys"]
    by (simp add: key_batches_def DELETE_BATCH_def)
qed

text \<open>A store with two keys, which counts two removals.\<close>

definition two_key_store :: "nat store" where
  "two_key_store cmd st = (if st = 0 then (Some [wire_reply (page_reply (to_bytes ''0'') [to_bytes ''a'', to_bytes ''b''])], 1)
     else (Some [wire_reply (RInt 2)], 2))"

definition no_credentials :: credentials where
  "no_credentials = \<lparr>cr_username = None, cr_password = None, cr_db = 0\<rparr>"

lemma no_credentials_parts [simp]: "auth_parts no_credentials = []" "select_parts no_credentials = []"
  by (simp_all add: no_credentials_def auth_parts_def select_parts_def)

theorem delete_covers_keys_witness:
  "delete_matching (\<lambda>_. []) 3 no_credentials True two_key_store (to_bytes ''*'') 0 = (Inr 2, 2)"
proof -
  let ?keys = "[to_bytes ''a'', to_bytes ''b'']"
  have wf: "wf_reply (page_reply (to_bytes ''0'') ?keys)" "list_all utf8_valid ?keys" and two: "wf_reply (RInt 2)"
    by code_simp+
  have "pages two_key_store (to_bytes ''*'') (to_bytes ''0'') 0 [?keys] 1"
    by (rule last_page [OF _ _ _ wf, where segs = "[wire_reply (page_reply (to_bytes ''0'') ?keys)]"])
      (simp_all add: two_key_store_def page_reply_def)
  from scan_rounds_pages [OF this, of MAX_SCAN_ROUNDS 3 "\<lambda>_. []" "[]"] obtain ks where
    scan: "scan_on (\<lambda>_. []) 3 two_key_store (to_bytes ''*'') (0, []) = (Inr (sort ks), 1, [])"
    and ks: "set ks = set ?keys" "distinct ks" by (auto simp: scan_on_def MAX_SCAN_ROUNDS_def)
  have "length ks = card (set ?keys)" using ks by (metis distinct_card)
  moreover have "card (set ?keys) \<le> 2" using card_length [of ?keys] by simp
  moreover have "ks \<noteq> []" using ks(1) by auto
  ultimately have len: "length (sort ks) \<le> 2" and ne: "sort ks \<noteq> []"
    by (simp, metis length_0_conv length_sort)
  then have "key_batches (sort ks) = [sort ks]"
    using one_batch [OF ne, of 500] by (simp add: key_batches_def DELETE_BATCH_def)
  moreover have "deletes two_key_store 1 [sort ks] [2] 2"
    by (rule one_more [OF _ _ _ two no_more, where segs = "[wire_reply (RInt 2)]"]) (simp_all add: two_key_store_def)
  ultimately have "deletes two_key_store 1 (key_batches (sort ks)) [2] 2" by simp
  from delete_covers_keys [OF scan this, of no_credentials] show ?thesis by simp
qed

text \<open>
  A number that the client cannot read raises \<open>ValueError\<close> and not the error of the module, so
  the question whether the store answers raises instead of being answered with no.
\<close>

theorem unreadable_number_escapes:
  assumes "srv (resp_encode [to_bytes ''PING'']) st = (Some [0x3A # l @ CRLF], st')" and "13 \<notin> set l"
    and "int_of_text (to_text l) = None" and "auth_parts cr = []" and "select_parts cr = []"
  shows "ping (Suc depth) cr True srv st = (Inl RespValueError, st')"
proof -
  have ok: "reader_ok ([], [0x3A # l @ CRLF])" by (simp add: reader_ok_def)
  have buf: "buffered ([], [0x3A # l @ CRLF]) = (0x3A # l) @ CRLF @ []" by (simp add: buffered_def)
  have cr: "13 \<notin> set (0x3A # l)" using assms(2) by simp
  obtain st1 where "reader_line ([], [0x3A # l @ CRLF]) = (Inr (0x3A # l), st1)"
    using read_line_of [OF ok buf cr] .
  with assms(3) have "fst (read_reply (Suc depth) ([], [0x3A # l @ CRLF])) = Inl RespValueError"
    by (simp add: read_kind_def int_of_line_def)
  then obtain st2 where "read_reply (Suc depth) ([], [0x3A # l @ CRLF]) = (Inl RespValueError, st2)"
    by (metis prod.collapse)
  with assms(1,4,5) show ?thesis
    by (cases st2) (simp add: ping_def session_def run_command_def del: read_reply.simps)
qed

theorem unreadable_number_escapes_witness:
  "ping (Suc 5) no_credentials True (\<lambda>cmd st. (Some [0x3A # to_bytes ''abc'' @ CRLF], st)) (0 :: nat) = (Inl RespValueError, 0)"
proof -
  have cr: "13 \<notin> set (to_bytes ''abc'')" and none: "int_of_text (to_text (to_bytes ''abc'')) = None" by code_simp+
  show ?thesis
    using unreadable_number_escapes [where srv = "\<lambda>cmd st. (Some [0x3A # to_bytes ''abc'' @ CRLF], st)" and st = "0 :: nat"
        and st' = 0 and cr = no_credentials and depth = 5, OF _ cr none] by simp
qed

end
