(* ===== verification/GraphqlDocument.thy ===== *)
theory GraphqlDocument
  imports Json
begin

text \<open>
  \<open>graphql_document.py\<close>: reading a GraphQL request and shaping a reply from a stub.

  The parser and the values of literals are \<open>graphql-core\<close>, which is not part of the repository:
  they are the record \<open>graphql_core\<close>, an argument of what uses them. The tree that it gives is
  known by the attributes that the source reads, and a literal stays a type variable \<open>'v\<close>. The text that
  Python gives for a body that is not JSON is the argument \<open>why\<close>.

  Python stops a recursion that is too deep with \<open>RecursionError\<close>. The recursive functions take the
  number of calls that the stack still holds, and raise it at zero. \<open>GraphqlFacts\<close> shows that 32
  levels are enough for a request that passed \<open>check_depth\<close>.
\<close>

section \<open>Documents\<close>

type_synonym 'v directive = "string \<times> (string \<times> 'v) list"

datatype 'v selection =
    FieldNode string "string option" "(string \<times> 'v) list" "'v directive list" "'v selection list option"
  | InlineFragmentNode "'v directive list" "'v selection list"
  | FragmentSpreadNode string "'v directive list"

type_synonym 'v fragments = "(string, 'v selection list) dict"

record 'v operation_node =
  op_kind :: string
  op_name :: "string option"
  op_variables :: "(string \<times> 'v option) list"
  op_selection :: "'v selection list"

datatype 'v definition_node =
    OperationDefinitionNode "'v operation_node"
  | FragmentDefinitionNode string "'v selection list"
  | OtherDefinitionNode

text \<open>What \<open>graphql.parse\<close> does with a text: a document, a \<open>GraphQLSyntaxError\<close>, or a \<open>RecursionError\<close>.\<close>

datatype 'v parsed_text = Document "'v definition_node list" | GraphQLSyntaxError string | ParserTooDeep

record 'v graphql_core =
  gq_parse :: "string \<Rightarrow> 'v parsed_text"
  gq_value :: "'v \<Rightarrow> sdict \<Rightarrow> pyval option"
  gq_constant :: "'v \<Rightarrow> pyval"

text \<open>\<open>GraphQLRequestError(kind, message)\<close>, or another exception.\<close>

datatype gql_raised = GraphQLRequestError string string | GqlRaised pyerr

definition MAX_DEPTH :: nat where
  "MAX_DEPTH = 32"

definition MAX_NODES :: nat where
  "MAX_NODES = 300"

definition RECURSION_MESSAGE :: string where
  "RECURSION_MESSAGE = ''The recursion depth of the query cannot be greater than `'' @ nat_text MAX_DEPTH @ ''`''"

definition NODE_LIMIT_MESSAGE :: string where
  "NODE_LIMIT_MESSAGE = ''Query has over '' @ nat_text MAX_NODES @ '' nodes''"

abbreviation quote :: string where
  "quote \<equiv> [CHR 0x22]"

definition EMPTY_BODY :: string where
  "EMPTY_BODY = ''InvalidRequest(Error('' @ quote @ ''EOF while parsing a value'' @ quote @ '', line: 1, column: 0))''"

definition BAD_SHAPE :: string where
  "BAD_SHAPE = ''InvalidRequest(Error('' @ quote @ ''data did not match any variant of untagged enum BatchRequest'' @ quote
     @ '', line: 0, column: 0))''"

definition NO_OPERATION :: string where
  "NO_OPERATION = ''document does not contain an operation''"

definition NO_DOCUMENT :: string where
  "NO_DOCUMENT = join_with [CHR 0x0A]
     ['' --> 1:1'', ''  |'', ''1 | '', ''  | ^---'', ''  |'', ''  = expected executable_definition'']"

definition OPERATION_NAME_REQUIRED :: string where
  "OPERATION_NAME_REQUIRED = ''Operation name required in request.''"

definition CODE_OF_KIND :: "(string, string) dict" where
  "CODE_OF_KIND = [(''parse'', ''GRAPHQL_PARSE_FAILED''), (''validation'', ''GRAPHQL_VALIDATION_FAILED'')]"

definition TEXT_KINDS :: "string list" where
  "TEXT_KINDS = [''not_json'', ''batch'', ''bad_shape'']"

section \<open>The body\<close>

definition read_object :: "(string \<Rightarrow> string) \<Rightarrow> string \<Rightarrow> gql_raised + pyval" where
  "read_object why body =
     (if body = [] then Inl (GraphQLRequestError ''not_json'' EMPTY_BODY)
      else (case json_loads_bytes body of
        None \<Rightarrow> Inl (GraphQLRequestError ''not_json'' (why body))
      | Some v \<Rightarrow>
          if is_list v then Inl (GraphQLRequestError ''batch'' ''UnsupportedBatch'')
          else if \<not> is_dict v then Inl (GraphQLRequestError ''bad_shape'' BAD_SHAPE)
          else Inr v))"

definition check_shape :: "pyval \<Rightarrow> gql_raised + unit" where
  "check_shape body =
     (let variables = vget_or body ''variables'' VNone; name = vget_or body ''operationName'' VNone
      in if has_key body ''query'' \<and> \<not> is_str (vget_or body ''query'' VNone)
           \<or> variables \<noteq> VNone \<and> \<not> is_dict variables
           \<or> name \<noteq> VNone \<and> \<not> is_str name
         then Inl (GraphQLRequestError ''bad_shape'' BAD_SHAPE) else Inr ())"

definition parse_document :: "'v graphql_core \<Rightarrow> string \<Rightarrow> gql_raised + 'v definition_node list" where
  "parse_document core txt = (case gq_parse core txt of
     Document ds \<Rightarrow> Inr ds
   | GraphQLSyntaxError msg \<Rightarrow> Inl (GraphQLRequestError ''parse'' msg)
   | ParserTooDeep \<Rightarrow> Inl (GraphQLRequestError ''parse'' RECURSION_MESSAGE))"

definition operations_of :: "'v definition_node list \<Rightarrow> 'v operation_node list" where
  "operations_of ds = List.map_filter (\<lambda>d. case d of OperationDefinitionNode op \<Rightarrow> Some op | _ \<Rightarrow> None) ds"

definition choose_operation :: "'v definition_node list \<Rightarrow> pyval \<Rightarrow> gql_raised + 'v operation_node" where
  "choose_operation ds name = (case operations_of ds of
     [] \<Rightarrow> Inl (GraphQLRequestError ''parse'' NO_OPERATION)
   | op # more_ops \<Rightarrow>
       (case name of
          VStr wanted \<Rightarrow>
            (case find (\<lambda>o'. op_name o' = Some wanted) (op # more_ops) of
               Some o' \<Rightarrow> Inr o'
             | None \<Rightarrow> Inl (GraphQLRequestError ''operation''
                 (''Unknown operation named '' @ quote @ wanted @ quote)))
        | _ \<Rightarrow> if more_ops \<noteq> [] then Inl (GraphQLRequestError ''operation'' OPERATION_NAME_REQUIRED) else Inr op))"

definition fragments_of :: "'v definition_node list \<Rightarrow> 'v fragments" where
  "fragments_of ds = foldl (\<lambda>fr d. case d of
     FragmentDefinitionNode name sels \<Rightarrow> AList.update name sels fr | _ \<Rightarrow> fr) [] ds"

definition variables_of :: "'v graphql_core \<Rightarrow> 'v operation_node \<Rightarrow> sdict \<Rightarrow> sdict" where
  "variables_of core op sent = foldl (\<lambda>vs (name, default_value).
     (case default_value of
        Some d \<Rightarrow> if map_of vs name = None then AList.update name (gq_constant core d) vs else vs
      | None \<Rightarrow> vs)) sent (op_variables op)"

section \<open>Depth and nodes\<close>

text \<open>A loop over a list that carries a state and may raise.\<close>

fun fold_r :: "('a \<Rightarrow> 's \<Rightarrow> 'e + 's) \<Rightarrow> 'a list \<Rightarrow> 's \<Rightarrow> 'e + 's" where
  "fold_r f [] s = Inr s"
| "fold_r f (x # xs) s = bind_r (f x s) (fold_r f xs)"

type_synonym memo = "(string, nat) dict"

text \<open>The depth below one selection: \<open>rec\<close> measures a selection set under a stack of fragments.\<close>

definition depth_below ::
  "(string list \<Rightarrow> 'v selection list \<Rightarrow> memo \<Rightarrow> gql_raised + nat \<times> memo) \<Rightarrow> 'v fragments \<Rightarrow> string list
   \<Rightarrow> 'v selection \<Rightarrow> memo \<Rightarrow> gql_raised + nat \<times> memo" where
  "depth_below rec fr stack sel memo = (case sel of
     FragmentSpreadNode name dirs \<Rightarrow>
       if name \<in> set stack then Inl (GraphQLRequestError ''parse'' RECURSION_MESSAGE)
       else (case map_of fr name of
         None \<Rightarrow> Inl (GraphQLRequestError ''validation'' (''Unknown fragment: '' @ quote @ name @ quote))
       | Some sels \<Rightarrow>
           (case map_of memo name of
              Some d \<Rightarrow> Inr (d, memo)
            | None \<Rightarrow> bind_r (rec (stack @ [name]) sels memo) (\<lambda>(d, m). Inr (d, AList.update name d m))))
   | FieldNode name alias args dirs below \<Rightarrow>
       (case below of None \<Rightarrow> Inr (0, memo) | Some sels \<Rightarrow> rec stack sels memo)
   | InlineFragmentNode dirs sels \<Rightarrow> rec stack sels memo)"

fun depth_of ::
  "nat \<Rightarrow> 'v fragments \<Rightarrow> string list \<Rightarrow> 'v selection list \<Rightarrow> memo \<Rightarrow> gql_raised + nat \<times> memo" where
  "depth_of 0 fr stack sels memo = Inl (GqlRaised RecursionError)"
| "depth_of (Suc calls) fr stack sels memo =
     bind_r (fold_r (\<lambda>sel (deepest, m).
         bind_r (depth_below (depth_of calls fr) fr stack sel m) (\<lambda>(below, m'). Inr (max deepest below, m')))
       sels (0, memo)) (\<lambda>(deepest, m). Inr (1 + deepest, m))"

definition nodes_below ::
  "('v selection list \<Rightarrow> memo \<Rightarrow> gql_raised + nat \<times> memo) \<Rightarrow> 'v fragments \<Rightarrow> 'v selection \<Rightarrow> memo \<Rightarrow> gql_raised + nat \<times> memo" where
  "nodes_below rec fr sel memo = (case sel of
     FragmentSpreadNode name dirs \<Rightarrow>
       (case map_of memo name of
          Some n \<Rightarrow> Inr (n, memo)
        | None \<Rightarrow> (case map_of fr name of
            None \<Rightarrow> Inl (GqlRaised KeyError)
          | Some sels \<Rightarrow> bind_r (rec sels memo) (\<lambda>(n, m). Inr (n, AList.update name n m))))
   | FieldNode name alias args dirs below \<Rightarrow>
       (case below of None \<Rightarrow> Inr (0, memo) | Some sels \<Rightarrow> rec sels memo)
   | InlineFragmentNode dirs sels \<Rightarrow> rec sels memo)"

fun nodes_of :: "nat \<Rightarrow> 'v fragments \<Rightarrow> 'v selection list \<Rightarrow> memo \<Rightarrow> gql_raised + nat \<times> memo" where
  "nodes_of 0 fr sels memo = Inl (GqlRaised RecursionError)"
| "nodes_of (Suc calls) fr sels memo =
     fold_r (\<lambda>sel (total, m).
       bind_r (nodes_below (nodes_of calls fr) fr sel m) (\<lambda>(n, m'). Inr (total + 1 + n, m'))) sels (0, memo)"

definition check_nodes :: "nat \<Rightarrow> 'v operation_node \<Rightarrow> 'v fragments \<Rightarrow> gql_raised + unit" where
  "check_nodes calls op fr =
     bind_r (nodes_of calls fr (op_selection op) []) (\<lambda>(n, m).
       if MAX_NODES < n then Inl (GraphQLRequestError ''validation'' NODE_LIMIT_MESSAGE) else Inr ())"

definition check_depth :: "nat \<Rightarrow> 'v operation_node \<Rightarrow> 'v fragments \<Rightarrow> gql_raised + unit" where
  "check_depth calls op fr = (case depth_of calls fr [] (op_selection op) [] of
     Inl (GqlRaised RecursionError) \<Rightarrow> Inl (GraphQLRequestError ''parse'' RECURSION_MESSAGE)
   | Inl e \<Rightarrow> Inl e
   | Inr (d, m) \<Rightarrow> if MAX_DEPTH < d then Inl (GraphQLRequestError ''parse'' RECURSION_MESSAGE) else Inr ())"

section \<open>Root fields\<close>

definition condition_of :: "'v graphql_core \<Rightarrow> 'v directive \<Rightarrow> sdict \<Rightarrow> bool option" where
  "condition_of core dir vs = (case map_of (snd dir) ''if'' of
     None \<Rightarrow> None
   | Some lit \<Rightarrow> (case gq_value core lit vs of Some (VBool b) \<Rightarrow> Some b | _ \<Rightarrow> None))"

definition removes :: "'v graphql_core \<Rightarrow> sdict \<Rightarrow> 'v directive \<Rightarrow> bool" where
  "removes core vs dir \<longleftrightarrow>
     fst dir = ''skip'' \<and> condition_of core dir vs = Some True
     \<or> fst dir = ''include'' \<and> condition_of core dir vs = Some False"

fun directives_of :: "'v selection \<Rightarrow> 'v directive list" where
  "directives_of (FieldNode name alias args dirs below) = dirs"
| "directives_of (InlineFragmentNode dirs sels) = dirs"
| "directives_of (FragmentSpreadNode name dirs) = dirs"

definition is_included :: "'v graphql_core \<Rightarrow> 'v selection \<Rightarrow> sdict \<Rightarrow> bool" where
  "is_included core sel vs \<longleftrightarrow> \<not> list_ex (removes core vs) (directives_of sel)"

record 'v root_field =
  rf_name :: string
  response_key :: string
  rf_arguments :: sdict
  rf_selection :: "'v selection list option"

definition arguments_of :: "'v graphql_core \<Rightarrow> (string \<times> 'v) list \<Rightarrow> sdict \<Rightarrow> sdict" where
  "arguments_of core args vs = foldl (\<lambda>d (name, lit).
     (case gq_value core lit vs of Some v \<Rightarrow> AList.update name v d | None \<Rightarrow> d)) [] args"

definition key_of :: "string \<Rightarrow> string option \<Rightarrow> string" where
  "key_of name alias = (case alias of None \<Rightarrow> name | Some a \<Rightarrow> a)"

text \<open>The roots of one selection: \<open>rec\<close> gives the roots of a selection set.\<close>

definition roots_below ::
  "('v selection list \<Rightarrow> pyerr + 'v root_field list) \<Rightarrow> 'v graphql_core \<Rightarrow> 'v fragments \<Rightarrow> sdict \<Rightarrow> 'v selection
   \<Rightarrow> pyerr + 'v root_field list" where
  "roots_below rec core fr vs sel =
     (if \<not> is_included core sel vs then Inr []
      else (case sel of
        FieldNode name alias args dirs below \<Rightarrow>
          Inr [\<lparr>rf_name = name, response_key = key_of name alias,
                rf_arguments = arguments_of core args vs, rf_selection = below\<rparr>]
      | InlineFragmentNode dirs sels \<Rightarrow> rec sels
      | FragmentSpreadNode name dirs \<Rightarrow>
          (case map_of fr name of None \<Rightarrow> Inl KeyError | Some sels \<Rightarrow> rec sels)))"

fun roots_of ::
  "nat \<Rightarrow> 'v graphql_core \<Rightarrow> 'v fragments \<Rightarrow> sdict \<Rightarrow> 'v selection list \<Rightarrow> pyerr + 'v root_field list" where
  "roots_of 0 core fr vs sels = Inl RecursionError"
| "roots_of (Suc calls) core fr vs sels =
     bind_r (collect_r (map (roots_below (roots_of calls core fr vs) core fr vs) sels)) (\<lambda>rs. Inr (concat rs))"

section \<open>The request\<close>

record 'v gql_request =
  gq_operation :: string
  gq_roots :: "'v root_field list"
  gq_method :: string
  gq_request_id :: pyval
  gq_variables :: sdict
  gq_fragments :: "'v fragments"

definition method_of :: "'v root_field list \<Rightarrow> string" where
  "method_of roots = (let s = join_with ''&'' (map rf_name roots) in if s = [] then ''unknown'' else s)"

definition id_of :: "sdict \<Rightarrow> pyval" where
  "id_of vs = (let v = get_or vs ''request_id'' VNone in if is_str v \<or> is_plain_int v then v else VNone)"

definition read_operation ::
  "nat \<Rightarrow> 'v graphql_core \<Rightarrow> pyval \<Rightarrow> 'v definition_node list \<Rightarrow> 'v operation_node \<Rightarrow> gql_raised + 'v gql_request" where
  "read_operation calls core body ds op =
     (let fr = fragments_of ds
      in bind_r (check_depth calls op fr) (\<lambda>_.
         bind_r (check_nodes calls op fr) (\<lambda>_.
           let vs = variables_of core op (text_items (py_or (vget_or body ''variables'' VNone) (VDict [])))
           in (case roots_of calls core fr vs (op_selection op) of
                 Inl e \<Rightarrow> Inl (GqlRaised e)
               | Inr roots \<Rightarrow> Inr \<lparr>gq_operation = op_kind op, gq_roots = roots, gq_method = method_of roots,
                   gq_request_id = id_of vs, gq_variables = vs, gq_fragments = fr\<rparr>))))"

definition parse_graphql_request ::
  "nat \<Rightarrow> (string \<Rightarrow> string) \<Rightarrow> 'v graphql_core \<Rightarrow> string \<Rightarrow> gql_raised + 'v gql_request" where
  "parse_graphql_request calls why core raw =
     bind_r (read_object why raw) (\<lambda>body.
     bind_r (check_shape body) (\<lambda>_.
       (case vget_or body ''query'' VNone of
          VStr txt \<Rightarrow>
            if txt = [] then Inl (GraphQLRequestError ''parse'' NO_DOCUMENT)
            else bind_r (parse_document core txt) (\<lambda>ds.
                 bind_r (choose_operation ds (vget_or body ''operationName'' VNone)) (read_operation calls core body ds))
        | _ \<Rightarrow> Inl (GraphQLRequestError ''parse'' NO_DOCUMENT))))"

section \<open>Replies\<close>

definition graphql_error :: "pyval \<Rightarrow> string option \<Rightarrow> string list option \<Rightarrow> pyval" where
  "graphql_error message code path =
     jobj ((''message'', message)
       # (case code of Some (c # cs) \<Rightarrow> [(''extensions'', jobj [(''code'', VStr (c # cs))])] | _ \<Rightarrow> [])
       @ (case path of Some ks \<Rightarrow> [(''path'', VList (map VStr ks))] | None \<Rightarrow> []))"

definition failed_data :: "pyval \<Rightarrow> pyval" where
  "failed_data entry = jobj [(''data'', VNone), (''errors'', VList [entry])]"

definition default_error_reply :: "string \<Rightarrow> string \<Rightarrow> pyval \<times> pyval" where
  "default_error_reply knd message =
     (if knd \<in> set TEXT_KINDS then (VInt 400, VStr message)
      else (VInt 200, failed_data (graphql_error (VStr message) (map_of CODE_OF_KIND knd) None)))"

text \<open>
  \<open>project\<close> and \<open>_fill\<close>. \<open>fill_one\<close> is the body of the loop of \<open>_fill\<close>, with \<open>project\<close> and \<open>_fill\<close> of the
  calls below as arguments. A fragment that is not defined is passed over.
\<close>

definition fill_one ::
  "(pyval \<Rightarrow> 'v selection list option \<Rightarrow> pyerr + pyval) \<Rightarrow> ('v selection list \<Rightarrow> (pyval \<times> pyval) list \<Rightarrow> pyerr + (pyval \<times> pyval) list)
   \<Rightarrow> 'v graphql_core \<Rightarrow> 'v gql_request \<Rightarrow> pyval \<Rightarrow> 'v selection \<Rightarrow> (pyval \<times> pyval) list \<Rightarrow> pyerr + (pyval \<times> pyval) list" where
  "fill_one prj fll core rq stub sel shaped =
     (if \<not> is_included core sel (gq_variables rq) then Inr shaped
      else (case sel of
        FieldNode name alias args dirs below \<Rightarrow>
          bind_r (prj (vget_or stub name VNone) below) (\<lambda>v. Inr (pd_put (VStr (key_of name alias)) v shaped))
      | InlineFragmentNode dirs sels \<Rightarrow> fll sels shaped
      | FragmentSpreadNode name dirs \<Rightarrow>
          (case map_of (gq_fragments rq) name of None \<Rightarrow> Inr shaped | Some sels \<Rightarrow> fll sels shaped)))"

fun project :: "nat \<Rightarrow> 'v graphql_core \<Rightarrow> 'v gql_request \<Rightarrow> pyval \<Rightarrow> 'v selection list option \<Rightarrow> pyerr + pyval"
  and fill ::
    "nat \<Rightarrow> 'v graphql_core \<Rightarrow> 'v gql_request \<Rightarrow> pyval \<Rightarrow> 'v selection list \<Rightarrow> (pyval \<times> pyval) list
     \<Rightarrow> pyerr + (pyval \<times> pyval) list" where
  "project 0 core rq stub sel = Inl RecursionError"
| "project (Suc calls) core rq stub sel = (case sel of
     None \<Rightarrow> Inr stub
   | Some sels \<Rightarrow> (case stub of
       VList items \<Rightarrow> bind_r (collect_r (map (\<lambda>item. project calls core rq item sel) items)) (\<lambda>vs. Inr (VList vs))
     | VDict kvs \<Rightarrow> bind_r (fill calls core rq stub sels []) (\<lambda>shaped. Inr (VDict shaped))
     | _ \<Rightarrow> Inr stub))"
| "fill 0 core rq stub sels shaped = Inl RecursionError"
| "fill (Suc calls) core rq stub sels shaped =
     fold_r (fill_one (project calls core rq) (fill calls core rq stub) core rq stub) sels shaped"

end
