(* ===== verification/SuiDigest.thy ===== *)
theory SuiDigest
  imports Chains GraphqlDocument
begin

text \<open>
  \<open>chains/sui_digest.py\<close>: base58 and the digest of a Sui transaction, over bytes that are texts of code points
  below 256. BLAKE2b is an argument, a function from bytes to bytes.
\<close>

definition DIGEST_LENGTH :: nat where
  "DIGEST_LENGTH = 32"

definition ALPHABET :: string where
  "ALPHABET = ''123456789ABCDEFGHJKLMNPQRSTUVWXYZabcdefghijkmnopqrstuvwxyz''"

definition INDEX :: "(char, nat) dict" where
  "INDEX = zip ALPHABET [0..<58]"

text \<open>\<open>int.from_bytes(data, "big")\<close>, and the shortest bytes of a number, which are \<open>(bit_length + 7) // 8\<close> many.\<close>

definition bytes_number :: "string \<Rightarrow> nat" where
  "bytes_number data = foldl (\<lambda>n c. n * 256 + code_of c) 0 data"

fun number_bytes :: "nat \<Rightarrow> string" where
  "number_bytes n = (if n = 0 then [] else number_bytes (n div 256) @ [char_of (n mod 256)])"

text \<open>The loop of the encoder: the digits of a number, the lowest first.\<close>

fun b58_digits :: "nat \<Rightarrow> string" where
  "b58_digits n = (if n = 0 then [] else ALPHABET ! (n mod 58) # b58_digits (n div 58))"

declare number_bytes.simps [simp del] b58_digits.simps [simp del]

text \<open>How many times a text starts with a character: \<open>len(s) - len(s.lstrip(c))\<close>.\<close>

definition leading :: "char \<Rightarrow> string \<Rightarrow> nat" where
  "leading c s = length s - length (dropWhile ((=) c) s)"

definition base58_encode :: "string \<Rightarrow> string" where
  "base58_encode data = replicate (leading (CHR 0x00) data) (CHR ''1'') @ rev (b58_digits (bytes_number data))"

definition b58_number :: "string \<Rightarrow> pyerr + nat" where
  "b58_number s = fold_r (\<lambda>c n. case map_of INDEX c of None \<Rightarrow> Inl ValueError | Some d \<Rightarrow> Inr (n * 58 + d)) s 0"

definition base58_decode :: "string \<Rightarrow> pyerr + string" where
  "base58_decode s = bind_r (b58_number s) (\<lambda>n.
     Inr (replicate (leading (CHR ''1'') s) (CHR 0x00) @ number_bytes n))"

definition hash_typed_data :: "(string \<Rightarrow> string) \<Rightarrow> string \<Rightarrow> string \<Rightarrow> string" where
  "hash_typed_data blake tag data = blake (tag @ ''::'' @ data)"

definition transaction_digest :: "(string \<Rightarrow> string) \<Rightarrow> string \<Rightarrow> string" where
  "transaction_digest blake data = base58_encode (hash_typed_data blake ''TransactionData'' data)"

definition is_valid_transaction_digest :: "string \<Rightarrow> bool" where
  "is_valid_transaction_digest s = (case base58_decode s of Inl e \<Rightarrow> False | Inr bs \<Rightarrow> length bs = DIGEST_LENGTH)"

section \<open>What is encoded reads back\<close>

lemma alphabet_facts:
  "length ALPHABET = 58" "distinct ALPHABET" "ALPHABET ! 0 = CHR ''1''"
  by code_simp+

lemma index_of: "d < 58 \<Longrightarrow> map_of INDEX (ALPHABET ! d) = Some d"
proof -
  assume d: "d < 58"
  then have "INDEX ! d = (ALPHABET ! d, d)" "d < length INDEX" by (simp_all add: INDEX_def alphabet_facts)
  then have "(ALPHABET ! d, d) \<in> set INDEX" by (metis nth_mem)
  moreover have "distinct (map fst INDEX)" by (simp add: INDEX_def alphabet_facts)
  ultimately show ?thesis by simp
qed

lemma digit_one: "d < 58 \<Longrightarrow> ALPHABET ! d = CHR ''1'' \<longleftrightarrow> d = 0"
  using index_of [of d] index_of [of 0] alphabet_facts(3) by fastforce

lemma fold_r_snoc: "fold_r f (xs @ [x]) s = bind_r (fold_r f xs s) (f x)"
  by (induction xs arbitrary: s) (auto simp: bind_r_def split: sum.split)

lemma b58_number_snoc:
  "b58_number (s @ [c]) = bind_r (b58_number s) (\<lambda>n. case map_of INDEX c of None \<Rightarrow> Inl ValueError | Some d \<Rightarrow> Inr (n * 58 + d))"
  unfolding b58_number_def by (rule fold_r_snoc)

lemma b58_number_digits: "b58_number (rev (b58_digits n)) = Inr n"
proof (induction n rule: b58_digits.induct)
  case (1 n)
  show ?case
  proof (cases "n = 0")
    case True
    then show ?thesis by (simp add: b58_digits.simps b58_number_def)
  next
    case False
    with 1 show ?thesis
      by (simp add: b58_digits.simps [of n] b58_number_snoc index_of)
  qed
qed

lemma b58_number_ones: "b58_number (replicate z (CHR ''1'') @ s) = b58_number s"
proof (induction z)
  case (Suc z)
  have "map_of INDEX (CHR ''1'') = Some 0" using index_of [of 0] alphabet_facts(3) by simp
  with Suc show ?case by (simp add: b58_number_def)
qed simp

lemma leading_replicate: "s = [] \<or> hd s \<noteq> c \<Longrightarrow> leading c (replicate z c @ s) = z"
proof -
  assume s: "s = [] \<or> hd s \<noteq> c"
  have "dropWhile ((=) c) (replicate z c @ s) = s" by (induction z) (use s in \<open>cases s; auto\<close>)+
  then show ?thesis by (simp add: leading_def)
qed

lemma b58_top_digit: "n \<noteq> 0 \<Longrightarrow> last (b58_digits n) \<noteq> CHR ''1'' \<and> b58_digits n \<noteq> []"
proof (induction n rule: b58_digits.induct)
  case (1 n)
  show ?case
  proof (cases "n div 58 = 0")
    case True
    with 1(2) digit_one [of n] show ?thesis by (simp add: b58_digits.simps [of n] b58_digits.simps [of 0])
  next
    case False
    with 1 show ?thesis by (simp add: b58_digits.simps [of n])
  qed
qed

lemma bytes_number_snoc: "bytes_number (s @ [c]) = bytes_number s * 256 + code_of c"
  by (simp add: bytes_number_def)

lemma number_bytes_number: "number_bytes (bytes_number s) = dropWhile ((=) (CHR 0x00)) s"
proof (induction s rule: rev_induct)
  case Nil
  then show ?case by (simp add: bytes_number_def number_bytes.simps)
next
  case (snoc c s)
  have c: "code_of c < 256" using nat_of_char_less_256 [of c] by simp
  show ?case
  proof (cases "bytes_number s = 0 \<and> c = CHR 0x00")
    case True
    with snoc have "dropWhile ((=) (CHR 0x00)) s = []" by (simp add: number_bytes.simps)
    with True show ?thesis
      by (auto simp: bytes_number_snoc number_bytes.simps dropWhile_append dropWhile_eq_Nil_conv)
  next
    case False
    have "c = CHR 0x00" if "code_of c = 0" using that char_of_char [of c, where ?'a = nat] by (simp add: char_of_def)
    with False have n: "bytes_number s * 256 + code_of c \<noteq> 0" by auto
    have "number_bytes (bytes_number s * 256 + code_of c) = number_bytes (bytes_number s) @ [c]"
      using n c by (subst number_bytes.simps) simp
    then have out: "number_bytes (bytes_number (s @ [c])) = dropWhile ((=) (CHR 0x00)) s @ [c]"
      using snoc by (simp add: bytes_number_snoc)
    show ?thesis
    proof (cases "\<forall>x \<in> set s. x = CHR 0x00")
      case True
      then have "number_bytes (bytes_number s) = []" using snoc by (simp add: dropWhile_eq_Nil_conv)
      then have "bytes_number s = 0" by (subst (asm) number_bytes.simps) (simp split: if_splits)
      with False True out show ?thesis by (simp add: dropWhile_append2)
    next
      case False
      then obtain x where "x \<in> set s" "\<not> CHR 0x00 = x" by auto
      with out dropWhile_append1 [of x s "(=) (CHR 0x00)" "[c]"] show ?thesis by simp
    qed
  qed
qed

lemma leading_split: "replicate (leading c s) c @ dropWhile ((=) c) s = s"
  by (induction s) (auto simp: leading_def Suc_diff_le length_dropWhile_le)

text \<open>
  Base58 loses nothing: the text of any bytes decodes to these bytes, leading zero bytes included, so two
  byte strings never have one text. A transaction digest is a valid one, whenever BLAKE2b gives its 32
  bytes.
\<close>

theorem base58_roundtrip:
  "base58_decode (base58_encode data) = Inr data
   \<and> (base58_encode data = base58_encode data' \<longrightarrow> data = data')
   \<and> (length (hash_typed_data blake ''TransactionData'' tx) = DIGEST_LENGTH
       \<longrightarrow> is_valid_transaction_digest (transaction_digest blake tx))"
proof -
  have read: "base58_decode (base58_encode bs) = Inr bs" for bs
  proof -
    let ?n = "bytes_number bs"
    have "rev (b58_digits ?n) = [] \<or> hd (rev (b58_digits ?n)) \<noteq> CHR ''1''"
      using b58_top_digit [of ?n] by (cases "?n = 0") (simp_all add: b58_digits.simps [of 0] hd_rev)
    then have "leading (CHR ''1'') (base58_encode bs) = leading (CHR 0x00) bs"
      unfolding base58_encode_def by (rule leading_replicate)
    then show ?thesis
      by (simp add: base58_decode_def number_bytes_number leading_split)
        (simp add: base58_encode_def b58_number_ones b58_number_digits number_bytes_number leading_split)
  qed
  then show ?thesis
    using read [of data'] by (auto simp: is_valid_transaction_digest_def transaction_digest_def dest: sum.inject(2) [THEN iffD1])
      (metis sum.inject(2))
qed


theorem base58_roundtrip_witness:
  "base58_decode (base58_encode [CHR 0x00, CHR ''a'']) = Inr [CHR 0x00, CHR ''a'']
   \<and> is_valid_transaction_digest (transaction_digest (\<lambda>_. replicate 32 (CHR ''b'')) ''tx'')"
proof -
  have "length (hash_typed_data (\<lambda>_. replicate 32 (CHR ''b'')) ''TransactionData'' ''tx'') = DIGEST_LENGTH"
    by (simp add: hash_typed_data_def DIGEST_LENGTH_def)
  with base58_roundtrip [of "[CHR 0x00, CHR ''a'']" "[]" "\<lambda>_. replicate 32 (CHR ''b'')" "''tx''"] show ?thesis by blast
qed

end
