(* ===== verification/SuiChain.thy ===== *)
theory SuiChain
  imports SuiDigest CacheSim
begin

text \<open>
  \<open>chains/sui.py\<close> and \<open>stubs_sui_graphql.py\<close>: the reply of a Sui provider, one root field at a time.

  What the code reads from around it is the record \<open>sui_env\<close>: the GraphQL library, BLAKE2b, the text of
  values that are no text, the height of the head (a read can raise, see \<open>Head\<close>), the clock, and the
  transactions that the provider ran before. \<open>se_calls\<close> is the stack that is left for shaping a reply.
  The transactions that a request runs are returned beside the reply: the source appends them to
  \<open>request["executed_now"]\<close>. \<open>SuiTestnetChain\<close> is the same code over a head and settings of its own.
\<close>

section \<open>Constants and error replies\<close>

definition SUI_MAX_CHECKPOINT :: int where
  "SUI_MAX_CHECKPOINT = 2 ^ 53 - 1"

definition SUI_EPOCH_ID :: int where
  "SUI_EPOCH_ID = 1286"

definition SUI_ERROR_CODES :: "string list" where
  "SUI_ERROR_CODES =
     [''BAD_USER_INPUT'', ''FEATURE_UNAVAILABLE'', ''GRAPHQL_PARSE_FAILED'', ''GRAPHQL_VALIDATION_FAILED'',
      ''INTERNAL_SERVER_ERROR'', ''REQUEST_TIMEOUT'', ''RESOURCE_EXHAUSTED'']"

definition ERROR_MESSAGES :: "(string, string) dict" where
  "ERROR_MESSAGES =
     [(''BAD_USER_INPUT'', ''Invalid value for argument''),
      (''FEATURE_UNAVAILABLE'', ''This feature is not available on this server''),
      (''GRAPHQL_PARSE_FAILED'', ''The query could not be parsed''),
      (''GRAPHQL_VALIDATION_FAILED'', ''The query is not valid''),
      (''INTERNAL_SERVER_ERROR'', ''Internal error''),
      (''REQUEST_TIMEOUT'', ''Request timed out''),
      (''RESOURCE_EXHAUSTED'', ''Too many requests'')]"

definition SUI_ERROR_STUBS :: sdict where
  "SUI_ERROR_STUBS =
     map (\<lambda>code. (lower code, graphql_error (VStr (get_or ERROR_MESSAGES code [])) (Some code) None)) SUI_ERROR_CODES"

definition sui_error_stub :: "(pyval \<Rightarrow> string) \<Rightarrow> pyval \<Rightarrow> pyerr + pyval" where
  "sui_error_stub other name = (case map_of SUI_ERROR_STUBS (lower (py_str other name)) of
     None \<Rightarrow> Inl KeyError | Some e \<Rightarrow> Inr e)"

section \<open>Checkpoints\<close>

definition is_whole_number :: "string \<Rightarrow> bool" where
  "is_whole_number s \<longleftrightarrow>
     (let digits = (if starts_with ''-'' s then tl s else s) in digits \<noteq> [] \<and> list_all is_digit digits)"

fun as_height :: "pyval \<Rightarrow> int option" where
  "as_height (VInt i) = Some i"
| "as_height (VStr s) = (let t = strip_by is_space s in if is_whole_number t then int_of_text t else None)"
| "as_height _ = None"

text \<open>\<open>max(0, v)\<close> and \<open>min(SUI_MAX_CHECKPOINT, v)\<close>: the second argument counts when it is strictly better.\<close>

definition max_0 :: "pyval \<Rightarrow> pyval" where
  "max_0 v = (if py_lt (VInt 0) v = Inr True then v else VInt 0)"

definition min_checkpoint :: "pyval \<Rightarrow> pyval" where
  "min_checkpoint v = (if py_lt v (VInt SUI_MAX_CHECKPOINT) = Inr True then v else VInt SUI_MAX_CHECKPOINT)"

definition sui_tip :: "pyerr + int \<Rightarrow> sdict \<Rightarrow> pyerr + pyval" where
  "sui_tip cur sc = bind_r (effective_head cur sc) (\<lambda>v. Inr (min_checkpoint (max_0 v)))"

text \<open>\<open>n.to_bytes(8, "big")\<close>.\<close>

definition eight_bytes :: "nat \<Rightarrow> string" where
  "eight_bytes n = map (\<lambda>k. char_of (n div 256 ^ k mod 256)) (rev [0..<8])"

definition checkpoint_digest :: "(string \<Rightarrow> string) \<Rightarrow> pyval \<Rightarrow> pyval \<Rightarrow> pyerr + string" where
  "checkpoint_digest blake num salt = (case (salt, num) of
     (VStr t, VInt i) \<Rightarrow>
       if 0 \<le> i \<and> i < 2 ^ 64
       then Inr (base58_encode (blake (''SimCheckpoint::'' @ utf8_bytes t @ eight_bytes (nat i))))
       else Inl OverflowError
   | _ \<Rightarrow> Inl AttributeError)"

record 'v sui_env =
  se_calls :: nat
  se_core :: "'v graphql_core"
  se_blake :: "string \<Rightarrow> string"
  se_other :: "pyval \<Rightarrow> string"
  se_head :: "pyerr + int"
  se_now :: rat
  se_executed :: "(string, rat) dict"

definition quirk :: "sdict \<Rightarrow> string \<Rightarrow> pyerr + pyval" where
  "quirk qs name = (case map_of qs name of None \<Rightarrow> Inl KeyError | Some v \<Rightarrow> Inr v)"

text \<open>The number that a request asks for: the tip when it names none, and none when there is no such checkpoint.\<close>

definition asked_checkpoint :: "pyval \<Rightarrow> pyval \<Rightarrow> pyval option" where
  "asked_checkpoint requested tip =
     (if requested = VNone then Some tip
      else (case as_height requested of
        None \<Rightarrow> None
      | Some found \<Rightarrow> if 0 \<le> found \<and> py_le (VInt found) tip = Inr True then Some (VInt found) else None))"

definition checkpoint :: "'v sui_env \<Rightarrow> sdict \<Rightarrow> sdict \<Rightarrow> sdict \<Rightarrow> pyerr + pyval" where
  "checkpoint env args sc qs =
     bind_r (sui_tip (se_head env) sc) (\<lambda>tip.
       (case asked_checkpoint (get_or args ''sequenceNumber'' VNone) tip of
          None \<Rightarrow> Inr VNone
        | Some num \<Rightarrow>
            bind_r (quirk qs ''digest_salt'') (\<lambda>salt.
            bind_r (checkpoint_digest (se_blake env) num salt) (\<lambda>digest.
            bind_r (if py_lt (VInt 0) num = Inr True
                    then bind_r (checkpoint_digest (se_blake env) (num_plus num (-1)) salt) (\<lambda>d. Inr (VStr d))
                    else Inr VNone) (\<lambda>previous.
              Inr (jobj [(''sequenceNumber'', num), (''digest'', VStr digest),
                         (''previousCheckpointDigest'', previous),
                         (''epoch'', jobj [(''epochId'', VInt SUI_EPOCH_ID)])]))))))"

section \<open>Transactions\<close>

text \<open>
  Whether the index has caught up with a transaction: the settings hold the delay as an int. The division
  raises when its result is too large for a float; the times that are compared are exact.
\<close>

definition indexed :: "'v sui_env \<Rightarrow> string \<Rightarrow> int \<Rightarrow> pyerr + bool" where
  "indexed env digest lag_ms =
     (if lag_ms \<le> 0 then Inr True
      else (case map_of (se_executed env) digest of
              None \<Rightarrow> Inr False
            | Some ran_at \<Rightarrow>
                if 1000 * float_limit \<le> lag_ms then Inl OverflowError
                else Inr (\<not> se_now env - ran_at < of_int lag_ms / 1000)))"

definition sui_transaction :: "'v sui_env \<Rightarrow> sdict \<Rightarrow> sdict \<Rightarrow> sdict \<Rightarrow> pyerr + pyval" where
  "sui_transaction env args sc qs = (case get_or args ''digest'' VNone of
     VStr digest \<Rightarrow>
       bind_r (quirk qs ''transaction_index_lag_ms'') (\<lambda>lag.
       bind_r (py_int lag) (\<lambda>lag_ms.
       bind_r (indexed env digest lag_ms) (\<lambda>found.
         if found
         then bind_r (sui_tip (se_head env) sc) (\<lambda>tip.
                Inr (jobj [(''digest'', VStr digest),
                  (''effects'', jobj [(''status'', VStr ''SUCCESS''), (''checkpoint'', jobj [(''sequenceNumber'', tip)])])]))
         else Inr VNone)))
   | _ \<Rightarrow> Inr VNone)"

text \<open>The value of a root, the error beside it (\<open>VNone\<close> for none), and the digests that it ran.\<close>

type_synonym answer = "pyval \<times> pyval \<times> string list"

definition executed_effects :: "string \<Rightarrow> pyval" where
  "executed_effects digest =
     jobj [(''effects'', jobj [(''status'', VStr ''SUCCESS''), (''digest'', VStr digest),
                               (''transaction'', jobj [(''digest'', VStr digest)])])]"

definition sui_execute :: "'v sui_env \<Rightarrow> 'v gql_request \<Rightarrow> 'v root_field \<Rightarrow> pyerr + answer" where
  "sui_execute env rq rf =
     (case (case get_or (rf_arguments rf) ''transactionDataBcs'' VNone of VStr raw \<Rightarrow> b64decode raw | _ \<Rightarrow> None) of
        None \<Rightarrow> bind_r (sui_error_stub (se_other env) (VStr ''bad_user_input'')) (\<lambda>e. Inr (VNone, e, []))
      | Some data \<Rightarrow>
          let digest = transaction_digest (se_blake env) data
          in bind_r (project (se_calls env) (se_core env) rq (executed_effects digest) (rf_selection rf)) (\<lambda>v.
               Inr (v, VNone, [digest])))"

section \<open>One root and the reply\<close>

definition sui_stub :: "'v sui_env \<Rightarrow> 'v gql_request \<Rightarrow> 'v root_field \<Rightarrow> sdict \<Rightarrow> sdict \<Rightarrow> pyerr + pyval" where
  "sui_stub env rq rf sc qs =
     (let name = rf_name rf
      in if name = ''chainIdentifier'' then quirk qs ''chain_id''
         else if name = ''serviceConfig'' then
           bind_r (sui_tip (se_head env) sc) (\<lambda>tip.
             Inr (jobj [(''availableRange'',
               jobj [(''first'', jobj [(''sequenceNumber'', VInt 0)]), (''last'', jobj [(''sequenceNumber'', tip)])])]))
         else if name = ''checkpoint'' then checkpoint env (rf_arguments rf) sc qs
         else if name = ''epoch'' then
           Inr (jobj [(''epochId'', VInt SUI_EPOCH_ID), (''referenceGasPrice'', VStr ''1000'')])
         else if name = ''transaction'' then sui_transaction env (rf_arguments rf) sc qs
         else if name = ''__typename'' then Inr (VStr (if gq_operation rq = ''mutation'' then ''Mutation'' else ''Query''))
         else Inr VNone)"

definition sui_answer ::
  "'v sui_env \<Rightarrow> 'v gql_request \<Rightarrow> sdict \<Rightarrow> sdict \<Rightarrow> 'v root_field \<Rightarrow> pyval \<Rightarrow> pyerr + answer" where
  "sui_answer env rq sc qs rf entry =
     bind_r (py_in (VStr ''error_stub'') entry) (\<lambda>named.
       if named then
         bind_r (cfg_item ''error_stub'' entry) (\<lambda>name.
         bind_r (sui_error_stub (se_other env) name) (\<lambda>e. Inr (VNone, e, [])))
       else bind_r (py_in (VStr ''error'') entry) (\<lambda>failed.
         if failed then bind_r (cfg_item ''error'' entry) (\<lambda>e. Inr (VNone, e, []))
         else bind_r (py_in (VStr ''result'') entry) (\<lambda>given_result.
           if given_result then
             bind_r (cfg_item ''result'' entry) (\<lambda>r.
             bind_r (project (se_calls env) (se_core env) rq r (rf_selection rf)) (\<lambda>v. Inr (v, VNone, [])))
           else if rf_name rf = ''executeTransaction'' then sui_execute env rq rf
           else bind_r (sui_stub env rq rf sc qs) (\<lambda>stub.
                bind_r (project (se_calls env) (se_core env) rq stub (rf_selection rf)) (\<lambda>v. Inr (v, VNone, []))))))"

text \<open>\<open>{**error, "path": [key]}\<close>.\<close>

definition with_path :: "string \<Rightarrow> pyval \<Rightarrow> pyerr + pyval" where
  "with_path key err = (case err of
     VDict kvs \<Rightarrow> Inr (VDict (pd_put (VStr ''path'') (VList [VStr key]) kvs)) | _ \<Rightarrow> Inl TypeError)"

text \<open>The body of the loop over the roots: the data, the errors and the digests so far.\<close>

definition add_root ::
  "'v sui_env \<Rightarrow> 'v gql_request \<Rightarrow> sdict \<Rightarrow> sdict \<Rightarrow> (pyval \<times> pyval) list \<Rightarrow> 'v root_field
   \<Rightarrow> (pyval \<times> pyval) list \<times> pyval list \<times> string list \<Rightarrow> pyerr + (pyval \<times> pyval) list \<times> pyval list \<times> string list" where
  "add_root env rq sc qs responses rf acc = (case acc of (data, errors, done_now) \<Rightarrow>
     let entry = py_or (case pd_lookup (VStr (rf_name rf)) responses of None \<Rightarrow> VNone | Some v \<Rightarrow> v) (VDict [])
     in bind_r (sui_answer env rq sc qs rf entry) (\<lambda>(v, err, more_now).
          let data' = pd_put (VStr (response_key rf)) v data
          in if err = VNone then Inr (data', errors, done_now @ more_now)
             else bind_r (with_path (response_key rf) err) (\<lambda>e. Inr (data', errors @ [e], done_now @ more_now))))"

definition sui_success ::
  "'v sui_env \<Rightarrow> 'v gql_request \<Rightarrow> sdict \<Rightarrow> sdict \<Rightarrow> pyerr + (pyval \<times> pyval) \<times> string list" where
  "sui_success env rq sc qs =
     bind_r (chain_responses sc) (\<lambda>responses.
     bind_r (fold_r (add_root env rq sc qs responses) (gq_roots rq) ([], [], [])) (\<lambda>(data, errors, done_now).
       Inr ((VInt 200, jobj ((''data'', VDict data) # (if errors = [] then [] else [(''errors'', VList errors)]))), done_now)))"

end
