(* ===== verification/GraphqlListener.thy ===== *)
theory GraphqlListener
  imports SuiChain Interfaces
begin

text \<open>
  \<open>listeners/graphql.py\<close>: the GraphQL interface as a record of hooks of the flow of \<open>Listener\<close>.

  A parsed request is a Python dict that also holds the \<open>GraphQLRequest\<close> object. The object is no JSON value, so
  the environment of the flow carries it from \<open>parse_request\<close> to \<open>build_content\<close>. The chain of
  a provider is an argument: a function of the transactions that the provider ran, the clock, the
  request, the scenario and the settings, which returns the digests that it ran now.
\<close>

type_synonym 'v gql_chain =
  "string \<Rightarrow> (string, rat) dict \<Rightarrow> rat \<Rightarrow> 'v gql_request \<Rightarrow> sdict \<Rightarrow> sdict \<Rightarrow> pyerr + (pyval \<times> pyval) \<times> string list"

definition unreadable_body :: "endpoint \<Rightarrow> provider \<Rightarrow> string \<Rightarrow> string \<Rightarrow> pyerr + serve_result" where
  "unreadable_body ep p knd message =
     (let sc = cfg_snapshot ScenarioConfig (scenario p);
          chosen = get_or sc ''unreadable_reply'' VNone;
          usual = (case default_error_reply knd message of (st, body) \<Rightarrow> serve_result_of action.Respond st body)
      in if chosen = VNone then Inr usual
         else bind_r (targets sc ep) (\<lambda>targeted.
           if targeted then
             bind_r (cfg_item ''status'' chosen) (\<lambda>st.
               Inr (serve_result_of action.Respond st (vget_or chosen ''body'' (VStr []))))
           else Inr usual))"

definition graphql_parse ::
  "nat \<Rightarrow> (string \<Rightarrow> string) \<Rightarrow> 'v graphql_core \<Rightarrow> endpoint \<Rightarrow> raw_request \<Rightarrow> provider \<Rightarrow> 'v gql_request option
   \<Rightarrow> parse_outcome \<times> 'v gql_request option" where
  "graphql_parse calls why core ep req p c = (case parse_graphql_request calls why core (rq_body req) of
     Inr rq \<Rightarrow> (Parsed (jobj [(''method'', VStr (gq_method rq)), (''request_id'', gq_request_id rq)]), Some rq)
   | Inl (GqlRaised e) \<Rightarrow> (ParseRaised e, c)
   | Inl (GraphQLRequestError knd message) \<Rightarrow>
       ((case unreadable_body ep p knd message of
           Inl e \<Rightarrow> ParseRaised e
         | Inr res \<Rightarrow> Direct res (VStr ''unknown'') ''error'' VNone), c))"

definition graphql_fault :: "verdict \<Rightarrow> pyval \<Rightarrow> serve_result" where
  "graphql_fault v req =
     (if kind v = KHang then serve_result_of action.Hang (VInt 200) VNone
      else if kind v = KDrop then (serve_result_of action.Drop (VInt 200) VNone)\<lparr>r_drop_at := v_drop_at v\<rparr>
      else if kind v = KRateLimit then
        (if v_rate_limit_style v = VStr ''body''
         then serve_result_of action.Respond (VInt 200)
                (failed_data (graphql_error (v_rate_limit_body v) (Some ''RESOURCE_EXHAUSTED'') None))
         else serve_result_of action.Respond (v_status v) (v_rate_limit_body v))
      else if v_error_body v \<noteq> VNone then serve_result_of action.Respond (v_status v) (v_error_body v)
      else serve_result_of action.Respond (v_status v) (failed_data (graphql_error (v_error_message v)
             (Some (case v_error_code v of VStr c \<Rightarrow> c | _ \<Rightarrow> ''INTERNAL_SERVER_ERROR'')) None)))"

text \<open>The digests that a request ran are remembered at the time of the request, in order.\<close>

definition graphql_content ::
  "'v gql_chain \<Rightarrow> rat \<Rightarrow> pyval \<Rightarrow> sdict \<Rightarrow> raw_request \<Rightarrow> provider \<Rightarrow> 'v gql_request option
   \<Rightarrow> pyerr + (pyval \<times> pyval) \<times> provider \<times> 'v gql_request option" where
  "graphql_content ch now parsed sc req p c = (case c of
     None \<Rightarrow> Inl KeyError
   | Some rq \<Rightarrow>
       bind_r (ch (pool_chain p) (executed_snapshot p) now rq sc (cfg_snapshot (quirks_class p) (quirks p))) (\<lambda>(r, done_now).
         Inr (r, remember_all (map (\<lambda>d. (d, now)) done_now) p, c)))"

definition graphql_label :: "pyval \<Rightarrow> pyval \<Rightarrow> pyval \<Rightarrow> pyerr + string" where
  "graphql_label st body req =
     bind_r (py_le (VInt 200) st) (\<lambda>low.
       if \<not> low then Inr ''error''
       else bind_r (py_lt st (VInt 300)) (\<lambda>ok.
         Inr (if \<not> ok then ''error''
              else if is_dict body \<and> truthy (vget_or body ''errors'' VNone) then ''error''
              else ''success'')))"

definition graphql_request_id :: "pyval \<Rightarrow> pyval" where
  "graphql_request_id req = vget_or req ''request_id'' VNone"

definition graphql_hooks ::
  "nat \<Rightarrow> (string \<Rightarrow> string) \<Rightarrow> 'v graphql_core \<Rightarrow> 'v gql_chain \<Rightarrow> rat \<Rightarrow> endpoint \<Rightarrow> 'v gql_request option hooks" where
  "graphql_hooks calls why core ch now ep =
     \<lparr>body_for_history = (\<lambda>req. Some (rq_body req)), path_for_history = (\<lambda>req. Some (rq_path req)),
      parse_request = graphql_parse calls why core ep,
      build_fault = (\<lambda>v req. Inr (graphql_fault v req)), build_success = respond_success, build_down = default_build_down,
      build_content = graphql_content ch now, corrupt = default_corrupt,
      build_parse_error = default_build_parse_error, method_key = default_method_key,
      build_body_override = jsonrpc_body_override, success_label = graphql_label,
      request_method = default_request_method, request_id_of = graphql_request_id,
      response_id = default_response_id\<rparr>"

text \<open>The Sui chain as the chain of a provider: the head and the library are fixed.\<close>

definition sui_chain ::
  "nat \<Rightarrow> 'v graphql_core \<Rightarrow> (string \<Rightarrow> string) \<Rightarrow> (pyval \<Rightarrow> string) \<Rightarrow> (string \<Rightarrow> pyerr + int) \<Rightarrow> 'v gql_chain" where
  "sui_chain calls core blake other heads name executed_at now rq sc qs =
     sui_success \<lparr>se_calls = calls, se_core = core, se_blake = blake, se_other = other, se_head = heads name,
       se_now = now, se_executed = executed_at\<rparr> rq sc qs"

section \<open>The contract\<close>

lemma remember_only: "\<exists>ex. remember_executed d t p = p\<lparr>executed := ex\<rparr>"
proof (cases "map_of (executed p) d")
  case None
  then show ?thesis by (auto simp: remember_executed_def Let_def)
next
  case (Some u)
  then have "remember_executed d t p = p\<lparr>executed := executed p\<rparr>" by (simp add: remember_executed_def)
  then show ?thesis by blast
qed

lemma remember_all_only: "\<exists>ex. remember_all runs p = p\<lparr>executed := ex\<rparr>"
proof (induction runs arbitrary: p)
  case Nil
  have "remember_all [] p = p\<lparr>executed := executed p\<rparr>" by (simp add: remember_all_def)
  then show ?case by blast
next
  case (Cons r runs)
  obtain d t where r: "r = (d, t)" by fastforce
  obtain ex where ex: "remember_executed d t p = p\<lparr>executed := ex\<rparr>" using remember_only by blast
  obtain ex' where "remember_all runs (p\<lparr>executed := ex\<rparr>) = p\<lparr>executed := ex\<rparr>\<lparr>executed := ex'\<rparr>"
    using Cons.IH by blast
  then have "remember_all (r # runs) p = p\<lparr>executed := ex'\<rparr>" by (simp add: remember_all_def r ex)
  then show ?case by blast
qed

lemma graphql_content_frame:
  "graphql_content ch now parsed sc req p c = Inr (r, p', c') \<Longrightarrow> \<exists>ex. p' = p\<lparr>executed := ex\<rparr>"
  using remember_all_only by (fastforce simp: graphql_content_def bind_r_Inr_iff split: option.splits)

lemma unreadable_bare: "unreadable_body ep p knd message = Inr res \<Longrightarrow> bare res"
  by (auto simp: unreadable_body_def Let_def bind_r_Inr_iff split: if_splits prod.splits)

lemma graphql_fault_bare: "bare (graphql_fault v req)"
  by (simp add: graphql_fault_def)

lemma graphql_parse_direct:
  "graphql_parse calls why core ep req p c = (Direct res meth label rid, c') \<Longrightarrow> bare res \<and> label = ''error''"
  by (auto simp: graphql_parse_def dest: unreadable_bare split: sum.splits gql_raised.splits)

lemma graphql_label_final: "graphql_label st body req = Inr label \<Longrightarrow> label \<in> final_labels"
  by (auto simp: graphql_label_def bind_r_Inr_iff split: if_splits)

interpretation graphql: listener_contract "graphql_hooks calls why core ch now ep" for calls why core ch now ep
  by unfold_locales
    (auto simp: graphql_hooks_def default_corrupt_keeps jsonrpc_body_override_def hook_labels_final graphql_fault_bare
      split: option.splits if_splits dest: graphql_content_frame graphql_parse_direct graphql_label_final)

end
