(* ===== verification/GraphqlFacts.thy ===== *)
theory GraphqlFacts
  imports GraphqlDocument
begin

text \<open>
  What the checks of a GraphQL request promise. The reference is the document with its fragments
  written out: \<open>written fr s t\<close> says that the selection \<open>t\<close> is \<open>s\<close> with the body of each fragment in the
  place of its spread. A document that spreads a fragment into itself, or a fragment that is not
  defined, has none.

  The memoised measures of the source agree with the plain depth and the plain count of the
  written-out document, and every function that walks an accepted document ends: it never meets an
  undefined fragment, and 32 levels of calls are enough.
\<close>

section \<open>Documents with the fragments written out\<close>

inductive written :: "'v fragments \<Rightarrow> 'v selection \<Rightarrow> 'v selection \<Rightarrow> bool" for fr where
  leaf: "written fr (FieldNode name al args dirs None) (FieldNode name al args dirs None)"
| field: "list_all2 (written fr) ss ts
    \<Longrightarrow> written fr (FieldNode name al args dirs (Some ss)) (FieldNode name al args dirs (Some ts))"
| inline: "list_all2 (written fr) ss ts \<Longrightarrow> written fr (InlineFragmentNode dirs ss) (InlineFragmentNode dirs ts)"
| spread: "map_of fr name = Some ss \<Longrightarrow> list_all2 (written fr) ss ts
    \<Longrightarrow> written fr (FragmentSpreadNode name dirs) (InlineFragmentNode dirs ts)"
monos list_all2_mono

inductive_cases written_field: "written fr (FieldNode name al args dirs below) t"
inductive_cases written_inline: "written fr (InlineFragmentNode dirs ss) t"
inductive_cases written_spread: "written fr (FragmentSpreadNode name dirs) t"

abbreviation all_written :: "'v fragments \<Rightarrow> 'v selection list \<Rightarrow> 'v selection list \<Rightarrow> bool" where
  "all_written fr \<equiv> list_all2 (written fr)"

definition highest :: "nat list \<Rightarrow> nat" where
  "highest ns = foldr max ns 0"

fun below_depth :: "'v selection \<Rightarrow> nat" where
  "below_depth (FieldNode name al args dirs below) = (case below of
     None \<Rightarrow> 0 | Some ts \<Rightarrow> Suc (highest (map below_depth ts)))"
| "below_depth (InlineFragmentNode dirs ts) = Suc (highest (map below_depth ts))"
| "below_depth (FragmentSpreadNode name dirs) = 0"

definition set_depth :: "'v selection list \<Rightarrow> nat" where
  "set_depth ts = Suc (highest (map below_depth ts))"

fun below_nodes :: "'v selection \<Rightarrow> nat" where
  "below_nodes (FieldNode name al args dirs below) = (case below of
     None \<Rightarrow> 0 | Some ts \<Rightarrow> sum_list (map (\<lambda>t. 1 + below_nodes t) ts))"
| "below_nodes (InlineFragmentNode dirs ts) = sum_list (map (\<lambda>t. 1 + below_nodes t) ts)"
| "below_nodes (FragmentSpreadNode name dirs) = 0"

definition set_nodes :: "'v selection list \<Rightarrow> nat" where
  "set_nodes ts = sum_list (map (\<lambda>t. 1 + below_nodes t) ts)"

lemma highest_simps [simp]: "highest [] = 0" "highest (n # ns) = max n (highest ns)"
  by (simp_all add: highest_def)

lemma below_depth_sets [simp]:
  "below_depth (FieldNode name al args dirs (Some ts)) = set_depth ts"
  "below_depth (InlineFragmentNode dirs ts) = set_depth ts"
  by (simp_all add: set_depth_def)

lemma below_nodes_sets [simp]:
  "below_nodes (FieldNode name al args dirs (Some ts)) = set_nodes ts"
  "below_nodes (InlineFragmentNode dirs ts) = set_nodes ts"
  by (simp_all add: set_nodes_def)

lemma set_depth_simps [simp]:
  "set_depth [] = 1"
  "set_depth (t # ts) = max (Suc (below_depth t)) (set_depth ts)"
  by (simp_all add: set_depth_def)

lemma set_nodes_simps [simp]:
  "set_nodes [] = 0"
  "set_nodes (t # ts) = 1 + below_nodes t + set_nodes ts"
  by (simp_all add: set_nodes_def)

declare below_depth.simps(1,2) [simp del] below_nodes.simps(1,2) [simp del]

lemma below_leaf [simp]:
  "below_depth (FieldNode name al args dirs None) = 0" "below_nodes (FieldNode name al args dirs None) = 0"
  by (simp_all add: below_depth.simps below_nodes.simps)

lemma set_depth_pos [simp]: "0 < set_depth ts" "max (Suc 0) (set_depth ts) = set_depth ts" "set_depth ts \<noteq> 0"
  by (simp_all add: set_depth_def)

lemma written_unique: "written fr s t \<Longrightarrow> written fr s u \<Longrightarrow> t = u"
proof (induction arbitrary: u rule: written.induct)
  case (leaf name al args dirs)
  then show ?case by (auto elim: written_field)
next
  case (field ss ts name al args dirs)
  from field(2) obtain us where u: "u = FieldNode name al args dirs (Some us)" "all_written fr ss us"
    by (auto elim: written_field)
  have "ts = us"
    using field(1) u(2) by (auto simp: list_all2_conv_all_nth intro: nth_equalityI)
  with u show ?case by simp
next
  case (inline ss ts dirs)
  from inline(2) obtain us where u: "u = InlineFragmentNode dirs us" "all_written fr ss us"
    by (auto elim: written_inline)
  have "ts = us"
    using inline(1) u(2) by (auto simp: list_all2_conv_all_nth intro: nth_equalityI)
  with u show ?case by simp
next
  case (spread name ss ts dirs)
  from spread(3,1) obtain us where u: "u = InlineFragmentNode dirs us" "all_written fr ss us"
    by (auto elim: written_spread)
  have "ts = us"
    using spread(2) u(2) by (auto simp: list_all2_conv_all_nth intro: nth_equalityI)
  with u show ?case by simp
qed

lemma all_written_unique: "all_written fr ss ts \<Longrightarrow> all_written fr ss us \<Longrightarrow> ts = us"
  by (simp add: list_all2_conv_all_nth) (metis nth_equalityI written_unique)

section \<open>The memoised measures\<close>

text \<open>A memo that is true to a measure of the written-out fragments.\<close>

definition memo_ok :: "('v selection list \<Rightarrow> nat) \<Rightarrow> 'v fragments \<Rightarrow> memo \<Rightarrow> bool" where
  "memo_ok msr fr m \<longleftrightarrow> (\<forall>name d. map_of m name = Some d \<longrightarrow>
     (\<exists>ss ts. map_of fr name = Some ss \<and> all_written fr ss ts \<and> msr ts = d))"

lemma memo_ok_Nil [simp]: "memo_ok msr fr []"
  by (simp add: memo_ok_def)

lemma memo_ok_update:
  "memo_ok msr fr m \<Longrightarrow> map_of fr name = Some ss \<Longrightarrow> all_written fr ss ts
   \<Longrightarrow> memo_ok msr fr (AList.update name (msr ts) m)"
  unfolding memo_ok_def by (simp add: map_of_update) blast

lemma memo_okD:
  "memo_ok msr fr m \<Longrightarrow> map_of m name = Some d \<Longrightarrow> map_of fr name = Some ss \<Longrightarrow> all_written fr ss ts \<Longrightarrow> d = msr ts"
  unfolding memo_ok_def using all_written_unique by fastforce

lemma depth_below_sound:
  assumes rec: "\<And>stack ss m d m'. rec stack ss m = Inr (d, m') \<Longrightarrow> memo_ok set_depth fr m
      \<Longrightarrow> memo_ok set_depth fr m' \<and> (\<exists>ts. all_written fr ss ts \<and> set_depth ts = d)"
    and below: "depth_below rec fr stack sel m = Inr (b, m')" and ok: "memo_ok set_depth fr m"
  shows "memo_ok set_depth fr m' \<and> (\<exists>t. written fr sel t \<and> below_depth t = b)"
proof (cases sel)
  case (FieldNode name al args dirs sub)
  show ?thesis
  proof (cases sub)
    case None
    with FieldNode below ok show ?thesis by (auto simp: depth_below_def intro: leaf exI)
  next
    case (Some ss)
    with FieldNode below have "rec stack ss m = Inr (b, m')" by (simp add: depth_below_def)
    from rec [OF this ok] show ?thesis unfolding FieldNode Some by (metis field below_depth_sets(1))
  qed
next
  case (InlineFragmentNode dirs ss)
  with below have "rec stack ss m = Inr (b, m')" by (simp add: depth_below_def)
  from rec [OF this ok] show ?thesis unfolding InlineFragmentNode by (metis inline below_depth_sets(2))
next
  case (FragmentSpreadNode name dirs)
  with below obtain ss where ss: "map_of fr name = Some ss"
    by (auto simp: depth_below_def split: if_splits option.splits)
  show ?thesis
  proof (cases "map_of m name")
    case (Some d)
    with FragmentSpreadNode below ss have "b = d" "m' = m" by (auto simp: depth_below_def split: if_splits)
    moreover obtain ts where "all_written fr ss ts" "set_depth ts = d"
      using ok Some ss unfolding memo_ok_def by fastforce
    ultimately show ?thesis unfolding FragmentSpreadNode using ok spread [OF ss] by (metis below_depth_sets(2))
  next
    case None
    with FragmentSpreadNode below ss obtain m1 where m1: "rec (stack @ [name]) ss m = Inr (b, m1)"
      "m' = AList.update name b m1"
      by (auto simp: depth_below_def bind_r_Inr_iff split: if_splits)
    from rec [OF m1(1) ok] obtain ts where "memo_ok set_depth fr m1" "all_written fr ss ts" "set_depth ts = b" by auto
    with m1(2) ss memo_ok_update [of set_depth fr m1 name ss ts] show ?thesis
      unfolding FragmentSpreadNode using spread [OF ss] by (metis below_depth_sets(2))
  qed
qed

lemma depth_of_sound:
  "depth_of calls fr stack ss m = Inr (d, m') \<Longrightarrow> memo_ok set_depth fr m
   \<Longrightarrow> memo_ok set_depth fr m' \<and> (\<exists>ts. all_written fr ss ts \<and> set_depth ts = d)"
proof (induction calls arbitrary: stack ss m d m')
  case (Suc calls)
  let ?step = "\<lambda>sel (deepest, m). bind_r (depth_below (depth_of calls fr) fr stack sel m)
      (\<lambda>(below, m'). Inr (max deepest below, m'))"
  have loop: "memo_ok set_depth fr m' \<and> (\<exists>ts. all_written fr ss ts \<and> Suc d = max (Suc a) (set_depth ts))"
    if "fold_r ?step ss (a, m) = Inr (d, m')" "memo_ok set_depth fr m" for a d m m' ss
    using that
  proof (induction ss arbitrary: a m)
    case (Cons sel ss)
    from Cons(2) obtain b m1 where b: "depth_below (depth_of calls fr) fr stack sel m = Inr (b, m1)"
      and rest: "fold_r ?step ss (max a b, m1) = Inr (d, m')"
      by (auto simp: bind_r_Inr_iff)
    have "memo_ok set_depth fr m1 \<and> (\<exists>t. written fr sel t \<and> below_depth t = b)"
      by (rule depth_below_sound [OF _ b Cons(3)]) (rule Suc.IH)
    then obtain t where t: "memo_ok set_depth fr m1" "written fr sel t" "below_depth t = b" by auto
    from Cons(1) [OF rest t(1)] obtain ts where
      "memo_ok set_depth fr m'" "all_written fr ss ts" "Suc d = max (Suc (max a b)) (set_depth ts)" by auto
    with t show ?case by (intro conjI exI [of _ "t # ts"]) auto
  qed auto
  from Suc(2) obtain d0 where "fold_r ?step ss (0, m) = Inr (d0, m')" "d = Suc d0"
    by (auto simp: bind_r_Inr_iff)
  with loop [OF this(1) Suc(3)] show ?case by auto
qed simp


text \<open>
  The other direction: a document that can be written out is measured. A fragment on the stack is at
  least as deep as what is measured now, so it cannot be spread there again.
\<close>

definition stack_ok :: "'v fragments \<Rightarrow> nat \<Rightarrow> string list \<Rightarrow> bool" where
  "stack_ok fr d stack \<longleftrightarrow> (\<forall>name \<in> set stack. \<exists>ss ts. map_of fr name = Some ss \<and> all_written fr ss ts \<and> d \<le> set_depth ts)"

lemma stack_ok_less: "stack_ok fr d stack \<Longrightarrow> d' \<le> d \<Longrightarrow> stack_ok fr d' stack"
  unfolding stack_ok_def by (meson le_trans)

lemma stack_ok_push:
  "stack_ok fr d stack \<Longrightarrow> map_of fr name = Some ss \<Longrightarrow> all_written fr ss ts \<Longrightarrow> set_depth ts \<le> d
   \<Longrightarrow> stack_ok fr (set_depth ts) (stack @ [name])"
  using stack_ok_less [of fr d stack "set_depth ts"] unfolding stack_ok_def by auto

lemma stack_ok_absent:
  assumes "stack_ok fr d stack" and "map_of fr name = Some ss" and "all_written fr ss ts" and "set_depth ts < d"
  shows "name \<notin> set stack"
proof
  assume "name \<in> set stack"
  then obtain us where "all_written fr ss us" "d \<le> set_depth us"
    using assms(1,2) unfolding stack_ok_def by fastforce
  with assms(3,4) show False using all_written_unique by fastforce
qed

lemma depth_below_complete:
  assumes rec: "\<And>stack ss ts m. all_written fr ss ts \<Longrightarrow> set_depth ts \<le> calls \<Longrightarrow> stack_ok fr (set_depth ts) stack
      \<Longrightarrow> memo_ok set_depth fr m \<Longrightarrow> \<exists>m'. rec stack ss m = Inr (set_depth ts, m') \<and> memo_ok set_depth fr m'"
    and t: "written fr sel t" "below_depth t \<le> calls" "stack_ok fr (Suc (below_depth t)) stack"
    and ok: "memo_ok set_depth fr m"
  shows "\<exists>m'. depth_below rec fr stack sel m = Inr (below_depth t, m') \<and> memo_ok set_depth fr m'"
proof -
  have lower: "stack_ok fr (below_depth t) stack" by (rule stack_ok_less [OF t(3)]) simp
  show ?thesis using t(1)
  proof cases
    case (leaf name al args dirs)
    with ok show ?thesis by (simp add: depth_below_def)
  next
    case (field ss ts name al args dirs)
    with rec [of ss ts stack m] t ok lower show ?thesis by (simp add: depth_below_def)
  next
    case (inline ss ts dirs)
    with rec [of ss ts stack m] t ok lower show ?thesis by (simp add: depth_below_def)
  next
    case (spread name ss ts dirs)
    have absent: "name \<notin> set stack"
      using stack_ok_absent [OF _ spread(3,4)] t(3) spread(2) by simp
    show ?thesis
    proof (cases "map_of m name")
      case (Some d)
      with memo_okD [OF ok Some spread(3,4)] spread absent ok show ?thesis by (simp add: depth_below_def)
    next
      case None
      have "stack_ok fr (set_depth ts) (stack @ [name])"
        using stack_ok_push [OF t(3) spread(3,4)] spread(2) by simp
      then obtain m1 where "rec (stack @ [name]) ss m = Inr (set_depth ts, m1)" "memo_ok set_depth fr m1"
        using rec [OF spread(4) _ _ ok] t(2) spread(2) by auto
      with None spread absent memo_ok_update [OF _ spread(3,4)] show ?thesis by (simp add: depth_below_def)
    qed
  qed
qed

lemma depth_of_complete:
  "all_written fr ss ts \<Longrightarrow> set_depth ts \<le> calls \<Longrightarrow> stack_ok fr (set_depth ts) stack \<Longrightarrow> memo_ok set_depth fr m
   \<Longrightarrow> \<exists>m'. depth_of calls fr stack ss m = Inr (set_depth ts, m') \<and> memo_ok set_depth fr m'"
proof (induction calls arbitrary: stack ss ts m)
  case (Suc calls)
  let ?step = "\<lambda>sel (deepest, m). bind_r (depth_below (depth_of calls fr) fr stack sel m)
      (\<lambda>(below, m'). Inr (max deepest below, m'))"
  have "\<exists>d m'. fold_r ?step ss (a, m) = Inr (d, m') \<and> Suc d = max (Suc a) (set_depth ts) \<and> memo_ok set_depth fr m'" for a
    using Suc.prems
  proof (induction arbitrary: a m rule: list_all2_induct)
    case (Cons sel ss t ts)
    have "\<exists>m'. depth_below (depth_of calls fr) fr stack sel m = Inr (below_depth t, m') \<and> memo_ok set_depth fr m'"
      by (rule depth_below_complete [OF Suc.IH Cons(1) _ stack_ok_less [OF Cons(5)]]) (use Cons(4-) in auto)
    then obtain m1 where m1: "depth_below (depth_of calls fr) fr stack sel m = Inr (below_depth t, m1)"
      "memo_ok set_depth fr m1" by blast
    have "stack_ok fr (set_depth ts) stack" using Cons(5) stack_ok_less by fastforce
    then obtain d m' where "fold_r ?step ss (max a (below_depth t), m1) = Inr (d, m')"
      "Suc d = max (Suc (max a (below_depth t))) (set_depth ts)" "memo_ok set_depth fr m'"
      using Cons(3) [OF _ _ m1(2), of "max a (below_depth t)"] Cons(4) by auto
    with m1(1) show ?case by auto
  qed auto
  from this [of 0] show ?case by auto
qed simp

text \<open>So the depth check accepts exactly the documents that write out to at most 32 levels.\<close>

lemma check_depth_iff:
  assumes "MAX_DEPTH \<le> calls"
  shows "check_depth calls op fr = Inr () \<longleftrightarrow> (\<exists>ts. all_written fr (op_selection op) ts \<and> set_depth ts \<le> MAX_DEPTH)"
proof
  assume "check_depth calls op fr = Inr ()"
  then obtain d m where "depth_of calls fr [] (op_selection op) [] = Inr (d, m)" "d \<le> MAX_DEPTH"
    by (auto simp: check_depth_def split: sum.splits gql_raised.splits pyerr.splits if_splits)
  then show "\<exists>ts. all_written fr (op_selection op) ts \<and> set_depth ts \<le> MAX_DEPTH"
    using depth_of_sound [of calls fr "[]" "op_selection op" "[]" d m] by auto
next
  assume "\<exists>ts. all_written fr (op_selection op) ts \<and> set_depth ts \<le> MAX_DEPTH"
  then obtain ts where "all_written fr (op_selection op) ts" "set_depth ts \<le> MAX_DEPTH" by blast
  with assms depth_of_complete [of fr "op_selection op" ts calls "[]" "[]"] show "check_depth calls op fr = Inr ()"
    by (auto simp: check_depth_def stack_ok_def)
qed


text \<open>The memoised count is the count of the written-out document.\<close>

lemma nodes_below_counts:
  assumes rec: "\<And>ss ts m. all_written fr ss ts \<Longrightarrow> set_depth ts \<le> calls \<Longrightarrow> memo_ok set_nodes fr m
      \<Longrightarrow> \<exists>m'. rec ss m = Inr (set_nodes ts, m') \<and> memo_ok set_nodes fr m'"
    and t: "written fr sel t" "below_depth t \<le> calls" and ok: "memo_ok set_nodes fr m"
  shows "\<exists>m'. nodes_below rec fr sel m = Inr (below_nodes t, m') \<and> memo_ok set_nodes fr m'"
  using t(1)
proof cases
  case (leaf name al args dirs)
  with ok show ?thesis by (simp add: nodes_below_def)
next
  case (field ss ts name al args dirs)
  with rec [of ss ts m] t ok show ?thesis by (simp add: nodes_below_def)
next
  case (inline ss ts dirs)
  with rec [of ss ts m] t ok show ?thesis by (simp add: nodes_below_def)
next
  case (spread name ss ts dirs)
  show ?thesis
  proof (cases "map_of m name")
    case (Some n)
    with memo_okD [OF ok Some spread(3,4)] spread ok show ?thesis by (simp add: nodes_below_def)
  next
    case None
    obtain m1 where "rec ss m = Inr (set_nodes ts, m1)" "memo_ok set_nodes fr m1"
      using rec [OF spread(4) _ ok] t(2) spread(2) by auto
    with None spread memo_ok_update [OF _ spread(3,4)] show ?thesis by (simp add: nodes_below_def)
  qed
qed

lemma nodes_of_counts:
  "all_written fr ss ts \<Longrightarrow> set_depth ts \<le> calls \<Longrightarrow> memo_ok set_nodes fr m
   \<Longrightarrow> \<exists>m'. nodes_of calls fr ss m = Inr (set_nodes ts, m') \<and> memo_ok set_nodes fr m'"
proof (induction calls arbitrary: ss ts m)
  case (Suc calls)
  let ?step = "\<lambda>sel (total, m). bind_r (nodes_below (nodes_of calls fr) fr sel m) (\<lambda>(n, m'). Inr (total + 1 + n, m'))"
  have "\<exists>m'. fold_r ?step ss (a, m) = Inr (a + set_nodes ts, m') \<and> memo_ok set_nodes fr m'" for a
    using Suc.prems
  proof (induction arbitrary: a m rule: list_all2_induct)
    case (Cons sel ss t ts)
    have "\<exists>m'. nodes_below (nodes_of calls fr) fr sel m = Inr (below_nodes t, m') \<and> memo_ok set_nodes fr m'"
      by (rule nodes_below_counts [OF Suc.IH Cons(1)]) (use Cons(4-) in auto)
    then obtain m1 where m1: "nodes_below (nodes_of calls fr) fr sel m = Inr (below_nodes t, m1)" "memo_ok set_nodes fr m1"
      by blast
    from Cons(3) [OF _ m1(2), of "a + 1 + below_nodes t"] Cons(4) m1(1) show ?case by (auto simp: add.assoc)
  qed auto
  from this [of 0] show ?case by simp
qed simp

section \<open>The walks of an accepted document\<close>

definition levels :: "'v selection list option \<Rightarrow> nat" where
  "levels sel = (case sel of None \<Rightarrow> 0 | Some ts \<Rightarrow> 2 * set_depth ts)"

lemma levels_simps [simp]: "levels None = 0" "levels (Some ts) = 2 * set_depth ts"
  by (simp_all add: levels_def)

text \<open>A root of a document and the same root of the written-out document.\<close>

definition same_root :: "'v fragments \<Rightarrow> 'v root_field \<Rightarrow> 'v root_field \<Rightarrow> bool" where
  "same_root fr r r' \<longleftrightarrow> rf_name r = rf_name r' \<and> response_key r = response_key r' \<and> rf_arguments r = rf_arguments r'
     \<and> rel_option (all_written fr) (rf_selection r) (rf_selection r')"

lemma included_written: "written fr s t \<Longrightarrow> is_included core s vs = is_included core t vs"
  by (erule written.cases) (simp_all add: is_included_def)

text \<open>Both documents have the same roots, no more than the nodes of the written-out one, and each root is less deep.\<close>

definition roots_agree ::
  "'v fragments \<Rightarrow> nat \<Rightarrow> nat \<Rightarrow> pyerr + 'v root_field list \<Rightarrow> pyerr + 'v root_field list \<Rightarrow> bool" where
  "roots_agree fr n d a b \<longleftrightarrow> (\<exists>rs rs'. a = Inr rs \<and> b = Inr rs' \<and> list_all2 (same_root fr) rs rs' \<and> length rs \<le> n
     \<and> (\<forall>r \<in> set rs'. levels (rf_selection r) < 2 * d))"

lemma roots_agree_simps [simp]:
  "roots_agree fr n d (Inr []) (Inr [])"
  "roots_agree fr n d (Inr [r]) (Inr [r']) \<longleftrightarrow> same_root fr r r' \<and> 1 \<le> n \<and> levels (rf_selection r') < 2 * d"
  by (auto simp: roots_agree_def)

lemma roots_agree_mono:
  assumes "roots_agree fr n d a b" and "n \<le> n'" and "d \<le> d'"
  shows "roots_agree fr n' d' a b"
  using assms unfolding roots_agree_def by fastforce

lemma roots_below_agree:
  assumes rec: "\<And>ss ts. all_written fr ss ts \<Longrightarrow> set_depth ts \<le> calls
      \<Longrightarrow> roots_agree fr (set_nodes ts) (set_depth ts) (rec ss) (rec' ts)"
    and t: "written fr sel t" "below_depth t \<le> calls"
  shows "roots_agree fr (1 + below_nodes t) (Suc (below_depth t)) (roots_below rec core fr vs sel) (roots_below rec' core [] vs t)"
proof (cases "is_included core sel vs")
  case False
  then show ?thesis using included_written [OF t(1), of core vs] by (simp add: roots_below_def)
next
  case True
  note inc = True included_written [OF t(1), of core vs]
  have sub: "roots_agree fr (1 + set_nodes ts) (Suc (set_depth ts)) (rec ss) (rec' ts)"
    if "all_written fr ss ts" "set_depth ts \<le> calls" for ss ts
    by (rule roots_agree_mono [OF rec [OF that]]) simp_all
  show ?thesis using t(1)
    by cases (use inc t(2) sub in \<open>auto simp: roots_below_def same_root_def\<close>)
qed

lemma roots_agree_concat:
  assumes "list_all2 (\<lambda>s t. roots_agree fr (1 + below_nodes t) (Suc (below_depth t)) (f s) (g t)) ss ts"
  shows "roots_agree fr (set_nodes ts) (set_depth ts) (bind_r (collect_r (map f ss)) (\<lambda>rs. Inr (concat rs)))
    (bind_r (collect_r (map g ts)) (\<lambda>rs. Inr (concat rs)))"
  using assms
proof (induction rule: list_all2_induct)
  case (Cons s ss t ts)
  let ?d = "set_depth (t # ts)"
  have "roots_agree fr (1 + below_nodes t) ?d (f s) (g t)"
    by (rule roots_agree_mono [OF Cons(1)]) simp_all
  then obtain a a' where "f s = Inr a" "g t = Inr a'" "list_all2 (same_root fr) a a'" "length a \<le> 1 + below_nodes t"
    "\<forall>r \<in> set a'. levels (rf_selection r) < 2 * ?d"
    unfolding roots_agree_def by blast
  moreover have "roots_agree fr (set_nodes ts) ?d (bind_r (collect_r (map f ss)) (\<lambda>rs. Inr (concat rs)))
      (bind_r (collect_r (map g ts)) (\<lambda>rs. Inr (concat rs)))"
    by (rule roots_agree_mono [OF Cons(3)]) simp_all
  then obtain rs rs' where "collect_r (map f ss) = Inr rs" "collect_r (map g ts) = Inr rs'"
    "list_all2 (same_root fr) (concat rs) (concat rs')" "length (concat rs) \<le> set_nodes ts"
    "\<forall>r \<in> set (concat rs'). levels (rf_selection r) < 2 * ?d"
    unfolding roots_agree_def by (auto simp: bind_r_Inr_iff simp del: set_depth_simps)
  ultimately show ?case
    by (auto simp: roots_agree_def simp del: set_depth_simps intro: list_all2_appendI)
qed simp

lemma roots_of_agree:
  "all_written fr ss ts \<Longrightarrow> set_depth ts \<le> calls
   \<Longrightarrow> roots_agree fr (set_nodes ts) (set_depth ts) (roots_of calls core fr vs ss) (roots_of calls core [] vs ts)"
proof (induction calls arbitrary: ss ts)
  case (Suc calls)
  let ?one = "\<lambda>s. roots_below (roots_of calls core fr vs) core fr vs s"
    and ?one' = "\<lambda>t. roots_below (roots_of calls core [] vs) core [] vs t"
  have "list_all2 (\<lambda>s t. roots_agree fr (1 + below_nodes t) (Suc (below_depth t)) (?one s) (?one' t)) ss ts"
    using Suc.prems
  proof (induction rule: list_all2_induct)
    case (Cons s ss t ts)
    have "roots_agree fr (1 + below_nodes t) (Suc (below_depth t)) (?one s) (?one' t)"
      by (rule roots_below_agree [OF Suc.IH Cons(1)]) (use Cons(4) in auto)
    with Cons show ?case by auto
  qed simp
  from roots_agree_concat [OF this] show ?case by simp
qed simp

section \<open>Projection\<close>

lemma fold_r_mono:
  "(\<And>x s s'. f x s = Inr s' \<Longrightarrow> g x s = Inr s') \<Longrightarrow> fold_r f xs s = Inr out \<Longrightarrow> fold_r g xs s = Inr out"
  by (induction xs arbitrary: s) (auto simp: bind_r_Inr_iff)

lemma collect_r_mono:
  "(\<And>x y. x \<in> set xs \<Longrightarrow> f x = Inr y \<Longrightarrow> g x = Inr y) \<Longrightarrow> collect_r (map f xs) = Inr ys \<Longrightarrow> collect_r (map g xs) = Inr ys"
  by (induction xs arbitrary: ys) (auto simp: bind_r_Inr_iff)

lemma fold_r_append: "fold_r f (xs @ ys) s = bind_r (fold_r f xs s) (fold_r f ys)"
  by (induction xs arbitrary: s) (auto simp: bind_r_def split: sum.split)

text \<open>A reply that was shaped stays the same with a larger stack.\<close>

lemma fill_one_mono:
  assumes "fill_one prj fll core rq stub sel shaped = Inr out"
    and "\<And>v below w. prj v below = Inr w \<Longrightarrow> prj' v below = Inr w"
    and "\<And>sels sh o'. fll sels sh = Inr o' \<Longrightarrow> fll' sels sh = Inr o'"
  shows "fill_one prj' fll' core rq stub sel shaped = Inr out"
  using assms(1) by (cases sel) (auto simp: fill_one_def bind_r_Inr_iff intro: assms(2,3) split: if_splits option.splits)

lemma project_Suc:
  "project calls core rq stub sel = Inr v \<Longrightarrow> project (Suc calls) core rq stub sel = Inr v"
  "fill calls core rq stub sels shaped = Inr out \<Longrightarrow> fill (Suc calls) core rq stub sels shaped = Inr out"
proof (induction calls arbitrary: stub sel v sels shaped out)
  case (Suc calls)
  {
    case 1
    show ?case
    proof (cases sel)
      case (Some ss)
      show ?thesis
      proof (cases stub)
        case (VList items)
        with 1 Some obtain vs where vs: "collect_r (map (\<lambda>item. project calls core rq item sel) items) = Inr vs" "v = VList vs"
          by (auto simp: bind_r_Inr_iff)
        have "collect_r (map (\<lambda>item. project (Suc calls) core rq item sel) items) = Inr vs"
          by (rule collect_r_mono [OF Suc.IH(1) vs(1)])
        with VList Some vs(2) show ?thesis by (simp only: project.simps(2) option.case pyval.case bind_r_simps)
      next
        case (VDict kvs)
        with 1 Some obtain shaped where shaped: "fill calls core rq stub ss [] = Inr shaped" "v = VDict shaped"
          by (auto simp: bind_r_Inr_iff)
        with VDict Some Suc.IH(2) [OF shaped(1)] show ?thesis
          by (simp only: project.simps(2) option.case pyval.case bind_r_simps)
      qed (use 1 Some in auto)
    qed (use 1 in simp)
  next
    case 2
    have "fold_r (fill_one (project calls core rq) (fill calls core rq stub) core rq stub) sels shaped = Inr out"
      using 2 by simp
    then have "fold_r (fill_one (project (Suc calls) core rq) (fill (Suc calls) core rq stub) core rq stub) sels shaped = Inr out"
    proof (rule fold_r_mono [rotated])
      fix sel sh o'
      assume "fill_one (project calls core rq) (fill calls core rq stub) core rq stub sel sh = Inr o'"
      then show "fill_one (project (Suc calls) core rq) (fill (Suc calls) core rq stub) core rq stub sel sh = Inr o'"
        by (rule fill_one_mono) (rule Suc.IH, assumption)+
    qed
    then show ?case by (simp only: fill.simps(2))
  }
qed simp_all

lemma project_more: "project calls core rq stub sel = Inr v \<Longrightarrow> calls \<le> calls' \<Longrightarrow> project calls' core rq stub sel = Inr v"
proof -
  assume v: "project calls core rq stub sel = Inr v" and "calls \<le> calls'"
  then obtain k where k: "calls' = calls + k" using le_Suc_ex by blast
  have "project (calls + k) core rq stub sel = Inr v"
    by (induction k) (simp_all only: v add_0_right add_Suc_right project_Suc)
  then show ?thesis using k by simp
qed

text \<open>Shaping a dict is one entry for each root of the selection set, in order, under its response key.\<close>

definition put_root ::
  "nat \<Rightarrow> 'v graphql_core \<Rightarrow> 'v gql_request \<Rightarrow> pyval \<Rightarrow> 'v root_field \<Rightarrow> (pyval \<times> pyval) list \<Rightarrow> pyerr + (pyval \<times> pyval) list" where
  "put_root calls core rq stub r shaped =
     bind_r (project calls core rq (vget_or stub (rf_name r) VNone) (rf_selection r)) (\<lambda>v.
       Inr (pd_put (VStr (response_key r)) v shaped))"

lemma fill_one_roots:
  assumes "\<And>sels sh o' rs. fll sels sh = Inr o' \<Longrightarrow> rec sels = Inr rs \<Longrightarrow> fold_r (put_root calls core rq stub) rs sh = Inr o'"
    and "fill_one (project calls core rq) fll core rq stub sel shaped = Inr out"
    and "roots_below rec core (gq_fragments rq) (gq_variables rq) sel = Inr rs"
  shows "fold_r (put_root calls core rq stub) rs shaped = Inr out"
  using assms(2,3)
  by (cases sel) (auto simp: fill_one_def roots_below_def put_root_def bind_r_Inr_iff intro: assms(1) split: if_splits option.splits)

lemma put_root_Suc: "put_root calls core rq stub r sh = Inr o' \<Longrightarrow> put_root (Suc calls) core rq stub r sh = Inr o'"
  by (auto simp: put_root_def bind_r_Inr_iff simp del: project.simps dest: project_Suc)

lemma fill_roots:
  "fill calls core rq stub sels shaped = Inr out \<Longrightarrow> roots_of calls core (gq_fragments rq) (gq_variables rq) sels = Inr rs
   \<Longrightarrow> fold_r (put_root calls core rq stub) rs shaped = Inr out"
proof (induction calls arbitrary: sels shaped out rs)
  case (Suc calls)
  let ?fill = "fill_one (project calls core rq) (fill calls core rq stub) core rq stub"
  let ?roots = "roots_below (roots_of calls core (gq_fragments rq) (gq_variables rq)) core (gq_fragments rq) (gq_variables rq)"
  have "fold_r (put_root calls core rq stub) (concat rss) shaped = Inr out"
    if "fold_r ?fill sels shaped = Inr out" "collect_r (map ?roots sels) = Inr rss" for rss
    using that
  proof (induction sels arbitrary: shaped rss)
    case (Cons sel sels)
    then obtain sh r rest where "?fill sel shaped = Inr sh" "?roots sel = Inr r" "rss = r # rest"
      "fold_r ?fill sels sh = Inr out" "collect_r (map ?roots sels) = Inr rest"
      by (auto simp: bind_r_Inr_iff)
    with Cons.IH fill_one_roots [OF Suc.IH] show ?case by (auto simp: fold_r_append)
  qed auto
  with Suc.prems obtain rss where "rs = concat rss" "fold_r (put_root calls core rq stub) (concat rss) shaped = Inr out"
    by (auto simp: bind_r_Inr_iff)
  then show ?case using fold_r_mono [where f = "put_root calls core rq stub", OF put_root_Suc] by simp
qed simp


text \<open>The calls that shaping needs: two for each level of the selection, and one for each list inside a list.\<close>

function nest :: "pyval \<Rightarrow> nat" where
  "nest (VList xs) = Suc (highest (map nest xs))"
| "nest (VDict kvs) = highest (map (\<lambda>kv. nest (snd kv)) kvs)"
| "nest VNone = 0" | "nest (VBool b) = 0" | "nest (VInt i) = 0" | "nest (VFloat x) = 0"
| "nest (VStr t) = 0" | "nest (VBytes t) = 0" | "nest (VTuple xs) = 0"
  by pat_completeness auto

termination
  by (relation "measure size") (auto simp: size_mem dest: size_pair_mem)

lemma highest_ge: "n \<in> set ns \<Longrightarrow> n \<le> highest ns"
  by (induction ns) auto

lemma nest_item: "v \<in> set xs \<Longrightarrow> nest v < nest (VList xs)"
  by (simp add: highest_ge less_Suc_eq_le)

lemma nest_value: "nest (vget_or (VDict kvs) name VNone) \<le> nest (VDict kvs)"
proof (cases "pd_lookup (VStr name) kvs")
  case (Some v)
  then have "v \<in> snd ` set kvs" by (induction kvs) (auto split: if_splits)
  then have "nest v \<in> set (map (\<lambda>kv. nest (snd kv)) kvs)" by force
  with highest_ge [OF this] Some show ?thesis by (simp add: vget_or_def)
qed (simp add: vget_or_def)

lemma collect_r_agree:
  "\<forall>x \<in> set xs. \<exists>y. f x = Inr y \<and> g x = Inr y \<Longrightarrow> \<exists>ys. collect_r (map f xs) = Inr ys \<and> collect_r (map g xs) = Inr ys"
  by (induction xs) auto

lemma fill_one_agree:
  assumes prj: "\<And>v sel sel'. rel_option (all_written (gq_fragments rq)) sel sel' \<Longrightarrow> levels sel' + nest v < calls
      \<Longrightarrow> \<exists>w. prj v sel = Inr w \<and> prj' v sel' = Inr w"
    and fll: "\<And>ss ts sh. all_written (gq_fragments rq) ss ts \<Longrightarrow> 2 * set_depth ts + nest (VDict kvs) \<le> calls
      \<Longrightarrow> \<exists>o'. fll ss sh = Inr o' \<and> fll' ts sh = Inr o'"
    and t: "written (gq_fragments rq) sel t" "2 * below_depth t + nest (VDict kvs) < calls"
  shows "\<exists>o'. fill_one prj fll core rq (VDict kvs) sel sh = Inr o'
    \<and> fill_one prj' fll' core (rq\<lparr>gq_fragments := []\<rparr>) (VDict kvs) t sh = Inr o'"
proof (cases "is_included core sel (gq_variables rq)")
  case False
  then show ?thesis using included_written [OF t(1), of core "gq_variables rq"] by (simp add: fill_one_def)
next
  case True
  note inc = True included_written [OF t(1), of core "gq_variables rq"]
  have entry: "\<exists>w. prj (vget_or (VDict kvs) name VNone) below = Inr w \<and> prj' (vget_or (VDict kvs) name VNone) below' = Inr w"
    if "rel_option (all_written (gq_fragments rq)) below below'" "levels below' + nest (VDict kvs) < calls" for below below' name
    using prj [OF that(1), of "vget_or (VDict kvs) name VNone"] that(2) nest_value [of kvs name] by simp
  show ?thesis using t(1)
  proof cases
    case (leaf name al args dirs)
    with inc t(2) entry [of None None name] show ?thesis by (auto simp: fill_one_def)
  next
    case (field ss ts name al args dirs)
    with inc t(2) entry [of "Some ss" "Some ts" name] show ?thesis by (auto simp: fill_one_def)
  next
    case (inline ss ts dirs)
    with inc t(2) fll [of ss ts sh] show ?thesis by (auto simp: fill_one_def)
  next
    case (spread name ss ts dirs)
    with inc t(2) fll [of ss ts sh] show ?thesis by (auto simp: fill_one_def)
  qed
qed

lemma project_agree:
  "rel_option (all_written (gq_fragments rq)) sel sel' \<Longrightarrow> levels sel' + nest stub < calls
   \<Longrightarrow> \<exists>v. project calls core rq stub sel = Inr v \<and> project calls core (rq\<lparr>gq_fragments := []\<rparr>) stub sel' = Inr v"
  "all_written (gq_fragments rq) ss ts \<Longrightarrow> 2 * set_depth ts + nest (VDict kvs) \<le> calls
   \<Longrightarrow> \<exists>out. fill calls core rq (VDict kvs) ss shaped = Inr out
     \<and> fill calls core (rq\<lparr>gq_fragments := []\<rparr>) (VDict kvs) ts shaped = Inr out"
proof (induction calls arbitrary: stub sel sel' ss ts kvs shaped)
  case (Suc calls)
  let ?rq = "rq\<lparr>gq_fragments := []\<rparr>"
  {
    case 1
    show ?case
    proof (cases sel)
      case None
      with 1 show ?thesis by simp
    next
      case (Some us)
      with 1 obtain vs where vs: "sel' = Some vs" "all_written (gq_fragments rq) us vs" by (auto elim: option.rel_cases)
      show ?thesis
      proof (cases stub)
        case (VList items)
        have "\<forall>item \<in> set items. \<exists>v. project calls core rq item sel = Inr v \<and> project calls core ?rq item sel' = Inr v"
          using Suc.IH(1) [OF 1(1)] 1(2) nest_item [of _ items] VList by fastforce
        from collect_r_agree [OF this] Some vs VList show ?thesis by auto
      next
        case (VDict kvs)
        with Suc.IH(2) [OF vs(2), of kvs "[]"] 1(2) vs Some show ?thesis by auto
      qed (use Some vs in auto)
    qed
  next
    case 2
    let ?one = "fill_one (project calls core rq) (fill calls core rq (VDict kvs)) core rq (VDict kvs)"
      and ?one' = "fill_one (project calls core ?rq) (fill calls core ?rq (VDict kvs)) core ?rq (VDict kvs)"
    have "\<exists>out. fold_r ?one ss shaped = Inr out \<and> fold_r ?one' ts shaped = Inr out"
      using 2
    proof (induction arbitrary: shaped rule: list_all2_induct)
      case (Cons s ss t ts)
      have "\<exists>sh. ?one s shaped = Inr sh \<and> ?one' t shaped = Inr sh"
        by (rule fill_one_agree [OF Suc.IH Cons(1)]) (use Cons(4) in \<open>auto simp: max_def split: if_splits\<close>)
      then obtain sh where "?one s shaped = Inr sh" "?one' t shaped = Inr sh" by blast
      moreover have "2 * set_depth ts + nest (VDict kvs) \<le> Suc calls"
        using Cons(4) by (auto simp: max_def split: if_splits)
      ultimately show ?case using Cons(3) [of sh] by auto
    qed simp
    then show ?case by simp
  }
qed simp_all


section \<open>The request\<close>

text \<open>The measure of the depth raises nothing but a refusal or \<open>RecursionError\<close>.\<close>

definition fault_kinds :: "string set" where
  "fault_kinds = {''not_json'', ''batch'', ''bad_shape'', ''parse'', ''validation'', ''operation''}"

definition refusal :: "gql_raised \<Rightarrow> bool" where
  "refusal e \<longleftrightarrow> (\<exists>knd \<in> fault_kinds. \<exists>msg. e = GraphQLRequestError knd msg)"

lemma refusal_simps [simp]:
  "refusal (GraphQLRequestError knd msg) \<longleftrightarrow> knd \<in> fault_kinds" "\<not> refusal (GqlRaised x)"
  "''not_json'' \<in> fault_kinds" "''batch'' \<in> fault_kinds" "''bad_shape'' \<in> fault_kinds"
  "''parse'' \<in> fault_kinds" "''validation'' \<in> fault_kinds" "''operation'' \<in> fault_kinds"
  by (simp_all add: refusal_def fault_kinds_def)

lemma depth_below_raises:
  assumes "\<And>stack ss m e. rec stack ss m = Inl e \<Longrightarrow> refusal e \<or> e = GqlRaised RecursionError"
    and "depth_below rec fr stack sel m = Inl e"
  shows "refusal e \<or> e = GqlRaised RecursionError"
  using assms(2)
  by (cases sel) (auto simp: depth_below_def bind_r_Inl_iff dest: assms(1) split: if_splits option.splits prod.splits)

lemma depth_of_raises: "depth_of calls fr stack ss m = Inl e \<Longrightarrow> refusal e \<or> e = GqlRaised RecursionError"
proof (induction calls arbitrary: stack ss m e)
  case (Suc calls)
  let ?step = "\<lambda>sel (deepest, m). bind_r (depth_below (depth_of calls fr) fr stack sel m)
      (\<lambda>(below, m'). Inr (max deepest below, m'))"
  have one: "refusal e \<or> e = GqlRaised RecursionError" if "depth_below (depth_of calls fr) fr stack sel m = Inl e" for sel m e
    using that by (rule depth_below_raises [rotated]) (rule Suc.IH)
  have "refusal e \<or> e = GqlRaised RecursionError" if "fold_r ?step ss st = Inl e" for st
    using that by (induction ss arbitrary: st) (auto simp: bind_r_Inl_iff dest: one split: prod.splits)
  with Suc.prems show ?case by (auto simp: bind_r_Inl_iff split: prod.splits)
qed simp

lemma check_depth_refuses: "check_depth calls op fr = Inl e \<Longrightarrow> refusal e"
  by (auto simp: check_depth_def dest: depth_of_raises split: sum.splits gql_raised.splits pyerr.splits if_splits)

text \<open>What an accepted request is: its document writes out within the two limits.\<close>

definition accepted :: "nat \<Rightarrow> 'v graphql_core \<Rightarrow> 'v definition_node list \<Rightarrow> 'v operation_node \<Rightarrow> 'v gql_request \<Rightarrow> bool" where
  "accepted calls core ds op rq \<longleftrightarrow>
     gq_operation rq = op_kind op \<and> gq_fragments rq = fragments_of ds \<and> gq_method rq = method_of (gq_roots rq)
     \<and> roots_of calls core (gq_fragments rq) (gq_variables rq) (op_selection op) = Inr (gq_roots rq)
     \<and> (\<exists>ts. all_written (gq_fragments rq) (op_selection op) ts \<and> set_depth ts \<le> MAX_DEPTH \<and> set_nodes ts \<le> MAX_NODES)"

lemma read_operation_cases:
  assumes "MAX_DEPTH \<le> calls"
  shows "case read_operation calls core body ds op of
      Inl e \<Rightarrow> refusal e | Inr rq \<Rightarrow> accepted calls core ds op rq"
proof (cases "check_depth calls op (fragments_of ds)")
  case (Inl e)
  with check_depth_refuses [OF Inl] show ?thesis by (simp add: read_operation_def Let_def)
next
  case (Inr u)
  then obtain ts where ts: "all_written (fragments_of ds) (op_selection op) ts" "set_depth ts \<le> MAX_DEPTH"
    using check_depth_iff [OF assms, of op "fragments_of ds"] by auto
  then have fits: "set_depth ts \<le> calls" using assms by simp
  obtain m where nodes: "nodes_of calls (fragments_of ds) (op_selection op) [] = Inr (set_nodes ts, m)"
    using nodes_of_counts [OF ts(1) fits memo_ok_Nil] by blast
  let ?vs = "variables_of core op (text_items (py_or (vget_or body ''variables'' VNone) (VDict [])))"
  obtain rs where "roots_of calls core (fragments_of ds) ?vs (op_selection op) = Inr rs"
    using roots_of_agree [OF ts(1) fits, of core ?vs] unfolding roots_agree_def by blast
  with Inr nodes ts show ?thesis by (auto simp: read_operation_def check_nodes_def accepted_def Let_def)
qed

lemma choose_operation_refuses: "choose_operation ds name = Inl e \<Longrightarrow> refusal e"
  by (auto simp: choose_operation_def split: list.splits pyval.splits option.splits if_splits)

lemma parse_request_cases:
  assumes "MAX_DEPTH \<le> calls"
  shows "case parse_graphql_request calls why core raw of
      Inl e \<Rightarrow> refusal e | Inr rq \<Rightarrow> \<exists>ds op. accepted calls core ds op rq"
proof (cases "read_object why raw")
  case (Inl e)
  then have "refusal e" by (auto simp: read_object_def split: if_splits option.splits)
  with Inl show ?thesis by (simp add: parse_graphql_request_def)
next
  case (Inr body)
  note body = Inr
  show ?thesis
  proof (cases "check_shape body")
    case (Inl e)
    then have "refusal e" by (auto simp: check_shape_def Let_def split: if_splits)
    with body Inl show ?thesis by (simp add: parse_graphql_request_def)
  next
    case (Inr u)
    note read = body Inr
    have "case (bind_r (parse_document core t) (\<lambda>ds.
        bind_r (choose_operation ds (vget_or body ''operationName'' VNone)) (read_operation calls core body ds))) of
        Inl e \<Rightarrow> refusal e | Inr rq \<Rightarrow> \<exists>ds op. accepted calls core ds op rq" for t
    proof (cases "parse_document core t")
      case (Inl e)
      then have "refusal e" by (auto simp: parse_document_def split: parsed_text.splits)
      with Inl show ?thesis by simp
    next
      case (Inr ds)
      have "read_operation calls core body ds op = Inl e \<Longrightarrow> refusal e"
        "read_operation calls core body ds op = Inr rq \<Longrightarrow> accepted calls core ds op rq" for op e rq
        using read_operation_cases [OF assms, where core = core and body = body and ds = ds and op = op] by simp_all
      with Inr show ?thesis
        by (cases "choose_operation ds (vget_or body ''operationName'' VNone)")
          (auto dest: choose_operation_refuses split: sum.splits, blast)
    qed
    with read show ?thesis
      by (cases "vget_or body ''query'' VNone") (simp_all add: parse_graphql_request_def)
  qed
qed

text \<open>Every root of an accepted request has a selection that writes out, with room below the limit.\<close>

lemma accepted_root:
  assumes "accepted calls core ds op rq" and "MAX_DEPTH \<le> calls" and "r \<in> set (gq_roots rq)"
  shows "\<exists>sel. rel_option (all_written (gq_fragments rq)) (rf_selection r) sel \<and> levels sel < 2 * MAX_DEPTH"
proof -
  from assms(1) obtain ts where ts: "all_written (gq_fragments rq) (op_selection op) ts" "set_depth ts \<le> MAX_DEPTH"
    and rs: "roots_of calls core (gq_fragments rq) (gq_variables rq) (op_selection op) = Inr (gq_roots rq)"
    unfolding accepted_def by blast
  from roots_of_agree [OF ts(1), of calls core "gq_variables rq"] ts(2) assms(2) rs obtain rs' where
    rs': "list_all2 (same_root (gq_fragments rq)) (gq_roots rq) rs'" "\<forall>r \<in> set rs'. levels (rf_selection r) < 2 * set_depth ts"
    unfolding roots_agree_def by auto
  then obtain r' where "r' \<in> set rs'" "same_root (gq_fragments rq) r r'"
    using assms(3) unfolding list_all2_conv_all_nth in_set_conv_nth by metis
  with rs'(2) ts(2) show ?thesis unfolding same_root_def by fastforce
qed

lemma accepted_bounded:
  assumes "accepted calls core ds op rq" and "MAX_DEPTH \<le> calls"
  shows "length (gq_roots rq) \<le> MAX_NODES"
proof -
  from assms(1) obtain ts where ts: "all_written (gq_fragments rq) (op_selection op) ts" "set_depth ts \<le> MAX_DEPTH"
      "set_nodes ts \<le> MAX_NODES"
    and rs: "roots_of calls core (gq_fragments rq) (gq_variables rq) (op_selection op) = Inr (gq_roots rq)"
    unfolding accepted_def by blast
  with roots_of_agree [OF ts(1), of calls core "gq_variables rq"] assms(2) show ?thesis unfolding roots_agree_def by auto
qed


lemma accepted_projects:
  assumes "parse_graphql_request calls why core raw = Inr rq" and "MAX_DEPTH \<le> calls"
    and "r \<in> set (gq_roots rq)" and "2 * MAX_DEPTH + nest stub \<le> n"
  shows "\<exists>v. project n core rq stub (rf_selection r) = Inr v"
proof -
  from parse_request_cases [OF assms(2), where why = why and core = core and raw = raw] assms(1)
  obtain ds op where acc: "accepted calls core ds op rq" by auto
  obtain sel where "rel_option (all_written (gq_fragments rq)) (rf_selection r) sel" "levels sel < 2 * MAX_DEPTH"
    using accepted_root [OF acc assms(2,3)] by blast
  then show ?thesis using project_agree(1) [of rq "rf_selection r" sel stub n core] assms(4) by auto
qed

section \<open>Properties\<close>

text \<open>
  C35. The two checks are exact. The depth check of a request (which walks every fragment once, with a
  memo, and looks for cycles on a stack) accepts exactly the documents whose fragments can be
  written out to at most 32 nested selection sets, and the node check then accepts exactly those of
  at most 300 written-out nodes. The measures are the plain ones of the written-out document.
\<close>

theorem document_checks_exact:
  assumes "MAX_DEPTH \<le> calls"
  shows "(check_depth calls op fr = Inr () \<longleftrightarrow> (\<exists>ts. all_written fr (op_selection op) ts \<and> set_depth ts \<le> MAX_DEPTH))
    \<and> (\<forall>ts. all_written fr (op_selection op) ts \<and> set_depth ts \<le> MAX_DEPTH
         \<longrightarrow> (check_nodes calls op fr = Inr () \<longleftrightarrow> set_nodes ts \<le> MAX_NODES))"
proof (intro conjI allI impI)
  show "check_depth calls op fr = Inr () \<longleftrightarrow> (\<exists>ts. all_written fr (op_selection op) ts \<and> set_depth ts \<le> MAX_DEPTH)"
    using assms by (rule check_depth_iff)
next
  fix ts
  assume ts: "all_written fr (op_selection op) ts \<and> set_depth ts \<le> MAX_DEPTH"
  with assms obtain m where "nodes_of calls fr (op_selection op) [] = Inr (set_nodes ts, m)"
    using nodes_of_counts [of fr "op_selection op" ts calls "[]"] by auto
  then show "check_nodes calls op fr = Inr () \<longleftrightarrow> set_nodes ts \<le> MAX_NODES"
    by (auto simp: check_nodes_def)
qed

text \<open>
  C36. Reading a request ends, whatever the body and whatever its fragments spread. With 32 calls of
  stack the reader either refuses the body with a \<open>GraphQLRequestError\<close> of one of its six kinds, and
  raises nothing else, or gives a request of at most 300 roots whose name is the names of its roots.
  Shaping any stub by a root of that request ends too: 65 calls and the nesting of the lists of the
  stub are enough.
\<close>

theorem graphql_reading_ends:
  assumes "MAX_DEPTH \<le> calls"
  shows "case parse_graphql_request calls why core raw of
      Inl e \<Rightarrow> refusal e
    | Inr rq \<Rightarrow> length (gq_roots rq) \<le> MAX_NODES \<and> gq_method rq = method_of (gq_roots rq)
        \<and> (\<forall>r \<in> set (gq_roots rq). \<forall>stub. \<forall>n \<ge> 2 * MAX_DEPTH + nest stub.
              \<exists>v. project n core rq stub (rf_selection r) = Inr v)"
proof (cases "parse_graphql_request calls why core raw")
  case (Inl e)
  with parse_request_cases [OF assms, where why = why and core = core and raw = raw] show ?thesis by simp
next
  case (Inr rq)
  with parse_request_cases [OF assms, where why = why and core = core and raw = raw] obtain ds op where acc: "accepted calls core ds op rq" by auto
  have "\<exists>v. project n core rq stub (rf_selection r) = Inr v"
    if "r \<in> set (gq_roots rq)" "2 * MAX_DEPTH + nest stub \<le> n" for r stub n
    using accepted_projects [OF Inr assms that] .
  with Inr acc accepted_bounded [OF acc assms] show ?thesis by (auto simp: accepted_def)
qed

text \<open>
  C37. Shaping a dict by the selection set of a root gives one entry for each field that the set asks
  for once its fragments are expanded and its skipped fields are left out: under the alias of the field, and
  with the value of the stub shaped by the selection set of the field. The reply is the one of the
  request with every fragment written out.
\<close>

theorem projection_follows_selection:
  assumes "parse_graphql_request calls why core raw = Inr rq" and "MAX_DEPTH \<le> calls"
    and "r \<in> set (gq_roots rq)" and "rf_selection r = Some ss"
    and "2 * MAX_DEPTH + nest (VDict kvs) \<le> n"
  shows "\<exists>roots out ts. roots_of n core (gq_fragments rq) (gq_variables rq) ss = Inr roots
    \<and> project (Suc n) core rq (VDict kvs) (Some ss) = Inr (VDict out)
    \<and> fold_r (put_root n core rq (VDict kvs)) roots [] = Inr out
    \<and> all_written (gq_fragments rq) ss ts
    \<and> project (Suc n) core (rq\<lparr>gq_fragments := []\<rparr>) (VDict kvs) (Some ts) = Inr (VDict out)"
proof -
  from parse_request_cases [OF assms(2), where why = why and core = core and raw = raw] assms(1) obtain ds op where
    acc: "accepted calls core ds op rq" by auto
  obtain sel where "rel_option (all_written (gq_fragments rq)) (rf_selection r) sel" "levels sel < 2 * MAX_DEPTH"
    using accepted_root [OF acc assms(2,3)] by blast
  with assms(4) obtain ts where ts: "all_written (gq_fragments rq) ss ts" "2 * set_depth ts < 2 * MAX_DEPTH"
    by (auto elim: option.rel_cases)
  with assms(5) obtain out where out: "fill n core rq (VDict kvs) ss [] = Inr out"
    "fill n core (rq\<lparr>gq_fragments := []\<rparr>) (VDict kvs) ts [] = Inr out"
    using project_agree(2) [of rq ss ts kvs n core "[]"] by auto
  moreover have "set_depth ts \<le> n" using ts(2) assms(5) by simp
  then obtain roots where "roots_of n core (gq_fragments rq) (gq_variables rq) ss = Inr roots"
    using roots_of_agree [OF ts(1), of n core "gq_variables rq"] unfolding roots_agree_def by blast
  ultimately show ?thesis using ts(1) fill_roots [OF out(1)] by auto
qed


section \<open>A request with fragments\<close>

definition sample_operation :: "pyval operation_node" where
  "sample_operation = \<lparr>op_kind = ''query'', op_name = None, op_variables = [], op_selection = [FragmentSpreadNode ''F'' []]\<rparr>"

definition sample_document :: "pyval definition_node list" where
  "sample_document = [OperationDefinitionNode sample_operation,
     FragmentDefinitionNode ''F'' [FieldNode ''epoch'' None [] []
       (Some [FragmentSpreadNode ''G'' [], FieldNode ''price'' None [] [(''skip'', [(''if'', VBool True)])] None])],
     FragmentDefinitionNode ''G'' [FieldNode ''epochId'' (Some ''number'') [] [] None]]"

definition sample_core :: "pyval graphql_core" where
  "sample_core = \<lparr>gq_parse = (\<lambda>_. Document sample_document), gq_value = (\<lambda>v _. Some v), gq_constant = (\<lambda>v. v)\<rparr>"

definition sample_body :: string where
  "sample_body = ''{'' @ quote @ ''query'' @ quote @ '':'' @ quote @ ''q'' @ quote @ ''}''"

definition sample_selection :: "pyval selection list" where
  "sample_selection = [FragmentSpreadNode ''G'' [], FieldNode ''price'' None [] [(''skip'', [(''if'', VBool True)])] None]"

definition sample_root :: "pyval root_field" where
  "sample_root = \<lparr>rf_name = ''epoch'', response_key = ''epoch'', rf_arguments = [], rf_selection = Some sample_selection\<rparr>"

definition sample_gql :: "pyval gql_request" where
  "sample_gql = \<lparr>gq_operation = ''query'',
     gq_roots = [sample_root],
     gq_method = ''epoch'', gq_request_id = VNone, gq_variables = [], gq_fragments = fragments_of sample_document\<rparr>"

lemma sample_parsed: "parse_graphql_request 32 (\<lambda>b. b) sample_core sample_body = Inr sample_gql"
  by code_simp

theorem document_checks_exact_witness:
  "check_depth 32 sample_operation (fragments_of sample_document) = Inr ()
   \<and> (\<exists>ts. all_written (fragments_of sample_document) (op_selection sample_operation) ts \<and> set_depth ts \<le> MAX_DEPTH)"
proof -
  have ok: "check_depth 32 sample_operation (fragments_of sample_document) = Inr ()" by code_simp
  have "MAX_DEPTH \<le> 32" by (simp add: MAX_DEPTH_def)
  from document_checks_exact [OF this, of sample_operation "fragments_of sample_document"] ok show ?thesis by blast
qed

theorem graphql_reading_ends_witness:
  "parse_graphql_request 32 (\<lambda>b. b) sample_core sample_body = Inr sample_gql
   \<and> (\<exists>v. project 100 sample_core sample_gql (jobj [(''epochId'', VInt 7)]) (Some sample_selection) = Inr v)"
proof -
  have lim: "MAX_DEPTH \<le> 32" by (simp add: MAX_DEPTH_def)
  have "\<exists>v. project 100 sample_core sample_gql (jobj [(''epochId'', VInt 7)]) (rf_selection r) = Inr v"
    if "r \<in> set (gq_roots sample_gql)" for r
    using graphql_reading_ends [OF lim, where why = "\<lambda>b. b" and core = sample_core and raw = sample_body] that
    by (auto simp: sample_parsed MAX_DEPTH_def jobj_def)
  then show ?thesis using sample_parsed by (simp add: sample_gql_def sample_root_def)
qed

theorem projection_follows_selection_witness:
  "project 101 sample_core sample_gql (jobj [(''epochId'', VInt 7)]) (Some sample_selection) = Inr (jobj [(''number'', VInt 7)])
   \<and> (\<exists>roots. roots_of 100 sample_core (gq_fragments sample_gql) [] sample_selection = Inr roots \<and> length roots = 1)"
proof -
  have "\<exists>roots out ts. roots_of 100 sample_core (gq_fragments sample_gql) (gq_variables sample_gql) sample_selection = Inr roots
    \<and> project (Suc 100) sample_core sample_gql (VDict [(VStr ''epochId'', VInt 7)]) (Some sample_selection) = Inr (VDict out)
    \<and> fold_r (put_root 100 sample_core sample_gql (VDict [(VStr ''epochId'', VInt 7)])) roots [] = Inr out
    \<and> all_written (gq_fragments sample_gql) sample_selection ts
    \<and> project (Suc 100) sample_core (sample_gql\<lparr>gq_fragments := []\<rparr>) (VDict [(VStr ''epochId'', VInt 7)]) (Some ts) = Inr (VDict out)"
    by (rule projection_follows_selection [OF sample_parsed, where r = sample_root])
      (simp_all add: MAX_DEPTH_def sample_gql_def sample_root_def)
  moreover have "project (Suc 100) sample_core sample_gql (VDict [(VStr ''epochId'', VInt 7)]) (Some sample_selection)
    = Inr (VDict [(VStr ''number'', VInt 7)])" by code_simp
  moreover have "roots_of 100 sample_core (gq_fragments sample_gql) (gq_variables sample_gql) sample_selection
    = Inr [\<lparr>rf_name = ''epochId'', response_key = ''number'', rf_arguments = [], rf_selection = None\<rparr>]" by code_simp
  ultimately show ?thesis by (simp add: jobj_def sample_gql_def)
qed

end
