(* ===== verification/SuiFacts.thy ===== *)
theory SuiFacts
  imports GraphqlListener GraphqlFacts
begin

text \<open>
  What a simulated Sui provider promises: checkpoints that two providers agree on, transactions that are found
  after they ran, and replies that report each failed root beside the others.
\<close>

section \<open>Checkpoints\<close>

text \<open>The tip for an integer delay, and the digest of a checkpoint number.\<close>

definition int_tip :: "int \<Rightarrow> int \<Rightarrow> int" where
  "int_tip h b = min SUI_MAX_CHECKPOINT (max 0 (h - b))"

definition number_digest :: "(string \<Rightarrow> string) \<Rightarrow> string \<Rightarrow> int \<Rightarrow> string" where
  "number_digest blake t n = base58_encode (blake (''SimCheckpoint::'' @ utf8_bytes t @ eight_bytes (nat n)))"

definition checkpoint_reply :: "(string \<Rightarrow> string) \<Rightarrow> string \<Rightarrow> int \<Rightarrow> pyval" where
  "checkpoint_reply blake t n =
     jobj [(''sequenceNumber'', VInt n), (''digest'', VStr (number_digest blake t n)),
       (''previousCheckpointDigest'', if 0 < n then VStr (number_digest blake t (n - 1)) else VNone),
       (''epoch'', jobj [(''epochId'', VInt SUI_EPOCH_ID)])]"

lemma pf_lt_ints [simp]: "pf_lt (Fin (of_int a)) (Fin (of_int b)) \<longleftrightarrow> a < b"
  by (auto simp: pf_lt_def)

lemma py_lt_ints [simp]: "py_lt (VInt a) (VInt b) = Inr (a < b)" "py_le (VInt a) (VInt b) = Inr (a \<le> b)"
  by (simp_all add: py_lt_def py_le_def)

lemma sui_tip_int:
  "cur = Inr h \<Longrightarrow> get_or sc ''blocks_behind'' (VInt 0) = VInt b \<Longrightarrow> sui_tip cur sc = Inr (VInt (int_tip h b))"
  by (auto simp: sui_tip_def effective_head_def max_0_def min_checkpoint_def int_tip_def SUI_MAX_CHECKPOINT_def)

lemma checkpoint_digest_int:
  "0 \<le> n \<Longrightarrow> n \<le> SUI_MAX_CHECKPOINT \<Longrightarrow> checkpoint_digest blake (VInt n) (VStr t) = Inr (number_digest blake t n)"
  by (simp add: checkpoint_digest_def number_digest_def SUI_MAX_CHECKPOINT_def)

lemma int_tip_bounds: "0 \<le> int_tip h b" "int_tip h b \<le> SUI_MAX_CHECKPOINT"
  by (simp_all add: int_tip_def SUI_MAX_CHECKPOINT_def)

lemma checkpoint_number:
  assumes "se_head env = Inr h" and "get_or sc ''blocks_behind'' (VInt 0) = VInt b"
    and "map_of qs ''digest_salt'' = Some (VStr t)"
    and "asked_checkpoint (get_or args ''sequenceNumber'' VNone) (VInt (int_tip h b)) = Some (VInt n)"
    and "0 \<le> n" and "n \<le> SUI_MAX_CHECKPOINT"
  shows "checkpoint env args sc qs = Inr (checkpoint_reply (se_blake env) t n)"
proof (cases "0 < n")
  case True
  then show ?thesis
    using assms checkpoint_digest_int [of "n - 1" "se_blake env" t]
    by (simp add: checkpoint_def sui_tip_int quirk_def checkpoint_digest_int checkpoint_reply_def)
next
  case False
  then show ?thesis
    using assms by (simp add: checkpoint_def sui_tip_int quirk_def checkpoint_digest_int checkpoint_reply_def)
qed

text \<open>
  C38. A Sui provider has every checkpoint up to the tip that it reports and none above it, a request
  with no number gets the tip, and each checkpoint names the digest of the one before. The tip is the
  head less the delay, between zero and the largest number of the protocol. Two providers with one
  salt answer a checkpoint that both have alike, whatever their heads and delays.
\<close>

theorem sui_checkpoints_agree:
  assumes "se_head env = Inr h" and "get_or sc ''blocks_behind'' (VInt 0) = VInt b"
    and "map_of qs ''digest_salt'' = Some (VStr t)"
    and "rf_name rf = ''serviceConfig''"
    and "se_head env' = Inr h'" and "get_or sc' ''blocks_behind'' (VInt 0) = VInt b'"
    and "map_of qs' ''digest_salt'' = Some (VStr t)" and "se_blake env' = se_blake env"
  shows "sui_stub env rq rf sc qs = Inr (jobj [(''availableRange'',
        jobj [(''first'', jobj [(''sequenceNumber'', VInt 0)]),
              (''last'', jobj [(''sequenceNumber'', VInt (int_tip h b))])])])
    \<and> checkpoint env [] sc qs = checkpoint env [(''sequenceNumber'', VInt (int_tip h b))] sc qs
    \<and> (\<forall>n. checkpoint env [(''sequenceNumber'', VInt n)] sc qs
         = Inr (if 0 \<le> n \<and> n \<le> int_tip h b then checkpoint_reply (se_blake env) t n else VNone))
    \<and> (\<forall>n. n \<le> int_tip h b \<and> n \<le> int_tip h' b' \<longrightarrow>
         checkpoint env [(''sequenceNumber'', VInt n)] sc qs = checkpoint env' [(''sequenceNumber'', VInt n)] sc' qs')
    \<and> (\<forall>n \<ge> 0. vget (checkpoint_reply (se_blake env) t (n + 1)) ''previousCheckpointDigest''
         = vget (checkpoint_reply (se_blake env) t n) ''digest'')"
proof -
  have one: "checkpoint e [(''sequenceNumber'', VInt n)] s q
      = Inr (if 0 \<le> n \<and> n \<le> int_tip k d then checkpoint_reply (se_blake e) t n else VNone)"
    if "se_head e = Inr k" "get_or s ''blocks_behind'' (VInt 0) = VInt d" "map_of q ''digest_salt'' = Some (VStr t)"
    for e :: "'c sui_env" and k s d q n
  proof (cases "0 \<le> n \<and> n \<le> int_tip k d")
    case True
    then have "n \<le> SUI_MAX_CHECKPOINT" using int_tip_bounds(2) [of k d] by simp
    with True checkpoint_number [OF that, of "[(''sequenceNumber'', VInt n)]" n] show ?thesis
      by (simp add: asked_checkpoint_def get_or_def)
  next
    case False
    then show ?thesis using that by (auto simp: checkpoint_def sui_tip_int asked_checkpoint_def get_or_def)
  qed
  have none: "checkpoint env [] sc qs = Inr (checkpoint_reply (se_blake env) t (int_tip h b))"
    using checkpoint_number [OF assms(1-3), of "[]" "int_tip h b"] int_tip_bounds [of h b]
    by (simp add: asked_checkpoint_def get_or_def)
  have service: "sui_stub env rq rf sc qs = Inr (jobj [(''availableRange'',
        jobj [(''first'', jobj [(''sequenceNumber'', VInt 0)]),
              (''last'', jobj [(''sequenceNumber'', VInt (int_tip h b))])])])"
    using assms(4) by (simp add: sui_stub_def sui_tip_int [OF assms(1,2)])
  show ?thesis
    using one [OF assms(1-3)] one [OF assms(5-7)] none service assms(8) int_tip_bounds [of h b]
    by (auto simp: checkpoint_reply_def)
qed

section \<open>Transactions\<close>

lemma fold_r_single: "fold_r f [x] s = f x s"
  by (cases "f x s") simp_all

definition executes :: "'v root_field \<Rightarrow> string \<Rightarrow> bool" where
  "executes rf data \<longleftrightarrow> rf_name rf = ''executeTransaction''
     \<and> get_or (rf_arguments rf) ''transactionDataBcs'' VNone = VStr (b64encode data)"

lemma nest_effects: "nest (executed_effects d) = 0"
  by (simp add: executed_effects_def jobj_def)

lemma execute_content:
  assumes "parse_graphql_request calls why core raw = Inr rq" and "2 * MAX_DEPTH \<le> calls"
    and "gq_roots rq = [rf]" and "executes rf data" and "chain_responses sc = Inr []"
  shows "\<exists>v. project calls core rq (executed_effects (transaction_digest blake data)) (rf_selection rf) = Inr v
    \<and> graphql_content (sui_chain calls core blake other heads) now parsed sc req p (Some rq)
      = Inr ((VInt 200, jobj [(''data'', VDict [(VStr (response_key rf), v)])]),
             remember_executed (transaction_digest blake data) now p, Some rq)"
proof -
  have lim: "MAX_DEPTH \<le> calls" using assms(2) by simp
  obtain v where v: "project calls core rq (executed_effects (transaction_digest blake data)) (rf_selection rf) = Inr v"
    using accepted_projects [OF assms(1) lim, of rf "executed_effects (transaction_digest blake data)" calls] assms(2,3)
    by (auto simp: nest_effects)
  with assms(3-5) show ?thesis
    by (simp add: graphql_content_def sui_chain_def sui_success_def fold_r_single add_root_def sui_answer_def py_or_def
        executes_def sui_execute_def b64_roundtrip remember_all_def Let_def)
qed


text \<open>
  C39. A transaction that a request executes is in the reply under its digest and in the memory of the provider,
  and a later lookup finds it: at once when the provider has no index delay, and else exactly from the moment the delay
  has passed since the execution. It is not found before, and its reply then names the tip. A delay whose seconds
  are too many for a float makes the lookup raise OverflowError.
\<close>

theorem executed_transaction_found:
  assumes "parse_graphql_request calls why core raw = Inr rq" and "2 * MAX_DEPTH \<le> calls"
    and "gq_roots rq = [rf]" and "executes rf data" and "chain_responses sc = Inr []"
    and "digest = transaction_digest blake data"
    and "map_of (executed p) digest = None" and "length (executed p) < EXECUTED_MEMORY_CAP"
  shows "\<exists>v p'. graphql_content (sui_chain calls core blake other heads) now parsed sc req p (Some rq)
        = Inr ((VInt 200, jobj [(''data'', VDict [(VStr (response_key rf), v)])]), p', Some rq)
      \<and> project calls core rq (executed_effects digest) (rf_selection rf) = Inr v
      \<and> map_of (executed p') digest = Some now
      \<and> (\<forall>env lag tip sc' qs. se_executed env = executed_snapshot p' \<and> quirk qs ''transaction_index_lag_ms'' = Inr (VInt lag)
            \<and> sui_tip (se_head env) sc' = Inr tip
          \<longrightarrow> sui_transaction env [(''digest'', VStr digest)] sc' qs
              = (if 1000 * float_limit \<le> lag then Inl OverflowError
                 else Inr (if lag \<le> 0 \<or> now + of_int lag / 1000 \<le> se_now env
                     then jobj [(''digest'', VStr digest), (''effects'',
                       jobj [(''status'', VStr ''SUCCESS''), (''checkpoint'', jobj [(''sequenceNumber'', tip)])])]
                     else VNone)))"
proof -
  let ?p = "remember_executed digest now p"
  obtain v where v: "project calls core rq (executed_effects digest) (rf_selection rf) = Inr v"
    "graphql_content (sui_chain calls core blake other heads) now parsed sc req p (Some rq)
      = Inr ((VInt 200, jobj [(''data'', VDict [(VStr (response_key rf), v)])]), ?p, Some rq)"
    using execute_content [OF assms(1-5), of blake other heads now parsed req p] assms(6) by auto
  have ran: "map_of (executed ?p) digest = Some now"
    using remember_executed_reads [OF assms(8), of digest now digest] assms(7) by simp
  have "sui_transaction env [(''digest'', VStr digest)] sc' qs
      = (if 1000 * float_limit \<le> lag then Inl OverflowError
         else Inr (if lag \<le> 0 \<or> now + of_int lag / 1000 \<le> se_now env
             then jobj [(''digest'', VStr digest), (''effects'',
               jobj [(''status'', VStr ''SUCCESS''), (''checkpoint'', jobj [(''sequenceNumber'', tip)])])]
             else VNone))"
    if "se_executed env = executed_snapshot ?p" "quirk qs ''transaction_index_lag_ms'' = Inr (VInt lag)"
      "sui_tip (se_head env) sc' = Inr tip" for env :: "'d sui_env" and lag tip sc' qs
    using that ran float_limit_bounds(2) by (auto simp: sui_transaction_def indexed_def executed_snapshot_def get_or_def)
  with v ran show ?thesis by blast
qed

section \<open>Partial replies\<close>

text \<open>The entry of the \<open>responses\<close> of a scenario for a root.\<close>

definition root_entry :: "(pyval \<times> pyval) list \<Rightarrow> 'v root_field \<Rightarrow> pyval" where
  "root_entry responses rf =
     py_or (case pd_lookup (VStr (rf_name rf)) responses of None \<Rightarrow> VNone | Some v \<Rightarrow> v) (VDict [])"

definition answered ::
  "'v sui_env \<Rightarrow> 'v gql_request \<Rightarrow> sdict \<Rightarrow> sdict \<Rightarrow> (pyval \<times> pyval) list \<Rightarrow> 'v root_field \<Rightarrow> answer \<Rightarrow> bool" where
  "answered env rq sc qs responses rf a \<longleftrightarrow> sui_answer env rq sc qs rf (root_entry responses rf) = Inr a"

definition failed :: "answer \<Rightarrow> bool" where
  "failed a \<longleftrightarrow> fst (snd a) \<noteq> VNone"

lemma add_root_step:
  "add_root env rq sc qs responses rf (data, errors, now_run) = Inr (data', errors', now_run') \<Longrightarrow>
   \<exists>a. answered env rq sc qs responses rf a \<and> data' = pd_put (VStr (response_key rf)) (fst a) data
     \<and> (if failed a then \<exists>e. with_path (response_key rf) (fst (snd a)) = Inr e \<and> errors' = errors @ [e] else errors' = errors)
     \<and> now_run' = now_run @ snd (snd a)"
  by (auto simp: add_root_def answered_def failed_def root_entry_def Let_def bind_r_Inr_iff split: if_splits)

text \<open>The error of a root as the reply reports it: the fields of the error, and the root under \<open>path\<close>.\<close>

definition reported :: "'v root_field \<times> answer \<Rightarrow> pyval \<Rightarrow> bool" where
  "reported x e \<longleftrightarrow> vget e ''path'' = Some (VList [VStr (response_key (fst x))])
     \<and> (\<forall>k. k \<noteq> ''path'' \<longrightarrow> vget e k = vget (fst (snd (snd x))) k)"

lemma with_path_reported: "with_path (response_key rf) (fst (snd a)) = Inr e \<Longrightarrow> reported (rf, a) e"
  by (auto simp: with_path_def reported_def pd_lookup_put_same pd_lookup_put_other split: pyval.splits)

abbreviation failed_roots :: "'v root_field list \<Rightarrow> answer list \<Rightarrow> ('v root_field \<times> answer) list" where
  "failed_roots rfs as \<equiv> filter (\<lambda>x. failed (snd x)) (zip rfs as)"

lemma add_root_reports:
  assumes "add_root env rq sc qs responses rf (data, errors, now_run) = Inr (data', errors', now_run')"
  shows "\<exists>a. answered env rq sc qs responses rf a \<and> data' = pd_put (VStr (response_key rf)) (fst a) data
     \<and> (\<exists>first. errors' = errors @ first \<and> list_all2 reported (failed_roots [rf] [a]) first)
     \<and> now_run' = now_run @ snd (snd a)"
proof -
  from add_root_step [OF assms] obtain a where a: "answered env rq sc qs responses rf a"
    "data' = pd_put (VStr (response_key rf)) (fst a) data" "now_run' = now_run @ snd (snd a)"
    "if failed a then \<exists>e. with_path (response_key rf) (fst (snd a)) = Inr e \<and> errors' = errors @ [e] else errors' = errors"
    by blast
  from a(4) have "\<exists>first. errors' = errors @ first \<and> list_all2 reported (failed_roots [rf] [a]) first"
    by (auto dest: with_path_reported split: if_splits)
  with a(1-3) show ?thesis by blast
qed

lemma length_failed_roots: "length rfs = length as \<Longrightarrow> length (failed_roots rfs as) = length (filter failed as)"
  by (induction rfs as rule: list_induct2) auto

lemma pd_lookup_put: "pd_lookup (VStr k) (pd_put (VStr k') v kvs) = (if k = k' then Some v else pd_lookup (VStr k) kvs)"
  using pd_lookup_put_other [of k' k v kvs] by (auto simp: pd_lookup_put_same)

lemma add_roots:
  "fold_r (add_root env rq sc qs responses) rfs (data, errors, now_run) = Inr (data', errors', now_run') \<Longrightarrow>
   \<exists>as. list_all2 (answered env rq sc qs responses) rfs as
     \<and> (\<exists>new. errors' = errors @ new \<and> list_all2 reported (failed_roots rfs as) new)
     \<and> (\<forall>k. pd_lookup (VStr k) data' \<noteq> None \<longleftrightarrow> pd_lookup (VStr k) data \<noteq> None \<or> k \<in> response_key ` set rfs)
     \<and> (distinct (map response_key rfs) \<longrightarrow> (\<forall>(rf, a) \<in> set (zip rfs as). pd_lookup (VStr (response_key rf)) data' = Some (fst a)))
     \<and> (\<forall>k. k \<notin> response_key ` set rfs \<longrightarrow> pd_lookup (VStr k) data' = pd_lookup (VStr k) data)
     \<and> now_run' = now_run @ concat (map (\<lambda>a. snd (snd a)) as)"
proof (induction rfs arbitrary: data errors now_run)
  case (Cons rf rfs)
  from Cons.prems obtain d1 e1 n1 where one: "add_root env rq sc qs responses rf (data, errors, now_run) = Inr (d1, e1, n1)"
    and rest: "fold_r (add_root env rq sc qs responses) rfs (d1, e1, n1) = Inr (data', errors', now_run')"
    by (auto simp: bind_r_Inr_iff)
  from add_root_reports [OF one] obtain a where a: "answered env rq sc qs responses rf a"
    "d1 = pd_put (VStr (response_key rf)) (fst a) data"
    "\<exists>first. e1 = errors @ first \<and> list_all2 reported (failed_roots [rf] [a]) first"
    "n1 = now_run @ snd (snd a)"
    by blast
  from Cons.IH [OF rest] obtain as where as: "list_all2 (answered env rq sc qs responses) rfs as"
    "\<exists>new. errors' = e1 @ new \<and> list_all2 reported (failed_roots rfs as) new"
    "\<forall>k. pd_lookup (VStr k) data' \<noteq> None \<longleftrightarrow> pd_lookup (VStr k) d1 \<noteq> None \<or> k \<in> response_key ` set rfs"
    "distinct (map response_key rfs) \<longrightarrow> (\<forall>(rf, a) \<in> set (zip rfs as). pd_lookup (VStr (response_key rf)) data' = Some (fst a))"
    "\<forall>k. k \<notin> response_key ` set rfs \<longrightarrow> pd_lookup (VStr k) data' = pd_lookup (VStr k) d1"
    "now_run' = n1 @ concat (map (\<lambda>a. snd (snd a)) as)"
    by blast
  from a(3) as(2) obtain first new where new: "errors' = errors @ first @ new"
    "list_all2 reported (failed_roots [rf] [a]) first" "list_all2 reported (failed_roots rfs as) new" by auto
  have "failed_roots (rf # rfs) (a # as) = failed_roots [rf] [a] @ failed_roots rfs as" by simp
  then have "\<exists>new. errors' = errors @ new \<and> list_all2 reported (failed_roots (rf # rfs) (a # as)) new"
    using new list_all2_appendI by metis
  then show ?case
    by (intro exI [of _ "a # as"] conjI) (use a(1,2,4) as in \<open>auto simp: pd_lookup_put simp del: filter.simps\<close>)
qed auto

text \<open>
  C40. A reply of the Sui chain reports every root of the request: its data has the response key of each root
  and no other, it holds one error for each root that failed and none else, in the order of the roots, each with the fields of
  the error of that root and with its response key as the path, and the flow labels the request
  \<open>error\<close> in the history exactly when a root failed, also when the other roots succeeded. The digests to
  remember are those that its roots executed.
\<close>

theorem partial_replies_reported:
  assumes "sui_success env rq sc qs = Inr ((st, body), done_now)"
  shows "\<exists>responses data errors as. chain_responses sc = Inr responses
    \<and> list_all2 (answered env rq sc qs responses) (gq_roots rq) as
    \<and> st = VInt 200 \<and> vget body ''data'' = Some (VDict data)
    \<and> (\<forall>k. pd_lookup (VStr k) data \<noteq> None \<longleftrightarrow> k \<in> response_key ` set (gq_roots rq))
    \<and> (distinct (map response_key (gq_roots rq)) \<longrightarrow>
         (\<forall>(rf, a) \<in> set (zip (gq_roots rq) as). pd_lookup (VStr (response_key rf)) data = Some (fst a)))
    \<and> vget_or body ''errors'' (VList []) = VList errors \<and> length errors = length (filter failed as)
    \<and> list_all2 reported (failed_roots (gq_roots rq) as) errors
    \<and> graphql_label st body parsed = Inr (if \<exists>a \<in> set as. failed a then ''error'' else ''success'')
    \<and> done_now = concat (map (\<lambda>a. snd (snd a)) as)"
proof -
  from assms obtain responses data errors where
    r: "chain_responses sc = Inr responses"
    and loop: "fold_r (add_root env rq sc qs responses) (gq_roots rq) ([], [], []) = Inr (data, errors, done_now)"
    and st: "st = VInt 200"
    and body: "body = jobj ((''data'', VDict data) # (if errors = [] then [] else [(''errors'', VList errors)]))"
    by (auto simp: sui_success_def bind_r_Inr_iff)
  from add_roots [OF loop] obtain as where as: "list_all2 (answered env rq sc qs responses) (gq_roots rq) as"
    "list_all2 reported (failed_roots (gq_roots rq) as) errors"
    "\<forall>k. pd_lookup (VStr k) data \<noteq> None \<longleftrightarrow> k \<in> response_key ` set (gq_roots rq)"
    "distinct (map response_key (gq_roots rq)) \<longrightarrow>
       (\<forall>(rf, a) \<in> set (zip (gq_roots rq) as). pd_lookup (VStr (response_key rf)) data = Some (fst a))"
    "done_now = concat (map (\<lambda>a. snd (snd a)) as)"
    by auto
  have len: "length errors = length (filter failed as)"
    using list_all2_lengthD [OF as(1)] list_all2_lengthD [OF as(2)] length_failed_roots by metis
  then have some: "errors = [] \<longleftrightarrow> \<not> (\<exists>a \<in> set as. failed a)"
    using filter_empty_conv [of failed as] by (metis length_0_conv)
  have "graphql_label st body parsed = Inr (if errors = [] then ''success'' else ''error'')"
    by (simp add: graphql_label_def st body vget_or_def)
  moreover have "vget body ''data'' = Some (VDict data)" "vget_or body ''errors'' (VList []) = VList errors"
    by (simp_all add: body vget_or_def)
  ultimately show ?thesis using r as st some len by (intro exI [of _ responses] exI [of _ data] exI [of _ errors] exI [of _ as]) simp
qed


section \<open>Samples\<close>

definition sample_blake :: "string \<Rightarrow> string" where
  "sample_blake s = take 32 (rev s)"

definition sample_sui :: "int \<Rightarrow> pyval sui_env" where
  "sample_sui h = \<lparr>se_calls = 100, se_core = sample_core, se_blake = sample_blake, se_other = (\<lambda>_. []),
     se_head = Inr h, se_now = 10, se_executed = []\<rparr>"

definition sample_quirks :: sdict where
  "sample_quirks = [(''chain_id'', VStr SUI_CHAIN_ID), (''transaction_index_lag_ms'', VInt 500), (''digest_salt'', VStr [])]"

definition service_root :: "pyval root_field" where
  "service_root = \<lparr>rf_name = ''serviceConfig'', response_key = ''serviceConfig'', rf_arguments = [], rf_selection = None\<rparr>"

theorem sui_checkpoints_agree_witness:
  "checkpoint (sample_sui 7) [(''sequenceNumber'', VInt 4)] [] sample_quirks
   = checkpoint (sample_sui 9) [(''sequenceNumber'', VInt 4)] [(''blocks_behind'', VInt 3)] sample_quirks"
proof -
  have tips: "int_tip 7 0 = 7" "int_tip 9 3 = 6" by (simp_all add: int_tip_def SUI_MAX_CHECKPOINT_def)
  have env: "se_head (sample_sui h) = Inr h" "se_blake (sample_sui h) = se_blake (sample_sui 7)" for h
    by (simp_all add: sample_sui_def)
  have salt: "map_of sample_quirks ''digest_salt'' = Some (VStr [])" by (simp add: sample_quirks_def)
  have behind: "get_or [] ''blocks_behind'' (VInt 0) = VInt 0" "get_or [(''blocks_behind'', VInt 3)] ''blocks_behind'' (VInt 0) = VInt 3"
    by (simp_all add: get_or_def)
  have name: "rf_name service_root = ''serviceConfig''" by (simp add: service_root_def)
  from sui_checkpoints_agree [OF env(1) [of 7] behind(1) salt name env(1) [of 9] behind(2) salt env(2) [of 9], where rq = sample_gql]
  have "4 \<le> int_tip 7 0 \<and> 4 \<le> int_tip 9 3 \<longrightarrow> ?thesis" by blast
  with tips show ?thesis by simp
qed

definition execute_root :: "pyval root_field" where
  "execute_root = \<lparr>rf_name = ''executeTransaction'', response_key = ''run'',
     rf_arguments = [(''transactionDataBcs'', VStr ''AA=='')],
     rf_selection = Some [FieldNode ''effects'' None [] [] (Some [FieldNode ''digest'' None [] [] None])]\<rparr>"

definition execute_core :: "pyval graphql_core" where
  "execute_core = \<lparr>gq_parse = (\<lambda>_. Document [OperationDefinitionNode \<lparr>op_kind = ''mutation'', op_name = None, op_variables = [],
       op_selection = [FieldNode ''executeTransaction'' (Some ''run'') [(''transactionDataBcs'', VStr ''AA=='')] []
         (Some [FieldNode ''effects'' None [] [] (Some [FieldNode ''digest'' None [] [] None])])]\<rparr>]),
     gq_value = (\<lambda>v _. Some v), gq_constant = (\<lambda>v. v)\<rparr>"

definition execute_gql :: "pyval gql_request" where
  "execute_gql = \<lparr>gq_operation = ''mutation'', gq_roots = [execute_root], gq_method = ''executeTransaction'',
     gq_request_id = VNone, gq_variables = [], gq_fragments = []\<rparr>"

lemma execute_parsed: "parse_graphql_request 100 (\<lambda>b. b) execute_core sample_body = Inr execute_gql"
  by code_simp

theorem executed_transaction_found_witness:
  "\<exists>v p'. graphql_content (sui_chain 100 execute_core sample_blake (\<lambda>_. []) (\<lambda>_. Inr 7)) 5 VNone [] sample_request sample_provider
        (Some execute_gql) = Inr ((VInt 200, jobj [(''data'', VDict [(VStr ''run'', v)])]), p', Some execute_gql)
      \<and> map_of (executed p') (transaction_digest sample_blake [CHR 0x00]) = Some 5"
proof -
  have run: "executes execute_root [CHR 0x00]" by code_simp
  have none: "chain_responses [] = Inr []" by (simp add: chain_responses_def get_or_def py_or_def)
  have roots: "gq_roots execute_gql = [execute_root]" by (simp add: execute_gql_def)
  have fresh: "map_of (executed sample_provider) (transaction_digest sample_blake [CHR 0x00]) = None"
    "length (executed sample_provider) < EXECUTED_MEMORY_CAP"
    by (simp_all add: sample_provider_def new_provider_def EXECUTED_MEMORY_CAP_def)
  have lim: "2 * MAX_DEPTH \<le> 100" by (simp add: MAX_DEPTH_def)
  have key: "response_key execute_root = ''run''" by (simp add: execute_root_def)
  note found = executed_transaction_found [OF execute_parsed lim roots run none refl fresh, of "\<lambda>_. []" "\<lambda>_. Inr 7" 5 VNone sample_request]
  then show ?thesis unfolding key by (elim exE conjE) (intro exI conjI)
qed

definition failing_scenario :: sdict where
  "failing_scenario = [(''responses'', VDict [(VStr ''executeTransaction'', jobj [(''error_stub'', VStr ''REQUEST_TIMEOUT'')])])]"

theorem partial_replies_reported_witness:
  "\<exists>body. sui_success (sample_sui 7) execute_gql failing_scenario sample_quirks = Inr ((VInt 200, body), [])
     \<and> graphql_label (VInt 200) body VNone = Inr ''error''"
proof -
  have run: "sui_success (sample_sui 7) execute_gql failing_scenario sample_quirks = Inr ((VInt 200,
      jobj [(''data'', jobj [(''run'', VNone)]),
        (''errors'', VList [jobj [(''message'', VStr ''Request timed out''),
          (''extensions'', jobj [(''code'', VStr ''REQUEST_TIMEOUT'')]), (''path'', VList [VStr ''run''])]])]), [])"
    by code_simp
  from partial_replies_reported [OF this, of VNone] obtain as responses errors where
    "list_all2 (answered (sample_sui 7) execute_gql failing_scenario sample_quirks responses) (gq_roots execute_gql) as"
    "vget_or (jobj [(''data'', jobj [(''run'', VNone)]),
        (''errors'', VList [jobj [(''message'', VStr ''Request timed out''),
          (''extensions'', jobj [(''code'', VStr ''REQUEST_TIMEOUT'')]), (''path'', VList [VStr ''run''])]])])
       ''errors'' (VList []) = VList errors" "length errors = length (filter failed as)"
    "graphql_label (VInt 200) (jobj [(''data'', jobj [(''run'', VNone)]),
        (''errors'', VList [jobj [(''message'', VStr ''Request timed out''),
          (''extensions'', jobj [(''code'', VStr ''REQUEST_TIMEOUT'')]), (''path'', VList [VStr ''run''])]])]) VNone
      = Inr (if \<exists>a \<in> set as. failed a then ''error'' else ''success'')"
    by blast
  moreover from this(2,3) have "\<exists>a \<in> set as. failed a"
    by (cases "filter failed as") (auto simp: vget_or_def filter_eq_Cons_iff)
  ultimately show ?thesis using run by auto
qed

end
