(* ===== verification/HttpAdapter.thy ===== *)
theory HttpAdapter
  imports WsListener
begin

text \<open>
  The HTTP adapter of \<open>server.py\<close>: how the plan of a reply becomes lines and bytes on a socket.

  A handler is a list of events in the order in which it writes: the status line, header lines, the end of the
  headers, pieces of the body, waits, and the close of the connection. An exception that the handler does not
  catch ends the list early and is returned beside it. A caller that goes away (\<open>OSError\<close>) is not
  modelled. \<open>http.server\<close> writes a \<open>Server\<close> and a \<open>Date\<close> header after each status line: their texts,
  and the text of the address of the caller, are part of the context. The path and the query of a
  request are arguments, as \<open>urlparse\<close> and \<open>parse_qs\<close> give them.
\<close>

datatype http_event = StatusLine pyval | HeaderLine string string | EndOfHeaders | Body string | Wait pyval | CloseSocket

type_synonym written = "http_event list \<times> pyerr option"

text \<open>One piece of work after another: an exception ends it.\<close>

definition then_write :: "written \<Rightarrow> written \<Rightarrow> written" where
  "then_write a b = (case a of (evs, Some e) \<Rightarrow> (evs, Some e) | (evs, None) \<Rightarrow> (evs @ fst b, snd b))"

record reply_context =
  provider_name :: string
  caller_address :: string
  server_text :: string
  date_text :: string

text \<open>The class attributes of the handlers.\<close>

record handler =
  dotted_paths :: bool
  mid_body_bytes :: string

abbreviation dquote :: char where
  "dquote \<equiv> CHR 0x22"

definition JsonRpcHttpHandler :: handler where
  "JsonRpcHttpHandler = \<lparr>dotted_paths = False,
     mid_body_bytes = ''{'' @ [dquote] @ ''jsonrpc'' @ [dquote] @ '':'' @ [dquote] @ ''2.0'' @ [dquote] @ '',''\<rparr>"

definition TendermintHttpHandler :: handler where
  "TendermintHttpHandler = JsonRpcHttpHandler\<lparr>dotted_paths := True\<rparr>"

definition RestHttpHandler :: handler where
  "RestHttpHandler = \<lparr>dotted_paths = True, mid_body_bytes = ''{'' @ [dquote] @ ''block'' @ [dquote] @ '':''\<rparr>"

definition GraphQLHttpHandler :: handler where
  "GraphQLHttpHandler = \<lparr>dotted_paths = True, mid_body_bytes = ''{'' @ [dquote] @ ''data'' @ [dquote] @ '':''\<rparr>"

section \<open>Headers\<close>

definition HTTP_TOKEN_CHARS :: string where
  "HTTP_TOKEN_CHARS = ''!#$%&'' @ [CHR 0x27] @ ''*+-.^_`|~''
     @ ''0123456789abcdefghijklmnopqrstuvwxyzABCDEFGHIJKLMNOPQRSTUVWXYZ''"

text \<open>A backslash before each quote and each backslash.\<close>

fun escaped :: "string \<Rightarrow> string" where
  "escaped [] = []"
| "escaped (c # cs) = (if c = dquote \<or> c = CHR 0x5C then CHR 0x5C # c # escaped cs else c # escaped cs)"

definition with_media_type_parameter :: "string \<Rightarrow> string \<Rightarrow> string \<Rightarrow> string" where
  "with_media_type_parameter media name v =
     (if v = [] then media
      else media @ ''; '' @ name @ ''=''
        @ (if list_all (\<lambda>c. c \<in> set HTTP_TOKEN_CHARS) v then v else [dquote] @ escaped v @ [dquote]))"

definition content_type_with_provider_name :: "string \<Rightarrow> string \<Rightarrow> string" where
  "content_type_with_provider_name media name = with_media_type_parameter media ''sim-provider'' name"

definition content_type_with_caller_address :: "string \<Rightarrow> string \<Rightarrow> string" where
  "content_type_with_caller_address media addr = with_media_type_parameter media ''sim-caller'' addr"

type_synonym chosen_headers = "(string \<times> string) list"

definition chosen_of_result :: "serve_result \<Rightarrow> chosen_headers" where
  "chosen_of_result res = map (\<lambda>(k, v). (key_text k, key_text v))
     (case r_reply_headers res of VDict kvs \<Rightarrow> kvs | _ \<Rightarrow> [])"

text \<open>\<open>send_header\<close> of \<open>_ChosenReplyHeaders\<close>: a chosen header of the same name wins.\<close>

definition send_unless_chosen :: "chosen_headers \<Rightarrow> string \<Rightarrow> string \<Rightarrow> http_event list" where
  "send_unless_chosen chosen keyword v =
     (if list_ex (\<lambda>(n, _). lower keyword = lower n) chosen then [] else [HeaderLine keyword v])"

definition send_header :: "reply_context \<Rightarrow> chosen_headers \<Rightarrow> string \<Rightarrow> string \<Rightarrow> http_event list" where
  "send_header ctx chosen keyword v =
     send_unless_chosen chosen keyword
       (if lower keyword = ''content-type''
        then content_type_with_caller_address (content_type_with_provider_name v (provider_name ctx)) (caller_address ctx)
        else v)"

definition end_headers :: "chosen_headers \<Rightarrow> http_event list" where
  "end_headers chosen = map (\<lambda>(n, v). HeaderLine n v) chosen @ [EndOfHeaders]"

definition send_response :: "reply_context \<Rightarrow> chosen_headers \<Rightarrow> pyval \<Rightarrow> http_event list" where
  "send_response ctx chosen st =
     StatusLine st # send_header ctx chosen ''Server'' (server_text ctx) @ send_header ctx chosen ''Date'' (date_text ctx)"

definition upgrade_headers :: "string \<Rightarrow> chosen_headers \<Rightarrow> (string, string) dict" where
  "upgrade_headers key chosen =
     dict_merge (filter (\<lambda>(n, _). lower n \<notin> set (map (\<lambda>(m, _). lower m) chosen))
        [(''Lava-Provider-Address'', ''sim-provider-'' @ key)]) chosen"

section \<open>The reply of a plan\<close>

text \<open>\<open>if ms > 0: time.sleep(ms / 1000)\<close>.\<close>

definition wait_ms :: "pyval \<Rightarrow> written" where
  "wait_ms ms = (case py_lt (VInt 0) ms of
     Inl e \<Rightarrow> ([], Some e) | Inr late \<Rightarrow> ((if late then [Wait ms] else []), None))"

definition promised_headers :: "reply_context \<Rightarrow> chosen_headers \<Rightarrow> http_event list" where
  "promised_headers ctx chosen =
     send_response ctx chosen (VInt 200) @ send_header ctx chosen ''Content-Type'' ''application/json''
     @ send_header ctx chosen ''Content-Length'' ''100'' @ end_headers chosen"

definition drop_reply :: "handler \<Rightarrow> reply_context \<Rightarrow> chosen_headers \<Rightarrow> pyval \<Rightarrow> http_event list" where
  "drop_reply h ctx chosen drop_at =
     (if drop_at = VStr ''after_headers'' then promised_headers ctx chosen
      else if drop_at = VStr ''mid_body'' then promised_headers ctx chosen @ [Body (mid_body_bytes h)]
      else []) @ [CloseSocket]"

definition content_type_of :: "serve_result \<Rightarrow> string" where
  "content_type_of res =
     (if r_corruption_mode res = VStr ''null_body'' then ''application/json''
      else if is_str (r_body res) then ''text/plain; charset=utf-8'' else ''application/json'')"

definition reply_head :: "reply_context \<Rightarrow> chosen_headers \<Rightarrow> serve_result \<Rightarrow> pyval \<Rightarrow> string \<Rightarrow> http_event list" where
  "reply_head ctx chosen res st raw =
     send_response ctx chosen st
     @ send_header ctx chosen ''Content-Type'' (content_type_of res)
     @ send_header ctx chosen ''Content-Length'' (nat_text (length raw))
     @ send_header ctx chosen ''Cache-Control'' ''no-store''
     @ end_headers chosen"

definition reply_body :: "serve_result \<Rightarrow> string \<Rightarrow> written" where
  "reply_body res raw =
     (if raw \<noteq> [] \<and> \<not> r_suppress_body res then
        (if r_pause_at res = VStr ''mid_body''
         then then_write ([Body (take (length raw div 2) raw)], None)
                (then_write (wait_ms (r_pause_ms res)) ([Body (drop (length raw div 2) raw)], None))
         else ([Body raw], None))
      else if r_pause_at res = VStr ''mid_body'' then wait_ms (r_pause_ms res)
      else ([], None))"

definition perform :: "(pyfloat \<Rightarrow> string) \<Rightarrow> handler \<Rightarrow> reply_context \<Rightarrow> serve_result \<Rightarrow> written" where
  "perform fl h ctx res =
     (let chosen = chosen_of_result res
      in if r_action res = action.Hang then ([Wait (VInt 30000), CloseSocket], None)
         else then_write (wait_ms (r_latency_ms res))
           (if r_action res = action.NoBody then (send_response ctx chosen (r_status res) @ end_headers chosen, None)
            else if r_action res = action.Drop then (drop_reply h ctx chosen (r_drop_at res), None)
            else (case serialize fl (r_status res) (r_body res) (r_corruption_mode res) (r_missing_field res) (dotted_paths h) of
                    Inl e \<Rightarrow> ([], Some e)
                  | Inr (st, bytes, emit_body) \<Rightarrow>
                      let raw = (if emit_body then bytes else [])
                      in then_write (reply_head ctx chosen res st raw, None)
                          (then_write (if r_pause_at res = VStr ''after_headers'' then wait_ms (r_pause_ms res) else ([], None))
                            (reply_body res raw)))))"

section \<open>A request\<close>

text \<open>\<open>int(self.headers.get("Content-Length", 0) or 0)\<close>.\<close>

definition content_length :: "headers \<Rightarrow> pyerr + int" where
  "content_length hs = (let t = text_or_empty (http_header ''Content-Length'' hs)
     in if t = [] then Inr 0 else (case int_of_text t of None \<Rightarrow> Inl ValueError | Some n \<Rightarrow> Inr n))"

definition run_request ::
  "(pyfloat \<Rightarrow> string) \<Rightarrow> (string \<Rightarrow> string) \<Rightarrow> rat \<Rightarrow> 'c hooks \<Rightarrow> handler \<Rightarrow> reply_context \<Rightarrow> rat \<Rightarrow> rat \<Rightarrow> endpoint \<Rightarrow> bool
   \<Rightarrow> headers \<Rightarrow> string \<Rightarrow> string \<Rightarrow> string \<Rightarrow> (string, string list) dict \<Rightarrow> provider \<Rightarrow> 'c \<Rightarrow> written \<times> provider \<times> 'c" where
  "run_request fl sha rnd H h ctx t0 t1 ep port_is_closed hs stream verb path query p c =
     (if port_is_closed then (([], None), p, c)
      else (case arrive t0 ep hs VNone p of (i, p1) \<Rightarrow>
        (case content_length hs of
           Inl e \<Rightarrow> (([], Some e), p1, c)
         | Inr n \<Rightarrow>
             let req = \<lparr>rq_body = (if 0 < n then take (nat n) stream else []), rq_headers = hs, rq_verb = verb,
                        rq_path = path, rq_query = query\<rparr>
             in (case serve_entry sha rnd H t1 ep req i p1 c of
                   (Inl e, p2, c2) \<Rightarrow> (([], Some e), p2, c2)
                 | (Inr res, p2, c2) \<Rightarrow> (perform fl h ctx res, p2, c2)))))"

text \<open>The reply to OPTIONS of a REST port, which no listener sees.\<close>

definition send_json :: "(pyfloat \<Rightarrow> string) \<Rightarrow> reply_context \<Rightarrow> pyval \<Rightarrow> pyval \<Rightarrow> written" where
  "send_json fl ctx st data = (case json_dumps default_separators fl data of
     Inl e \<Rightarrow> ([], Some e)
   | Inr body \<Rightarrow> (send_response ctx [] st @ send_header ctx [] ''Content-Type'' ''application/json''
       @ send_header ctx [] ''Content-Length'' (nat_text (length body)) @ send_header ctx [] ''Cache-Control'' ''no-store''
       @ end_headers [] @ [Body body], None))"

definition options_verbs :: "string list \<Rightarrow> string list" where
  "options_verbs verbs =
     (if ''GET'' \<in> set verbs \<and> ''HEAD'' \<notin> set verbs then verbs @ [''HEAD''] else verbs) @ [''OPTIONS'']"

definition do_OPTIONS :: "(pyfloat \<Rightarrow> string) \<Rightarrow> reply_context \<Rightarrow> string \<Rightarrow> written" where
  "do_OPTIONS fl ctx path =
     (let verbs = allowed_verbs path
      in if verbs = []
         then send_json fl ctx (VInt 404)
                (jobj [(''code'', VStr ''not_found''), (''method'', VStr ''OPTIONS''), (''path'', VStr path)])
         else (send_response ctx [] (VInt 204) @ send_header ctx [] ''Allow'' (join_with '', '' (options_verbs verbs))
               @ send_header ctx [] ''Content-Length'' ''0'' @ end_headers [], None))"

section \<open>A refused upgrade\<close>

definition simple_error :: "(pyfloat \<Rightarrow> string) \<Rightarrow> reply_context \<Rightarrow> chosen_headers \<Rightarrow> pyval \<Rightarrow> pyval \<Rightarrow> written" where
  "simple_error fl ctx chosen st message = (case json_dumps default_separators fl (jobj [(''error'', message)]) of
     Inl e \<Rightarrow> ([], Some e)
   | Inr body \<Rightarrow> (StatusLine st # send_unless_chosen chosen ''Server'' (server_text ctx)
       @ send_unless_chosen chosen ''Date'' (date_text ctx) @ send_unless_chosen chosen ''Content-Type'' ''application/json''
       @ send_unless_chosen chosen ''Content-Length'' (nat_text (length body)) @ end_headers chosen @ [Body body], None))"

text \<open>A handshake that cannot be written as ASCII raises \<open>UnicodeEncodeError\<close>, a \<open>ValueError\<close>.\<close>

definition handshake :: "(string \<Rightarrow> string) \<Rightarrow> string \<Rightarrow> string \<Rightarrow> chosen_headers \<Rightarrow> written" where
  "handshake sha1 pkey client_key chosen =
     (case build_handshake_response sha1 b64encode client_key (upgrade_headers pkey chosen) of
        None \<Rightarrow> ([], Some ValueError) | Some bytes \<Rightarrow> ([Body bytes], None))"

definition refuse_upgrade ::
  "(pyfloat \<Rightarrow> string) \<Rightarrow> (string \<Rightarrow> string) \<Rightarrow> reply_context \<Rightarrow> string \<Rightarrow> string \<Rightarrow> serve_result \<Rightarrow> written" where
  "refuse_upgrade fl sha1 ctx pkey client_key res =
     (let chosen = chosen_of_result res
      in if r_action res = action.Respond then simple_error fl ctx chosen (r_status res) (vget_or (r_body res) ''error'' VNone)
         else if r_action res = action.Hang then ([Wait (VInt 30000), CloseSocket], None)
         else then_write
           (if r_drop_at res = VStr ''after_headers'' then handshake sha1 pkey client_key chosen
            else if r_drop_at res = VStr ''mid_body''
            then ([Body (''HTTP/1.1 101 Switching Protocols'' @ crlf @ ''Upgrade: webso'')], None)
            else ([], None)) ([CloseSocket], None))"

text \<open>What \<open>do_GET\<close> writes before the first frame; the flag says that the reader loop begins.\<close>

definition perform_upgrade ::
  "(pyfloat \<Rightarrow> string) \<Rightarrow> (string \<Rightarrow> string) \<Rightarrow> reply_context \<Rightarrow> string \<Rightarrow> headers \<Rightarrow> upgrade_outcome \<Rightarrow> written \<times> bool" where
  "perform_upgrade fl sha1 ctx pkey hs out =
     (let client_key = text_or_empty (http_header ''Sec-WebSocket-Key'' hs)
      in case out of
           PortIsClosed \<Rightarrow> (([], None), False)
         | SimpleError st message \<Rightarrow> (simple_error fl ctx [] (VInt st) (VStr message), False)
         | Decided res \<Rightarrow>
             if r_action res \<noteq> action.Respond \<or> r_status res \<noteq> VInt 101
             then (refuse_upgrade fl sha1 ctx pkey client_key res, False)
             else let w = handshake sha1 pkey client_key (chosen_of_result res) in (w, snd w = None))"

end
