(* ===== verification/HttpFacts.thy ===== *)
theory HttpFacts
  imports HttpAdapter
begin

text \<open>
  What a caller reads from the HTTP adapter: a reply whose headers are well formed and whose body has the length that
  they promise, whatever pause the scenario asks for, and the two names that ride on \<open>Content-Type\<close>.
\<close>

section \<open>The parts of a reply\<close>

definition header_of :: "http_event \<Rightarrow> (string \<times> string) list" where
  "header_of ev = (case ev of HeaderLine n v \<Rightarrow> [(n, v)] | _ \<Rightarrow> [])"

definition bytes_in :: "http_event \<Rightarrow> string" where
  "bytes_in ev = (case ev of Body s \<Rightarrow> s | _ \<Rightarrow> [])"

definition wait_in :: "http_event \<Rightarrow> pyval list" where
  "wait_in ev = (case ev of Wait ms \<Rightarrow> [ms] | _ \<Rightarrow> [])"

definition status_in :: "http_event \<Rightarrow> pyval list" where
  "status_in ev = (case ev of StatusLine st \<Rightarrow> [st] | _ \<Rightarrow> [])"

definition header_lines :: "http_event list \<Rightarrow> (string \<times> string) list" where
  "header_lines evs = concat (map header_of evs)"

definition body_bytes :: "http_event list \<Rightarrow> string" where
  "body_bytes evs = concat (map bytes_in evs)"

definition waits :: "http_event list \<Rightarrow> pyval list" where
  "waits evs = concat (map wait_in evs)"

definition status_lines :: "http_event list \<Rightarrow> pyval list" where
  "status_lines evs = concat (map status_in evs)"

lemmas event_parts = header_lines_def body_bytes_def waits_def status_lines_def header_of_def bytes_in_def wait_in_def status_in_def

text \<open>A wait of that many milliseconds: none when the number is not positive.\<close>

definition waited :: "pyval \<Rightarrow> pyval list" where
  "waited ms = (if py_lt (VInt 0) ms = Inr True then [ms] else [])"

lemma header_lines_append [simp]: "header_lines (a @ b) = header_lines a @ header_lines b"
  by (simp add: header_lines_def)

lemma body_bytes_append [simp]: "body_bytes (a @ b) = body_bytes a @ body_bytes b"
  by (simp add: body_bytes_def)

lemma waits_append [simp]: "waits (a @ b) = waits a @ waits b"
  by (simp add: waits_def)

lemma status_lines_append [simp]: "status_lines (a @ b) = status_lines a @ status_lines b"
  by (simp add: status_lines_def)

lemma header_event_parts [simp]:
  "header_lines [] = []" "header_lines (HeaderLine n v # evs) = (n, v) # header_lines evs"
  "header_lines (StatusLine st # evs) = header_lines evs" "header_lines (EndOfHeaders # evs) = header_lines evs"
  "header_lines (Body s # evs) = header_lines evs" "header_lines (Wait ms # evs) = header_lines evs"
  "header_lines (CloseSocket # evs) = header_lines evs"
  by (simp_all add: header_lines_def header_of_def)

lemma body_event_parts [simp]:
  "body_bytes [] = []" "body_bytes (HeaderLine n v # evs) = body_bytes evs"
  "body_bytes (StatusLine st # evs) = body_bytes evs" "body_bytes (EndOfHeaders # evs) = body_bytes evs"
  "body_bytes (Body s # evs) = s @ body_bytes evs" "body_bytes (Wait ms # evs) = body_bytes evs"
  "body_bytes (CloseSocket # evs) = body_bytes evs"
  by (simp_all add: body_bytes_def bytes_in_def)

lemma wait_event_parts [simp]:
  "waits [] = []" "waits (HeaderLine n v # evs) = waits evs"
  "waits (StatusLine st # evs) = waits evs" "waits (EndOfHeaders # evs) = waits evs"
  "waits (Body s # evs) = waits evs" "waits (Wait ms # evs) = ms # waits evs"
  "waits (CloseSocket # evs) = waits evs"
  by (simp_all add: waits_def wait_in_def)

lemma status_event_parts [simp]:
  "status_lines [] = []" "status_lines (HeaderLine n v # evs) = status_lines evs"
  "status_lines (StatusLine st # evs) = st # status_lines evs" "status_lines (EndOfHeaders # evs) = status_lines evs"
  "status_lines (Body s # evs) = status_lines evs" "status_lines (Wait ms # evs) = status_lines evs"
  "status_lines (CloseSocket # evs) = status_lines evs"
  by (simp_all add: status_lines_def status_in_def)

lemma then_write_ok: "then_write a b = (evs, None) \<longleftrightarrow> (\<exists>x y. a = (x, None) \<and> b = (y, None) \<and> evs = x @ y)"
  by (cases a; cases b) (auto simp: then_write_def split: option.splits)

lemma wait_ms_ok: "wait_ms ms = (evs, None) \<longleftrightarrow> (\<exists>late. py_lt (VInt 0) ms = Inr late \<and> evs = map Wait (waited ms))"
  by (auto simp: wait_ms_def waited_def split: sum.splits)

lemma wait_events [simp]:
  "header_lines (map Wait ms) = []" "body_bytes (map Wait ms) = []" "waits (map Wait ms) = ms" "status_lines (map Wait ms) = []"
  by (induction ms) simp_all

section \<open>The header block\<close>

definition named_in :: "string \<Rightarrow> chosen_headers \<Rightarrow> bool" where
  "named_in n chosen \<longleftrightarrow> lower n \<in> set (map (lower \<circ> fst) chosen)"

lemma send_unless_chosen_iff:
  "send_unless_chosen chosen n v = (if named_in n chosen then [] else [HeaderLine n v])"
  by (auto simp: send_unless_chosen_def named_in_def list_ex_iff split: prod.splits intro: rev_image_eqI)

lemma send_header_names:
  "map fst (header_lines (send_header ctx chosen n v)) = (if named_in n chosen then [] else [n])"
  by (simp add: send_header_def send_unless_chosen_iff)

lemma send_header_quiet [simp]:
  "body_bytes (send_header ctx chosen n v) = []" "waits (send_header ctx chosen n v) = []"
  "status_lines (send_header ctx chosen n v) = []"
  by (simp_all add: send_header_def send_unless_chosen_iff)

lemma end_headers_parts [simp]:
  "header_lines (end_headers chosen) = chosen" "body_bytes (end_headers chosen) = []"
  "waits (end_headers chosen) = []" "status_lines (end_headers chosen) = []"
  by (induction chosen) (auto simp: end_headers_def)

lemma send_response_parts [simp]:
  "body_bytes (send_response ctx chosen st) = []" "waits (send_response ctx chosen st) = []"
  "status_lines (send_response ctx chosen st) = [st]"
  by (simp_all add: send_response_def)

text \<open>The names of the headers that the adapter writes itself.\<close>

definition own_names :: "string list" where
  "own_names = [''Server'', ''Date'', ''Content-Type'', ''Content-Length'', ''Cache-Control'']"

lemma reply_head_names:
  "map fst (header_lines (reply_head ctx chosen res st raw)) = filter (\<lambda>n. \<not> named_in n chosen) own_names @ map fst chosen"
  by (simp add: reply_head_def send_response_def send_header_names own_names_def)

lemma own_names_distinct: "distinct (map lower own_names)"
  by code_simp

lemma head_names_distinct:
  assumes "distinct (map (lower \<circ> fst) chosen)"
  shows "distinct (map (lower \<circ> fst) (header_lines (reply_head ctx chosen res st raw)))"
proof -
  have "distinct (map lower (filter (\<lambda>n. \<not> named_in n chosen) own_names))"
    using own_names_distinct by (rule distinct_map_filter)
  with assms show ?thesis unfolding map_map [symmetric] reply_head_names map_append
    by (auto simp: named_in_def)
qed

lemma head_lines_sent:
  assumes "\<not> named_in ''Content-Length'' chosen"
  shows "(''Content-Length'', nat_text (length raw)) \<in> set (header_lines (reply_head ctx chosen res st raw))"
    and "set chosen \<subseteq> set (header_lines (reply_head ctx chosen res st raw))"
  using assms by (auto simp: reply_head_def send_response_def send_header_def send_unless_chosen_iff) (simp add: lower_def)

lemma reply_head_parts [simp]:
  "body_bytes (reply_head ctx chosen res st raw) = []" "waits (reply_head ctx chosen res st raw) = []"
  "status_lines (reply_head ctx chosen res st raw) = [st]"
  by (simp_all add: reply_head_def)

section \<open>The body\<close>

lemma reply_body_ok:
  assumes "reply_body res raw = (evs, None)"
  shows "header_lines evs = []" and "status_lines evs = []"
    and "body_bytes evs = (if r_suppress_body res then [] else raw)"
    and "waits evs = (if r_pause_at res = VStr ''mid_body'' then waited (r_pause_ms res) else [])"
  using assms by (auto simp: reply_body_def then_write_ok wait_ms_ok split: if_splits)

section \<open>A whole reply\<close>

lemma lowered_content_length: "lower ''Content-Length'' = ''content-length''"
  by code_simp

lemma accepted_chosen:
  assumes ok: "cfg_check ScenarioConfig cfg = None"
    and hs: "r_reply_headers res = VDict [] \<or> r_reply_headers res = get_or cfg ''reply_headers'' VNone"
  shows "distinct (map (lower \<circ> fst) (chosen_of_result res)) \<and> \<not> named_in ''Content-Length'' (chosen_of_result res)"
proof (cases "r_reply_headers res")
  case (VDict kvs)
  show ?thesis
  proof (cases "kvs = []")
    case False
    with hs VDict have "get_or cfg ''reply_headers'' VNone = VDict kvs" by auto
    note safe = accepted_reply_headers_safe [OF ok this]
    have keys: "lowered_name k = lower (key_text k)" if "(k, v) \<in> set kvs" for k v
      using safe that by fastforce
    have same: "map (lower \<circ> fst) (chosen_of_result res) = lowered_names kvs"
      using keys by (auto simp: chosen_of_result_def VDict)
    moreover have "lower ''Content-Length'' \<notin> set (lowered_names kvs)"
    proof
      assume "lower ''Content-Length'' \<in> set (lowered_names kvs)"
      then obtain k v where kv: "(k, v) \<in> set kvs" and "lowered_name k = ''content-length''"
        unfolding lowered_content_length by auto
      with safe show False by (fastforce simp: HEADERS_THE_SIMULATOR_OWNS_def)
    qed
    ultimately show ?thesis using safe unfolding named_in_def by simp
  qed (simp add: chosen_of_result_def VDict named_in_def)
qed (simp_all add: chosen_of_result_def named_in_def)

lemma perform_respond:
  assumes "r_action res = action.Respond" and "perform fl h ctx res = (evs, None)"
  obtains st bytes emit_body late held rest where
    "serialize fl (r_status res) (r_body res) (r_corruption_mode res) (r_missing_field res) (dotted_paths h) = Inr (st, bytes, emit_body)"
    and "wait_ms (r_latency_ms res) = (late, None)"
    and "(if r_pause_at res = VStr ''after_headers'' then wait_ms (r_pause_ms res) else ([], None)) = (held, None)"
    and "reply_body res (if emit_body then bytes else []) = (rest, None)"
    and "evs = late @ reply_head ctx (chosen_of_result res) res st (if emit_body then bytes else []) @ held @ rest"
  using assms by (auto simp: perform_def Let_def then_write_ok split: sum.splits prod.splits)

text \<open>
  C16. The HTTP reply that the adapter writes for a planned response, under any scenario that was accepted: one status
  line, header names that are distinct whatever their case, a \<open>Content-Length\<close> that is the number of
  bytes of the body, every chosen header, exactly those bytes (none when the plan withholds the body), and
  no wait but the latency and the pause of the plan. A pause never changes a byte.
\<close>

theorem reply_framed:
  assumes "cfg_check ScenarioConfig cfg = None"
    and "r_reply_headers res = VDict [] \<or> r_reply_headers res = get_or cfg ''reply_headers'' VNone"
    and "r_action res = action.Respond" and "perform fl h ctx res = (evs, None)"
  shows "\<exists>st raw. status_lines evs = [st]
    \<and> (\<exists>bytes emit_body. serialize fl (r_status res) (r_body res) (r_corruption_mode res) (r_missing_field res) (dotted_paths h)
          = Inr (st, bytes, emit_body) \<and> raw = (if emit_body then bytes else []))
    \<and> distinct (map (lower \<circ> fst) (header_lines evs))
    \<and> (''Content-Length'', nat_text (length raw)) \<in> set (header_lines evs)
    \<and> set (chosen_of_result res) \<subseteq> set (header_lines evs)
    \<and> body_bytes evs = (if r_suppress_body res then [] else raw)
    \<and> waits evs = waited (r_latency_ms res)
        @ (if r_pause_at res = VStr ''after_headers'' \<or> r_pause_at res = VStr ''mid_body'' then waited (r_pause_ms res) else [])"
proof -
  from assms(3,4) obtain st bytes emit_body late held rest where
    ser: "serialize fl (r_status res) (r_body res) (r_corruption_mode res) (r_missing_field res) (dotted_paths h) = Inr (st, bytes, emit_body)"
    and late: "wait_ms (r_latency_ms res) = (late, None)"
    and held: "(if r_pause_at res = VStr ''after_headers'' then wait_ms (r_pause_ms res) else ([], None)) = (held, None)"
    and rest: "reply_body res (if emit_body then bytes else []) = (rest, None)"
    and evs: "evs = late @ reply_head ctx (chosen_of_result res) res st (if emit_body then bytes else []) @ held @ rest"
    by (rule perform_respond)
  let ?raw = "if emit_body then bytes else []"
  note chosen = accepted_chosen [OF assms(1,2)]
  have l: "late = map Wait (waited (r_latency_ms res))" using late by (auto simp: wait_ms_ok)
  have k: "held = map Wait (if r_pause_at res = VStr ''after_headers'' then waited (r_pause_ms res) else [])"
    using held by (auto simp: wait_ms_ok split: if_splits)
  have lines: "header_lines evs = header_lines (reply_head ctx (chosen_of_result res) res st ?raw)"
    by (simp add: evs l k reply_body_ok [OF rest])
  have "status_lines evs = [st]" by (simp add: evs l k reply_body_ok [OF rest])
  moreover have "distinct (map (lower \<circ> fst) (header_lines evs))"
    unfolding lines using chosen by (intro head_names_distinct) simp
  moreover have "(''Content-Length'', nat_text (length ?raw)) \<in> set (header_lines evs)"
    unfolding lines using chosen by (intro head_lines_sent) simp
  moreover have "set (chosen_of_result res) \<subseteq> set (header_lines evs)"
    unfolding lines using chosen by (intro head_lines_sent) simp
  moreover have "body_bytes evs = (if r_suppress_body res then [] else ?raw)"
    unfolding evs by (simp add: l k reply_body_ok(3) [OF rest])
  moreover have "waits evs = waited (r_latency_ms res)
        @ (if r_pause_at res = VStr ''after_headers'' \<or> r_pause_at res = VStr ''mid_body'' then waited (r_pause_ms res) else [])"
    unfolding evs by (auto simp: l k reply_body_ok(4) [OF rest])
  ultimately show ?thesis
    using ser by (intro exI [of _ st] exI [of _ ?raw] conjI exI [of _ bytes] exI [of _ emit_body]) simp_all
qed

theorem reply_framed_witness:
  "\<exists>evs. perform (\<lambda>_. []) JsonRpcHttpHandler \<lparr>provider_name = ''p1'', caller_address = ''10.0.0.1'', server_text = ''S'', date_text = ''D''\<rparr>
        ((serve_result_of action.Respond (VInt 200) (jobj [(''a'', VInt 1)]))
          \<lparr>r_pause_at := VStr ''mid_body'', r_pause_ms := VInt 50, r_reply_headers := jobj [(''Retry-After'', VStr ''5'')]\<rparr>) = (evs, None)
    \<and> status_lines evs = [VInt 200] \<and> distinct (map (lower \<circ> fst) (header_lines evs))
    \<and> (''Retry-After'', ''5'') \<in> set (header_lines evs)"
proof -
  let ?cfg = "[(''reply_headers'', jobj [(''Retry-After'', VStr ''5'')])]"
  let ?res = "(serve_result_of action.Respond (VInt 200) (jobj [(''a'', VInt 1)]))
      \<lparr>r_pause_at := VStr ''mid_body'', r_pause_ms := VInt 50, r_reply_headers := jobj [(''Retry-After'', VStr ''5'')]\<rparr>"
  let ?ctx = "\<lparr>provider_name = ''p1'', caller_address = ''10.0.0.1'', server_text = ''S'', date_text = ''D''\<rparr>"
  let ?w = "perform (\<lambda>_. []) JsonRpcHttpHandler ?ctx ?res"
  have ok: "cfg_check ScenarioConfig ?cfg = None" by code_simp
  have hs: "r_reply_headers ?res = VDict [] \<or> r_reply_headers ?res = get_or ?cfg ''reply_headers'' VNone" by code_simp
  have act: "r_action ?res = action.Respond" by code_simp
  have ends: "snd ?w = None" by code_simp
  have st: "status_lines (fst ?w) = [VInt 200]" by code_simp
  have chosen: "chosen_of_result ?res = [(''Retry-After'', ''5'')]" by code_simp
  have "?w = (fst ?w, None)" using ends by (metis prod.collapse)
  from reply_framed [OF ok hs act this] chosen st \<open>?w = (fst ?w, None)\<close> show ?thesis by auto
qed

section \<open>The names that ride on the content type\<close>

text \<open>How a reader of a media type takes the value of a parameter: a quoted string, or the longest token.\<close>

fun read_quoted :: "string \<Rightarrow> (string \<times> string) option" where
  "read_quoted [] = None"
| "read_quoted (c # cs) =
     (if c = dquote then Some ([], cs)
      else if c = CHR 0x5C then (case cs of [] \<Rightarrow> None | d # ds \<Rightarrow> map_option (apfst (Cons d)) (read_quoted ds))
      else map_option (apfst (Cons c)) (read_quoted cs))"

definition read_value :: "string \<Rightarrow> (string \<times> string) option" where
  "read_value s = (case s of
     c # cs \<Rightarrow> if c = dquote then read_quoted cs
               else Some (takeWhile (\<lambda>c. c \<in> set HTTP_TOKEN_CHARS) s, dropWhile (\<lambda>c. c \<in> set HTTP_TOKEN_CHARS) s)
   | [] \<Rightarrow> None)"

lemma escaped_reads: "read_quoted (escaped v @ dquote # rest) = Some (v, rest)"
  by (induction v) auto

lemma not_token: "CHR '';'' \<notin> set HTTP_TOKEN_CHARS" "dquote \<notin> set HTTP_TOKEN_CHARS"
  by code_simp+

definition value_text :: "string \<Rightarrow> string" where
  "value_text v = (if list_all (\<lambda>c. c \<in> set HTTP_TOKEN_CHARS) v then v else [dquote] @ escaped v @ [dquote])"

lemma with_parameter:
  "v \<noteq> [] \<Longrightarrow> with_media_type_parameter media name v = media @ ''; '' @ name @ ''='' @ value_text v"
  by (simp only: with_media_type_parameter_def value_text_def if_False)

lemma value_reads:
  assumes "v \<noteq> []" and "rest = [] \<or> hd rest = CHR '';''"
  shows "read_value (value_text v @ rest) = Some (v, rest)"
proof (cases "list_all (\<lambda>c. c \<in> set HTTP_TOKEN_CHARS) v")
  case True
  then have all: "\<And>c. c \<in> set v \<Longrightarrow> c \<in> set HTTP_TOKEN_CHARS" by (simp add: list_all_iff)
  have stop: "takeWhile (\<lambda>c. c \<in> set HTTP_TOKEN_CHARS) rest = []" "dropWhile (\<lambda>c. c \<in> set HTTP_TOKEN_CHARS) rest = rest"
    using assms(2) not_token(1) by (cases rest; auto)+
  obtain c cs where v: "v = c # cs" using assms(1) by (cases v) auto
  with all not_token(2) have "c \<noteq> dquote" by auto
  then have "read_value (v @ rest) = Some (v, rest)"
    using all stop by (simp add: read_value_def v takeWhile_append2 dropWhile_append2)
  with True show ?thesis by (simp add: value_text_def)
qed (simp add: value_text_def read_value_def escaped_reads)

text \<open>
  Every \<open>Content-Type\<close> that a provider port writes starts with the media type of the reply, and a reader of its parameters
  finds the provider name and then the address of the caller exactly as they are, whatever quotes,
  backslashes and semicolons they hold.
\<close>

theorem content_type_names_read_back:
  assumes "provider_name ctx \<noteq> []" and "caller_address ctx \<noteq> []" and "\<not> named_in ''Content-Type'' chosen"
  shows "\<exists>t u. header_lines (send_header ctx chosen ''Content-Type'' media)
        = [(''Content-Type'', media @ ''; sim-provider='' @ t @ ''; sim-caller='' @ u)]
    \<and> read_value (t @ ''; sim-caller='' @ u) = Some (provider_name ctx, ''; sim-caller='' @ u)
    \<and> read_value u = Some (caller_address ctx, [])"
proof (intro exI conjI)
  let ?t = "value_text (provider_name ctx)" and ?u = "value_text (caller_address ctx)"
  have "lower ''Content-Type'' = ''content-type''" by code_simp
  with assms show "header_lines (send_header ctx chosen ''Content-Type'' media)
        = [(''Content-Type'', media @ ''; sim-provider='' @ ?t @ ''; sim-caller='' @ ?u)]"
    by (simp add: send_header_def send_unless_chosen_iff content_type_with_provider_name_def
        content_type_with_caller_address_def with_parameter)
  show "read_value (?t @ ''; sim-caller='' @ ?u) = Some (provider_name ctx, ''; sim-caller='' @ ?u)"
    using assms(1) by (rule value_reads) simp
  show "read_value ?u = Some (caller_address ctx, [])"
    using value_reads [OF assms(2), of "[]"] by simp
qed

theorem content_type_names_read_back_witness:
  "\<exists>t u. header_lines (send_header \<lparr>provider_name = ''a;'' @ [dquote], caller_address = ''10.0.0.1'', server_text = [], date_text = []\<rparr>
        [] ''Content-Type'' ''application/json'') = [(''Content-Type'', ''application/json'' @ ''; sim-provider='' @ t @ ''; sim-caller='' @ u)]
    \<and> read_value (t @ ''; sim-caller='' @ u) = Some (''a;'' @ [dquote], ''; sim-caller='' @ u)
    \<and> read_value u = Some (''10.0.0.1'', [])"
  using content_type_names_read_back [of "\<lparr>provider_name = ''a;'' @ [dquote], caller_address = ''10.0.0.1'', server_text = [], date_text = []\<rparr>"
      "[]" "''application/json''"]
  by (simp add: named_in_def)

end
