(* ===== verification/GrpcListener.thy ===== *)
theory GrpcListener
  imports LavaChain Interfaces
begin

text \<open>
  \<open>listeners/grpc.py\<close>: gRPC as a record of hooks of the flow of \<open>Listener\<close>, the table of the served methods, and the data of the
  reply messages; and the coroutine of \<open>server.py\<close> that performs a plan.

  \<open>GrpcStatus\<close> and \<open>GrpcReply\<close> are tuples whose first item is the name of the class: the data of a chain is a dict,
  so nothing else has that shape. The gRPC library is a parameter: the names and the numbers of its
  statuses in their order, the fields of the messages, and whether a field takes a value. A request message is the dict
  of its fields.
\<close>

section \<open>Statuses\<close>

type_synonym status_codes = "(string \<times> int) list"

definition GrpcStatus :: "string \<Rightarrow> pyval \<Rightarrow> pyval" where
  "GrpcStatus code t = VTuple [VStr ''GrpcStatus'', VStr code, t]"

definition GrpcReply :: "string \<Rightarrow> pyval \<Rightarrow> pyval" where
  "GrpcReply meth data = VTuple [VStr ''GrpcReply'', VStr meth, data]"

fun as_status :: "pyval \<Rightarrow> (string \<times> pyval) option" where
  "as_status (VTuple [VStr cls, VStr code, t]) = (if cls = ''GrpcStatus'' then Some (code, t) else None)"
| "as_status _ = None"

fun as_reply :: "pyval \<Rightarrow> (string \<times> pyval) option" where
  "as_reply (VTuple [VStr cls, VStr meth, data]) = (if cls = ''GrpcReply'' then Some (meth, data) else None)"
| "as_reply _ = None"

text \<open>\<open>_STATUS_BY_NAME.get(v)\<close> and \<open>_STATUS_BY_VALUE.get(v)\<close>, as the name of the status found.\<close>

definition status_by_name :: "status_codes \<Rightarrow> pyval \<Rightarrow> string option" where
  "status_by_name codes v = map_option fst (find (\<lambda>(n, i). py_eq (VStr n) v) codes)"

definition status_by_value :: "status_codes \<Rightarrow> pyval \<Rightarrow> string option" where
  "status_by_value codes v = map_option fst (find (\<lambda>(n, i). py_eq (VInt i) v) codes)"

definition first_status :: "string option \<Rightarrow> string option \<Rightarrow> string" where
  "first_status a b = (case a of Some n \<Rightarrow> n | None \<Rightarrow> (case b of Some n \<Rightarrow> n | None \<Rightarrow> ''UNKNOWN''))"

text \<open>
  A key without a hash raises \<open>TypeError\<close>. The code is looked up only when the message names no status.
\<close>

definition status_name :: "status_codes \<Rightarrow> pyval \<Rightarrow> pyval \<Rightarrow> pyerr + string" where
  "status_name codes error_message error_code =
     (if \<not> hashable error_message then Inl TypeError
      else (case status_by_name codes error_message of
              Some n \<Rightarrow> Inr n
            | None \<Rightarrow>
                if \<not> hashable error_code then Inl TypeError
                else Inr (first_status None (status_by_value codes error_code))))"

text \<open>A bool is an \<open>int\<close> for \<open>isinstance\<close>.\<close>

definition status_of :: "status_codes \<Rightarrow> pyval \<Rightarrow> string" where
  "status_of codes code =
     first_status (status_by_name codes (if is_str code then code else VStr []))
       (status_by_value codes (case code of VInt i \<Rightarrow> VInt i | VBool b \<Rightarrow> VBool b | _ \<Rightarrow> VInt (-1)))"

section \<open>The served methods\<close>

type_synonym served_row = "string \<times> string \<times> string option"

definition SERVED_METHODS :: "served_row list" where
  "SERVED_METHODS =
    [(''cosmos.base.tendermint.v1beta1.Service'', ''GetLatestBlock'', None),
     (''cosmos.base.tendermint.v1beta1.Service'', ''GetNodeInfo'', None),
     (''cosmos.bank.v1beta1.Query'', ''AllBalances'', Some ''address'')]"

fun add_served :: "(string, string option) dict \<Rightarrow> served_row list \<Rightarrow> pyerr + (string, string option) dict" where
  "add_served id_of [] = Inr id_of"
| "add_served id_of ((service, meth, id_field) # rest) =
     (if map_of id_of meth \<noteq> None then Inl ValueError else add_served (AList.update meth id_field id_of) rest)"

definition request_id_fields :: "served_row list \<Rightarrow> pyerr + (string, string option) dict" where
  "request_id_fields served = add_served [] served"

text \<open>
  The servicers as a dict from a service to the names that its class defines itself and that can be called. The
  descriptor pool gives the fields of the request message of a method, when it is loaded.
\<close>

definition in_code :: "(string, string list) dict \<Rightarrow> (string \<times> string) list" where
  "in_code servicers = concat (map (\<lambda>(s, ns). map (Pair s) (filter (\<lambda>n. \<not> starts_with ''_'' n) ns)) servicers)"

definition row_field_ok :: "(string \<Rightarrow> string \<Rightarrow> string list option) \<Rightarrow> served_row \<Rightarrow> bool" where
  "row_field_ok pool row = (case row of (service, meth, id_field) \<Rightarrow> (case id_field of
     None \<Rightarrow> True
   | Some f \<Rightarrow> (case pool service meth of None \<Rightarrow> False | Some fs \<Rightarrow> f \<in> set fs)))"

definition check_servicers ::
  "(string \<Rightarrow> string \<Rightarrow> string list option) \<Rightarrow> (string, string list) dict \<Rightarrow> served_row list \<Rightarrow> pyerr option" where
  "check_servicers pool servicers table =
     (if set (in_code servicers) \<noteq> set (map (\<lambda>(s, m, f). (s, m)) table) then Some ValueError
      else if list_all (row_field_ok pool) table then None else Some ValueError)"

text \<open>The names that the two classes of \<open>servicers\<close> define.\<close>

definition SERVICERS :: "(string, string list) dict" where
  "SERVICERS =
    [(''cosmos.base.tendermint.v1beta1.Service'', [''__module__'', ''__doc__'', ''GetLatestBlock'', ''GetNodeInfo'']),
     (''cosmos.bank.v1beta1.Query'', [''__module__'', ''__doc__'', ''AllBalances''])]"

text \<open>\<open>getattr(request, field, None)\<close>, and its text when it is not empty.\<close>

definition grpc_request_id :: "(pyval \<Rightarrow> string) \<Rightarrow> pyval \<Rightarrow> pyval \<Rightarrow> pyval" where
  "grpc_request_id other meth message =
     (case request_id_fields SERVED_METHODS of
        Inl e \<Rightarrow> VNone
      | Inr id_of \<Rightarrow>
          (case (case meth of VStr m \<Rightarrow> get_or id_of m None | _ \<Rightarrow> None) of
             None \<Rightarrow> VNone
           | Some f \<Rightarrow>
               let v = vget_or message f VNone
               in if message = VNone \<or> \<not> truthy v then VNone else VStr (py_str other v)))"

section \<open>The hooks\<close>

definition grpc_parse :: "pyval \<Rightarrow> raw_request \<Rightarrow> parse_outcome" where
  "grpc_parse message req = Parsed (jobj [(''method'', VStr (rq_path req)), (''message'', message)])"

definition grpc_down :: serve_result where
  "grpc_down = serve_result_of Respond (VInt 200) (GrpcStatus ''UNAVAILABLE'' (VStr ''provider down''))"

definition grpc_fault :: "status_codes \<Rightarrow> verdict \<Rightarrow> pyval \<Rightarrow> pyerr + serve_result" where
  "grpc_fault codes v req =
     (if kind v = KHang then Inr (serve_result_of Hang (VInt 200) (GrpcStatus ''CANCELLED'' (VStr ''hang timeout'')))
      else if kind v = KDrop then
        Inr ((serve_result_of Drop (VInt 200) (GrpcStatus ''UNAVAILABLE'' (VStr ''connection dropped'')))
          \<lparr>r_drop_at := v_drop_at v\<rparr>)
      else if kind v = KRateLimit then
        Inr (serve_result_of Respond (VInt 200) (GrpcStatus ''RESOURCE_EXHAUSTED'' (VStr ''Too many requests'')))
      else bind_r (status_name codes (v_error_message v) (v_error_code v)) (\<lambda>name.
        Inr (serve_result_of Respond (VInt 200) (GrpcStatus name (v_error_message v)))))"

text \<open>The data of a chain holds an error as a dict (\<open>error.get\<close>).\<close>

definition grpc_success :: "status_codes \<Rightarrow> (pyval \<Rightarrow> string) \<Rightarrow> pyval \<Rightarrow> pyval \<Rightarrow> serve_result" where
  "grpc_success codes other st body =
     (let data = (if is_dict body then body else VDict []);
          err = vget_or data ''error'' VNone
      in if err \<noteq> VNone
         then serve_result_of Respond (VInt 200)
                (GrpcStatus (status_of codes (vget_or err ''code'' VNone)) (vget_or err ''message'' VNone))
         else serve_result_of Respond (VInt 200) (GrpcReply (py_str other (vget_or data ''grpc_method'' (VStr []))) data))"

definition grpc_corrupt :: "(pyval \<Rightarrow> string) \<Rightarrow> serve_result \<Rightarrow> string \<Rightarrow> sdict \<Rightarrow> serve_result \<times> string" where
  "grpc_corrupt other res label sc =
     (if as_reply (r_body res) = None then (res, label)
      else
        let cm = get_or sc ''corruption_mode'' VNone
        in if cm = VStr ''wrong_type'' then
             (res\<lparr>r_body := GrpcStatus ''INTERNAL'' (VStr (''wrong_type corruption on ''
                 @ py_str other (py_or (get_or sc ''missing_field'' VNone) (VStr ''response''))))\<rparr>, ''error'')
           else if cm \<in> {VStr ''invalid_proto'', VStr ''empty_response'', VStr ''truncated'', VStr ''null_body''} then
             (res\<lparr>r_body := GrpcStatus ''UNKNOWN'' (VStr (''corruption: '' @ py_str other cm))\<rparr>, ''error'')
           else if cm = VStr ''missing_field'' then
             (res\<lparr>r_corruption_mode := VStr ''missing_field'', r_missing_field := get_or sc ''missing_field'' VNone\<rparr>, label)
           else (res, label))"

definition grpc_hooks :: "status_codes \<Rightarrow> (pyval \<Rightarrow> string) \<Rightarrow> chains \<Rightarrow> endpoint \<Rightarrow> pyval \<Rightarrow> 'c hooks" where
  "grpc_hooks codes other ch ep message =
     \<lparr>body_for_history = (\<lambda>_. None), path_for_history = (\<lambda>_. None),
      parse_request = (\<lambda>req p c. (grpc_parse message req, c)),
      build_fault = grpc_fault codes, build_success = grpc_success codes other, build_down = grpc_down,
      build_content = chain_content ch ep, corrupt = grpc_corrupt other,
      build_parse_error = default_build_parse_error, method_key = default_method_key,
      build_body_override = no_body_override, success_label = default_success_label,
      request_method = default_request_method,
      request_id_of = (\<lambda>req. grpc_request_id other (vget_or req ''method'' (VStr [])) (vget_or req ''message'' VNone)),
      response_id = (\<lambda>_. VNone)\<rparr>"

section \<open>The reply messages\<close>

text \<open>What the library does with a message: the fields that a method's reply has, and whether a field takes a value.\<close>

record proto =
  reply_fields :: "string \<Rightarrow> string list"
  takes :: "string \<Rightarrow> pyval \<Rightarrow> bool"

definition merged_data :: "pyval \<Rightarrow> pyval" where
  "merged_data data = (case data of
     VDict kvs \<Rightarrow>
       let rest = filter (\<lambda>(k, v). \<not> py_eq (VStr ''result'') k) kvs
       in (case vget_or data ''result'' VNone of
             VDict more_kvs \<Rightarrow> VDict (foldl (\<lambda>d (k, v). pd_put k v d) rest more_kvs)
           | _ \<Rightarrow> VDict rest)
   | _ \<Rightarrow> data)"

text \<open>A value that the library refuses raises \<open>TypeError\<close>.\<close>

fun set_fields :: "proto \<Rightarrow> (string \<times> pyval) list \<Rightarrow> pyerr + (string \<times> pyval) list" where
  "set_fields lib [] = Inr []"
| "set_fields lib ((f, v) # rest) =
     (if takes lib f v then bind_r (set_fields lib rest) (\<lambda>fs. Inr ((f, v) # fs)) else Inl TypeError)"

definition build_latest_block :: "proto \<Rightarrow> int \<Rightarrow> int \<Rightarrow> pyval \<Rightarrow> pyerr + sdict" where
  "build_latest_block lib secs nanos data =
     (let merged = merged_data data
      in bind_r (set_fields lib [(''chain_id'', vget_or merged ''chain_id'' (VStr LAVA_SIM_CHAIN_ID)),
                                 (''height'', vget_or merged ''height'' (VInt GRPC_LATEST_BLOCK))]) (\<lambda>header.
           Inr [(''block_id'', jobj [(''hash'', VBytes (replicate 32 (CHR 0xAB)))]),
                (''block'', jobj [(''header'', jobj (header
                   @ [(''time'', jobj [(''seconds'', VInt secs), (''nanos'', VInt nanos)])]))])]))"

definition build_node_info :: "proto \<Rightarrow> pyval \<Rightarrow> pyerr + sdict" where
  "build_node_info lib data =
     (let merged = merged_data data
      in bind_r (set_fields lib [(''network'', vget_or merged ''network'' (VStr LAVA_SIM_CHAIN_ID)),
                                 (''moniker'', vget_or merged ''moniker'' (VStr ''lava-sim-grpc-provider'')),
                                 (''version'', vget_or merged ''version'' (VStr ''sim-1.0''))]) (\<lambda>node.
         bind_r (set_fields lib [(''name'', VStr ''lava-sim''),
                                 (''app_name'', vget_or merged ''app_name'' (VStr ''lava-sim-app'')),
                                 (''version'', vget_or merged ''app_version'' (VStr ''sim-1.0''))]) (\<lambda>app.
           Inr [(''default_node_info'', jobj node), (''application_version'', jobj app)])))"

definition text_of_value :: "(pyval \<Rightarrow> string) \<Rightarrow> pyval \<Rightarrow> string" where
  "text_of_value other v = (if v = VNone then [] else py_str other v)"

definition coins_of :: "(pyval \<Rightarrow> string) \<Rightarrow> pyval list \<Rightarrow> pyval list" where
  "coins_of other items = map (\<lambda>coin. jobj [(''denom'', VStr (text_of_value other (vget_or coin ''denom'' VNone))),
     (''amount'', VStr (text_of_value other (vget_or coin ''amount'' VNone)))]) (filter is_dict items)"

definition build_all_balances :: "(pyval \<Rightarrow> string) \<Rightarrow> pyval \<Rightarrow> sdict" where
  "build_all_balances other data =
     [(''balances'', VList (coins_of other (case vget_or (merged_data data) ''balances'' (VList []) of VList xs \<Rightarrow> xs | _ \<Rightarrow> [])))]"

definition reply_builder :: "proto \<Rightarrow> (pyval \<Rightarrow> string) \<Rightarrow> int \<Rightarrow> int \<Rightarrow> string \<Rightarrow> pyval \<Rightarrow> pyerr + sdict" where
  "reply_builder lib other secs nanos meth data =
     (if meth = ''GetLatestBlock'' then build_latest_block lib secs nanos data
      else if meth = ''GetNodeInfo'' then build_node_info lib data
      else if meth = ''AllBalances'' then Inr (build_all_balances other data)
      else Inl KeyError)"

text \<open>A field that is cleared is left out of the message.\<close>

definition message_of :: "proto \<Rightarrow> (pyval \<Rightarrow> string) \<Rightarrow> int \<Rightarrow> int \<Rightarrow> serve_result \<Rightarrow> pyerr + sdict" where
  "message_of lib other secs nanos res = (case as_reply (r_body res) of
     None \<Rightarrow> Inl AssertionError
   | Some (meth, data) \<Rightarrow>
       bind_r (reply_builder lib other secs nanos meth data) (\<lambda>msg.
         Inr (case r_missing_field res of
                VStr f \<Rightarrow> if r_corruption_mode res = VStr ''missing_field'' \<and> f \<noteq> [] \<and> f \<in> set (reply_fields lib meth)
                          then filter (\<lambda>(k, v). k \<noteq> f) msg else msg
              | _ \<Rightarrow> msg)))"

definition metadata_of :: "pyval \<Rightarrow> (string \<times> string) list" where
  "metadata_of chosen = (case chosen of VDict kvs \<Rightarrow> map (\<lambda>(k, v). (lower (key_text k), key_text v)) kvs | _ \<Rightarrow> [])"

section \<open>One call\<close>

text \<open>What the coroutine of the adapter does with a plan, in order. A caller that goes away cancels it between two events.\<close>

datatype grpc_event =
    GrpcWait pyval
  | InitialMetadata "(string \<times> string) list"
  | StatusSent string
  | Abort string pyval "(string \<times> string) list"
  | TrailingMetadata "(string \<times> string) list"
  | Reply sdict

definition grpc_wait :: "pyval \<Rightarrow> pyerr + grpc_event list" where
  "grpc_wait ms = bind_r (py_lt (VInt 0) ms) (\<lambda>late. Inr (if late then [GrpcWait ms] else []))"

definition end_with_status :: "serve_result \<Rightarrow> string \<Rightarrow> pyval \<Rightarrow> pyerr + grpc_event list" where
  "end_with_status res code t =
     bind_r (if r_action res = Hang then Inr [GrpcWait (VInt 30000)] else grpc_wait (r_latency_ms res)) (\<lambda>waited.
       Inr (waited
         @ (if truthy (r_reply_headers res)
              \<or> (r_action res = Drop \<and> r_drop_at res \<in> {VStr ''after_headers'', VStr ''mid_body''})
            then [InitialMetadata (metadata_of (r_reply_headers res))] else [])
         @ [StatusSent code, Abort code t (metadata_of (r_reply_trailers res))]))"

definition end_with_reply :: "proto \<Rightarrow> (pyval \<Rightarrow> string) \<Rightarrow> int \<Rightarrow> int \<Rightarrow> serve_result \<Rightarrow> pyerr + grpc_event list" where
  "end_with_reply lib other secs nanos res =
     bind_r (message_of lib other secs nanos res) (\<lambda>msg.
       bind_r (grpc_wait (r_latency_ms res)) (\<lambda>waited.
         Inr (waited
           @ (if truthy (r_reply_headers res) then [InitialMetadata (metadata_of (r_reply_headers res))] else [])
           @ (if truthy (r_reply_trailers res) then [TrailingMetadata (metadata_of (r_reply_trailers res))] else [])
           @ [StatusSent ''OK'', Reply msg])))"

definition grpc_plan :: "proto \<Rightarrow> (pyval \<Rightarrow> string) \<Rightarrow> int \<Rightarrow> int \<Rightarrow> serve_result \<Rightarrow> pyerr + grpc_event list" where
  "grpc_plan lib other secs nanos res = (case as_status (r_body res) of
     Some (code, t) \<Rightarrow> end_with_status res code t
   | None \<Rightarrow> end_with_reply lib other secs nanos res)"

text \<open>\<open>status_sent\<close> on the row of the call.\<close>

definition note_event :: "row_id \<Rightarrow> grpc_event \<Rightarrow> provider \<Rightarrow> provider" where
  "note_event i ev p = (case ev of StatusSent s \<Rightarrow> p\<lparr>p_log := set_grpc_status i s (p_log p)\<rparr> | _ \<Rightarrow> p)"

definition note_events :: "row_id \<Rightarrow> grpc_event list \<Rightarrow> provider \<Rightarrow> provider" where
  "note_events i evs p = fold (note_event i) evs p"

text \<open>The milliseconds that are left, from the number that the library gives, which may be fractional or negative.\<close>

definition deadline_ms :: "rat option \<Rightarrow> pyval" where
  "deadline_ms left_ms = (case left_ms of None \<Rightarrow> VNone | Some r \<Rightarrow> VInt (max 0 (if r < 0 then \<lceil>r\<rceil> else \<lfloor>r\<rfloor>)))"

definition grpc_call ::
  "status_codes \<Rightarrow> proto \<Rightarrow> (string \<Rightarrow> string) \<Rightarrow> (pyval \<Rightarrow> string) \<Rightarrow> chains \<Rightarrow> rat \<Rightarrow> rat \<Rightarrow> rat \<Rightarrow> int \<Rightarrow> int \<Rightarrow> endpoint
   \<Rightarrow> string \<Rightarrow> pyval \<Rightarrow> headers \<Rightarrow> rat option \<Rightarrow> provider \<Rightarrow> (pyerr + grpc_event list) \<times> row_id \<times> provider" where
  "grpc_call codes lib sha other ch rnd t0 t1 secs nanos ep meth message hs left_ms p =
     (case arrive t0 ep hs (deadline_ms left_ms) p of (i, p1) \<Rightarrow>
       (case serve_entry sha rnd (grpc_hooks codes other ch ep message) t1 ep
               \<lparr>rq_body = [], rq_headers = hs, rq_verb = [], rq_path = meth, rq_query = []\<rparr> i p1 () of
          (Inl e, p2, _) \<Rightarrow> (Inl e, i, p2)
        | (Inr res, p2, _) \<Rightarrow>
            (case grpc_plan lib other secs nanos res of
               Inl e \<Rightarrow> (Inl e, i, p2)
             | Inr evs \<Rightarrow> (Inr evs, i, note_events i evs p2))))"

section \<open>The contract\<close>

lemma grpc_bare:
  "bare grpc_down" "grpc_fault codes v req = Inr res \<Longrightarrow> bare res" "bare (grpc_success codes other st body)"
  by (auto simp: grpc_down_def grpc_fault_def grpc_success_def Let_def bind_r_Inr_iff split: if_splits)

lemma grpc_corrupt_keeps:
  "r_reply_headers (fst (grpc_corrupt other res label sc)) = r_reply_headers res"
  "r_reply_trailers (fst (grpc_corrupt other res label sc)) = r_reply_trailers res"
  "label \<in> final_labels \<Longrightarrow> snd (grpc_corrupt other res label sc) \<in> final_labels"
  by (auto simp: grpc_corrupt_def Let_def)

interpretation grpc: listener_contract "grpc_hooks codes other ch ep message" for codes other ch ep message
  by unfold_locales
    (auto simp: grpc_hooks_def grpc_bare(1,3) grpc_parse_def no_body_override_def hook_labels_final
      intro: grpc_corrupt_keeps dest: chain_content_frame grpc_bare(2))

end
