(* ===== verification/GrpcFacts.thy ===== *)
theory GrpcFacts
  imports GrpcListener
begin

text \<open>
  What a gRPC caller and the history see: the shape of every plan, the end of every call, and the
  table of the served methods.
\<close>

section \<open>What holds of every body of a flow\<close>

text \<open>
  A property of reply bodies that every hook gives and that the corruption keeps holds of every plan of the flow.
\<close>

locale body_contract =
  fixes H :: "'c hooks" and good :: "pyval \<Rightarrow> bool"
  assumes down_good: "good (r_body (build_down H))"
    and fault_good: "build_fault H v parsed = Inr res \<Longrightarrow> good (r_body res)"
    and success_good: "good (r_body (build_success H st body))"
    and parse_error_good: "parse_request H req p c = (ParseFailed exc, c') \<Longrightarrow> good (r_body (build_parse_error H exc))"
    and direct_good: "parse_request H req p c = (Direct res meth label rid, c') \<Longrightarrow> good (r_body res)"
    and override_good: "build_body_override H m = Some res \<Longrightarrow> good (r_body res)"
    and corrupt_good: "good (r_body res) \<Longrightarrow> good (r_body (fst (corrupt H res label sc)))"
begin

definition all_good :: "(pyerr + serve_result) \<times> provider \<times> 'c \<Rightarrow> bool" where
  "all_good out = (case fst out of Inl e \<Rightarrow> True | Inr res \<Rightarrow> good (r_body res))"

lemma all_good_simps [simp]: "all_good (Inl e, q)" "all_good (Inr res, q) = good (r_body res)"
  by (simp_all add: all_good_def)

lemma finish_good:
  assumes "good (r_body res)"
  shows "all_good (replied (finish H t i tg sc lat parsed res label rid w p) c)"
proof -
  have "good (r_body r)" if "corrupt H res' label sc = (r, l)" "r_body res' = r_body res" for res' r l
    using corrupt_good [of res' label sc] assms that by simp
  with assms show ?thesis by (auto simp: replied_def finish_def Let_def split: prod.splits)
qed

lemma act_on_good: "all_good (act_on v H t i req tg sc lat parsed p c)"
proof -
  have "all_good (give_content H t i req tg sc lat parsed p c)"
    using finish_good [OF success_good] by (simp add: give_content_def split: sum.split prod.split)
  then show ?thesis using finish_good [OF fault_good] down_good by (simp add: act_on_def split: sum.split)
qed

lemma answer_good: "all_good (answer rnd H t i req tg mode sc lat parsed p c)"
proof -
  have "good (r_body res)" if "canned_reply H m = Some res" for m res
    using that override_good by (auto simp: canned_reply_def split: if_splits)
  then show ?thesis
    using finish_good act_on_good by (simp add: answer_def split: sum.split option.split prod.split)
qed

lemma serve_entry_good:
  assumes "serve_entry sha rnd H t ep req i p c = (Inr res, p', c')"
  shows "good (r_body res)"
proof -
  have keeps: "all_good (add_headers tg sc out)" if "all_good out" for tg sc out
    using that by (cases out; cases "fst out") (auto simp: add_headers_def with_reply_headers_def)
  have "all_good (after_mode rnd H t i req tg mode sc q c)" for tg mode sc q
    unfolding after_mode_def
    by (rule keeps) (auto simp: down_good answer_good parse_error_good direct_good split: prod.split parse_outcome.split)
  then have "all_good (serve_entry sha rnd H t ep req i p c)"
    by (simp add: serve_entry_def Let_def split: sum.split prod.split)
  then show ?thesis by (simp add: assms)
qed

end

section \<open>The plans of gRPC\<close>

definition known :: "status_codes \<Rightarrow> string \<Rightarrow> bool" where
  "known codes s \<longleftrightarrow> s \<in> fst ` set codes"

text \<open>What the code relies on: the library has the statuses that the simulator names itself.\<close>

definition canonical :: "status_codes \<Rightarrow> bool" where
  "canonical codes \<longleftrightarrow>
     list_all (known codes) [''UNAVAILABLE'', ''CANCELLED'', ''RESOURCE_EXHAUSTED'', ''INTERNAL'', ''UNKNOWN'']"

definition typed_body :: "status_codes \<Rightarrow> pyval \<Rightarrow> bool" where
  "typed_body codes b \<longleftrightarrow>
     (\<exists>s t. b = GrpcStatus s t \<and> known codes s) \<or> (\<exists>m d. b = GrpcReply m d \<and> is_dict d)"

lemma canonicalD:
  assumes "canonical codes"
  shows "known codes ''UNAVAILABLE''" "known codes ''CANCELLED''" "known codes ''RESOURCE_EXHAUSTED''"
    "known codes ''INTERNAL''" "known codes ''UNKNOWN''"
  using assms by (simp_all add: canonical_def)

lemma found_known: "find P codes = Some x \<Longrightarrow> known codes (fst x)"
  by (force simp: known_def find_Some_iff)

lemma first_status_known:
  assumes "known codes ''UNKNOWN''"
  shows "known codes (first_status (map_option fst (find P codes)) (map_option fst (find Q codes)))"
  using assms found_known [of P codes] found_known [of Q codes]
  by (auto simp: first_status_def split: option.splits)

lemmas status_known = first_status_known [folded status_by_name_def status_by_value_def]

lemma typed_GrpcStatus: "known codes s \<Longrightarrow> typed_body codes (GrpcStatus s t)"
  by (auto simp: typed_body_def)

lemma typed_GrpcReply: "is_dict d \<Longrightarrow> typed_body codes (GrpcReply m d)"
  by (auto simp: typed_body_def)

lemma as_typed [simp]:
  "as_status (GrpcStatus s t) = Some (s, t)" "as_reply (GrpcStatus s t) = None"
  "as_status (GrpcReply m d) = None" "as_reply (GrpcReply m d) = Some (m, d)"
  by (simp_all add: GrpcStatus_def GrpcReply_def)

lemma grpc_fault_typed:
  assumes "canonical codes" and "grpc_fault codes v req = Inr res"
  shows "typed_body codes (r_body res)"
proof -
  have "known codes n" if "status_name codes a b = Inr n" for a b n
    using that canonicalD(5) [OF assms(1)] found_known
    by (auto simp: status_name_def status_by_name_def status_by_value_def first_status_def split: if_splits option.splits)
  with canonicalD [OF assms(1)] assms(2) show ?thesis
    by (auto simp: grpc_fault_def serve_result_of_def bind_r_Inr_iff typed_GrpcStatus split: if_splits)
qed

lemma grpc_success_typed:
  assumes "canonical codes"
  shows "typed_body codes (r_body (grpc_success codes other st body))"
proof -
  have "known codes (status_of codes a)" for a
    unfolding status_of_def status_by_name_def status_by_value_def
    by (rule first_status_known) (rule canonicalD(5) [OF assms])
  then show ?thesis
    by (simp add: grpc_success_def Let_def serve_result_of_def typed_GrpcStatus typed_GrpcReply)
qed

lemma grpc_corrupt_typed:
  assumes "canonical codes" and "typed_body codes (r_body res)"
  shows "typed_body codes (r_body (fst (grpc_corrupt other res label sc)))"
  using assms(2) canonicalD [OF assms(1)] by (auto simp: grpc_corrupt_def Let_def typed_GrpcStatus)

interpretation grpc_bodies: body_contract "grpc_hooks codes other ch ep message" "\<lambda>b. canonical codes \<longrightarrow> typed_body codes b"
  for codes other ch ep message
  by unfold_locales
    (auto simp: grpc_hooks_def grpc_down_def grpc_success_typed grpc_corrupt_typed grpc_parse_def
      no_body_override_def serve_result_of_def typed_GrpcStatus canonicalD dest: grpc_fault_typed)

text \<open>
  C33. Every plan that the flow makes for a gRPC call has the type that the adapter expects: a status whose name the library
  knows, or a reply message with the data of the chain as a dict. So neither \<open>grpc.StatusCode[status.code]\<close>
  nor the assertion of \<open>message_of\<close> fails, whatever the scenario, the verdict, the corruption or the override.
\<close>

theorem grpc_plans_typed:
  assumes "canonical codes"
    and "serve_entry sha rnd (grpc_hooks codes other ch ep message) t ep req i p c = (Inr res, p', c')"
  shows "(\<exists>s v. as_status (r_body res) = Some (s, v) \<and> s \<in> fst ` set codes) \<or> (\<exists>m d. as_reply (r_body res) = Some (m, VDict d))"
proof -
  have "typed_body codes (r_body res)" using grpc_bodies.serve_entry_good [OF assms(2)] assms(1) by blast
  then consider s v where "r_body res = GrpcStatus s v" "known codes s" | m d where "r_body res = GrpcReply m d" "is_dict d"
    by (auto simp: typed_body_def)
  then show ?thesis
  proof cases
    case (2 m d)
    then show ?thesis by (cases d) auto
  qed (auto simp: known_def)
qed

definition sample_codes :: status_codes where
  "sample_codes = [(''OK'', 0), (''CANCELLED'', 1), (''UNKNOWN'', 2), (''RESOURCE_EXHAUSTED'', 8), (''INTERNAL'', 13), (''UNAVAILABLE'', 14)]"

definition sample_call :: raw_request where
  "sample_call = \<lparr>rq_body = [], rq_headers = [], rq_verb = [], rq_path = ''GetNodeInfo'', rq_query = []\<rparr>"

lemma sample_codes: "canonical sample_codes"
  by code_simp

theorem grpc_plans_typed_witness:
  "\<exists>res p'. serve_entry (\<lambda>b. b) 0 (grpc_hooks sample_codes (\<lambda>_. []) quiet_chains sample_endpoint VNone) 2 sample_endpoint sample_call 0
        (snd (arrive 1 sample_endpoint [] VNone sample_provider)) () = (Inr res, p', ())
     \<and> ((\<exists>s v. as_status (r_body res) = Some (s, v) \<and> s \<in> fst ` set sample_codes) \<or> (\<exists>m d. as_reply (r_body res) = Some (m, VDict d)))"
proof -
  let ?run = "serve_entry (\<lambda>b. b) 0 (grpc_hooks sample_codes (\<lambda>_. []) quiet_chains sample_endpoint VNone) 2 sample_endpoint sample_call 0
        (snd (arrive 1 sample_endpoint [] VNone sample_provider)) ()"
  have "\<not> isl (fst ?run)" by code_simp
  then obtain res where "fst ?run = Inr res" by (auto simp: isl_def split: sum.splits) (metis sum.exhaust)
  then have run: "?run = (Inr res, fst (snd ?run), ())" by (metis prod.collapse unit.exhaust)
  with grpc_plans_typed [OF sample_codes run] show ?thesis by blast
qed

section \<open>The end of a call\<close>

fun metadata_in :: "grpc_event \<Rightarrow> (string \<times> string) list" where
  "metadata_in (InitialMetadata md) = md"
| "metadata_in (TrailingMetadata md) = md"
| "metadata_in (Abort s t md) = md"
| "metadata_in _ = []"

fun is_sent :: "grpc_event \<Rightarrow> bool" where
  "is_sent (StatusSent s) = True"
| "is_sent _ = False"

lemma metadata_lower: "(n, v) \<in> set (metadata_of chosen) \<Longrightarrow> lower n = n"
  by (auto simp: metadata_of_def split: pyval.splits)

text \<open>A call that ends: what comes before its status, its status, and the reply or the abort.\<close>

definition call_end :: "grpc_event list \<Rightarrow> string \<Rightarrow> grpc_event \<Rightarrow> bool" where
  "call_end evs s fin \<longleftrightarrow> (\<exists>before. evs = before @ [StatusSent s, fin] \<and> filter is_sent before = [])
     \<and> ((\<exists>msg. s = ''OK'' \<and> fin = Reply msg) \<or> (\<exists>t md. fin = Abort s t md))
     \<and> (\<forall>ev \<in> set evs. \<forall>(n, v) \<in> set (metadata_in ev). lower n = n)"

lemma grpc_wait_quiet: "grpc_wait ms = Inr ws \<Longrightarrow> filter is_sent ws = [] \<and> (\<forall>ev \<in> set ws. metadata_in ev = [])"
  by (auto simp: grpc_wait_def bind_r_Inr_iff)

lemma status_call_end:
  assumes "end_with_status res s t = Inr evs"
  shows "\<exists>md. call_end evs s (Abort s t md)"
proof -
  from assms obtain ws where ws: "filter is_sent ws = [] \<and> (\<forall>ev \<in> set ws. metadata_in ev = [])"
    and evs: "evs = (ws @ (if truthy (r_reply_headers res)
              \<or> (r_action res = Drop \<and> r_drop_at res \<in> {VStr ''after_headers'', VStr ''mid_body''})
            then [InitialMetadata (metadata_of (r_reply_headers res))] else []))
         @ [StatusSent s, Abort s t (metadata_of (r_reply_trailers res))]"
    using grpc_wait_quiet by (fastforce simp: end_with_status_def bind_r_Inr_iff split: if_splits)
  show ?thesis unfolding call_end_def evs
    using ws metadata_lower by (fastforce split: if_splits)
qed

lemma reply_call_end:
  assumes "end_with_reply lib other secs nanos res = Inr evs"
  shows "\<exists>msg. call_end evs ''OK'' (Reply msg)"
proof -
  from assms obtain ws msg where ws: "filter is_sent ws = [] \<and> (\<forall>ev \<in> set ws. metadata_in ev = [])"
    and evs: "evs = (ws
           @ (if truthy (r_reply_headers res) then [InitialMetadata (metadata_of (r_reply_headers res))] else [])
           @ (if truthy (r_reply_trailers res) then [TrailingMetadata (metadata_of (r_reply_trailers res))] else []))
           @ [StatusSent ''OK'', Reply msg]"
    using grpc_wait_quiet by (fastforce simp: end_with_reply_def bind_r_Inr_iff split: if_splits)
  show ?thesis unfolding call_end_def evs
    using ws metadata_lower by (fastforce split: if_splits)
qed

lemma plan_call_end:
  assumes "canonical codes" and "typed_body codes (r_body res)" and "grpc_plan lib other secs nanos res = Inr evs"
  shows "\<exists>s fin. call_end evs s fin \<and> (s = ''OK'' \<or> known codes s)"
  using assms(2,3) status_call_end reply_call_end
  by (auto simp: typed_body_def grpc_plan_def) blast+

lemma note_events_quiet: "filter is_sent evs = [] \<Longrightarrow> note_events i evs p = p"
proof (induction evs arbitrary: p)
  case (Cons ev evs)
  then show ?case by (cases ev) (auto simp: note_events_def note_event_def)
qed (simp add: note_events_def)

lemma note_call_end:
  assumes "call_end evs s fin"
  shows "note_events i evs p = p\<lparr>p_log := set_grpc_status i s (p_log p)\<rparr>"
proof -
  from assms obtain before where evs: "evs = before @ [StatusSent s, fin]" and quiet: "filter is_sent before = []"
    and fin: "\<not> is_sent fin" by (auto simp: call_end_def)
  have "note_events i evs p = note_events i [fin] (note_event i (StatusSent s) (note_events i before p))"
    by (simp add: evs note_events_def)
  also have "note_events i [fin] q = q" for q using fin note_events_quiet by simp
  finally show ?thesis by (simp add: note_events_quiet [OF quiet] note_event_def)
qed

lemma arrive_row: "arrive t ep hs d p = (i, p1) \<Longrightarrow> i = length (rows (p_log p)) \<and> length (rows (p_log p1)) = Suc i"
  by (auto simp: arrive_def record_arrival_def append_row_def Let_def)

lemma finalize_length [simp]: "length (rows (finalize t i m s lat rid L)) = length (rows L)"
  by (simp add: finalize_def append_row_def now_fields_def Let_def split: prod.split)

lemma note_request_grpc [simp]: "note_request sha (grpc_hooks codes other ch ep message) req i L = L"
  by (simp add: note_request_def grpc_hooks_def)

lemma serve_entry_rows:
  assumes "serve_entry sha rnd (grpc_hooks codes other ch ep message) t ep req i p c = (Inr res, p', c')"
  shows "length (rows (p_log p')) = length (rows (p_log p))"
  using listener_contract.serve_entry_effect [OF grpc.listener_contract_axioms [of codes other ch ep message],
      where sha = sha and rnd = rnd and t = t and ep = ep and req = req and i = i and p = p and c = c]
  by (auto simp: assms)

text \<open>
  C34. Every gRPC call that the adapter performs ends in exactly one way: it tells the history one status and then hands
  the library that same status, \<open>OK\<close> with a reply message or the name of a status of the library with an abort. The row
  of the call holds that status, and every metadata name that goes out is in lower case, as the library requires.
\<close>

theorem grpc_call_ends:
  assumes "canonical codes"
    and "grpc_call codes lib sha other ch rnd t0 t1 secs nanos ep meth message hs left_ms p = (Inr evs, i, p')"
  shows "\<exists>s fin. call_end evs s fin \<and> (s = ''OK'' \<or> s \<in> fst ` set codes)
    \<and> i = length (rows (p_log p)) \<and> grpc_status (rows (p_log p') ! i) = VStr s"
proof -
  let ?req = "\<lparr>rq_body = [], rq_headers = hs, rq_verb = [], rq_path = meth, rq_query = []\<rparr>"
  from assms(2) obtain p1 res p2 where arr: "arrive t0 ep hs (deadline_ms left_ms) p = (i, p1)"
    and run: "serve_entry sha rnd (grpc_hooks codes other ch ep message) t1 ep ?req i p1 () = (Inr res, p2, ())"
    and plan: "grpc_plan lib other secs nanos res = Inr evs" and p': "p' = note_events i evs p2"
    by (auto simp: grpc_call_def split: prod.splits sum.splits)
  have typed: "typed_body codes (r_body res)" using grpc_bodies.serve_entry_good [OF run] assms(1) by blast
  from plan_call_end [OF assms(1) typed plan] obtain s fin
    where ends: "call_end evs s fin" and s: "s = ''OK'' \<or> known codes s" by blast
  have "i < length (rows (p_log p2))" using arrive_row [OF arr] serve_entry_rows [OF run] by simp
  then have "grpc_status (rows (p_log p') ! i) = VStr s"
    by (simp add: p' note_call_end [OF ends] set_grpc_status_def)
  with ends s arrive_row [OF arr] show ?thesis unfolding known_def by blast
qed

definition sample_proto :: proto where
  "sample_proto = \<lparr>reply_fields = (\<lambda>_. [''balances'']), takes = (\<lambda>_ _. True)\<rparr>"

definition balances_chain :: chains where
  "balances_chain chain parsed sc qs iface = build_grpc (\<lambda>_. []) (Inr 7) parsed sc"

theorem grpc_call_ends_witness:
  "\<exists>evs i p' s fin. grpc_call sample_codes sample_proto (\<lambda>b. b) (\<lambda>_. []) balances_chain 0 1 2 0 0 sample_endpoint ''AllBalances''
        (jobj [(''address'', VStr ''lava1'')]) [] (Some 5) sample_provider = (Inr evs, i, p')
     \<and> call_end evs s fin \<and> grpc_status (rows (p_log p') ! i) = VStr s"
proof -
  let ?run = "grpc_call sample_codes sample_proto (\<lambda>b. b) (\<lambda>_. []) balances_chain 0 1 2 0 0 sample_endpoint ''AllBalances''
        (jobj [(''address'', VStr ''lava1'')]) [] (Some 5) sample_provider"
  have "\<not> isl (fst ?run)" by code_simp
  then obtain evs where "fst ?run = Inr evs" by (metis isl_def sum.exhaust)
  then have run: "?run = (Inr evs, fst (snd ?run), snd (snd ?run))" by (metis prod.collapse)
  with grpc_call_ends [OF sample_codes run] show ?thesis by blast
qed

section \<open>The table of the served methods\<close>

lemma add_rows_iff:
  "add_served id_of served = Inr d \<longleftrightarrow>
     distinct (map (fst \<circ> snd) served) \<and> (\<forall>m \<in> fst ` snd ` set served. map_of id_of m = None)
     \<and> d = id_of @ map snd served"
proof (induction id_of served arbitrary: d rule: add_served.induct)
  case (2 id_of service meth id_field rest)
  show ?case
  proof (cases "map_of id_of meth")
    case None
    then have put: "AList.update meth id_field id_of = id_of @ [(meth, id_field)]"
      by (induction id_of) (auto split: if_splits)
    show ?thesis using 2 None by (auto simp: put map_add_None image_image)
  qed (auto simp: image_image)
qed auto

text \<open>
  A table that starts and whose servicers were checked: a method that a servicer defines has exactly one row under
  its bare name, and a request-id field that the row names is a field of its message.
\<close>

lemma served_table_sound:
  assumes "request_id_fields served = Inr id_of" and "check_servicers pool servicers served = None"
    and "(service, names) \<in> set servicers" and "m \<in> set names" and "\<not> starts_with ''_'' m"
  shows "\<exists>f. (service, m, f) \<in> set served \<and> map_of id_of m = Some f
    \<and> (\<forall>x. f = Some x \<longrightarrow> (\<exists>fs. pool service m = Some fs \<and> x \<in> set fs))"
proof -
  have same: "set (in_code servicers) = set (map (\<lambda>(s, m, f). (s, m)) served)" and ok: "list_all (row_field_ok pool) served"
    using assms(2) by (auto simp: check_servicers_def split: if_splits)
  have "(service, m) \<in> set (in_code servicers)" using assms(3-5) unfolding in_code_def by auto
  with same obtain f where row: "(service, m, f) \<in> set served" by auto
  have table: "distinct (map (fst \<circ> snd) served)" "id_of = map snd served"
    using assms(1) by (auto simp: request_id_fields_def add_rows_iff)
  have "distinct (map fst id_of)" "(m, f) \<in> set id_of"
    using table imageI [OF row, of snd] by (simp_all add: comp_def)
  then have "map_of id_of m = Some f" by (rule map_of_is_SomeI)
  moreover have "row_field_ok pool (service, m, f)" using ok row by (auto simp: list_all_iff)
  ultimately show ?thesis using row by (auto simp: row_field_ok_def split: option.splits)
qed

lemma shipped_table_checks:
  "\<not> isl (request_id_fields SERVED_METHODS)
   \<and> check_servicers (\<lambda>s m. Some [''address'', ''pagination'']) SERVICERS SERVED_METHODS = None"
  by code_simp

end
