(* ===== verification/ControlReads.thy ===== *)
theory ControlReads
  imports ControlApi WsListener
begin

text \<open>
  The routes of \<open>ControlApi\<close> that read: the scenarios, the counters, the providers and their filters, the topology, the merged
  history with its filters, its order and its correlation groups, the subscriptions, and the push of an event.

  A query is a dict from a name to a text, as \<open>do_GET\<close> makes it. The text of a float is read by an argument
  (\<open>float(str)\<close>), and times are exact numbers.
\<close>

type_synonym query = "(string, string) dict"

section \<open>GET /scenario, /stats, /topology\<close>

definition provider_settings :: "provider \<Rightarrow> sdict" where
  "provider_settings p =
     AList.update ''name'' (VStr (p_name p))
       (dict_merge (AList.delete ''responses'' (cfg_snapshot ScenarioConfig (scenario p))) (cfg_snapshot (quirks_class p) (quirks p)))"

text \<open>\<open>{p.key: ... for p in all_providers()}\<close>: a later provider of the same key would win.\<close>

definition by_key :: "(provider \<Rightarrow> 'v) \<Rightarrow> provider list \<Rightarrow> (string, 'v) dict" where
  "by_key f ps = foldl (\<lambda>d p. AList.update (provider_key p) (f p) d) [] ps"

definition get_scenario :: "registry \<Rightarrow> int \<times> pyval" where
  "get_scenario reg = (200, jobj [(''providers'', jobj (by_key (\<lambda>p. jobj (provider_settings p)) (all_providers reg)))])"

definition stats_items :: "log_stats \<Rightarrow> sdict" where
  "stats_items s =
     [(''total_calls'', VInt (st_total_calls s)),
      (''calls_by_status'', jobj (map (\<lambda>(k, n). (k, VInt n)) (st_calls_by_status s))),
      (''history_entries'', VInt (int (st_history_entries s)))]"

definition get_stats :: "registry \<Rightarrow> int \<times> pyval" where
  "get_stats reg = (200, jobj [(''providers'',
     jobj (by_key (\<lambda>p. jobj (AList.update ''name'' (VStr (p_name p)) (stats_items (stats (p_log p))))) (all_providers reg)))])"

definition endpoint_items :: "endpoint \<Rightarrow> pyval" where
  "endpoint_items ep = jobj [(''interface'', VStr (interface ep)), (''transport'', VStr (transport ep)), (''port'', VInt (port ep))]"

definition get_topology :: "registry \<Rightarrow> int \<times> pyval" where
  "get_topology reg = (200, jobj [(''topology'', jobj (map (\<lambda>(n, pl).
     (n, jobj [(''chain'', VStr (pl_chain pl)),
               (''providers'', jobj (map (\<lambda>(i, p). (i, VList (map endpoint_items (endpoints p)))) (providers pl))),
               (''names'', jobj (map (\<lambda>(i, p). (i, VStr (p_name p))) (providers pl)))])) (pools reg)))])"

section \<open>GET /providers\<close>

text \<open>A filter that the query does not name keeps every provider.\<close>

definition passes :: "string option \<Rightarrow> (string \<Rightarrow> bool) \<Rightarrow> bool" where
  "passes wanted test = (case wanted of None \<Rightarrow> True | Some v \<Rightarrow> test v)"

definition provider_kept :: "query \<Rightarrow> provider \<Rightarrow> bool" where
  "provider_kept q p \<longleftrightarrow>
     passes (map_of q ''pool'') (\<lambda>v. pool_name p = v)
     \<and> passes (map_of q ''pid'') (\<lambda>v. pid p = v)
     \<and> passes (map_of q ''is_backup'') (\<lambda>v. is_backup p = (lower v = ''true''))
     \<and> passes (map_of q ''name'') (\<lambda>v. lower (p_name p) = lower v)"

definition provider_facts :: "provider \<Rightarrow> pyval" where
  "provider_facts p = jobj
     [(''pool'', VStr (pool_name p)), (''pid'', VStr (pid p)), (''chain'', VStr (pool_chain p)), (''name'', VStr (p_name p)),
      (''is_backup'', VBool (is_backup p)), (''group_label'', VStr (group_label p)),
      (''endpoints'', VList (map endpoint_items (endpoints p)))]"

definition get_providers :: "registry \<Rightarrow> query \<Rightarrow> answer" where
  "get_providers reg q =
     (if \<not> passes (map_of q ''pool'') (\<lambda>v. map_of (pools reg) v \<noteq> None) then Inl (Refuse 400 NoSuchPool)
      else Inr (200, jobj [(''providers'', jobj (by_key provider_facts (filter (provider_kept q) (all_providers reg))))]))"

section \<open>GET /history\<close>

text \<open>\<open>_strict_int\<close>, \<open>_as_int\<close> and \<open>_as_float\<close> of a text of the query.\<close>

definition strict_int :: "string \<Rightarrow> pyerr + int" where
  "strict_int t = (case int_of_text t of None \<Rightarrow> Inl ValueError | Some n \<Rightarrow> Inr n)"

definition as_int_text :: "string \<Rightarrow> int \<Rightarrow> int" where
  "as_int_text t d = (case int_of_text t of None \<Rightarrow> d | Some n \<Rightarrow> n)"

definition as_float :: "(string \<Rightarrow> pyfloat option) \<Rightarrow> string \<Rightarrow> pyfloat \<Rightarrow> pyfloat" where
  "as_float read t d = (case read t of None \<Rightarrow> d | Some f \<Rightarrow> f)"

record row_filter =
  f_equals :: "(string \<times> string) list"
  f_request_id :: "string option"
  f_body_sha256 :: "string option"
  f_body_len :: "int option"
  f_from :: "pyfloat option"
  f_to :: "pyfloat option"
  f_headers :: "(string \<times> string) list"

definition LAVA_PREFIX :: string where
  "LAVA_PREFIX = ''lava_header_''"

definition history_row_filter :: "(string \<Rightarrow> pyfloat option) \<Rightarrow> query \<Rightarrow> pyerr + row_filter" where
  "history_row_filter read q =
     bind_r (case map_of q ''body_len'' of None \<Rightarrow> Inr None | Some t \<Rightarrow> bind_r (strict_int t) (\<lambda>n. Inr (Some n))) (\<lambda>len.
       Inr \<lparr>f_equals = List.map_filter (\<lambda>k. map_option (Pair k) (map_of q k)) [''transport'', ''method'', ''status'', ''interface''],
            f_request_id = map_of q ''request_id'',
            f_body_sha256 = map_option lower (map_of q ''body_sha256''),
            f_body_len = len,
            f_from = map_option (\<lambda>t. as_float read t NegInf) (map_of q ''from''),
            f_to = map_option (\<lambda>t. as_float read t PosInf) (map_of q ''to''),
            f_headers = map (\<lambda>(k, v). (lower (drop (length LAVA_PREFIX) k), v)) (filter (\<lambda>(k, v). starts_with LAVA_PREFIX k) q)\<rparr>)"

text \<open>The field of a stored row that a filter of equality names.\<close>

definition row_field :: "string \<Rightarrow> entry \<Rightarrow> pyval" where
  "row_field k e = get_or (entry_items e) k VNone"

text \<open>\<open>matches\<close>. A bound that is not a number keeps no row.\<close>

definition row_matches :: "(pyval \<Rightarrow> string) \<Rightarrow> row_filter \<Rightarrow> entry \<Rightarrow> bool" where
  "row_matches other f e \<longleftrightarrow>
     list_all (\<lambda>(k, v). py_eq (row_field k e) (VStr v)) (f_equals f)
     \<and> (case f_request_id f of None \<Rightarrow> True | Some w \<Rightarrow> py_str other (e_request_id e) = w)
     \<and> (case f_body_sha256 f of None \<Rightarrow> True | Some w \<Rightarrow> body_sha256 e = VStr w)
     \<and> (case f_body_len f of None \<Rightarrow> True | Some n \<Rightarrow> py_eq (body_len e) (VInt n))
     \<and> (case f_from f of None \<Rightarrow> True | Some lo \<Rightarrow> pf_le lo (Fin (e_ts e)))
     \<and> (case f_to f of None \<Rightarrow> True | Some hi \<Rightarrow> pf_le (Fin (e_ts e)) hi)
     \<and> list_all (\<lambda>(n, v). list_ex (\<lambda>(h, hv). lower h = n \<and> hv = v) (lava_headers e)) (f_headers f)"

definition history_provider_kept :: "query \<Rightarrow> provider \<Rightarrow> bool" where
  "history_provider_kept q p \<longleftrightarrow>
     passes (map_of q ''pool'') (\<lambda>v. pool_name p = v) \<and> passes (map_of q ''pid'') (\<lambda>v. pid p = v)"

text \<open>The keys of a JSON value in order, for \<open>json.dumps(..., sort_keys=True)\<close>.\<close>

function sorted_json :: "pyval \<Rightarrow> pyval" where
  "sorted_json (VList xs) = VList (map sorted_json xs)"
| "sorted_json (VTuple xs) = VTuple (map sorted_json xs)"
| "sorted_json (VDict kvs) = VDict (sort_key (key_text \<circ> fst) (map (\<lambda>kv. (fst kv, sorted_json (snd kv))) kvs))"
| "sorted_json VNone = VNone"
| "sorted_json (VBool b) = VBool b"
| "sorted_json (VInt i) = VInt i"
| "sorted_json (VFloat f) = VFloat f"
| "sorted_json (VStr s) = VStr s"
| "sorted_json (VBytes s) = VBytes s"
  by pat_completeness auto

termination
  by (relation "measure size") (auto dest: size_pair_mem simp: less_Suc_eq_le intro: size_list_estimation')

definition request_id_as_key :: "(pyfloat \<Rightarrow> string) \<Rightarrow> pyval \<Rightarrow> pyerr + pyval" where
  "request_id_as_key fl rid =
     (if hashable rid then Inr rid
      else bind_r (json_dumps default_separators fl (sorted_json rid)) (\<lambda>t. Inr (VTuple [VStr ''json'', VStr t])))"

definition row_ts :: "sdict \<Rightarrow> rat" where
  "row_ts row = (case get_or row ''ts'' VNone of VFloat (Fin r) \<Rightarrow> r | _ \<Rightarrow> 0)"

definition group_key :: "(pyfloat \<Rightarrow> string) \<Rightarrow> sdict \<Rightarrow> pyerr + pyval" where
  "group_key fl row =
     bind_r (request_id_as_key fl (get_or row ''request_id'' VNone)) (\<lambda>k.
       let key = VTuple [k, get_or row ''method'' VNone] in if hashable key then Inr key else Inl TypeError)"

definition CORRELATION_WINDOW_S :: rat where
  "CORRELATION_WINDOW_S = 1 / 20"

text \<open>
  The loop over the merged rows: the next position, the number of groups so far, and the groups with the time of their
  first row.
\<close>

definition extends_group :: "pyval \<Rightarrow> rat \<Rightarrow> (pyval \<times> int \<times> rat) list \<Rightarrow> int option" where
  "extends_group key t groups = (case find (\<lambda>(k, _). py_eq key k) groups of
     Some (k, n, first) \<Rightarrow> if t - first \<le> CORRELATION_WINDOW_S then Some n else None
   | None \<Rightarrow> None)"

definition put_group :: "pyval \<Rightarrow> int \<times> rat \<Rightarrow> (pyval \<times> int \<times> rat) list \<Rightarrow> (pyval \<times> int \<times> rat) list" where
  "put_group key g groups = (key, g) # filter (\<lambda>(k, _). \<not> py_eq key k) groups"

definition placed :: "int \<Rightarrow> int \<Rightarrow> sdict \<Rightarrow> sdict" where
  "placed order n row =
     AList.update ''correlation_group'' (VInt n) (AList.update ''call_order'' (VInt order) row)"

fun correlate :: "(pyfloat \<Rightarrow> string) \<Rightarrow> int \<Rightarrow> int \<Rightarrow> (pyval \<times> int \<times> rat) list \<Rightarrow> sdict list \<Rightarrow> pyerr + sdict list" where
  "correlate fl order used groups [] = Inr []"
| "correlate fl order used groups (row # rest) =
     bind_r (group_key fl row) (\<lambda>key.
       case extends_group key (row_ts row) groups of
         Some n \<Rightarrow> bind_r (correlate fl (order + 1) used groups rest) (\<lambda>rs. Inr (placed order n row # rs))
       | None \<Rightarrow> bind_r (correlate fl (order + 1) (used + 1) (put_group key (used + 1, row_ts row) groups) rest)
                   (\<lambda>rs. Inr (placed order (used + 1) row # rs)))"

text \<open>\<open>entries[-n:] if n > 0 else []\<close>.\<close>

definition newest :: "int \<Rightarrow> 'a list \<Rightarrow> 'a list" where
  "newest n xs = (if 0 < n then drop (length xs - nat n) xs else [])"

definition cut_last :: "query \<Rightarrow> sdict list \<Rightarrow> sdict list" where
  "cut_last q rs = (case map_of q ''last'' of None \<Rightarrow> rs | Some t \<Rightarrow> newest (as_int_text t (int (length rs))) rs)"

definition cut_max :: "query \<Rightarrow> sdict list \<Rightarrow> stop + sdict list" where
  "cut_max q rs = (case map_of q ''max'' of
     None \<Rightarrow> Inr rs
   | Some t \<Rightarrow> let cap = as_int_text t (- 1) in if cap < 0 then Inl (Refuse 400 BadMax) else Inr (newest cap rs))"

text \<open>The rows of the providers that a query keeps, in the order of their times.\<close>

definition merged_rows :: "(pyval \<Rightarrow> string) \<Rightarrow> query \<Rightarrow> row_filter \<Rightarrow> registry \<Rightarrow> sdict list" where
  "merged_rows other q f reg =
     sort_key row_ts (concat (map (\<lambda>p. case get_history (row_matches other f) False (p_log p) of Inl e \<Rightarrow> [] | Inr rs \<Rightarrow> rs)
       (filter (history_provider_kept q) (all_providers reg))))"

definition raised :: "pyerr + 'a \<Rightarrow> stop + 'a" where
  "raised r = (case r of Inl e \<Rightarrow> Inl (Raise e) | Inr x \<Rightarrow> Inr x)"

definition history_rows ::
  "(pyval \<Rightarrow> string) \<Rightarrow> (pyfloat \<Rightarrow> string) \<Rightarrow> (string \<Rightarrow> pyfloat option) \<Rightarrow> registry \<Rightarrow> query \<Rightarrow> stop + sdict list" where
  "history_rows other fl read reg q = (case history_row_filter read q of
     Inl e \<Rightarrow> Inl (caught BadBodyLen e)
   | Inr f \<Rightarrow>
       bind_r (raised (correlate fl 1 0 [] (merged_rows other q f reg))) (\<lambda>rs.
         bind_r (cut_max q (cut_last q rs)) (\<lambda>kept. raised (collect_r (map decode_row_headers kept)))))"

definition read_history ::
  "(pyval \<Rightarrow> string) \<Rightarrow> (pyfloat \<Rightarrow> string) \<Rightarrow> (string \<Rightarrow> pyfloat option) \<Rightarrow> registry \<Rightarrow> query \<Rightarrow> answer" where
  "read_history other fl read reg q =
     bind_r (history_rows other fl read reg q) (\<lambda>rs.
       Inr (200, jobj [(''count'', VInt (int (length rs))), (''history'', VList (map jobj rs))]))"

section \<open>Pushes, subscriptions and health\<close>

text \<open>A subscription id that is no text finds nothing; one with no hash raises.\<close>

definition ws_emit ::
  "(pyfloat \<Rightarrow> string) \<Rightarrow> rat \<Rightarrow> pyval \<Rightarrow> registry \<Rightarrow> ws_world \<Rightarrow> answer \<times> registry \<times> ws_world" where
  "ws_emit fl now body reg w =
     (if \<not> is_dict body then (Inl (Refuse 400 BodyNotObject), reg, w)
      else
        let i = vget_or body ''subscription_id'' VNone
        in if \<not> truthy i then (Inl (Refuse 400 MissingSubscription), reg, w)
           else if \<not> hashable i then (Inl (Raise TypeError), reg, w)
           else (case i of
              VStr s \<Rightarrow>
                (case emit fl now s (vget_or body ''event'' VNone) reg w of
                   Inl e \<Rightarrow> (Inl (Raise e), reg, w)
                 | Inr (Unknown, _, w') \<Rightarrow> (Inl (Refuse 404 NoSuchSubscription), reg, w')
                 | Inr (QueueFull, _, w') \<Rightarrow> (Inl (Refuse 503 SubscriptionFull), reg, w')
                 | Inr (Emitted, pushed, w') \<Rightarrow>
                     (Inr (200, jobj [(''status'', VStr ''emitted''), (''subscription_id'', i)]),
                      (case pushed of None \<Rightarrow> reg | Some (k, p) \<Rightarrow> put_provider k p reg), w'))
            | _ \<Rightarrow> (Inl (Refuse 404 NoSuchSubscription), reg, w)))"

definition ws_subscriptions :: "ws_world \<Rightarrow> int \<times> pyval" where
  "ws_subscriptions w = (200, jobj [(''subscriptions'', VList (ws_list w))])"

definition health :: "int \<times> pyval" where
  "health = (200, jobj [(''status'', VStr ''ok'')])"

definition ready :: "registry \<Rightarrow> int \<times> pyval" where
  "ready reg = (200, jobj [(''status'', VStr ''ready''), (''providers'', VInt (int (length (all_providers reg))))])"

end
