(* ===== verification/ControlRoutes.thy ===== *)
theory ControlRoutes
  imports ControlReads HttpAdapter GrpcListener
begin

text \<open>
  The control port: the routes of \<open>_ControlHandler\<close> in \<open>server.py\<close>, the readiness probe, the build information
  (\<open>build_info.py\<close>), the gRPC listener of a cache (\<open>listeners/cache_grpc.py\<close>) and the self-test of its record.

  What the routes need from outside is a record: the clock, the waits for ports, which port accepts a
  connection, the variables of the environment, the call that the self-test makes over a socket, and the text of a
  refusal. A body holds UTF-8 text; other bytes raise \<open>UnicodeDecodeError\<close>, a \<open>ValueError\<close>.
\<close>

section \<open>The listener of a cache\<close>

definition SERVICE_PREFIX :: string where
  "SERVICE_PREFIX = ''/smartrouter.pairing.RelayerCache/''"

definition NON_READ_PROBE_METHOD :: string where
  "NON_READ_PROBE_METHOD = SERVICE_PREFIX @ ''SetRelay''"

text \<open>How a call ends for its caller: with a status, or with the bytes of a reply.\<close>

datatype rpc_end = EndStatus string pyval | EndBytes string

text \<open>\<open>get_relay\<close>: the seconds it sleeps, and the end. An exception of the handler, or a body that is no bytes, is a
  status of the library.\<close>

definition raw_end :: "pyval \<Rightarrow> rpc_end" where
  "raw_end v = (case v of
     VBytes b \<Rightarrow> EndBytes b | _ \<Rightarrow> if truthy v then EndStatus ''UNKNOWN'' VNone else EndBytes [])"

definition get_relay ::
  "status_codes \<Rightarrow> (pyval \<Rightarrow> string) \<Rightarrow> (pyfloat \<Rightarrow> string) \<Rightarrow> rat \<Rightarrow> string \<Rightarrow> cache_sim \<Rightarrow> (rat \<times> rpc_end) \<times> cache_sim" where
  "get_relay codes other fl now body s = (case plan other now body s of
     (Inl e, s') \<Rightarrow> ((0, EndStatus ''UNKNOWN'' VNone), s')
   | (Inr (cache_plan.Abort code message sleep_s), s') \<Rightarrow>
       ((sleep_s, EndStatus (case status_by_name codes code of None \<Rightarrow> ''UNKNOWN'' | Some n \<Rightarrow> n) message), s')
   | (Inr (RawBody raw sleep_s), s') \<Rightarrow> ((sleep_s, raw_end raw), s')
   | (Inr (cache_plan.Respond reply sleep_s), s') \<Rightarrow>
       ((sleep_s, case json_dumps default_separators fl reply of Inl e \<Rightarrow> EndStatus ''UNKNOWN'' VNone | Inr t \<Rightarrow> EndBytes t), s'))"

definition refuse_and_record :: "rat \<Rightarrow> string \<Rightarrow> cache_sim \<Rightarrow> (rat \<times> rpc_end) \<times> cache_sim" where
  "refuse_and_record now path s =
     ((0, EndStatus ''UNIMPLEMENTED'' (VStr ''this cache serves GetRelay only; the call was recorded'')), record_other_method now path s)"

text \<open>\<open>service\<close>: a path outside the service is answered by the library, and nothing of this module runs.\<close>

definition cache_call ::
  "status_codes \<Rightarrow> (pyval \<Rightarrow> string) \<Rightarrow> (pyfloat \<Rightarrow> string) \<Rightarrow> rat \<Rightarrow> string \<Rightarrow> string \<Rightarrow> cache_sim \<Rightarrow> (rat \<times> rpc_end) \<times> cache_sim" where
  "cache_call codes other fl now path body s =
     (if \<not> starts_with SERVICE_PREFIX path then ((0, EndStatus ''UNIMPLEMENTED'' VNone), s)
      else if path = GET_RELAY_METHOD then get_relay codes other fl now body s
      else refuse_and_record now path s)"

section \<open>The self-test of a record\<close>

datatype probe = ProbeRefused string | DidNotRefuse | Unreachable

definition send_non_read :: "rpc_end \<Rightarrow> probe" where
  "send_non_read e = (case e of
     EndBytes b \<Rightarrow> DidNotRefuse
   | EndStatus st t \<Rightarrow> if st = ''UNIMPLEMENTED'' then ProbeRefused st else Unreachable)"

definition recorded_call_items :: "recorded_call \<Rightarrow> pyval" where
  "recorded_call_items r = jobj
     [(''method'', VStr (rc_method r)), (''chain_id'', VStr (rc_chain_id r)), (''request_hash'', VStr (rc_request_hash_hex r)),
      (''requested_block'', VInt (rc_requested_block r)), (''finalized'', VBool (rc_finalized r)),
      (''seen_block'', VInt (rc_seen_block r)), (''shared_state_id'', VStr (rc_shared_state_id r)),
      (''blocks_hashes_to_heights'', VList (rc_blocks r)), (''key'', VStr (rc_key r)), (''mode'', VStr (rc_mode r)),
      (''ts'', VFloat (Fin (rc_ts r)))]"

definition probe_calls :: "cache_sim \<Rightarrow> recorded_call list" where
  "probe_calls s = filter (\<lambda>r. rc_method r = NON_READ_PROBE_METHOD) (cs_calls s)"

definition judge_probe :: "string \<Rightarrow> int \<Rightarrow> string \<Rightarrow> cache_sim \<Rightarrow> answer" where
  "judge_probe name before refused_with s =
     (if cs_records_total s \<le> before \<or> probe_calls s = [] then Inl (Refuse 500 ProbeNotRecorded)
      else Inr (200, jobj
        [(''status'', VStr ''the call record can see a call that is not a read''), (''cache'', VStr name),
         (''method'', VStr NON_READ_PROBE_METHOD), (''refused_with'', VStr refused_with),
         (''records_total_before'', VInt before), (''records_total_after'', VInt (cs_records_total s)),
         (''recorded'', VList (map recorded_call_items (probe_calls s)))]))"

text \<open>The call goes over a socket: what it does to the cache and how it ends are given by \<open>dial\<close>.\<close>

type_synonym dial = "int \<Rightarrow> string \<Rightarrow> cache_sim \<Rightarrow> rpc_end \<times> cache_sim"

definition cache_selftest_write :: "dial \<Rightarrow> (string, int) dict \<Rightarrow> string \<Rightarrow> control \<Rightarrow> answer \<times> control" where
  "cache_selftest_write call ports name c = (case map_of (caches_of c) name of
     None \<Rightarrow> (Inl (Refuse 404 NoSuchCache), c)
   | Some s \<Rightarrow> (case map_of ports name of
       None \<Rightarrow> (Inl (Refuse 409 NoCachePort), c)
     | Some prt \<Rightarrow> (case call prt NON_READ_PROBE_METHOD s of (e, s') \<Rightarrow>
         (case send_non_read e of
            DidNotRefuse \<Rightarrow> (Inl (Refuse 500 ProbeServed), put_cache name s' c)
          | Unreachable \<Rightarrow> (Inl (Refuse 502 ProbeUnreachable), put_cache name s' c)
          | ProbeRefused st \<Rightarrow> (judge_probe name (cs_records_total s) st s', put_cache name s' c)))))"

definition get_cache_calls :: "string \<Rightarrow> control \<Rightarrow> answer" where
  "get_cache_calls name c = (case map_of (caches_of c) name of
     None \<Rightarrow> Inl (Refuse 404 NoSuchCache)
   | Some s \<Rightarrow> Inr (200, jobj [(''cache'', VStr name), (''count'', VInt (int (length (cs_calls s)))),
       (''calls'', VList (map recorded_call_items (cs_calls s)))]))"

definition get_cache :: "string \<Rightarrow> control \<Rightarrow> answer" where
  "get_cache name c = (case map_of (caches_of c) name of
     None \<Rightarrow> Inl (Refuse 404 NoSuchCache) | Some s \<Rightarrow> Inr (200, cache_state s))"

definition cache_names :: "cache_registry \<Rightarrow> string list" where
  "cache_names reg = sort (dict_keys reg)"

definition get_caches :: "control \<Rightarrow> int \<times> pyval" where
  "get_caches c =
     (let sims = map (map_of (caches_of c)) (cache_names (caches_of c))
      in (200, jobj [(''caches'', VList (map (\<lambda>s. cache_state (the s)) (filter (\<lambda>s. s \<noteq> None) sims))),
                     (''count'', VInt (int (length sims)))]))"

section \<open>GET /version\<close>

definition stamped :: "(string, string) dict \<Rightarrow> string \<Rightarrow> string option" where
  "stamped env name = (let v = strip_by is_space (get_or env name []) in if v = [] then None else Some v)"

definition is_hex_char :: "char \<Rightarrow> bool" where
  "is_hex_char c \<longleftrightarrow> c \<in> set ''0123456789abcdefABCDEF''"

definition commit_of :: "string option \<Rightarrow> string option" where
  "commit_of raw = (case raw of
     None \<Rightarrow> None
   | Some r \<Rightarrow> if 7 \<le> length r \<and> length r \<le> 40 \<and> list_all is_hex_char r then Some (lower r) else None)"

text \<open>\<open>raw.split() != [raw]\<close>: there is white space in it.\<close>

definition version_of :: "string option \<Rightarrow> string option" where
  "version_of raw = (case raw of
     None \<Rightarrow> None
   | Some r \<Rightarrow> if ends_with ''-dirty'' r \<or> r = [] \<or> list_ex is_space r then None else Some r)"

definition opt_text :: "string option \<Rightarrow> pyval" where
  "opt_text v = (case v of None \<Rightarrow> VNone | Some s \<Rightarrow> VStr s)"

definition build_info :: "(string, string) dict \<Rightarrow> sdict" where
  "build_info env = (case commit_of (stamped env ''SIM_GIT_COMMIT'') of
     None \<Rightarrow> [(''version'', VNone), (''commit'', VNone), (''git_describe'', VNone), (''state'', VStr ''unknown'')]
   | Some commit \<Rightarrow>
       let version = version_of (stamped env ''SIM_GIT_VERSION'')
       in [(''version'', opt_text version), (''commit'', VStr commit),
           (''git_describe'', opt_text (stamped env ''SIM_GIT_DESCRIBE'')),
           (''state'', VStr (if version \<noteq> None then ''release'' else ''untagged''))])"

section \<open>GET /ready\<close>

text \<open>The ports that must accept: those of the registry and the extra ones, less the ports that a scenario closed.\<close>

definition expected_ports :: "registry \<Rightarrow> int list \<Rightarrow> int list \<Rightarrow> int list" where
  "expected_ports reg extra by_scenario =
     sort (filter (\<lambda>prt. prt \<notin> set by_scenario) (remdups (registry_ports reg @ extra)))"

definition read_ready :: "(int \<Rightarrow> bool) \<Rightarrow> int list \<Rightarrow> control \<Rightarrow> answer" where
  "read_ready accepts extra c = (case ports_closed_by_scenario c of
     Inl e \<Rightarrow> Inl (Raise e)
   | Inr by_scenario \<Rightarrow>
       let ports = expected_ports (registry_of c) extra by_scenario;
           missing = filter (\<lambda>prt. \<not> accepts prt) ports;
           shut = (''closed_by_scenario'', VList (map VInt (sort (remdups by_scenario))))
       in if missing \<noteq> []
          then Inr (503, jobj [(''status'', VStr ''not_ready''), (''listening'', VInt (int (length ports) - int (length missing))),
                  (''expected'', VInt (int (length ports))), (''missing_ports'', VList (map VInt missing)), shut])
          else Inr (200, jobj [(''status'', VStr ''ready''), (''listening'', VInt (int (length ports))),
                  (''expected'', VInt (int (length ports))), shut]))"

section \<open>The routes\<close>

record outside =
  o_now :: rat
  o_waits :: waits
  o_other :: "pyval \<Rightarrow> string"
  o_floats :: "pyfloat \<Rightarrow> string"
  o_read_float :: "string \<Rightarrow> pyfloat option"
  o_grpc_names :: "string list"
  o_dial :: dial
  o_cache_ports :: "(string, int) dict"
  o_accepts :: "int \<Rightarrow> bool"
  o_extra_ports :: "int list"
  o_env :: "(string, string) dict"

text \<open>\<open>/cache/<name>/<action>\<close>.\<close>

definition cache_path :: "string \<Rightarrow> string \<times> string" where
  "cache_path path = partition_on (CHR ''/'') (strip_by (\<lambda>ch. ch = CHR ''/'') (drop (length ''/cache/'') path))"

definition dispatch_cache_post :: "outside \<Rightarrow> string \<Rightarrow> pyval \<Rightarrow> control \<Rightarrow> answer \<times> control" where
  "dispatch_cache_post out path body c = (case cache_path path of (name, act) \<Rightarrow>
     if name = [] then (Inl (Refuse 404 NoCacheNamed), c)
     else if act = ''entry'' then cache_stage (o_other out) (o_floats out) (o_grpc_names out) name body c
     else if act = ''reset'' then cache_reset name c
     else if act = ''calls/clear'' then cache_clear_calls name c
     else if act = ''selftest-write'' then cache_selftest_write (o_dial out) (o_cache_ports out) name c
     else (Inl (Refuse 404 UnknownCacheAction), c))"

definition dispatch_cache_get :: "string \<Rightarrow> control \<Rightarrow> answer" where
  "dispatch_cache_get path c = (case cache_path path of (name, act) \<Rightarrow>
     if name = [] then Inl (Refuse 404 NoCacheNamed)
     else if act = ''calls'' then get_cache_calls name c
     else if act = [] then get_cache name c
     else Inl (Refuse 404 UnknownCacheAction))"

definition control_post :: "outside \<Rightarrow> string \<Rightarrow> pyval \<Rightarrow> control \<times> ws_world \<Rightarrow> answer \<times> control \<times> ws_world" where
  "control_post out path body s = (case s of (c, w) \<Rightarrow>
     let keep = (\<lambda>(a, c'). (a, c', w)); pool = vget_or body ''pool'' VNone
     in if path = ''/scenario'' then keep (apply_scenario (o_now out) (o_waits out) body c)
        else if path = ''/reset'' then keep (reset (o_waits out) pool c)
        else if path = ''/history/clear'' then keep (clear_history (o_waits out) pool c)
        else if path = ''/reset/all'' then keep (reset_all (o_waits out) pool c)
        else if path = ''/advance'' then keep (advance (o_now out) body c)
        else if path = ''/ws/emit'' then
          (case ws_emit (o_floats out) (o_now out) body (registry_of c) w of (a, reg, w') \<Rightarrow> (a, c\<lparr>registry_of := reg\<rparr>, w'))
        else if starts_with ''/cache/'' path then keep (dispatch_cache_post out path body c)
        else (Inl (Refuse 404 UnknownPath), c, w))"

definition control_get :: "outside \<Rightarrow> string \<Rightarrow> query \<Rightarrow> control \<times> ws_world \<Rightarrow> answer" where
  "control_get out path q s = (case s of (c, w) \<Rightarrow>
     if path = ''/health'' then Inr health
     else if path = ''/version'' then Inr (200, jobj (build_info (o_env out)))
     else if path = ''/ready'' then read_ready (o_accepts out) (o_extra_ports out) c
     else if path = ''/scenario'' then Inr (get_scenario (registry_of c))
     else if path = ''/stats'' then Inr (get_stats (registry_of c))
     else if path = ''/topology'' then Inr (get_topology (registry_of c))
     else if path = ''/providers'' then get_providers (registry_of c) q
     else if path = ''/history'' then read_history (o_other out) (o_floats out) (o_read_float out) (registry_of c) q
     else if path = ''/ws/subscriptions'' then Inr (ws_subscriptions w)
     else if path = ''/caches'' then Inr (get_caches c)
     else if starts_with ''/cache/'' path then dispatch_cache_get path c
     else Inl (Refuse 404 UnknownPath))"

section \<open>The handler\<close>

text \<open>\<open>self.rfile.read(length)\<close>: a negative length reads to the end.\<close>

definition read_body :: "int \<Rightarrow> string \<Rightarrow> string" where
  "read_body n stream = (if n < 0 then stream else take (nat n) stream)"

definition post_body :: "headers \<Rightarrow> string \<Rightarrow> stop + pyval" where
  "post_body hs stream = (case content_length hs of
     Inl e \<Rightarrow> Inl (Raise e)
   | Inr n \<Rightarrow>
       if n = 0 then Inr (VDict [])
       else (case utf8_text (read_body n stream) of
          None \<Rightarrow> Inl (Raise ValueError)
        | Some t \<Rightarrow> (case json_loads t of
            None \<Rightarrow> Inl (Refuse 400 BadJson)
          | Some v \<Rightarrow> if is_dict v then Inr v else Inl (Refuse 400 BodyNotObject))))"

definition control_do_POST ::
  "outside \<Rightarrow> headers \<Rightarrow> string \<Rightarrow> string \<Rightarrow> control \<times> ws_world \<Rightarrow> answer \<times> control \<times> ws_world" where
  "control_do_POST out hs stream path s = (case post_body hs stream of
     Inl stop \<Rightarrow> (Inl stop, s)
   | Inr body \<Rightarrow> control_post out path body s)"

text \<open>\<open>{k: v[0] for k, v in parse_qs(...).items()}\<close>.\<close>

definition first_values :: "(string, string list) dict \<Rightarrow> query" where
  "first_values q = map (\<lambda>(k, vs). (k, hd vs)) q"

definition control_do_GET :: "outside \<Rightarrow> string \<Rightarrow> (string, string list) dict \<Rightarrow> control \<times> ws_world \<Rightarrow> answer" where
  "control_do_GET out path q s = control_get out path (first_values q) s"

text \<open>\<open>_reply\<close>: the bytes of an answer. An exception writes nothing.\<close>

definition control_reply :: "(refusal \<Rightarrow> pyval) \<Rightarrow> (pyfloat \<Rightarrow> string) \<Rightarrow> reply_context \<Rightarrow> answer \<Rightarrow> written" where
  "control_reply explain fl ctx a = (case a of
     Inl (Raise e) \<Rightarrow> ([], Some e)
   | _ \<Rightarrow>
       let (st, payload) = (case a of Inl (Refuse st why) \<Rightarrow> (st, explain why) | Inr r \<Rightarrow> r | _ \<Rightarrow> (500, VNone))
       in (case json_dumps default_separators fl payload of
             Inl e \<Rightarrow> ([], Some e)
           | Inr body \<Rightarrow>
               ([StatusLine (VInt st), HeaderLine ''Server'' (server_text ctx), HeaderLine ''Date'' (date_text ctx),
                 HeaderLine ''Content-Type'' ''application/json'', HeaderLine ''Content-Length'' (nat_text (length body)),
                 HeaderLine ''Cache-Control'' ''no-store'', EndOfHeaders, Body body], None)))"

end
