(* ===== verification/ReadFacts.thy ===== *)
theory ReadFacts
  imports ControlRoutes
begin

text \<open>
  What a test reads from the control port: the merged history is complete, in order and numbered, its
  correlation groups hold calls of one id and method that came close together, the record of a cache sees a
  call that is not a read, and readiness is about exactly the ports that should accept.
\<close>

section \<open>The merged history\<close>

lemma sort_key_map: "sort_key f (map g xs) = map g (sort_key (\<lambda>x. f (g x)) xs)"
proof (induction xs)
  case (Cons x xs)
  have "insort_key f (g x) (map g ys) = map g (insort_key (\<lambda>x. f (g x)) x ys)" for ys
    by (induction ys) auto
  with Cons show ?case by simp
qed simp

lemma row_copy_fields [simp]:
  "get_or (row_copy e) ''ts'' v = VFloat (Fin (e_ts e))"
  "get_or (row_copy e) ''request_id'' v = e_request_id e"
  "get_or (row_copy e) ''method'' v = e_method e"
  by (simp_all add: row_copy_def entry_items_def starts_with_def get_or_def map_of_update)

lemma row_ts_copy [simp]: "row_ts (row_copy e) = e_ts e"
  by (simp add: row_ts_def)

text \<open>The stored rows that a query keeps, in the order of their times.\<close>

definition kept_rows :: "(pyval \<Rightarrow> string) \<Rightarrow> query \<Rightarrow> row_filter \<Rightarrow> registry \<Rightarrow> entry list" where
  "kept_rows other q f reg = sort_key e_ts
     (concat (map (\<lambda>p. stored_rows (row_matches other f) (p_log p)) (filter (history_provider_kept q) (all_providers reg))))"

lemma merged_rows_kept: "merged_rows other q f reg = map row_copy (kept_rows other q f reg)"
proof -
  have rows: "concat (map (\<lambda>p. case get_history (row_matches other f) False (p_log p) of Inl e \<Rightarrow> [] | Inr rs \<Rightarrow> rs) ps)
      = map row_copy (concat (map (\<lambda>p. stored_rows (row_matches other f) (p_log p)) ps))" for ps
    by (induction ps) (simp_all add: get_history_def)
  show ?thesis unfolding merged_rows_def kept_rows_def by (simp only: rows sort_key_map row_ts_copy)
qed

text \<open>The groups that the loop gives, and its rows with their places.\<close>

lemma correlate_places:
  assumes "correlate fl order used groups rs = Inr out"
  shows "length out = length rs \<and> (\<forall>i < length rs. \<exists>g. out ! i = placed (order + int i) g (rs ! i))"
  using assms
proof (induction rs arbitrary: order used groups out)
  case (Cons row rest)
  from Cons.prems obtain g used' groups' out' where rec: "correlate fl (order + 1) used' groups' rest = Inr out'"
    and out: "out = placed order g row # out'"
    by (auto simp: bind_r_Inr_iff split: option.splits)
  from Cons.IH [OF rec] show ?case unfolding out
    by (auto simp: nth_Cons algebra_simps split: nat.split)
qed simp

lemma newest_suffix: "\<exists>k \<le> length xs. newest n xs = drop k xs"
  by (intro exI [of _ "if 0 < n then length xs - nat n else length xs"]) (simp add: newest_def)

lemma drop_drop_bound: "j \<le> length (drop k xs) \<Longrightarrow> k \<le> length xs \<Longrightarrow> drop j (drop k xs) = drop (k + j) xs \<and> k + j \<le> length xs"
  by (simp add: add.commute)

lemma cuts_suffix:
  assumes "cut_max q (cut_last q rs) = Inr kept"
  shows "\<exists>k \<le> length rs. kept = drop k rs \<and> (map_of q ''last'' = None \<and> map_of q ''max'' = None \<longrightarrow> k = 0)"
proof -
  obtain k where k: "k \<le> length rs" "cut_last q rs = drop k rs" "map_of q ''last'' = None \<longrightarrow> k = 0"
    using newest_suffix [of rs] by (fastforce simp: cut_last_def split: option.splits)
  obtain j where j: "j \<le> length (drop k rs)" "kept = drop j (drop k rs)" "map_of q ''max'' = None \<longrightarrow> j = 0"
    using assms newest_suffix [of "drop k rs"] unfolding k(2)
    by (fastforce simp: cut_max_def Let_def split: option.splits if_splits)
  show ?thesis using drop_drop_bound [OF j(1) k(1)] j k by (intro exI [of _ "k + j"]) auto
qed

text \<open>How many of the rows that pass the two cuts leave: a bound of zero or less leaves none.\<close>

definition kept_count :: "query \<Rightarrow> nat \<Rightarrow> nat" where
  "kept_count q n =
     (let m = (case map_of q ''last'' of None \<Rightarrow> n | Some t \<Rightarrow> min (nat (as_int_text t (int n))) n)
      in case map_of q ''max'' of None \<Rightarrow> m | Some t \<Rightarrow> min (nat (as_int_text t (- 1))) m)"

lemma length_newest: "length (newest n xs) = min (nat n) (length xs)"
  by (auto simp: newest_def)

lemma length_cuts: "cut_max q (cut_last q rs) = Inr kept \<Longrightarrow> length kept = kept_count q (length rs)"
  by (auto simp: cut_max_def cut_last_def kept_count_def Let_def length_newest split: option.splits if_splits)

text \<open>A row whose headers are stored decodes with its place, and keeps every other field.\<close>

definition row_at :: "entry \<Rightarrow> int \<Rightarrow> int \<Rightarrow> sdict \<Rightarrow> bool" where
  "row_at e order g row \<longleftrightarrow>
     map_of row ''call_order'' = Some (VInt order) \<and> map_of row ''correlation_group'' = Some (VInt g)
     \<and> (\<forall>k. k \<noteq> ''call_order'' \<and> k \<noteq> ''correlation_group'' \<longrightarrow> map_of row k = map_of (decoded_row e) k)"

lemma decode_placed:
  assumes "decode_row_headers (row_copy e) = Inr (decoded_row e)"
  shows "\<exists>row. decode_row_headers (placed order g (row_copy e)) = Inr row \<and> row_at e order g row"
proof -
  from assms obtain v where v: "json_loads (headers_json e) = Some v"
    and dec: "decoded_row e = AList.update ''headers'' v (row_copy e)"
    by (auto simp: decode_row_headers_def map_of_row_copy split: option.splits)
  show ?thesis
    by (simp add: decode_row_headers_def placed_def map_of_update map_of_row_copy v row_at_def dec)
qed

lemma stored_row_decodes:
  assumes "log_reach hmax is L" and "e \<in> set (stored_rows keep L)"
  shows "decode_row_headers (row_copy e) = Inr (decoded_row e)"
  using log_reach_headers [OF assms(1)] stored_rows_mem [OF assms] decode_row_copy
  by (auto simp: headers_stored_def decoded_row_def)

lemma raised_Inr [simp]: "raised r = Inr x \<longleftrightarrow> r = Inr x"
  by (cases r) (simp_all add: raised_def)

definition logs_reachable :: "registry \<Rightarrow> bool" where
  "logs_reachable reg \<longleftrightarrow> (\<forall>p \<in> set (all_providers reg). \<exists>hmax is. log_reach hmax is (p_log p))"

lemma kept_row_decodes:
  assumes "logs_reachable reg" and "e \<in> set (kept_rows other q f reg)"
  shows "decode_row_headers (row_copy e) = Inr (decoded_row e)"
  using assms stored_row_decodes by (fastforce simp: kept_rows_def logs_reachable_def)

lemma collect_r_nth:
  "collect_r (map g xs) = Inr ys \<longleftrightarrow> length ys = length xs \<and> (\<forall>i < length xs. g (xs ! i) = Inr (ys ! i))"
proof (induction xs arbitrary: ys)
  case (Cons x xs)
  show ?case
    by (cases ys) (auto simp: bind_r_Inr_iff Cons.IH less_Suc_eq_0_disj)
qed auto

text \<open>
  C14. The history that a test reads is complete and in order. When it is read, its rows are the newest of the rows that pass the
  filters, over all the providers that the query keeps, in the order of their times; each row is the decoded copy of its
  stored row, and its \<open>call_order\<close> is its position among all the rows that pass, also when \<open>last\<close> or \<open>max\<close> cut the
  reply. With neither, every row that passes is there; \<open>last\<close> keeps that many of the newest rows, and \<open>max\<close> that many of those.
\<close>

theorem history_read_exact:
  assumes "logs_reachable reg" and "history_row_filter read q = Inr f"
    and "history_rows other fl read reg q = Inr rs"
  shows "\<exists>k \<le> length (kept_rows other q f reg). length rs = length (kept_rows other q f reg) - k
    \<and> (\<forall>i < length rs. \<exists>g. row_at (kept_rows other q f reg ! (k + i)) (int (k + i) + 1) g (rs ! i))
    \<and> (map_of q ''last'' = None \<and> map_of q ''max'' = None \<longrightarrow> k = 0)
    \<and> length rs = kept_count q (length (kept_rows other q f reg))"
proof -
  let ?es = "kept_rows other q f reg"
  from assms(2,3) obtain out kept where cor: "correlate fl 1 0 [] (map row_copy ?es) = Inr out"
    and cut: "cut_max q (cut_last q out) = Inr kept" and dec: "collect_r (map decode_row_headers kept) = Inr rs"
    by (auto simp: history_rows_def merged_rows_kept bind_r_Inr_iff)
  from cuts_suffix [OF cut] obtain k where k: "k \<le> length out" "kept = drop k out"
    "map_of q ''last'' = None \<and> map_of q ''max'' = None \<longrightarrow> k = 0" by blast
  note places = correlate_places [OF cor]
  have rs: "length rs = length kept" "\<And>i. i < length kept \<Longrightarrow> decode_row_headers (kept ! i) = Inr (rs ! i)"
    using dec by (simp_all add: collect_r_nth)
  have "\<exists>g. row_at (?es ! (k + i)) (int (k + i) + 1) g (rs ! i)" if i: "i < length rs" for i
  proof -
    have ki: "k + i < length ?es" using i rs(1) k places by simp
    then obtain g where g: "out ! (k + i) = placed (1 + int (k + i)) g (row_copy (?es ! (k + i)))"
      using places by (metis length_map nth_map)
    have "kept ! i = out ! (k + i)" using k by simp
    with g rs(2) [of i] i rs(1)
    have "decode_row_headers (placed (1 + int (k + i)) g (row_copy (?es ! (k + i)))) = Inr (rs ! i)" by simp
    with decode_placed [OF kept_row_decodes [OF assms(1) nth_mem [OF ki]], of "1 + int (k + i)" g]
    show ?thesis by (auto simp: add.commute)
  qed
  with k places rs(1) length_cuts [OF cut] show ?thesis by (intro exI [of _ k]) simp
qed

definition sample_registry :: registry where
  "sample_registry = \<lparr>pools = [(''eth-sim'', \<lparr>pl_name = ''eth-sim'', pl_chain = ''eth'',
     providers = [(''1'', sample_provider\<lparr>p_log := snd (record_arrival 5 ''jsonrpc'' ''http'' 18545 [] [] VNone
       (snd (record_arrival 4 ''jsonrpc'' ''http'' 18545 [] [] VNone (p_log sample_provider))))\<rparr>)]\<rparr>)], by_port_table = []\<rparr>"

lemma sample_registry_reachable: "logs_reachable sample_registry"
proof -
  have "log_reach HISTORY_MAX [0] (snd (record_arrival 4 ''jsonrpc'' ''http'' 18545 [] [] VNone (p_log sample_provider)))"
    using reach_arrival [OF sample_reach] by (simp add: record_arrival_def Let_def sample_provider_def new_provider_def new_log_def)
  from reach_arrival [OF this] have "\<exists>is. log_reach HISTORY_MAX is (snd (record_arrival 5 ''jsonrpc'' ''http'' 18545 [] [] VNone
       (snd (record_arrival 4 ''jsonrpc'' ''http'' 18545 [] [] VNone (p_log sample_provider)))))"
    by (metis distinct.simps(1) list.simps(8) prod.collapse)
  then show ?thesis by (auto simp: logs_reachable_def all_providers_def sample_registry_def)
qed

theorem history_read_exact_witness:
  "\<exists>rs f k. history_rows (\<lambda>_. []) (\<lambda>_. []) (\<lambda>_. None) sample_registry [(''last'', ''1'')] = Inr rs
     \<and> history_row_filter (\<lambda>_. None) [(''last'', ''1'')] = Inr f
     \<and> length rs = 1 \<and> k = 1 \<and> (\<exists>g. row_at (kept_rows (\<lambda>_. []) [(''last'', ''1'')] f sample_registry ! k) 2 g (rs ! 0))"
proof -
  let ?q = "[(''last'', ''1'')]"
  let ?run = "history_rows (\<lambda>_. []) (\<lambda>_. []) (\<lambda>_. None) sample_registry ?q"
  let ?flt = "history_row_filter (\<lambda>_. None) ?q"
  have "\<not> isl ?run" "\<not> isl ?flt" by code_simp+
  then obtain rs f where run: "?run = Inr rs" and flt: "?flt = Inr f" by (metis isl_def sum.exhaust)
  have "length (projr ?run) = 1" "length (kept_rows (\<lambda>_. []) ?q (projr ?flt) sample_registry) = 2" by code_simp+
  then have len: "length rs = 1" "length (kept_rows (\<lambda>_. []) ?q f sample_registry) = 2" by (simp_all add: run flt)
  from history_read_exact [OF sample_registry_reachable flt run] obtain k
    where "k \<le> 2" "1 = 2 - k" and at: "\<exists>g. row_at (kept_rows (\<lambda>_. []) ?q f sample_registry ! (k + 0)) (int (k + 0) + 1) g (rs ! 0)"
    unfolding len by auto
  then have "k = 1" by simp
  with at run flt len show ?thesis by auto
qed

section \<open>Correlation groups\<close>

definition group_of :: "sdict \<Rightarrow> int" where
  "group_of row = (case map_of row ''correlation_group'' of Some (VInt g) \<Rightarrow> g | _ \<Rightarrow> 0)"

lemma group_of_placed [simp]: "group_of (placed order g row) = g"
  by (simp add: group_of_def placed_def map_of_update)

definition close_to :: "(pyfloat \<Rightarrow> string) \<Rightarrow> sdict \<Rightarrow> pyval \<Rightarrow> rat \<Rightarrow> bool" where
  "close_to fl row k t \<longleftrightarrow> (\<exists>key. group_key fl row = Inr key \<and> py_eq key k) \<and> row_ts row - t \<le> CORRELATION_WINDOW_S"

definition in_group_of_first :: "(pyfloat \<Rightarrow> string) \<Rightarrow> sdict list \<Rightarrow> sdict list \<Rightarrow> nat \<Rightarrow> bool" where
  "in_group_of_first fl rs out j \<longleftrightarrow> (\<exists>i \<le> j. group_of (out ! i) = group_of (out ! j)
     \<and> (\<forall>l < i. group_of (out ! l) \<noteq> group_of (out ! j))
     \<and> (i = j \<or> (\<exists>key. group_key fl (rs ! i) = Inr key \<and> close_to fl (rs ! j) key (row_ts (rs ! i)))))"

lemma extends_groupD:
  "extends_group key t groups = Some n \<Longrightarrow> \<exists>k first. (k, n, first) \<in> set groups \<and> py_eq key k \<and> t - first \<le> CORRELATION_WINDOW_S"
  by (auto simp: extends_group_def find_Some_iff split: option.splits if_splits) (metis nth_mem)

lemma in_group_shift:
  assumes "in_group_of_first fl rest out' j" and "group_of first_out \<noteq> group_of (out' ! j)"
  shows "in_group_of_first fl (row # rest) (first_out # out') (Suc j)"
proof -
  from assms(1) obtain i where i: "i \<le> j" "group_of (out' ! i) = group_of (out' ! j)"
    "\<forall>l < i. group_of (out' ! l) \<noteq> group_of (out' ! j)"
    "i = j \<or> (\<exists>key. group_key fl (rest ! i) = Inr key \<and> close_to fl (rest ! j) key (row_ts (rest ! i)))"
    by (auto simp: in_group_of_first_def)
  then show ?thesis unfolding in_group_of_first_def
    using assms(2) by (intro exI [of _ "Suc i"]) (auto simp: less_Suc_eq_0_disj)
qed

lemma in_own_group: "in_group_of_first fl (row # rest) (o1 # out') 0"
  by (auto simp: in_group_of_first_def)

lemma in_first_group:
  assumes "group_key fl row = Inr key" and "close_to fl (rest ! j) key (row_ts row)" and "group_of o1 = group_of (out' ! j)"
  shows "in_group_of_first fl (row # rest) (o1 # out') (Suc j)"
  unfolding in_group_of_first_def using assms by (intro exI [of _ 0]) auto

lemma correlate_groups:
  assumes "correlate fl order used groups rs = Inr out" and "\<forall>(k, n, t) \<in> set groups. n \<le> used" and "j < length rs"
  shows "(group_of (out ! j) \<le> used \<and> (\<exists>k t. (k, group_of (out ! j), t) \<in> set groups \<and> close_to fl (rs ! j) k t))
    \<or> (used < group_of (out ! j) \<and> in_group_of_first fl rs out j)"
  using assms
proof (induction rs arbitrary: order used groups out j)
  case (Cons row rest)
  from Cons.prems(1) obtain key where key: "group_key fl row = Inr key" by (auto simp: bind_r_Inr_iff)
  show ?case
  proof (cases "extends_group key (row_ts row) groups")
    case (Some n)
    with Cons.prems(1) key obtain out' where rec: "correlate fl (order + 1) used groups rest = Inr out'"
      and out: "out = placed order n row # out'" by (auto simp: bind_r_Inr_iff)
    from extends_groupD [OF Some] obtain k t where kt: "(k, n, t) \<in> set groups" "py_eq key k" "row_ts row - t \<le> CORRELATION_WINDOW_S"
      by blast
    then have n: "n \<le> used" "close_to fl row k t" using Cons.prems(2) key by (auto simp: close_to_def)
    show ?thesis
    proof (cases j)
      case 0
      with n kt show ?thesis by (auto simp: out)
    next
      case (Suc j')
      with Cons.IH [OF rec Cons.prems(2), of j'] Cons.prems(3) n(1) show ?thesis
        using in_group_shift [of fl rest out' j' "placed order n row" row] by (auto simp: out)
    qed
  next
    case None
    let ?groups = "put_group key (used + 1, row_ts row) groups"
    from None Cons.prems(1) key obtain out' where rec: "correlate fl (order + 1) (used + 1) ?groups rest = Inr out'"
      and out: "out = placed order (used + 1) row # out'" by (auto simp: bind_r_Inr_iff)
    have bound: "\<forall>(k, n, t) \<in> set ?groups. n \<le> used + 1" using Cons.prems(2) by (fastforce simp: put_group_def)
    show ?thesis
    proof (cases j)
      case 0
      then show ?thesis by (simp add: out in_own_group)
    next
      case (Suc j')
      with Cons.prems(3) have "j' < length rest" by simp
      from Cons.IH [OF rec bound this] show ?thesis
      proof (elim disjE conjE exE)
        fix k t assume g: "group_of (out' ! j') \<le> used + 1" "(k, group_of (out' ! j'), t) \<in> set ?groups"
          and near: "close_to fl (rest ! j') k t"
        show ?thesis
        proof (cases "group_of (out' ! j') = used + 1")
          case True
          with g(2) Cons.prems(2) have "k = key" "t = row_ts row" by (fastforce simp: put_group_def)+
          with near key True Suc in_first_group [of fl row key rest j' "placed order (used + 1) row" out']
          show ?thesis by (simp add: out)
        next
          case False
          with g near Suc show ?thesis by (auto simp: out put_group_def)
        qed
      next
        assume "used + 1 < group_of (out' ! j')" "in_group_of_first fl rest out' j'"
        with in_group_shift [of fl rest out' j' "placed order (used + 1) row" row] Suc show ?thesis by (simp add: out)
      qed
    qed
  qed
qed simp

text \<open>
  C28. Rows of one correlation group belong together: every row is in the group of the first row with that number, it has
  the same request id and method as that row, and it came at most 50 milliseconds after it. The window runs
  from the first row of a group: a call that is near the last row of a group but not near its first row
  starts a new one.
\<close>

theorem correlation_from_first:
  assumes "correlate fl 1 0 [] rs = Inr out" and "j < length rs"
  shows "1 \<le> group_of (out ! j) \<and> (\<exists>i \<le> j. group_of (out ! i) = group_of (out ! j)
     \<and> (\<forall>l < i. group_of (out ! l) \<noteq> group_of (out ! j))
     \<and> (i = j \<or> (\<exists>key key'. group_key fl (rs ! i) = Inr key \<and> group_key fl (rs ! j) = Inr key' \<and> py_eq key' key
           \<and> row_ts (rs ! j) - row_ts (rs ! i) \<le> 1 / 20)))"
  using correlate_groups [OF assms(1) _ assms(2)]
  by (auto simp: in_group_of_first_def close_to_def CORRELATION_WINDOW_S_def)

definition sample_row :: "rat \<Rightarrow> sdict" where
  "sample_row t = [(''ts'', VFloat (Fin t)), (''request_id'', VInt 7), (''method'', VStr ''eth_call'')]"

theorem correlation_from_first_witness:
  "\<exists>out. correlate (\<lambda>_. []) 1 0 [] [sample_row 0, sample_row (4 / 100), sample_row (8 / 100)] = Inr out
     \<and> map group_of out = [1, 1, 2] \<and> 1 \<le> group_of (out ! 1)"
proof -
  let ?run = "correlate (\<lambda>_. []) 1 0 [] [sample_row 0, sample_row (4 / 100), sample_row (8 / 100)]"
  have "\<not> isl ?run" by code_simp
  then obtain out where run: "?run = Inr out" by (metis isl_def sum.exhaust)
  have "map_sum id (map group_of) ?run = Inr [1, 1, 2]" by code_simp
  with run correlation_from_first [OF run, of 1] show ?thesis by simp
qed

section \<open>The self-test of a cache\<close>

text \<open>The call over the socket of the cache itself: the listener of the cache answers it.\<close>

definition own_listener :: "status_codes \<Rightarrow> (pyval \<Rightarrow> string) \<Rightarrow> (pyfloat \<Rightarrow> string) \<Rightarrow> rat \<Rightarrow> dial" where
  "own_listener codes other fl now prt path s = (case cache_call codes other fl now path [] s of ((sleep_s, e), s') \<Rightarrow> (e, s'))"

lemma probe_is_refused:
  "cache_call codes other fl now NON_READ_PROBE_METHOD [] s = refuse_and_record now NON_READ_PROBE_METHOD s"
proof -
  have "starts_with SERVICE_PREFIX NON_READ_PROBE_METHOD" "NON_READ_PROBE_METHOD \<noteq> GET_RELAY_METHOD" by code_simp+
  then show ?thesis by (simp add: cache_call_def)
qed

lemma probe_recorded: "probe_calls (record_other_method now NON_READ_PROBE_METHOD s) \<noteq> []"
proof -
  let ?s = "record_other_method now NON_READ_PROBE_METHOD s"
  have "\<exists>r. last (cs_calls ?s) = r \<and> cs_calls ?s \<noteq> [] \<and> rc_method r = NON_READ_PROBE_METHOD"
    using bounded_append_last [of HISTORY_MAX "cs_calls s"]
    by (simp add: record_other_method_def record_call_def HISTORY_MAX_def)
  then have "\<exists>r \<in> set (cs_calls ?s). rc_method r = NON_READ_PROBE_METHOD" using last_in_set by metis
  then show ?thesis by (auto simp: probe_calls_def filter_empty_conv)
qed

text \<open>
  The record of a cache can be trusted: the self-test of a cache whose listener runs always finds its own write in the
  record, also when the ring of calls is full and its length cannot grow. The write is refused and changes
  nothing that the cache answers; the total of records grows by one.
\<close>

theorem selftest_sees_the_write:
  assumes "map_of (caches_of c) name = Some s" and "map_of ports name = Some prt"
  shows "\<exists>r s' c'. cache_selftest_write (own_listener codes other fl now) ports name c = (Inr (200, r), c')
    \<and> map_of (caches_of c') name = Some s' \<and> cs_records_total s' = cs_records_total s + 1
    \<and> plan_answer s' = plan_answer s \<and> length (cs_calls s') \<le> HISTORY_MAX"
proof -
  let ?s' = "record_other_method now NON_READ_PROBE_METHOD s"
  have "plan_answer (record_call r s) = plan_answer s" for r
    by (rule plan_answer_cong) (simp add: same_staging_def record_call_def)
  then have kept: "cs_records_total ?s' = cs_records_total s + 1" "plan_answer ?s' = plan_answer s"
    by (simp_all add: record_other_method_def) (simp add: record_call_def)
  have ring: "length (cs_calls ?s') \<le> HISTORY_MAX"
    by (simp add: record_other_method_def record_call_def bounded_append_def)
  have "cache_selftest_write (own_listener codes other fl now) ports name c
      = (judge_probe name (cs_records_total s) ''UNIMPLEMENTED'' ?s', put_cache name ?s' c)"
    using assms by (simp add: cache_selftest_write_def own_listener_def probe_is_refused refuse_and_record_def send_non_read_def)
  moreover have "\<exists>r. judge_probe name (cs_records_total s) ''UNIMPLEMENTED'' ?s' = Inr (200, r)"
    using kept(1) probe_recorded by (simp add: judge_probe_def)
  ultimately show ?thesis using kept ring by (auto simp: put_cache_def map_of_update)
qed

theorem selftest_sees_the_write_witness:
  "\<exists>r c'. cache_selftest_write (own_listener [] (\<lambda>_. []) (\<lambda>_. []) 3) [(''secondary'', 20100)] ''secondary''
     ((new_control sample_registry)\<lparr>caches_of := [(''secondary'', new_cache_sim ''secondary'')]\<rparr>) = (Inr (200, r), c')"
proof -
  let ?c = "(new_control sample_registry)\<lparr>caches_of := [(''secondary'', new_cache_sim ''secondary'')]\<rparr>"
  have "map_of (caches_of ?c) ''secondary'' = Some (new_cache_sim ''secondary'')" by simp
  moreover have "map_of [(''secondary'', 20100 :: int)] ''secondary'' = Some 20100" by simp
  ultimately show ?thesis using selftest_sees_the_write by blast
qed

section \<open>Readiness and the providers\<close>

lemma ready_iff:
  assumes "ports_closed_by_scenario c = Inr shut" and "read_ready accepts extra c = Inr (st, r)"
  shows "(st = 200 \<longleftrightarrow> (\<forall>prt \<in> set (registry_ports (registry_of c)) \<union> set extra. prt \<notin> set shut \<longrightarrow> accepts prt))
    \<and> (st = 200 \<or> st = 503)"
  using assms by (auto simp: read_ready_def expected_ports_def Let_def filter_empty_conv split: if_splits)

lemma by_key_distinct:
  assumes "distinct (map provider_key ps)"
  shows "by_key f ps = map (\<lambda>p. (provider_key p, f p)) ps"
proof -
  have fresh: "AList.update k v d = d @ [(k, v)]" if "k \<notin> set (map fst d)" for k and v :: 'a and d
    using that by (induction d) auto
  have "foldl (\<lambda>d p. AList.update (provider_key p) (f p) d) d ps = d @ map (\<lambda>p. (provider_key p, f p)) ps"
    if "distinct (map provider_key ps)" "set (map fst d) \<inter> set (map provider_key ps) = {}" for d
    using that by (induction ps arbitrary: d) (auto simp: fresh)
  from this [OF assms, of "[]"] show ?thesis by (simp add: by_key_def)
qed

end
