(* ===== verification/RespControl.thy ===== *)
theory RespControl
  imports RespFacts ControlRoutes
begin

text \<open>
  \<open>resp_control.py\<close> and its adapter in \<open>server.py\<close>: the port that reads the store behind the router and cuts the router
  off from it.

  The control holds a proxy and a reader for each store. A reader is the address and the credentials; the stores themselves are
  outside, so a store is a function of its address, and its state goes through every route. What the
  connections of a proxy do while a cut-off waits for its deliveries is an argument. A text that came from the
  store is the text of its UTF-8 bytes.
\<close>

section \<open>State\<close>

record store_reader =
  rd_target :: string
  rd_credentials :: credentials

record resp_control =
  rc_proxies :: proxy_registry
  rc_stores :: "(string, store_reader) dict"

definition new_resp_control :: resp_control where
  "new_resp_control = \<lparr>rc_proxies = [], rc_stores = []\<rparr>"

text \<open>What is outside: the stores by their address, which of them can be dialled, the stack of Python, and the text of a list.\<close>

record 'st store_world =
  sw_server :: "string \<Rightarrow> 'st store"
  sw_reachable :: "string \<Rightarrow> bool"
  sw_depth :: nat
  sw_list_text :: "resp_value list \<Rightarrow> byte list"
  sw_during_wait :: "resp_proxy \<Rightarrow> resp_proxy"

datatype resp_refusal =
    NoSuchStore | KindMissing | KindUnknown | MsMissing | MsNotWhole | MsNegative | StoreFailed
  | NoStoreHere | WhichStore | UnknownAction | PathUnknown | JsonInvalid | NotAnObject

text \<open>An answer: a refusal with its status, an exception of the reader or of the handler, or a reply.\<close>

datatype resp_stop = RespRefuse int resp_refusal | ReaderRaise resp_error | HandlerRaise pyerr

type_synonym resp_answer = "resp_stop + int \<times> pyval"

definition resp_register :: "string \<Rightarrow> string \<Rightarrow> credentials \<Rightarrow> rat \<Rightarrow> resp_control \<Rightarrow> resp_control" where
  "resp_register name target cr idle c =
     c\<lparr>rc_proxies := add_proxy name target idle (rc_proxies c),
       rc_stores := AList.update name \<lparr>rd_target = target, rd_credentials = cr\<rparr> (rc_stores c)\<rparr>"

definition resp_names :: "resp_control \<Rightarrow> string list" where
  "resp_names c = sort (dict_keys (rc_proxies c))"

section \<open>What the replies hold\<close>

definition gate_text :: "proxy_gate \<Rightarrow> string" where
  "gate_text g = (case g of FORWARDING \<Rightarrow> ''forwarding'' | TIMEOUT \<Rightarrow> ''timeout'' | ERROR \<Rightarrow> ''error'')"

definition counter_items :: "proxy_counters \<Rightarrow> pyval" where
  "counter_items k = jobj
     [(''accepted'', VInt (accepted k)), (''forwarded'', VInt (forwarded k)), (''carried'', VInt (carried k)),
      (''closed_by_cut_off'', VInt (closed_by_cut_off k)), (''closed_when_idle'', VInt (closed_when_idle k))]"

definition proxy_items :: "resp_proxy \<Rightarrow> sdict" where
  "proxy_items p =
     [(''name'', VStr (px_name p)), (''state'', VStr (gate_text (px_state p))), (''latency_ms'', VInt (px_latency_ms p)),
      (''target'', VStr (px_target p)), (''live_connections'', VInt (int (length (px_live p)))),
      (''counters'', counter_items (px_counters p))]"

definition entry_dict :: "store_entry \<Rightarrow> pyval" where
  "entry_dict e = jobj [(''key'', VStr (to_text (en_key e))), (''value'', VStr (to_text (en_value e))), (''ttl'', VInt (en_ttl e))]"

definition moved :: "string \<Rightarrow> string \<Rightarrow> resp_proxy \<Rightarrow> resp_control \<Rightarrow> resp_answer \<times> resp_control" where
  "moved status name p c =
     (Inr (200, jobj [(''status'', VStr status), (''proxy'', jobj (proxy_items p))]), c\<lparr>rc_proxies := AList.update name p (rc_proxies c)\<rparr>)"

text \<open>\<open>RespStoreError\<close> is answered with 503; any other exception of the reader goes to the socket.\<close>

definition reader_stop :: "resp_error \<Rightarrow> resp_stop" where
  "reader_stop e = (if e = RespStoreError then RespRefuse 503 StoreFailed else ReaderRaise e)"

section \<open>Reads\<close>

definition get_entries :: "'st store_world \<Rightarrow> string \<Rightarrow> query \<Rightarrow> resp_control \<Rightarrow> 'st \<Rightarrow> resp_answer \<times> 'st" where
  "get_entries sw name q c st = (case map_of (rc_stores c) name of
     None \<Rightarrow> (Inl (RespRefuse 404 NoSuchStore), st)
   | Some rd \<Rightarrow>
       let pattern = get_or q ''pattern'' ''*'' in
       (case store_entries (sw_list_text sw) (sw_depth sw) (rd_credentials rd) (sw_reachable sw (rd_target rd))
               (sw_server sw (rd_target rd)) (to_bytes pattern) st of
          (Inl e, st') \<Rightarrow> (Inl (reader_stop e), st')
        | (Inr es, st') \<Rightarrow>
            (Inr (200, jobj [(''store'', VStr name), (''target'', VStr (rd_target rd)), (''pattern'', VStr pattern),
               (''count'', VInt (int (length es))), (''entries'', VList (map entry_dict es))]), st')))"

definition get_state :: "'st store_world \<Rightarrow> string \<Rightarrow> resp_control \<Rightarrow> 'st \<Rightarrow> resp_answer \<times> 'st" where
  "get_state sw name c st = (case (map_of (rc_proxies c) name, map_of (rc_stores c) name) of
     (Some p, Some rd) \<Rightarrow>
       (case ping (sw_depth sw) (rd_credentials rd) (sw_reachable sw (rd_target rd)) (sw_server sw (rd_target rd)) st of
          (Inl e, st') \<Rightarrow> (Inl (ReaderRaise e), st')
        | (Inr up, st') \<Rightarrow> (Inr (200, jobj (proxy_items p @ [(''store_reachable'', VBool up)])), st'))
   | _ \<Rightarrow> (Inl (RespRefuse 404 NoSuchStore), st))"

definition get_stores :: "resp_control \<Rightarrow> int \<times> pyval" where
  "get_stores c = (200, jobj [(''stores'', VList (map VStr (resp_names c)))])"

definition resp_health :: "resp_control \<Rightarrow> int \<times> pyval" where
  "resp_health c = (200, jobj [(''status'', VStr ''ok''), (''stores'', VList (map VStr (resp_names c)))])"

section \<open>Writes\<close>

definition resp_cut_off :: "'st store_world \<Rightarrow> string \<Rightarrow> pyval \<Rightarrow> resp_control \<Rightarrow> resp_answer \<times> resp_control" where
  "resp_cut_off sw name body c = (case map_of (rc_proxies c) name of
     None \<Rightarrow> (Inl (RespRefuse 404 NoSuchStore), c)
   | Some p \<Rightarrow>
       let k = vget_or body ''kind'' VNone
       in if k = VNone then (Inl (RespRefuse 400 KindMissing), c)
          else (case cut_off_kind k of
             Inl e \<Rightarrow> (Inl (RespRefuse 400 KindUnknown), c)
           | Inr g \<Rightarrow> moved ''cut off'' name (sw_during_wait sw (cut_off_close g p)) c))"

definition resp_restore :: "string \<Rightarrow> resp_control \<Rightarrow> resp_answer \<times> resp_control" where
  "resp_restore name c = (case map_of (rc_proxies c) name of
     None \<Rightarrow> (Inl (RespRefuse 404 NoSuchStore), c)
   | Some p \<Rightarrow> moved ''restored'' name (restore p) c)"

definition resp_set_latency :: "string \<Rightarrow> pyval \<Rightarrow> resp_control \<Rightarrow> resp_answer \<times> resp_control" where
  "resp_set_latency name body c = (case map_of (rc_proxies c) name of
     None \<Rightarrow> (Inl (RespRefuse 404 NoSuchStore), c)
   | Some p \<Rightarrow>
       let raw = vget_or body ''ms'' VNone
       in if raw = VNone then (Inl (RespRefuse 400 MsMissing), c)
          else (case py_int raw of
             Inl e \<Rightarrow> (Inl (RespRefuse 400 MsNotWhole), c)
           | Inr ms \<Rightarrow> (case set_latency ms p of
               Inl e \<Rightarrow> (Inl (RespRefuse 400 MsNegative), c)
             | Inr p' \<Rightarrow> moved ''latency set'' name p' c)))"

definition resp_reset_counters :: "string \<Rightarrow> resp_control \<Rightarrow> resp_answer \<times> resp_control" where
  "resp_reset_counters name c = (case map_of (rc_proxies c) name of
     None \<Rightarrow> (Inl (RespRefuse 404 NoSuchStore), c)
   | Some p \<Rightarrow> moved ''counters reset'' name (reset_counters p) c)"

definition flush :: "'st store_world \<Rightarrow> string \<Rightarrow> query \<Rightarrow> resp_control \<Rightarrow> 'st \<Rightarrow> resp_answer \<times> 'st" where
  "flush sw name q c st = (case map_of (rc_stores c) name of
     None \<Rightarrow> (Inl (RespRefuse 404 NoSuchStore), st)
   | Some rd \<Rightarrow>
       let pattern = get_or q ''pattern'' ''*'' in
       (case delete_matching (sw_list_text sw) (sw_depth sw) (rd_credentials rd) (sw_reachable sw (rd_target rd))
               (sw_server sw (rd_target rd)) (to_bytes pattern) st of
          (Inl e, st') \<Rightarrow> (Inl (reader_stop e), st')
        | (Inr n, st') \<Rightarrow>
            (Inr (200, jobj [(''status'', VStr ''flushed''), (''store'', VStr name), (''target'', VStr (rd_target rd)),
               (''pattern'', VStr pattern), (''removed'', VInt n)]), st')))"

section \<open>The routes\<close>

definition resp_action :: "string \<Rightarrow> string" where
  "resp_action path = strip_by (\<lambda>ch. ch = CHR ''/'') (drop (length ''/resp/'') path)"

definition resp_store_name :: "resp_control \<Rightarrow> query \<Rightarrow> resp_refusal + string" where
  "resp_store_name c q =
     (let named = get_or q ''store'' []; known = resp_names c
      in if named \<noteq> [] then (if named \<in> set known then Inr named else Inl NoSuchStore)
         else (case known of [] \<Rightarrow> Inl NoStoreHere | [only] \<Rightarrow> Inr only | _ \<Rightarrow> Inl WhichStore))"

definition dispatch_resp_post ::
  "'st store_world \<Rightarrow> string \<Rightarrow> pyval \<Rightarrow> query \<Rightarrow> resp_control \<times> 'st \<Rightarrow> resp_answer \<times> resp_control \<times> 'st" where
  "dispatch_resp_post sw path body q s = (case s of (c, st) \<Rightarrow>
     let act = resp_action path; on_proxy = (\<lambda>(a, c'). (a, c', st))
     in (case resp_store_name c q of
           Inl why \<Rightarrow> (Inl (RespRefuse 404 why), c, st)
         | Inr name \<Rightarrow>
             if act = ''cutoff'' then on_proxy (resp_cut_off sw name body c)
             else if act = ''restore'' then on_proxy (resp_restore name c)
             else if act = ''flush'' then (case flush sw name q c st of (a, st') \<Rightarrow> (a, c, st'))
             else if act = ''counters/reset'' then on_proxy (resp_reset_counters name c)
             else if act = ''latency'' then on_proxy (resp_set_latency name body c)
             else (Inl (RespRefuse 404 UnknownAction), c, st)))"

definition dispatch_resp_get :: "'st store_world \<Rightarrow> string \<Rightarrow> query \<Rightarrow> resp_control \<times> 'st \<Rightarrow> resp_answer \<times> 'st" where
  "dispatch_resp_get sw path q s = (case s of (c, st) \<Rightarrow>
     let act = resp_action path
     in (case resp_store_name c q of
           Inl why \<Rightarrow> (Inl (RespRefuse 404 why), st)
         | Inr name \<Rightarrow>
             if act = ''keys'' then get_entries sw name q c st
             else if act = ''state'' then get_state sw name c st
             else (Inl (RespRefuse 404 UnknownAction), st)))"

text \<open>The handler. The body is read as on the control port.\<close>

definition body_stop :: "stop \<Rightarrow> resp_stop" where
  "body_stop s = (case s of
     Raise e \<Rightarrow> HandlerRaise e
   | Refuse code why \<Rightarrow> RespRefuse code (if why = BadJson then JsonInvalid else NotAnObject))"

definition resp_do_POST ::
  "'st store_world \<Rightarrow> headers \<Rightarrow> string \<Rightarrow> string \<Rightarrow> (string, string list) dict \<Rightarrow> resp_control \<times> 'st \<Rightarrow> resp_answer \<times> resp_control \<times> 'st" where
  "resp_do_POST sw hs stream path q s = (case post_body hs stream of
     Inl stop \<Rightarrow> (Inl (body_stop stop), s)
   | Inr body \<Rightarrow>
       if starts_with ''/resp/'' path then dispatch_resp_post sw path body (first_values q) s
       else (Inl (RespRefuse 404 PathUnknown), s))"

definition resp_do_GET ::
  "'st store_world \<Rightarrow> string \<Rightarrow> (string, string list) dict \<Rightarrow> resp_control \<times> 'st \<Rightarrow> resp_answer \<times> 'st" where
  "resp_do_GET sw path q s = (case s of (c, st) \<Rightarrow>
     if path = ''/health'' then (Inr (resp_health c), st)
     else if path = ''/resp'' then (Inr (get_stores c), st)
     else if starts_with ''/resp/'' path then dispatch_resp_get sw path (first_values q) s
     else (Inl (RespRefuse 404 PathUnknown), st))"

section \<open>The control never plants an entry\<close>

text \<open>
  What a predicate of the state of a store needs so that a conversation keeps it: every command that the conversation can send
  keeps it. The first part of a command is its name.
\<close>

definition keeps :: "('st \<Rightarrow> bool) \<Rightarrow> 'st store \<Rightarrow> string list \<Rightarrow> bool" where
  "keeps I srv names \<longleftrightarrow> (\<forall>nm \<in> set names. \<forall>rest st. I st \<longrightarrow> I (snd (srv (resp_encode (to_bytes nm # rest)) st)))"

definition SESSION_COMMANDS :: "string list" where
  "SESSION_COMMANDS = [''AUTH'', ''SELECT'']"

definition READ_COMMANDS :: "string list" where
  "READ_COMMANDS = SESSION_COMMANDS @ [''SCAN'', ''GET'', ''TTL'', ''PING'']"

lemma keeps_mono: "keeps I srv names \<Longrightarrow> set names' \<subseteq> set names \<Longrightarrow> keeps I srv names'"
  by (auto simp: keeps_def)

abbreviation at_store :: "('r \<times> 'st \<times> sock) \<Rightarrow> 'st" where
  "at_store out \<equiv> fst (snd out)"

lemma run_command_keeps:
  assumes "keeps I srv names" and "nm \<in> set names" and "I (fst conn)"
  shows "I (at_store (run_command depth srv (to_bytes nm # rest) conn))"
proof -
  obtain st pending where conn: "conn = (st, pending)" by fastforce
  have "at_store (run_command depth srv (to_bytes nm # rest) conn) = snd (srv (resp_encode (to_bytes nm # rest)) st)"
    by (simp add: run_command_def conn split: prod.splits option.splits)
  with assms conn show ?thesis by (simp add: keeps_def)
qed

lemma and_then_keeps:
  assumes "I (at_store r)" and "\<And>x conn. I (fst conn) \<Longrightarrow> I (at_store (f x conn))"
  shows "I (at_store (and_then r f))"
  using assms by (cases r; cases "fst r") (auto simp: and_then_def)

lemma scan_keeps:
  assumes "keeps I srv names" and "''SCAN'' \<in> set names" and "I (fst conn)"
  shows "I (at_store (scan_rounds lt depth srv pattern n cursor found conn))"
  using assms(3)
proof (induction n arbitrary: cursor found conn)
  case (Suc n)
  show ?case unfolding scan_rounds.simps scan_command_def
    by (rule and_then_keeps, rule run_command_keeps [OF assms(1,2) Suc.prems])
      (auto simp: Let_def Suc.IH split: resp_value.split list.split)
qed simp

lemma get_keeps: "keeps I srv names \<Longrightarrow> ''GET'' \<in> set names \<Longrightarrow> I (fst conn) \<Longrightarrow> I (at_store (get_on lt depth srv key conn))"
  unfolding get_on_def by (rule and_then_keeps) (auto intro: run_command_keeps)

lemma ttl_keeps: "keeps I srv names \<Longrightarrow> ''TTL'' \<in> set names \<Longrightarrow> I (fst conn) \<Longrightarrow> I (at_store (ttl_on depth srv key conn))"
  unfolding ttl_on_def by (rule and_then_keeps) (auto intro: run_command_keeps split: resp_value.split)

lemma entries_keep:
  fixes srv :: "'st store"
  assumes "keeps I srv names" and "''GET'' \<in> set names" and "''TTL'' \<in> set names" and "I (fst conn)"
  shows "I (at_store (entries_of lt depth srv keys conn))"
  using assms(4)
proof (induction keys arbitrary: conn)
  case (Cons key keys)
  show ?case unfolding entries_of.simps
  proof (rule and_then_keeps, rule get_keeps [OF assms(1,2) Cons.prems])
    fix v and conn' :: "'st \<times> sock" assume I: "I (fst conn')"
    have "I (at_store (and_then (ttl_on depth srv key conn') (\<lambda>t conn.
            if t = TTL_NO_SUCH_KEY then entries_of lt depth srv keys conn
            else and_then (entries_of lt depth srv keys conn) (\<lambda>es conn.
              (Inr (\<lparr>en_key = key, en_value = val, en_ttl = t\<rparr> # es), conn)))))" for val
      by (rule and_then_keeps, rule ttl_keeps [OF assms(1,3) I]) (simp add: Cons.IH and_then_keeps)
    with I Cons.IH show "I (at_store (case v of
          None \<Rightarrow> entries_of lt depth srv keys conn'
        | Some val \<Rightarrow> and_then (ttl_on depth srv key conn') (\<lambda>t conn.
            if t = TTL_NO_SUCH_KEY then entries_of lt depth srv keys conn
            else and_then (entries_of lt depth srv keys conn) (\<lambda>es conn.
              (Inr (\<lparr>en_key = key, en_value = val, en_ttl = t\<rparr> # es), conn)))))"
      by (simp split: option.split)
  qed
qed simp

lemma delete_keeps:
  assumes "keeps I srv names" and "''DEL'' \<in> set names" and "I (fst conn)"
  shows "I (at_store (delete_batches depth srv keys conn))"
  using assms(3)
proof (induction keys arbitrary: conn)
  case (Cons ks rest)
  show ?case unfolding delete_batches.simps
    by (rule and_then_keeps, rule run_command_keeps [OF assms(1,2) Cons.prems]) (simp add: Cons.IH and_then_keeps)
qed simp

lemma auth_is_AUTH: "cmd \<in> set (auth_parts cr) \<Longrightarrow> \<exists>rest. cmd = to_bytes ''AUTH'' # rest"
  by (cases "cr_password cr"; cases "cr_username cr"; cases "the (cr_username cr)") (auto simp: auth_parts_def)

lemma session_keeps:
  assumes "keeps I srv names" and "set SESSION_COMMANDS \<subseteq> set names" and "I st"
    and "\<And>conn. I (fst conn) \<Longrightarrow> I (at_store (body conn))"
  shows "I (snd (session depth cr reachable srv body st))"
proof -
  have "I (at_store (run_all depth srv cmds conn))"
    if "\<forall>c \<in> set cmds. \<exists>nm rest. c = to_bytes nm # rest \<and> nm \<in> set names" "I (fst conn)" for cmds conn
    using that
  proof (induction cmds arbitrary: conn)
    case (Cons c cmds)
    then obtain nm rest where c: "c = to_bytes nm # rest" "nm \<in> set names" by auto
    show ?case unfolding run_all.simps c(1)
      by (rule and_then_keeps, rule run_command_keeps [OF assms(1) c(2) Cons.prems(2)]) (use Cons in simp)
  qed simp
  moreover have "\<forall>c \<in> set (auth_parts cr @ select_parts cr). \<exists>nm rest. c = to_bytes nm # rest \<and> nm \<in> set names"
    using assms(2) auth_is_AUTH [of _ cr] by (fastforce simp: select_parts_def SESSION_COMMANDS_def)
  ultimately have "I (at_store (run_all depth srv (auth_parts cr @ select_parts cr) (st, [])))" using assms(3) by simp
  then have "I (at_store (and_then (run_all depth srv (auth_parts cr @ select_parts cr) (st, [])) (\<lambda>u conn. body conn)))"
    using assms(4) by (rule and_then_keeps)
  then show ?thesis using assms(3) by (auto simp: session_def split: prod.splits)
qed

lemma snd_cases:
  "snd (case out of (Inl e, st') \<Rightarrow> (f e, st') | (Inr x, st') \<Rightarrow> (g x, st')) = snd out"
  by (simp split: prod.split sum.split)

text \<open>The reads keep what the reading commands keep, and a flush what those and DEL keep.\<close>

lemma reads_keep:
  assumes "keeps I srv READ_COMMANDS" and "I st"
  shows "I (snd (store_entries lt depth cr reachable srv pattern st))" and "I (snd (ping depth cr reachable srv st))"
proof -
  have cmds: "set SESSION_COMMANDS \<subseteq> set READ_COMMANDS" "''SCAN'' \<in> set READ_COMMANDS" "''GET'' \<in> set READ_COMMANDS"
    "''TTL'' \<in> set READ_COMMANDS" "''PING'' \<in> set READ_COMMANDS"
    by (auto simp: READ_COMMANDS_def)
  show "I (snd (store_entries lt depth cr reachable srv pattern st))" unfolding store_entries_def scan_on_def
    by (rule session_keeps [OF assms(1) cmds(1) assms(2)], rule and_then_keeps)
      (simp_all add: scan_keeps [OF assms(1) cmds(2)] entries_keep [OF assms(1) cmds(3,4)])
  have "I (snd (session depth cr reachable srv (run_command depth srv [to_bytes ''PING'']) st))"
    by (rule session_keeps [OF assms(1) cmds(1) assms(2)]) (rule run_command_keeps [OF assms(1) cmds(5)])
  then show "I (snd (ping depth cr reachable srv st))" by (auto simp: ping_def split: prod.splits sum.splits)
qed

lemma flush_keeps:
  assumes "keeps I srv (READ_COMMANDS @ [''DEL''])" and "I st"
  shows "I (snd (delete_matching lt depth cr reachable srv pattern st))"
proof -
  have cmds: "set SESSION_COMMANDS \<subseteq> set (READ_COMMANDS @ [''DEL''])" "''SCAN'' \<in> set (READ_COMMANDS @ [''DEL''])"
    "''DEL'' \<in> set (READ_COMMANDS @ [''DEL''])"
    by (auto simp: READ_COMMANDS_def)
  show ?thesis unfolding delete_matching_def scan_on_def
    by (rule session_keeps [OF assms(1) cmds(1) assms(2)], rule and_then_keeps)
      (simp_all add: scan_keeps [OF assms(1) cmds(2)] delete_keeps [OF assms(1) cmds(3)])
qed

text \<open>
  C25. The RESP control port cannot plant an entry. Whatever path, body and query a caller sends, the store receives only
  the commands that read, AUTH and SELECT, and, for a POST, DEL: anything about a store that these commands leave alone
  still holds after the call. A GET does not even delete.
\<close>

theorem resp_port_never_plants:
  assumes "\<And>target. keeps I (sw_server sw target) (READ_COMMANDS @ [''DEL''])" and "I st"
    and "\<And>target. keeps J (sw_server sw target) READ_COMMANDS" and "J st'"
  shows "I (snd (snd (resp_do_POST sw hs stream path q (c, st)))) \<and> J (snd (resp_do_GET sw path q (c, st')))"
proof
  have "I (snd (flush sw name q' c st))" for name q'
    using flush_keeps [OF assms(1,2)] assms(2) by (simp add: flush_def Let_def snd_cases split: option.split)
  then have "I (snd (snd (dispatch_resp_post sw path body q' (c, st))))" for body q'
    using assms(2) by (auto simp: dispatch_resp_post_def Let_def split: sum.split prod.split) (metis snd_conv)
  then show "I (snd (snd (resp_do_POST sw hs stream path q (c, st))))"
    using assms(2) by (simp add: resp_do_POST_def split: sum.split)
  have "J (snd (get_entries sw name q' c st'))" "J (snd (get_state sw name c st'))" for name q'
    using reads_keep [OF assms(3,4)] assms(4)
    by (simp_all add: get_entries_def get_state_def Let_def snd_cases split: option.split)
  then show "J (snd (resp_do_GET sw path q (c, st')))"
    using assms(4) by (auto simp: resp_do_GET_def dispatch_resp_get_def Let_def split: sum.split)
qed

text \<open>A store that answers PONG to everything and counts the commands: its count never falls.\<close>

definition counting_world :: "nat store_world" where
  "counting_world = \<lparr>sw_server = (\<lambda>target cmd n. (Some [to_bytes ''+PONG'' @ CRLF], Suc n)), sw_reachable = (\<lambda>_. True),
     sw_depth = 8, sw_list_text = (\<lambda>_. []), sw_during_wait = (\<lambda>p. p)\<rparr>"

theorem resp_port_never_plants_witness:
  "(3 :: nat) \<le> snd (snd (resp_do_POST counting_world [] [] ''/resp/flush'' []
        (resp_register ''store'' ''redis:6379'' \<lparr>cr_username = None, cr_password = None, cr_db = 0\<rparr> 60 new_resp_control, 3)))
   \<and> 4 \<le> snd (resp_do_GET counting_world ''/resp/flush'' []
        (resp_register ''store'' ''redis:6379'' \<lparr>cr_username = None, cr_password = None, cr_db = 0\<rparr> 60 new_resp_control, 4 :: nat))"
  by (rule resp_port_never_plants) (auto simp: keeps_def counting_world_def)

end
