(* ===== verification/PortClients.thy ===== *)
theory PortClients
  imports PortGate
begin

text \<open>
  The connections of one http or ws port: \<open>_ProviderHTTPServer\<close> of \<open>server.py\<close>, and the stop of the loop that owns it.

  Three kinds of threads run here. The serve thread accepts connections; each connection has a worker thread
  that reads requests and writes replies; the loop of the port calls \<open>close_port\<close>. What runs under the lock of
  the clients is one step, and so is every call on a socket; the step relation has each interleaving of the steps. A
  worker of a socket that is shut down can still read what arrived before, and cannot write.
\<close>

section \<open>State\<close>

text \<open>What a thread of the port raises: an error of a socket, or any other.\<close>

datatype thread_error = OSError | NoOSError pyerr

datatype conn_at =
    Unseen      \<comment> \<open>nothing has accepted it\<close>
  | Accepting   \<comment> \<open>accepted; its socket is not recorded yet\<close>
  | Waiting     \<comment> \<open>its worker waits for a request\<close>
  | Serving     \<comment> \<open>its worker serves a request\<close>
  | Leaving     \<comment> \<open>its worker has ended; the socket is still there\<close>
  | Dropped     \<comment> \<open>out of the record; the socket is still there\<close>
  | Gone

datatype closer_at =
    NotClosing
  | Copied "nat list"     \<comment> \<open>the flag is set, and the clients are copied\<close>
  | Shutting "nat list"   \<comment> \<open>the listening socket is closed; these are still to be shut down\<close>
  | Finished

record port_clients =
  by_scenario :: bool
  clients :: "nat set"
  listening :: bool
  conn :: "nat \<Rightarrow> conn_at"
  cut :: "nat set"
  closer :: closer_at
  replies :: "nat list"

definition new_clients :: port_clients where
  "new_clients = \<lparr>by_scenario = False, clients = {}, listening = True, conn = (\<lambda>c. Unseen), cut = {},
     closer = NotClosing, replies = []\<rparr>"

definition moves_to :: "nat \<Rightarrow> conn_at \<Rightarrow> port_clients \<Rightarrow> port_clients" where
  "moves_to c a s = s\<lparr>conn := (conn s)(c := a)\<rparr>"

section \<open>The operations\<close>

text \<open>\<open>get_request\<close> after the accept: under the lock it records the socket, or it closes it and raises.\<close>

definition get_request :: "nat \<Rightarrow> port_clients \<Rightarrow> (thread_error + nat) \<times> port_clients" where
  "get_request c s =
     (if by_scenario s then (Inl OSError, moves_to c Gone (s\<lparr>cut := insert c (cut s)\<rparr>))
      else (Inr c, moves_to c Waiting (s\<lparr>clients := insert c (clients s)\<rparr>)))"

text \<open>\<open>shutdown_request\<close>: out of the record first, then the socket.\<close>

definition discard_client :: "nat \<Rightarrow> port_clients \<Rightarrow> port_clients" where
  "discard_client c s = moves_to c Dropped (s\<lparr>clients := clients s - {c}\<rparr>)"

definition close_client :: "nat \<Rightarrow> port_clients \<Rightarrow> port_clients" where
  "close_client c s = moves_to c Gone (s\<lparr>cut := insert c (cut s)\<rparr>)"

text \<open>A worker that has read a request asks \<open>_port_is_closed\<close> before it serves it.\<close>

definition port_is_closed :: "port_clients \<Rightarrow> bool" where
  "port_is_closed s = by_scenario s"

definition begin_request :: "nat \<Rightarrow> port_clients \<Rightarrow> port_clients" where
  "begin_request c s = moves_to c (if port_is_closed s then Leaving else Serving) s"

text \<open>A reply reaches the peer of a socket that is not shut down; the write to any other raises an \<open>OSError\<close>, which ends
  the worker.\<close>

definition write_reply :: "nat \<Rightarrow> port_clients \<Rightarrow> (thread_error + nat) \<times> port_clients" where
  "write_reply c s =
     (if c \<in> cut s then (Inl OSError, moves_to c Leaving s)
      else (Inr c, moves_to c Waiting (s\<lparr>replies := c # replies s\<rparr>)))"

text \<open>\<open>handle_error\<close>: whether the traceback of a worker is printed. \<open>_serve_until_stopped\<close>: what its thread raises.\<close>

definition handle_error :: "port_clients \<Rightarrow> thread_error \<Rightarrow> bool" where
  "handle_error s e \<longleftrightarrow> \<not> (by_scenario s \<and> e = OSError)"

definition serve_until_stopped :: "port_clients \<Rightarrow> thread_error option \<Rightarrow> thread_error option" where
  "serve_until_stopped s raised = (case raised of
     None \<Rightarrow> None
   | Some e \<Rightarrow> if e \<in> {OSError, NoOSError ValueError} \<and> by_scenario s then None else Some e)"

text \<open>The steps of \<open>close_port\<close>. The order of the copy is the order of a Python set, which is an argument.\<close>

definition copy_clients :: "nat list \<Rightarrow> port_clients \<Rightarrow> port_clients" where
  "copy_clients cs s = s\<lparr>by_scenario := True, closer := Copied cs\<rparr>"

definition close_listening :: "nat list \<Rightarrow> port_clients \<Rightarrow> port_clients" where
  "close_listening cs s = s\<lparr>listening := False, closer := Shutting cs\<rparr>"

definition shut_client :: "nat \<Rightarrow> nat list \<Rightarrow> port_clients \<Rightarrow> port_clients" where
  "shut_client c cs s = s\<lparr>cut := insert c (cut s), closer := Shutting cs\<rparr>"

definition finish_close :: "port_clients \<Rightarrow> port_clients" where
  "finish_close s = s\<lparr>closer := Finished\<rparr>"

text \<open>The whole of \<open>close_port\<close> with nothing in between.\<close>

fun shut_all :: "nat list \<Rightarrow> port_clients \<Rightarrow> port_clients" where
  "shut_all [] s = s"
| "shut_all (c # cs) s = shut_all cs (shut_client c cs s)"

definition close_clients :: "nat list \<Rightarrow> port_clients \<Rightarrow> port_clients" where
  "close_clients cs s = finish_close (shut_all cs (close_listening cs (copy_clients cs s)))"

lemmas client_ops = moves_to_def get_request_def discard_client_def close_client_def begin_request_def
  write_reply_def copy_clients_def close_listening_def shut_client_def finish_close_def port_is_closed_def

section \<open>Every interleaving\<close>

text \<open>
  A call of \<open>close_port\<close> can raise at its sockets and at the start of its last thread; the flag then stays, and a second
  call starts again. A worker may end at any time: the peer goes away, or a read runs into its timeout.
\<close>

inductive client_step :: "port_clients \<Rightarrow> port_clients \<Rightarrow> bool" where
  Accept: "listening s \<Longrightarrow> conn s c = Unseen \<Longrightarrow> client_step s (moves_to c Accepting s)"
| Record: "conn s c = Accepting \<Longrightarrow> client_step s (snd (get_request c s))"
| Request: "conn s c = Waiting \<Longrightarrow> client_step s (begin_request c s)"
| Reply: "conn s c = Serving \<Longrightarrow> client_step s (snd (write_reply c s))"
| Ends: "conn s c = Waiting \<or> conn s c = Serving \<Longrightarrow> client_step s (moves_to c Leaving s)"
| Discard: "conn s c = Leaving \<Longrightarrow> client_step s (discard_client c s)"
| CloseSocket: "conn s c = Dropped \<Longrightarrow> client_step s (close_client c s)"
| BeginClose: "closer s = NotClosing \<or> closer s = Finished \<Longrightarrow> distinct cs \<Longrightarrow> set cs = clients s \<Longrightarrow>
    client_step s (copy_clients cs s)"
| CloseListening: "closer s = Copied cs \<Longrightarrow> client_step s (close_listening cs s)"
| ShutClient: "closer s = Shutting (c # cs) \<Longrightarrow> client_step s (shut_client c cs s)"
| FinishClose: "closer s = Shutting [] \<Longrightarrow> client_step s (finish_close s)"
| CloseRaises: "closer s \<noteq> NotClosing \<Longrightarrow> closer s \<noteq> Finished \<Longrightarrow> client_step s (s\<lparr>closer := NotClosing\<rparr>)"

inductive client_reach :: "port_clients \<Rightarrow> port_clients \<Rightarrow> bool" where
  client_refl: "client_reach s s"
| client_more: "client_reach s t \<Longrightarrow> client_step t u \<Longrightarrow> client_reach s u"

inductive_cases client_stepE: "client_step s t"

declare client_more [trans]

lemma client_reach_trans [trans]: "client_reach s t \<Longrightarrow> client_reach t u \<Longrightarrow> client_reach s u"
  by (rotate_tac, induction rule: client_reach.induct) (auto intro: client_reach.intros)

section \<open>The invariant\<close>

text \<open>A connection that a worker serves is recorded; a call that closes has set the flag, and what it has not shut down
  yet of the recorded ones is in its copy.\<close>

definition served :: "port_clients \<Rightarrow> nat set" where
  "served s = {c. conn s c \<in> {Waiting, Serving, Leaving}}"

fun unshut :: "port_clients \<Rightarrow> nat set" where
  "unshut s = (case closer s of Copied cs \<Rightarrow> set cs | Shutting cs \<Rightarrow> set cs | _ \<Rightarrow> {})"

definition clients_inv :: "port_clients \<Rightarrow> bool" where
  "clients_inv s \<longleftrightarrow> clients s = served s
     \<and> (closer s \<noteq> NotClosing \<longrightarrow> by_scenario s \<and> clients s \<subseteq> unshut s \<union> cut s)
     \<and> (closer s = Finished \<or> (\<exists>cs. closer s = Shutting cs) \<longrightarrow> \<not> listening s)"

lemma served_moves:
  "served (moves_to c a s) = (if a \<in> {Waiting, Serving, Leaving} then insert c (served s) else served s - {c})"
  by (auto simp: served_def moves_to_def)

lemma clients_inv_new: "clients_inv new_clients"
  by (simp add: clients_inv_def new_clients_def served_def)

lemma clients_inv_step:
  assumes "client_step s t" and "clients_inv s"
  shows "clients_inv t"
  using assms
  by (induction rule: client_step.induct)
     (auto simp: clients_inv_def served_def client_ops split: closer_at.splits if_splits)

lemma client_reach_inv: "client_reach s t \<Longrightarrow> clients_inv s \<Longrightarrow> clients_inv t"
  by (induction rule: client_reach.induct) (auto intro: clients_inv_step)

section \<open>After a close\<close>

text \<open>What no later step undoes: the flag, the closed listening socket, and that each connection with a worker is
  shut down. So nobody is served any more who was not served at that time, and no reply leaves.\<close>

definition cut_since :: "port_clients \<Rightarrow> port_clients \<Rightarrow> bool" where
  "cut_since s t \<longleftrightarrow> by_scenario t \<and> \<not> listening t \<and> served t \<subseteq> cut t \<and> served t \<subseteq> served s
     \<and> replies t = replies s \<and> (\<forall>c. conn t c = Serving \<longrightarrow> conn s c = Serving)"

lemma cut_since_finished: "clients_inv s \<Longrightarrow> closer s = Finished \<Longrightarrow> cut_since s s"
  by (auto simp: clients_inv_def cut_since_def)

lemma cut_since_step: "client_step t u \<Longrightarrow> cut_since s t \<Longrightarrow> cut_since s u"
  by (induction rule: client_step.induct)
     (auto simp: cut_since_def served_def client_ops split: if_splits)

lemma cut_since_reach: "client_reach t u \<Longrightarrow> cut_since s t \<Longrightarrow> cut_since s u"
  by (induction rule: client_reach.induct) (auto intro: cut_since_step)

text \<open>C30. A call of \<open>close_port\<close> that has come to its end closes the port for good, whatever the serve thread and the
  workers do in the meantime and afterwards: nothing listens, each connection that still has a worker is shut down, no worker
  begins a request, no new connection gets a worker, and no reply leaves the port any more.\<close>

theorem closed_port_serves_nobody:
  assumes "client_reach new_clients s" and "closer s = Finished" and "client_reach s t"
  shows "by_scenario t \<and> \<not> listening t \<and> served t \<subseteq> cut t \<and> served t \<subseteq> served s \<and> replies t = replies s
    \<and> (\<forall>c. conn t c = Serving \<longrightarrow> conn s c = Serving)"
proof -
  have "cut_since s s"
    using client_reach_inv [OF assms(1) clients_inv_new] assms(2) by (rule cut_since_finished)
  then have "cut_since s t" by (rule cut_since_reach [OF assms(3)])
  then show ?thesis by (simp add: cut_since_def)
qed

section \<open>A call of close_port comes to its end\<close>

lemma shut_all_reach:
  "closer s = Shutting cs \<Longrightarrow> client_reach s (shut_all cs s) \<and> closer (shut_all cs s) = Shutting []
     \<and> cut (shut_all cs s) = cut s \<union> set cs \<and> conn (shut_all cs s) = conn s"
proof (induction cs arbitrary: s)
  case Nil
  then show ?case by (auto intro: client_refl)
next
  case (Cons c cs)
  let ?a = "shut_client c cs s"
  have IH: "client_reach ?a (shut_all cs ?a) \<and> closer (shut_all cs ?a) = Shutting []
      \<and> cut (shut_all cs ?a) = cut ?a \<union> set cs \<and> conn (shut_all cs ?a) = conn ?a"
    by (rule Cons.IH) (simp add: shut_client_def)
  note client_refl [of s]
  also have "client_step s ?a" using Cons.prems by (rule ShutClient)
  also note IH [THEN conjunct1]
  finally show ?case using IH by (auto simp: shut_client_def)
qed

text \<open>From any state in which no call runs, a call that nothing interrupts brings the port down, also after calls that raised.\<close>

lemma close_port_finishes:
  assumes "closer s = NotClosing \<or> closer s = Finished" and "distinct cs" and "set cs = clients s"
  shows "client_reach s (close_clients cs s) \<and> closer (close_clients cs s) = Finished
    \<and> clients s \<subseteq> cut (close_clients cs s) \<and> conn (close_clients cs s) = conn s"
proof -
  let ?a = "copy_clients cs s"
  let ?b = "close_listening cs ?a"
  let ?t = "shut_all cs ?b"
  have t: "client_reach ?b ?t \<and> closer ?t = Shutting [] \<and> cut ?t = cut ?b \<union> set cs \<and> conn ?t = conn ?b"
    by (rule shut_all_reach) (simp add: close_listening_def)
  note client_refl [of s]
  also have "client_step s ?a" using assms by (rule BeginClose)
  also have "client_step ?a ?b" by (rule CloseListening) (simp add: copy_clients_def)
  also note t [THEN conjunct1]
  also have "client_step ?t (finish_close ?t)" using t by (intro FinishClose) simp
  finally show ?thesis using t assms(3) by (simp add: close_clients_def client_ops)
qed

text \<open>A port with a connection in service and one that the serve thread has just accepted, closed in that moment.\<close>

definition busy_port :: port_clients where
  "busy_port = moves_to 1 Accepting (begin_request 0 (snd (get_request 0 (moves_to 0 Accepting new_clients))))"

lemma busy_port_reach: "client_reach new_clients busy_port"
proof -
  let ?a = "moves_to 0 Accepting new_clients"
  let ?b = "snd (get_request 0 ?a)"
  let ?c = "begin_request 0 ?b"
  note client_refl [of new_clients]
  also have "client_step new_clients ?a" by (rule Accept) (simp_all add: new_clients_def)
  also have "client_step ?a ?b" by (rule Record) (simp add: moves_to_def)
  also have "client_step ?b ?c" by (rule Request) (simp add: client_ops new_clients_def)
  also have "client_step ?c busy_port"
    unfolding busy_port_def by (rule Accept) (simp_all add: client_ops new_clients_def)
  finally show ?thesis .
qed

lemma busy_port_closes:
  "client_reach new_clients (close_clients [0] busy_port)" "closer (close_clients [0] busy_port) = Finished"
proof -
  have "client_reach busy_port (close_clients [0] busy_port) \<and> closer (close_clients [0] busy_port) = Finished"
    using close_port_finishes [of busy_port "[0]"] by (simp add: busy_port_def client_ops new_clients_def)
  with busy_port_reach show "client_reach new_clients (close_clients [0] busy_port)"
    and "closer (close_clients [0] busy_port) = Finished" by (auto intro: client_reach_trans)
qed

text \<open>The accepted connection is closed by \<open>get_request\<close>, and the reply to the other is lost.\<close>

theorem closed_port_serves_nobody_witness:
  "let t = snd (write_reply 0 (snd (get_request 1 (close_clients [0] busy_port))))
   in served t = {0} \<and> served t \<subseteq> cut t \<and> replies t = [] \<and> conn t 1 = Gone"
proof -
  let ?s = "close_clients [0] busy_port"
  let ?a = "snd (get_request 1 ?s)"
  let ?t = "snd (write_reply 0 ?a)"
  note run = close_clients_def busy_port_def client_ops new_clients_def
  note client_refl [of ?s]
  also have "client_step ?s ?a" by (rule Record) (simp add: run)
  also have "client_step ?a ?t" by (rule Reply) (simp add: run)
  finally have "served ?t \<subseteq> cut ?t \<and> replies ?t = replies ?s"
    using closed_port_serves_nobody [OF busy_port_closes, of ?t] by simp
  moreover have "replies ?s = []" "served ?t = {0}" "conn ?t 1 = Gone" by (auto simp: served_def run)
  ultimately show ?thesis by (simp add: Let_def)
qed

section \<open>The server of the loop\<close>

text \<open>What the loop of the port sees of the clients is the flag: each step keeps the server or is its \<open>close_port\<close>.\<close>

definition server_of :: "bool \<Rightarrow> port_clients \<Rightarrow> port_server" where
  "server_of started s = \<lparr>serve_started = started, closed_by_scenario = by_scenario s\<rparr>"

lemma server_of_new: "server_of False new_clients = new_server"
  by (simp add: server_of_def new_clients_def new_server_def)

lemma server_of_step:
  "client_step s t \<Longrightarrow> server_of b t = server_of b s \<or> server_of b t = close_port (server_of b s)"
  by (induction rule: client_step.induct) (auto simp: server_of_def close_port_def client_ops)

lemma server_of_close: "server_of b (copy_clients cs s) = close_port (server_of b s)"
  by (simp add: server_of_def close_port_def copy_clients_def)

section \<open>The stop of a loop\<close>

text \<open>A pass of \<open>_HttpPortLoop\<close> and \<open>stop\<close> hold one lock. \<open>stop\<close> takes the server that the port has; its thread is
  stopped when it ran, and its socket is closed.\<close>

record loop_owner =
  owned :: port_loop
  stopped :: bool

datatype stop_call = ShutdownServer | ServerClose

definition new_loop :: loop_owner where
  "new_loop = \<lparr>owned = Some new_server, stopped = False\<rparr>"

definition loop_pass :: "pyerr + bool \<Rightarrow> pass_faults \<Rightarrow> loop_owner \<Rightarrow> bool option \<times> loop_owner" where
  "loop_pass w f l =
     (if stopped l then (None, l)
      else let h = http_pass w f (owned l) in (Some (http_is_open h), l\<lparr>owned := h\<rparr>))"

definition loop_stop :: "loop_owner \<Rightarrow> stop_call list \<times> loop_owner" where
  "loop_stop l =
     (case owned l of
        None \<Rightarrow> []
      | Some s \<Rightarrow> (if serve_started s then [ShutdownServer] else []) @ [ServerClose],
      l\<lparr>owned := None, stopped := True\<rparr>)"

datatype loop_op = RunPass "pyerr + bool" pass_faults | StopLoop

fun loop_run :: "loop_op list \<Rightarrow> loop_owner \<Rightarrow> bool option list \<times> loop_owner" where
  "loop_run [] l = ([], l)"
| "loop_run (RunPass w f # ops) l = (let (r, l') = loop_pass w f l; (rs, l'') = loop_run ops l' in (r # rs, l''))"
| "loop_run (StopLoop # ops) l = loop_run ops (snd (loop_stop l))"

text \<open>No pass opens the port after a stop, and none reports.\<close>

lemma loop_stopped:
  "stopped l \<Longrightarrow> owned l = None \<Longrightarrow> owned (snd (loop_run ops l)) = None \<and> set (fst (loop_run ops l)) \<subseteq> {None}"
  by (induction ops l rule: loop_run.induct) (auto simp: loop_pass_def loop_stop_def case_prod_beta)

lemma stop_is_final:
  "owned (snd (loop_run ops (snd (loop_stop l)))) = None \<and> set (fst (loop_run ops (snd (loop_stop l)))) \<subseteq> {None}"
  by (rule loop_stopped) (simp_all add: loop_stop_def)

lemma stop_closes_what_is_held: "ServerClose \<in> set (fst (loop_stop l)) \<longleftrightarrow> owned l \<noteq> None"
  by (cases "owned l") (auto simp: loop_stop_def)

end
