(* ===== verification/Bootstrap.thy ===== *)
theory Bootstrap
  imports RespControl PortClients
begin

text \<open>
  \<open>SimulatorServer\<close> of \<open>server.py\<close>: what one simulator is built from, what \<open>start\<close> binds and which
  thread it starts for it, \<open>stop\<close>, and the wait for the ports.

  The variables of the environment, which ports can be bound, and whether \<open>grpcio\<close> can be imported are
  arguments. A thread is a value that names what it runs; its steps are the loops of the other theories. The registry of
  the proxies is one object that the two control ports share; here each of them starts with it.
\<close>

section \<open>The ports and the settings\<close>

definition CONTROL_PORT :: int where "CONTROL_PORT = 19000"

definition CACHE_SIM_PORTS :: "(string, int) dict" where "CACHE_SIM_PORTS = [(''secondary'', 19100)]"

definition RESP_CONTROL_PORT :: int where "RESP_CONTROL_PORT = 19101"

definition RESP_PROXY_PORTS :: "(string, int) dict" where "RESP_PROXY_PORTS = [(''primary'', 19102)]"

definition RESP_PROXY_IDLE_SECONDS :: rat where "RESP_PROXY_IDLE_SECONDS = 120"

text \<open>What the process reads from its environment, and the arguments of the constructor.\<close>

record sim_env =
  env_ttl :: "string option"
  env_store :: "string \<times> int"
  env_credentials :: credentials

record settings =
  st_host :: string
  st_control_port :: int
  st_ttl :: "int option"
  st_cache_ports :: "(string, int) dict option"
  st_resp_control_port :: int
  st_resp_proxy_ports :: "(string, int) dict option"
  st_resp_store :: "(string \<times> int) option"

definition default_settings :: settings where
  "default_settings = \<lparr>st_host = ''0.0.0.0'', st_control_port = CONTROL_PORT, st_ttl = None, st_cache_ports = None,
     st_resp_control_port = RESP_CONTROL_PORT, st_resp_proxy_ports = None, st_resp_store = None\<rparr>"

section \<open>The simulator\<close>

datatype adapter = JsonRpcHttp | JsonRpcWs | RestHttp | TendermintHttp | GraphqlHttp

definition HTTP_ADAPTERS :: "(string \<times> string, adapter) dict" where
  "HTTP_ADAPTERS =
    [((''jsonrpc'', ''http''), JsonRpcHttp), ((''jsonrpc'', ''ws''), JsonRpcWs), ((''rest'', ''http''), RestHttp),
     ((''tendermintrpc'', ''http''), TendermintHttp), ((''graphql'', ''http''), GraphqlHttp)]"

type_synonym owned = "provider_id \<times> endpoint"

record port_thread =
  pt_owner :: owned
  pt_adapter :: adapter
  pt_loop :: loop_owner

datatype plain_server = ControlServer int | RespProxyServer string int | RespControlServer int

datatype sim_thread =
    ServeForever plain_server | PortLoop int | GrpcLoop owned | CacheLoop string int | TtlSweep int

record simulator =
  sim_settings :: settings
  sim_control :: control
  sim_cache_ports :: "(string, int) dict"
  sim_resp_ports :: "(string, int) dict"
  sim_resp :: resp_control
  sim_extra_ports :: "int list"
  sim_ttl :: int
  sim_grpc_enabled :: bool
  sim_caches_enabled :: bool
  sim_servers :: "plain_server list"
  sim_loops :: "port_thread list"
  sim_threads :: "sim_thread list"

datatype init_error = TableRefused registry_error | TwoStoreNames | BadTtl pyerr

text \<open>One cache for each name, and one proxy with its reader for each store.\<close>

definition make_caches :: "string list \<Rightarrow> cache_registry" where
  "make_caches names = foldl (\<lambda>reg n. snd (get_or_create n reg)) [] names"

definition store_target :: "string \<times> int \<Rightarrow> string" where
  "store_target t = fst t @ '':'' @ int_text (snd t)"

definition register_stores :: "credentials \<Rightarrow> string \<times> int \<Rightarrow> string list \<Rightarrow> resp_control" where
  "register_stores cr t names =
     foldl (\<lambda>c n. resp_register n (store_target t) cr RESP_PROXY_IDLE_SECONDS c) new_resp_control names"

text \<open>\<open>SIM_SCENARIO_TTL_SECONDS\<close> of the environment, 900 when it is not set.\<close>

definition ttl_of :: "sim_env \<Rightarrow> settings \<Rightarrow> pyerr + int" where
  "ttl_of env st = (case st_ttl st of
     Some n \<Rightarrow> Inr n
   | None \<Rightarrow> py_int (VStr (case env_ttl env of Some t \<Rightarrow> t | None \<Rightarrow> ''900'')))"

definition new_simulator :: "topology_row list \<Rightarrow> sim_env \<Rightarrow> settings \<Rightarrow> init_error + simulator" where
  "new_simulator table env st = (case build_registry table of
     Inl e \<Rightarrow> Inl (TableRefused e)
   | Inr reg \<Rightarrow>
       let cache_ports = (case st_cache_ports st of Some d \<Rightarrow> d | None \<Rightarrow> CACHE_SIM_PORTS);
           resp_ports = (case st_resp_proxy_ports st of Some d \<Rightarrow> d | None \<Rightarrow> RESP_PROXY_PORTS);
           store = (case st_resp_store st of Some t \<Rightarrow> t | None \<Rightarrow> env_store env)
       in if length resp_ports > 1 then Inl TwoStoreNames
          else let resp = register_stores (env_credentials env) store (dict_keys resp_ports)
               in (case ttl_of env st of
                 Inl e \<Rightarrow> Inl (BadTtl e)
               | Inr ttl \<Rightarrow> Inr
                   \<lparr>sim_settings = st,
                    sim_control = (new_control reg)\<lparr>caches_of := make_caches (dict_keys cache_ports),
                      proxies_of := rc_proxies resp\<rparr>,
                    sim_cache_ports = cache_ports, sim_resp_ports = resp_ports, sim_resp = resp,
                    sim_extra_ports = remdups (map snd resp_ports @
                      (if resp_ports \<noteq> [] then [st_resp_control_port st] else [])),
                    sim_ttl = ttl, sim_grpc_enabled = False, sim_caches_enabled = False,
                    sim_servers = [], sim_loops = [], sim_threads = []\<rparr>))"

section \<open>start\<close>

datatype start_error = NoAdapter | BindFails int

text \<open>Every endpoint with the id of its provider, in the order of \<open>all_providers\<close>.\<close>

definition provider_entries :: "registry \<Rightarrow> (provider_id \<times> provider) list" where
  "provider_entries reg = concat (map (\<lambda>(n, pl). map (\<lambda>(i, p). ((n, i), p)) (providers pl)) (pools reg))"

definition owned_endpoints :: "registry \<Rightarrow> owned list" where
  "owned_endpoints reg = concat (map (\<lambda>(k, p). map (Pair k) (endpoints p)) (provider_entries reg))"

definition is_grpc :: "owned \<Rightarrow> bool" where
  "is_grpc own \<longleftrightarrow> interface (snd own) = ''grpc''"

definition adapter_of :: "owned \<Rightarrow> adapter option" where
  "adapter_of own = map_of HTTP_ADAPTERS (interface (snd own), transport (snd own))"

record launch =
  la_gates :: gates
  la_bound :: "int list"
  la_loops :: "port_thread list"
  la_grpc :: "owned list"

text \<open>A port is bound when nothing outside holds it and this simulator has not bound it already.\<close>

definition can_bind :: "(int \<Rightarrow> bool) \<Rightarrow> int list \<Rightarrow> int \<Rightarrow> bool" where
  "can_bind free bound prt \<longleftrightarrow> free prt \<and> prt \<notin> set bound"

definition add_gate :: "gates \<Rightarrow> owned \<Rightarrow> gates" where
  "add_gate gs own = AList.update (port (snd own)) (own, new_gate) gs"

fun start_endpoints :: "(int \<Rightarrow> bool) \<Rightarrow> owned list \<Rightarrow> launch \<Rightarrow> start_error + launch" where
  "start_endpoints free [] l = Inr l"
| "start_endpoints free (own # os) l =
     (if is_grpc own then start_endpoints free os (l\<lparr>la_grpc := la_grpc l @ [own]\<rparr>)
      else (case adapter_of own of
        None \<Rightarrow> Inl NoAdapter
      | Some a \<Rightarrow>
          if \<not> can_bind free (la_bound l) (port (snd own)) then Inl (BindFails (port (snd own)))
          else start_endpoints free os
            (l\<lparr>la_gates := add_gate (la_gates l) own, la_bound := la_bound l @ [port (snd own)],
              la_loops := la_loops l @ [\<lparr>pt_owner = own, pt_adapter = a, pt_loop = new_loop\<rparr>]\<rparr>)))"

fun bind_all :: "(int \<Rightarrow> bool) \<Rightarrow> int list \<Rightarrow> int list \<Rightarrow> start_error + int list" where
  "bind_all free [] bound = Inr bound"
| "bind_all free (prt # ps) bound =
     (if can_bind free bound prt then bind_all free ps (bound @ [prt]) else Inl (BindFails prt))"

text \<open>The servers that are no provider: the control port, the proxies, and the control port of the proxies.\<close>

definition plain_servers :: "simulator \<Rightarrow> plain_server list" where
  "plain_servers s = ControlServer (st_control_port (sim_settings s))
     # map (\<lambda>(n, prt). RespProxyServer n prt) (filter (\<lambda>(n, prt). map_of (rc_proxies (sim_resp s)) n \<noteq> None) (sim_resp_ports s))
     @ (if sim_resp_ports s \<noteq> [] then [RespControlServer (st_resp_control_port (sim_settings s))] else [])"

fun plain_port :: "plain_server \<Rightarrow> int" where
  "plain_port (ControlServer prt) = prt"
| "plain_port (RespProxyServer n prt) = prt"
| "plain_port (RespControlServer prt) = prt"

definition start :: "bool \<Rightarrow> (int \<Rightarrow> bool) \<Rightarrow> simulator \<Rightarrow> start_error + simulator" where
  "start grpcio free s =
     bind_r (start_endpoints free (owned_endpoints (registry_of (sim_control s)))
         \<lparr>la_gates = port_gates (sim_control s), la_bound = [], la_loops = [], la_grpc = []\<rparr>) (\<lambda>l.
     bind_r (bind_all free (map plain_port (plain_servers s)) (la_bound l)) (\<lambda>bound.
       let with_grpc = grpcio \<and> la_grpc l \<noteq> [];
           with_caches = grpcio \<and> sim_cache_ports s \<noteq> [];
           gates = (if with_grpc then foldl add_gate (la_gates l) (la_grpc l) else la_gates l)
       in Inr (s\<lparr>sim_control := (sim_control s)\<lparr>port_gates := gates\<rparr>,
             sim_servers := plain_servers s, sim_loops := la_loops l,
             sim_grpc_enabled := with_grpc, sim_caches_enabled := with_caches,
             sim_threads := map ServeForever (plain_servers s)
               @ map (\<lambda>t. PortLoop (port (snd (pt_owner t)))) (la_loops l)
               @ (if with_grpc then map GrpcLoop (la_grpc l) else [])
               @ (if with_caches then map (\<lambda>(n, prt). CacheLoop n prt) (sim_cache_ports s) else [])
               @ (if sim_ttl s > 0 then [TtlSweep (sim_ttl s)] else [])\<rparr>)))"

section \<open>stop and the wait for the ports\<close>

text \<open>Each plain server is shut down, and each loop stops the server that its port has at that time.\<close>

definition stop :: "simulator \<Rightarrow> (plain_server list \<times> stop_call list list) \<times> simulator" where
  "stop s = ((sim_servers s, map (\<lambda>t. fst (loop_stop (pt_loop t))) (sim_loops s)),
     s\<lparr>sim_loops := map (\<lambda>t. t\<lparr>pt_loop := snd (loop_stop (pt_loop t))\<rparr>) (sim_loops s)\<rparr>)"

definition probe_host :: "string \<Rightarrow> string" where
  "probe_host h = (if h = ''0.0.0.0'' then ''127.0.0.1'' else h)"

text \<open>A round of \<open>wait_ready\<close>: the ports that scenarios close then, what a connection to each port meets, and whether
  the time is over. Each round gives the ports that are still awaited.\<close>

record wait_round =
  wr_closed :: "pyerr + int list"
  wr_accepts :: "string \<Rightarrow> int \<Rightarrow> bool"
  wr_late :: bool

datatype wait_end = WaitRaise pyerr | TimeoutError "int list" | PortsReady

fun wait_rounds :: "string \<Rightarrow> wait_round list \<Rightarrow> int list \<Rightarrow> wait_end option" where
  "wait_rounds h rs [] = Some PortsReady"
| "wait_rounds h [] (prt # ps) = None"
| "wait_rounds h (r # rs) (prt # ps) = (case wr_closed r of
     Inl e \<Rightarrow> Some (WaitRaise e)
   | Inr shut \<Rightarrow>
       let pending = filter (\<lambda>q. q \<notin> set shut \<and> \<not> wr_accepts r h q) (prt # ps)
       in if pending \<noteq> [] \<and> wr_late r then Some (TimeoutError (sort pending)) else wait_rounds h rs pending)"

definition wait_for_ports :: "wait_round list \<Rightarrow> simulator \<Rightarrow> wait_end option" where
  "wait_for_ports rs s = wait_rounds (probe_host (st_host (sim_settings s))) rs
     (remdups (registry_ports (registry_of (sim_control s)) @ sim_extra_ports s))"

end
