(* ===== verification/BootFacts.thy ===== *)
theory BootFacts
  imports Bootstrap ControlFacts
begin

text \<open>
  What \<open>start\<close> leaves behind: a control state on which the theorems about the control API stand, one gate and one loop
  for each port of a provider, and nothing else; the shipped table starts; a stopped simulator opens no port; and the wait
  for the ports ends with every awaited port seen.
\<close>

section \<open>The entries of a built registry\<close>

text \<open>No name stands twice in the dicts of a registry, so its entries are what a lookup finds.\<close>

definition reg_distinct :: "registry \<Rightarrow> bool" where
  "reg_distinct reg \<longleftrightarrow> distinct (dict_keys (pools reg)) \<and> (\<forall>(n, pl) \<in> set (pools reg). distinct (dict_keys (providers pl)))"

lemma update_entries: "x \<in> set (AList.update k v d) \<Longrightarrow> x = (k, v) \<or> x \<in> set d"
  by (induction d) (auto split: if_splits)

lemma reg_distinct_add_row: "reg_distinct reg \<Longrightarrow> add_row r reg = Inr reg' \<Longrightarrow> reg_distinct reg'"
proof (cases r)
  case (Row pl chain i name backup grp specs)
  assume reg: "reg_distinct reg" and "add_row r reg = Inr reg'"
  then obtain q where q: "pools reg' = AList.update pl q (pools reg)"
    and "distinct (dict_keys (providers q))"
    unfolding Row add_row_def
    by (cases "map_of (pools reg) pl")
       (force simp: Let_def add_provider_def reg_distinct_def distinct_update bind_r_def
         split: option.splits if_splits sum.splits dest: map_of_SomeD)+
  with reg show ?thesis
    by (auto simp: reg_distinct_def distinct_update dest!: update_entries)
qed

lemma reg_distinct_add_rows: "reg_distinct reg \<Longrightarrow> add_rows rs reg = Inr reg' \<Longrightarrow> reg_distinct reg'"
proof (induction rs arbitrary: reg)
  case (Cons r rs)
  then obtain reg1 where "add_row r reg = Inr reg1" "add_rows rs reg1 = Inr reg'"
    by (cases "add_row r reg") auto
  with Cons reg_distinct_add_row show ?case by blast
qed simp

lemma reg_distinct_build: "build_registry table = Inr reg \<Longrightarrow> reg_distinct reg"
  unfolding build_registry_def by (rule reg_distinct_add_rows) (auto simp: reg_distinct_def new_registry_def)

lemma provider_entries_find:
  assumes "reg_distinct reg"
  shows "(k, p) \<in> set (provider_entries reg) \<longleftrightarrow> find_provider reg (fst k) (snd k) = Inr p"
proof -
  have look: "map_of (providers pl) i = Some p \<longleftrightarrow> (i, p) \<in> set (providers pl)" if "(n, pl) \<in> set (pools reg)" for n pl i
    using assms that by (auto simp: reg_distinct_def)
  have "find_provider reg (fst k) (snd k) = Inr p \<longleftrightarrow>
      (\<exists>pl. map_of (pools reg) (fst k) = Some pl \<and> map_of (providers pl) (snd k) = Some p)"
    by (auto simp: find_provider_def split: option.splits)
  also have "\<dots> \<longleftrightarrow> (\<exists>pl. (fst k, pl) \<in> set (pools reg) \<and> (snd k, p) \<in> set (providers pl))"
    using assms look by (auto simp: reg_distinct_def)
  also have "\<dots> \<longleftrightarrow> (k, p) \<in> set (provider_entries reg)"
    by (cases k) (force simp: provider_entries_def)
  finally show ?thesis by simp
qed

lemma distinct_pairs:
  "distinct (map fst xs) \<Longrightarrow> \<forall>(n, v) \<in> set xs. distinct (f v) \<Longrightarrow> distinct (concat (map (\<lambda>(n, v). map (Pair n) (f v)) xs))"
proof (induction xs)
  case (Cons x xs)
  obtain n v where x: "x = (n, v)" by (cases x)
  have "distinct (map (Pair n) (f v))" using Cons.prems(2) by (simp add: x distinct_map inj_on_def)
  moreover have "set (map (Pair n) (f v)) \<inter> set (concat (map (\<lambda>(n, v). map (Pair n) (f v)) xs)) = {}"
    using Cons.prems(1) by (auto simp: x rev_image_eqI)
  ultimately show ?case using Cons by (simp add: x)
qed simp

lemma provider_entries_distinct:
  assumes "reg_distinct reg"
  shows "distinct (map fst (provider_entries reg))"
proof -
  have keys: "map fst (provider_entries reg) = concat (map (\<lambda>(n, pl). map (Pair n) (dict_keys (providers pl))) (pools reg))"
    by (simp add: provider_entries_def map_concat comp_def case_prod_unfold)
  show ?thesis unfolding keys by (rule distinct_pairs) (use assms in \<open>auto simp: reg_distinct_def\<close>)
qed

lemma owned_endpoints_find:
  assumes "reg_distinct reg"
  shows "(k, ep) \<in> set (owned_endpoints reg) \<longleftrightarrow>
    (\<exists>p. find_provider reg (fst k) (snd k) = Inr p \<and> ep \<in> set (endpoints p))"
proof
  assume "(k, ep) \<in> set (owned_endpoints reg)"
  then show "\<exists>p. find_provider reg (fst k) (snd k) = Inr p \<and> ep \<in> set (endpoints p)"
    using provider_entries_find [OF assms, of k] by (auto simp: owned_endpoints_def)
next
  assume "\<exists>p. find_provider reg (fst k) (snd k) = Inr p \<and> ep \<in> set (endpoints p)"
  then obtain p where "(k, p) \<in> set (provider_entries reg)" "ep \<in> set (endpoints p)"
    using provider_entries_find [OF assms, of k] by blast
  then show "(k, ep) \<in> set (owned_endpoints reg)"
    unfolding owned_endpoints_def set_concat set_map by (intro UN_I [OF imageI]) (auto simp: case_prod_beta)
qed

section \<open>What is bound\<close>

abbreviation wired :: "owned list \<Rightarrow> owned list" where
  "wired os \<equiv> filter (\<lambda>own. \<not> is_grpc own) os"

abbreviation own_port :: "owned \<Rightarrow> int" where
  "own_port own \<equiv> port (snd own)"

definition thread_of :: "owned \<Rightarrow> port_thread" where
  "thread_of own = \<lparr>pt_owner = own, pt_adapter = the (adapter_of own), pt_loop = new_loop\<rparr>"

lemma start_endpoints_result:
  "start_endpoints free os l = Inr l' \<Longrightarrow>
     l' = \<lparr>la_gates = foldl add_gate (la_gates l) (wired os), la_bound = la_bound l @ map own_port (wired os),
           la_loops = la_loops l @ map thread_of (wired os), la_grpc = la_grpc l @ filter is_grpc os\<rparr>"
  by (induction free os l rule: start_endpoints.induct)
     (auto simp: thread_of_def split: option.splits if_splits)

lemma start_endpoints_distinct: "start_endpoints free os l = Inr l' \<Longrightarrow> distinct (la_bound l) \<Longrightarrow> distinct (la_bound l')"
  by (induction free os l rule: start_endpoints.induct)
     (simp_all add: can_bind_def split: option.splits if_splits)

lemma start_endpoints_accepts:
  "\<forall>own \<in> set (wired os). adapter_of own \<noteq> None \<and> free (own_port own) \<Longrightarrow>
   distinct (la_bound l @ map own_port (wired os)) \<Longrightarrow> \<exists>l'. start_endpoints free os l = Inr l'"
  by (induction free os l rule: start_endpoints.induct) (auto simp: can_bind_def disjoint_iff, blast+)

lemma bind_all_accepts:
  "\<forall>prt \<in> set ps. free prt \<Longrightarrow> distinct (bound @ ps) \<Longrightarrow> bind_all free ps bound = Inr (bound @ ps)"
  by (induction free ps bound rule: bind_all.induct) (auto simp: can_bind_def)

lemma bind_all_distinct: "bind_all free ps bound = Inr b \<Longrightarrow> distinct bound \<Longrightarrow> b = bound @ ps \<and> distinct b"
  by (induction free ps bound rule: bind_all.induct) (auto simp: can_bind_def split: if_splits)

lemma gates_written:
  "map_of (foldl add_gate gs os) prt =
     (case find (\<lambda>own. own_port own = prt) (rev os) of Some own \<Rightarrow> Some (own, new_gate) | None \<Rightarrow> map_of gs prt)"
  by (induction os rule: rev_induct) (auto simp: add_gate_def map_of_update)

text \<open>The endpoints that get a gate.\<close>

definition gated :: "bool \<Rightarrow> owned list \<Rightarrow> owned list" where
  "gated grpcio os = wired os @ (if grpcio then filter is_grpc os else [])"

lemma start_result:
  assumes "start grpcio free s = Inr s'" and "port_gates (sim_control s) = []"
  defines "os \<equiv> owned_endpoints (registry_of (sim_control s))"
  shows "sim_control s' = (sim_control s)\<lparr>port_gates := foldl add_gate [] (gated grpcio os)\<rparr>"
    and "sim_loops s' = map thread_of (wired os)"
    and "distinct (map own_port (wired os) @ map plain_port (sim_servers s'))"
    and "sim_servers s' = plain_servers s"
    and "{own. GrpcLoop own \<in> set (sim_threads s')} = (if grpcio then set (filter is_grpc os) else {})"
proof -
  obtain l b where l: "start_endpoints free os
        \<lparr>la_gates = port_gates (sim_control s), la_bound = [], la_loops = [], la_grpc = []\<rparr> = Inr l"
      and b: "bind_all free (map plain_port (plain_servers s)) (la_bound l) = Inr b"
    using assms(1) unfolding start_def os_def by (auto simp: bind_r_def Let_def split: sum.splits)
  note r = start_endpoints_result [OF l]
  note run = assms(1) [unfolded start_def os_def [symmetric], unfolded l, simplified, unfolded b, simplified]
  show "sim_control s' = (sim_control s)\<lparr>port_gates := foldl add_gate [] (gated grpcio os)\<rparr>"
    and "sim_loops s' = map thread_of (wired os)" and "sim_servers s' = plain_servers s"
    using run r assms(2) by (auto simp: Let_def gated_def)
  moreover have "la_bound l = map own_port (wired os)" "distinct (la_bound l)"
    using start_endpoints_distinct [OF l] arg_cong [OF r, of la_bound] by simp_all
  ultimately show "distinct (map own_port (wired os) @ map plain_port (sim_servers s'))"
    using bind_all_distinct [OF b] by (metis)
  show "{own. GrpcLoop own \<in> set (sim_threads s')} = (if grpcio then set (filter is_grpc os) else {})"
    using run r by (auto simp: Let_def filter_empty_conv)
qed

section \<open>A simulator that has started\<close>

lemma new_simulator_parts:
  assumes "new_simulator table env st = Inr s"
  shows "\<exists>reg. build_registry table = Inr reg \<and> registry_of (sim_control s) = reg \<and> control_ok (sim_control s)"
    and "port_gates (sim_control s) = []" and "proxies_of (sim_control s) = rc_proxies (sim_resp s)"
    and "length (sim_resp_ports s) \<le> 1"
  using assms new_control_ok
  by (auto simp: new_simulator_def new_control_def control_ok_def Let_def split: sum.splits if_splits)

lemma gates_written_mem:
  "map_of (foldl add_gate [] os) prt = Some (own, g) \<Longrightarrow> own \<in> set os \<and> own_port own = prt \<and> g = new_gate"
  by (auto simp: gates_written split: option.splits dest!: find_Some_mem)

lemma gates_written_ex:
  "own \<in> set os \<Longrightarrow> \<exists>own'. own' \<in> set os \<and> own_port own' = own_port own \<and>
     map_of (foldl add_gate [] os) (own_port own) = Some (own', new_gate)"
proof (cases "find (\<lambda>x. own_port x = own_port own) (rev os)")
  case None
  assume "own \<in> set os"
  with None show ?thesis unfolding find_None_iff set_rev by blast
next
  case (Some own')
  then have "own' \<in> set os" "own_port own' = own_port own" by (auto dest: find_Some_mem)
  with Some show ?thesis by (intro exI [of _ own']) (simp add: gates_written)
qed

lemma gated_mem: "own \<in> set (gated grpcio os) \<longleftrightarrow> own \<in> set os \<and> (is_grpc own \<longrightarrow> grpcio)"
  by (auto simp: gated_def)

text \<open>Each gate of a started simulator belongs to an endpoint of its provider on that port.\<close>

lemma started_gate:
  assumes "new_simulator table env st = Inr s0" and "start grpcio free s0 = Inr s"
    and "map_of (port_gates (sim_control s)) prt = Some ((k, ep), g)"
  shows "port ep = prt \<and> g = new_gate \<and> (interface ep = ''grpc'' \<longrightarrow> grpcio)
    \<and> (\<exists>p. find_provider (registry_of (sim_control s)) (fst k) (snd k) = Inr p \<and> ep \<in> set (endpoints p))"
proof -
  let ?os = "owned_endpoints (registry_of (sim_control s0))"
  note parts = new_simulator_parts [OF assms(1)]
  note r = start_result [OF assms(2) parts(2)]
  from parts(1) have "reg_distinct (registry_of (sim_control s0))" by (auto intro: reg_distinct_build)
  note os = owned_endpoints_find [OF this]
  have "map_of (foldl add_gate [] (gated grpcio ?os)) prt = Some ((k, ep), g)" using assms(3) by (simp add: r(1))
  from gates_written_mem [OF this] show ?thesis by (simp add: r(1) gated_mem os is_grpc_def)
qed

lemma started_control_ok:
  assumes "new_simulator table env st = Inr s0" and "start grpcio free s0 = Inr s"
  shows "control_ok (sim_control s)"
proof -
  note parts = new_simulator_parts [OF assms(1)]
  have "reg_ok (registry_of (sim_control s))"
    using parts(1) start_result(1) [OF assms(2) parts(2)] by (auto simp: control_ok_def)
  moreover have "gates_ok (port_gates (sim_control s)) (registry_of (sim_control s))"
    using started_gate [OF assms] unfolding gates_ok_def by (metis prod.collapse)
  ultimately show ?thesis by (simp add: control_ok_def)
qed

text \<open>C27. A simulator that \<open>start\<close> brought up is one that the control API works on: each gate belongs to an endpoint of
  its provider on that port and is fresh, a gRPC port has a gate only when \<open>grpcio\<close> is there, each endpoint that can be
  closed has a gate on its port, each http and ws endpoint has one loop with a server that is bound, no two
  sockets have the same port, and the two control ports hold the same proxies.\<close>

theorem started_simulator_is_wired:
  assumes "new_simulator table env st = Inr s0" and "start grpcio free s0 = Inr s"
  shows "control_ok (sim_control s)
    \<and> (\<forall>prt k ep g. map_of (port_gates (sim_control s)) prt = Some ((k, ep), g) \<longrightarrow>
         port ep = prt \<and> g = new_gate \<and> (interface ep = ''grpc'' \<longrightarrow> grpcio)
         \<and> (\<exists>p. find_provider (registry_of (sim_control s)) (fst k) (snd k) = Inr p \<and> ep \<in> set (endpoints p)))
    \<and> (\<forall>k p ep. find_provider (registry_of (sim_control s)) (fst k) (snd k) = Inr p \<and> ep \<in> set (endpoints p)
         \<and> (interface ep = ''grpc'' \<longrightarrow> grpcio) \<longrightarrow>
         (\<exists>own. own_port own = port ep \<and> map_of (port_gates (sim_control s)) (port ep) = Some (own, new_gate)))
    \<and> pt_owner ` set (sim_loops s) = {(k, ep). interface ep \<noteq> ''grpc'' \<and>
         (\<exists>p. find_provider (registry_of (sim_control s)) (fst k) (snd k) = Inr p \<and> ep \<in> set (endpoints p))}
    \<and> (\<forall>t \<in> set (sim_loops s). pt_loop t = new_loop)
    \<and> distinct (map (\<lambda>t. own_port (pt_owner t)) (sim_loops s) @ map plain_port (sim_servers s))
    \<and> proxies_of (sim_control s) = rc_proxies (sim_resp s)"
proof -
  let ?reg = "registry_of (sim_control s0)"
  let ?os = "owned_endpoints ?reg"
  note parts = new_simulator_parts [OF assms(1)]
  note r = start_result [OF assms(2) parts(2)]
  have reg: "registry_of (sim_control s) = ?reg" by (simp add: r(1))
  have gates: "port_gates (sim_control s) = foldl add_gate [] (gated grpcio ?os)" by (simp add: r(1))
  from parts(1) have "reg_distinct ?reg" by (auto intro: reg_distinct_build)
  note os = owned_endpoints_find [OF this]
  note own = started_gate [OF assms, unfolded reg]
  have "control_ok (sim_control s)" by (rule started_control_ok [OF assms])
  moreover have "\<exists>own. own_port own = port ep \<and> map_of (port_gates (sim_control s)) (port ep) = Some (own, new_gate)"
    if "find_provider ?reg (fst k) (snd k) = Inr p" "ep \<in> set (endpoints p)" "interface ep = ''grpc'' \<longrightarrow> grpcio" for k p ep
    using gates_written_ex [of "(k, ep)" "gated grpcio ?os"] that gates os [of k ep]
    by (auto simp: gated_mem is_grpc_def)
  moreover have "pt_owner ` set (sim_loops s) = {(k, ep). interface ep \<noteq> ''grpc'' \<and>
      (\<exists>p. find_provider ?reg (fst k) (snd k) = Inr p \<and> ep \<in> set (endpoints p))}"
    unfolding r(2) os [symmetric] by (auto simp: thread_of_def is_grpc_def image_image)
  moreover have "\<forall>t \<in> set (sim_loops s). pt_loop t = new_loop" by (simp add: r(2) thread_of_def)
  moreover have "distinct (map (\<lambda>t. own_port (pt_owner t)) (sim_loops s) @ map plain_port (sim_servers s))"
    using r(3) by (simp add: r(2) thread_of_def comp_def)
  moreover have "proxies_of (sim_control s) = rc_proxies (sim_resp s)"
    using parts(3) assms(2) by (auto simp: start_def bind_r_def Let_def split: sum.splits)
  ultimately show ?thesis using own unfolding reg by blast
qed

text \<open>Where no two endpoints have the same port, each has its own gate.\<close>

lemma gates_unique:
  assumes "distinct (map own_port os)" and "own \<in> set os"
  shows "map_of (foldl add_gate [] (gated grpcio os)) (own_port own) = (if is_grpc own \<and> \<not> grpcio then None else Some (own, new_gate))"
proof -
  from assms(1) have inj: "inj_on own_port (set os)" by (simp add: distinct_map)
  have uniq: "own' = own" if "own' \<in> set os" "own_port own' = own_port own" for own'
    by (rule inj_onD [OF inj that(2,1) assms(2)])
  show ?thesis
  proof (cases "own \<in> set (gated grpcio os)")
    case True
    from gates_written_ex [OF this] obtain own' where "own' \<in> set (gated grpcio os)" "own_port own' = own_port own"
      "map_of (foldl add_gate [] (gated grpcio os)) (own_port own) = Some (own', new_gate)" by blast
    with uniq True show ?thesis by (auto simp: gated_mem)
  next
    case False
    then have "find (\<lambda>x. own_port x = own_port own) (rev (gated grpcio os)) = None"
      unfolding find_None_iff set_rev gated_mem using uniq by blast
    with False assms(2) show ?thesis by (simp add: gates_written gated_mem)
  qed
qed

section \<open>The shipped simulator\<close>

lemma topology_adapters:
  "list_all (\<lambda>r. list_all (\<lambda>ep. interface ep = ''grpc'' \<or> map_of HTTP_ADAPTERS (interface ep, transport ep) \<noteq> None)
     (row_endpoints r)) TOPOLOGY"
  by code_simp

lemma topology_below_services: "list_all (\<lambda>r. list_all (\<lambda>prt. prt < CONTROL_PORT) (row_ports r)) TOPOLOGY"
  by code_simp

lemma row_provider_endpoints: "endpoints (row_provider r) = row_endpoints r"
  by (cases r) (simp add: new_provider_def)

lemma topology_owned:
  assumes "build_registry TOPOLOGY = Inr reg"
  shows "own \<in> set (owned_endpoints reg) \<longleftrightarrow> (\<exists>r \<in> set TOPOLOGY. \<exists>ep \<in> set (row_endpoints r). own = (row_key r, ep))"
    and "distinct (map own_port (owned_endpoints reg))"
proof -
  from assms have rep: "reg_rep TOPOLOGY reg" and dist: "reg_distinct reg"
    by (simp_all add: build_registry_rep reg_distinct_build)
  have find: "find_provider reg (fst k) (snd k) = Inr p \<longleftrightarrow> (\<exists>r \<in> set TOPOLOGY. row_key r = k \<and> p = row_provider r)" for k p
    using reg_repD(3) [OF rep, of "fst k" "snd k" p] by simp
  show owned: "own \<in> set (owned_endpoints reg) \<longleftrightarrow>
      (\<exists>r \<in> set TOPOLOGY. \<exists>ep \<in> set (row_endpoints r). own = (row_key r, ep))" for own
    using owned_endpoints_find [OF dist, of "fst own" "snd own"]
    by (simp add: find) (metis fst_conv row_provider_endpoints snd_conv surjective_pairing)
  have lead: "by_port reg (own_port own) = Inr own" if "own \<in> set (owned_endpoints reg)" for own
    using that topology_builds assms unfolding owned by force
  have "inj_on own_port (set (owned_endpoints reg))"
  proof (rule inj_onI)
    fix x y assume x: "x \<in> set (owned_endpoints reg)" and y: "y \<in> set (owned_endpoints reg)"
      and same: "own_port x = own_port y"
    have "Inr x = by_port reg (own_port x)" by (rule lead [OF x, symmetric])
    also have "\<dots> = Inr y" unfolding same by (rule lead [OF y])
    finally show "x = y" by (rule Inr_inject)
  qed
  moreover have "distinct (row_endpoints r)" if "r \<in> set TOPOLOGY" for r
  proof -
    have "distinct (row_ports r)" using topology_ports_distinct that by (simp add: distinct_concat_iff)
    then show ?thesis by (simp add: distinct_map)
  qed
  then have "distinct (owned_endpoints reg)"
    unfolding owned_endpoints_def using provider_entries_distinct [OF dist] provider_entries_find [OF dist]
    by (intro distinct_pairs) (auto simp: find row_provider_endpoints)
  ultimately show "distinct (map own_port (owned_endpoints reg))" by (simp add: distinct_map)
qed

lemma default_simulator:
  assumes "build_registry table = Inr reg" and "env_ttl env = None"
  shows "\<exists>s. new_simulator table env default_settings = Inr s \<and> registry_of (sim_control s) = reg
    \<and> port_gates (sim_control s) = [] \<and> map plain_port (plain_servers s) = [CONTROL_PORT, 19102, RESP_CONTROL_PORT]"
proof -
  have "py_int (VStr ''900'') = Inr 900" by code_simp
  with assms show ?thesis
    by (simp add: new_simulator_def default_settings_def ttl_of_def new_control_def plain_servers_def RESP_PROXY_PORTS_def
        register_stores_def resp_register_def new_resp_control_def add_proxy_def Let_def)
qed

lemma topology_starts:
  assumes reg: "build_registry TOPOLOGY = Inr reg" and ttl: "env_ttl env = None"
    and free: "\<forall>r \<in> set TOPOLOGY. \<forall>prt \<in> set (row_ports r). free prt"
    and services: "free 19000" "free 19101" "free 19102"
  shows "\<exists>s0 s. new_simulator TOPOLOGY env default_settings = Inr s0 \<and> start grpcio free s0 = Inr s
    \<and> port_gates (sim_control s) = foldl add_gate [] (gated grpcio (owned_endpoints reg))"
proof -
  obtain s0 where s0: "new_simulator TOPOLOGY env default_settings = Inr s0" "registry_of (sim_control s0) = reg"
      "port_gates (sim_control s0) = []" "map plain_port (plain_servers s0) = [CONTROL_PORT, 19102, RESP_CONTROL_PORT]"
    using default_simulator [OF reg ttl] by (elim exE conjE) (rule that)
  let ?os = "owned_endpoints reg"
  note owned = topology_owned [OF reg]
  have below: "own_port own < CONTROL_PORT" if "own \<in> set ?os" for own
    using that topology_below_services unfolding owned(1) by (auto simp: list_all_iff)
  have dist: "distinct (map own_port (wired ?os))" using owned(2) by (rule distinct_map_filter)
  have good: "\<forall>own \<in> set (wired ?os). adapter_of own \<noteq> None \<and> free (own_port own)"
    using topology_adapters free owned(1) by (fastforce simp: list_all_iff adapter_of_def is_grpc_def)
  let ?l = "\<lparr>la_gates = port_gates (sim_control s0), la_bound = [], la_loops = [], la_grpc = []\<rparr>"
  obtain l where l: "start_endpoints free ?os ?l = Inr l" using start_endpoints_accepts [OF good, of ?l] dist by auto
  have bound: "la_bound l = map own_port (wired ?os)" using start_endpoints_result [OF l] by simp
  have "bind_all free (map plain_port (plain_servers s0)) (la_bound l) = Inr (la_bound l @ map plain_port (plain_servers s0))"
  proof (rule bind_all_accepts)
    show "\<forall>prt \<in> set (map plain_port (plain_servers s0)). free prt"
      using services by (simp add: s0(4) CONTROL_PORT_def RESP_CONTROL_PORT_def)
    show "distinct (la_bound l @ map plain_port (plain_servers s0))"
      using dist by (auto simp: s0(4) bound CONTROL_PORT_def RESP_CONTROL_PORT_def dest!: below)
  qed
  then obtain s where s: "start grpcio free s0 = Inr s" using l by (simp add: start_def s0(2) Let_def)
  have gates: "port_gates (sim_control s) = foldl add_gate [] (gated grpcio ?os)"
    using start_result(1) [OF s s0(3)] by (simp add: s0(2))
  from s0(1) s gates show ?thesis by (intro exI conjI)
qed

text \<open>C31. The shipped simulator starts: with the default settings and no port of it taken, \<open>start\<close> binds every port of the
  table and of the services, and each endpoint of the table has its own gate, a gRPC endpoint when \<open>grpcio\<close> is
  there.\<close>

theorem shipped_simulator_starts:
  assumes "env_ttl env = None" and "\<forall>r \<in> set TOPOLOGY. \<forall>prt \<in> set (row_ports r). free prt"
    and "free 19000" "free 19101" "free 19102"
  shows "\<exists>s0 s. new_simulator TOPOLOGY env default_settings = Inr s0 \<and> start grpcio free s0 = Inr s
    \<and> (\<forall>r \<in> set TOPOLOGY. \<forall>ep \<in> set (row_endpoints r).
         map_of (port_gates (sim_control s)) (port ep) =
           (if interface ep = ''grpc'' \<and> \<not> grpcio then None else Some ((row_key r, ep), new_gate)))"
proof -
  obtain reg where reg: "build_registry TOPOLOGY = Inr reg" using topology_builds by blast
  from topology_starts [OF this assms, of grpcio] obtain s0 s where
      s: "new_simulator TOPOLOGY env default_settings = Inr s0" "start grpcio free s0 = Inr s"
    and gates: "port_gates (sim_control s) = foldl add_gate [] (gated grpcio (owned_endpoints reg))"
    by (elim exE conjE) (rule that)
  have "map_of (port_gates (sim_control s)) (port ep) =
      (if interface ep = ''grpc'' \<and> \<not> grpcio then None else Some ((row_key r, ep), new_gate))"
    if "r \<in> set TOPOLOGY" "ep \<in> set (row_endpoints r)" for r ep
  proof -
    have "(row_key r, ep) \<in> set (owned_endpoints reg)" using that topology_owned(1) [OF reg] by blast
    from gates_unique [OF topology_owned(2) [OF reg] this] show ?thesis by (simp add: gates is_grpc_def)
  qed
  with s show ?thesis by (intro exI conjI ballI)
qed

theorem shipped_simulator_starts_witness:
  "\<exists>s0 s. new_simulator TOPOLOGY \<lparr>env_ttl = None, env_store = (''resp-cache'', 6379), env_credentials = no_credentials\<rparr>
       default_settings = Inr s0 \<and> start False (\<lambda>prt. True) s0 = Inr s
     \<and> map_of (port_gates (sim_control s)) 18545
         = Some (((''eth-sim'', ''1''), \<lparr>interface = ''jsonrpc'', transport = ''http'', port = 18545\<rparr>), new_gate)"
proof -
  let ?env = "\<lparr>env_ttl = None, env_store = (''resp-cache'', 6379), env_credentials = no_credentials\<rparr>"
  let ?ep = "\<lparr>interface = ''jsonrpc'', transport = ''http'', port = 18545\<rparr>"
  have "\<exists>s0 s. new_simulator TOPOLOGY ?env default_settings = Inr s0 \<and> start False (\<lambda>prt. True) s0 = Inr s
    \<and> (\<forall>r \<in> set TOPOLOGY. \<forall>ep \<in> set (row_endpoints r). map_of (port_gates (sim_control s)) (port ep) =
       (if interface ep = ''grpc'' \<and> \<not> False then None else Some ((row_key r, ep), new_gate)))"
    by (rule shipped_simulator_starts) simp_all
  then obtain s0 s where s: "new_simulator TOPOLOGY ?env default_settings = Inr s0" "start False (\<lambda>prt. True) s0 = Inr s"
    and g: "\<forall>r \<in> set TOPOLOGY. \<forall>ep \<in> set (row_endpoints r). map_of (port_gates (sim_control s)) (port ep) =
       (if interface ep = ''grpc'' \<and> \<not> False then None else Some ((row_key r, ep), new_gate))"
    by (elim exE conjE) (rule that)
  have "list_ex (\<lambda>r. row_key r = (''eth-sim'', ''1'') \<and> ?ep \<in> set (row_endpoints r)) TOPOLOGY" by code_simp
  then obtain r where "r \<in> set TOPOLOGY" "row_key r = (''eth-sim'', ''1'')" "?ep \<in> set (row_endpoints r)"
    by (auto simp: list_ex_iff)
  then have "map_of (port_gates (sim_control s)) (port ?ep) = Some (((''eth-sim'', ''1''), ?ep), new_gate)"
    using g [rule_format, of r ?ep] by simp
  with s show ?thesis by (intro exI [of _ s0] exI [of _ s]) simp
qed

theorem started_simulator_is_wired_witness:
  "\<exists>s0 s. new_simulator TOPOLOGY \<lparr>env_ttl = None, env_store = (''resp-cache'', 6379), env_credentials = no_credentials\<rparr>
       default_settings = Inr s0 \<and> start True (\<lambda>prt. prt > 1024) s0 = Inr s \<and> control_ok (sim_control s)"
proof -
  let ?env = "\<lparr>env_ttl = None, env_store = (''resp-cache'', 6379), env_credentials = no_credentials\<rparr>"
  obtain reg where reg: "build_registry TOPOLOGY = Inr reg" using topology_builds by blast
  have "list_all (\<lambda>r. list_all (\<lambda>prt. prt > 1024) (row_ports r)) TOPOLOGY" by code_simp
  then have "\<exists>s0 s. new_simulator TOPOLOGY ?env default_settings = Inr s0 \<and> start True (\<lambda>prt. prt > 1024) s0 = Inr s
      \<and> port_gates (sim_control s) = foldl add_gate [] (gated True (owned_endpoints reg))"
    by (intro topology_starts [OF reg]) (simp_all add: list_all_iff)
  then obtain s0 s where s: "new_simulator TOPOLOGY ?env default_settings = Inr s0" "start True (\<lambda>prt. prt > 1024) s0 = Inr s"
    by (elim exE conjE) (rule that)
  have "control_ok (sim_control s)" using started_simulator_is_wired [OF s] by (rule conjunct1)
  with s show ?thesis by (intro exI [of _ s0] exI [of _ s] conjI)
qed

section \<open>stop\<close>

text \<open>After \<open>stop\<close> no pass opens a port, and the servers that were there are closed.\<close>

lemma stopped_stays_closed:
  assumes "t \<in> set (sim_loops (snd (stop s)))"
  shows "owned (snd (loop_run ops (pt_loop t))) = None"
  using assms stop_is_final by (auto simp: stop_def)

section \<open>The wait for the ports\<close>

text \<open>When the wait ends well, each awaited port was seen open, or a scenario closed it, in some round.\<close>

lemma wait_rounds_ready:
  "wait_rounds h rs ps = Some PortsReady \<Longrightarrow> prt \<in> set ps \<Longrightarrow>
     \<exists>r \<in> set rs. wr_accepts r h prt \<or> (\<exists>cs. wr_closed r = Inr cs \<and> prt \<in> set cs)"
proof (induction h rs ps rule: wait_rounds.induct)
  case (3 h r rs q ps)
  from "3.prems"(1) obtain cs where cs: "wr_closed r = Inr cs" by (cases "wr_closed r") auto
  let ?left = "filter (\<lambda>x. x \<notin> set cs \<and> \<not> wr_accepts r h x) (q # ps)"
  from "3.prems"(1) cs have go: "wait_rounds h rs ?left = Some PortsReady \<and> \<not> (?left \<noteq> [] \<and> wr_late r)"
    by (simp only: wait_rounds.simps(3) sum.case Let_def wait_end.distinct option.inject simp_thms split: if_splits)
  show ?case
  proof (cases "prt \<in> set ?left")
    case True
    from "3.IH" [OF cs refl go [THEN conjunct2] go [THEN conjunct1] True] show ?thesis by auto
  next
    case False
    then have "prt \<in> set cs \<or> wr_accepts r h prt" using "3.prems"(2) unfolding set_filter by blast
    with cs show ?thesis by auto
  qed
qed auto

text \<open>A round that is not too late and in which every port answers ends the wait.\<close>

lemma wait_rounds_ends:
  assumes "\<forall>x \<in> set rs. \<not> wr_late x \<and> (\<exists>cs. wr_closed x = Inr cs)" and "r \<in> set rs" and "\<forall>prt \<in> set ps. wr_accepts r h prt"
  shows "wait_rounds h rs ps = Some PortsReady"
  using assms by (induction h rs ps rule: wait_rounds.induct) (auto simp: Let_def)

lemma wait_for_ports_ready:
  assumes "wait_for_ports rs s = Some PortsReady"
    and "prt \<in> set (registry_ports (registry_of (sim_control s))) \<union> set (sim_extra_ports s)"
  shows "\<exists>r \<in> set rs. wr_accepts r (probe_host (st_host (sim_settings s))) prt
    \<or> (\<exists>cs. wr_closed r = Inr cs \<and> prt \<in> set cs)"
  using assms(1) unfolding wait_for_ports_def by (rule wait_rounds_ready) (use assms(2) in simp)

end
