(* ===== verification/Running.thy ===== *)
theory Running
  imports BootFacts ControlResets
begin

text \<open>
  A simulator at work: what \<open>start\<close> left, under every sequence of requests to the control port, passes of the sweep, requests
  to the providers and events of the WebSocket connections.

  A request to a provider is two steps, its arrival and the rest of the flow, so that control writes come between them; the
  interface is any that meets the contract of the flow. What happens to the connections besides is any change of
  their world.
\<close>

section \<open>What json.loads gives\<close>

lemma parse_number_value: "parse_number s = Some (v, r) \<Longrightarrow> json_value v"
  by (auto simp: parse_number_def Let_def split: prod.splits if_splits)

lemma parse_literal_value: "parse_literal s = Some (v, r) \<Longrightarrow> json_value v"
  by (auto simp: parse_literal_def parse_number_value split: if_splits)

definition json_members :: "(pyval \<times> pyval) list \<Rightarrow> bool" where
  "json_members kvs \<longleftrightarrow> list_all (\<lambda>(k, v). is_str k \<and> json_value v) kvs"

lemma pd_put_members: "json_value (VDict kvs) \<Longrightarrow> is_str k \<Longrightarrow> json_value v \<Longrightarrow> json_value (VDict (pd_put k v kvs))"
proof -
  have keys: "set (map fst (pd_put k v kvs)) \<subseteq> insert k (set (map fst kvs))" for k v kvs
    by (induction k v kvs rule: pd_put.induct) auto
  assume "json_value (VDict kvs)" "is_str k" "json_value v"
  then show ?thesis
  proof (induction k v kvs rule: pd_put.induct)
    case (2 k v k' v' kvs)
    have eq: "py_eq k k' \<longleftrightarrow> k = k'" using "2.prems" by (cases k; cases k') auto
    have "k' \<notin> set (map fst (pd_put k v kvs))" if "k \<noteq> k'" using keys [of k v kvs] that "2.prems"(1) by auto
    with 2 eq show ?case by (auto simp: list_all_iff)
  qed simp
qed

lemma foldl_members:
  "json_members kvs \<Longrightarrow> json_value (VDict acc) \<Longrightarrow> json_value (VDict (foldl (\<lambda>acc (k, v). pd_put k v acc) acc kvs))"
proof (induction kvs arbitrary: acc)
  case (Cons kv kvs)
  obtain k v where "kv = (k, v)" by (cases kv)
  moreover from this Cons.prems have "json_value (VDict (pd_put k v acc))"
    by (intro pd_put_members) (simp_all add: json_members_def)
  ultimately show ?case using Cons by (simp add: json_members_def)
qed simp

text \<open>One call of each of the three readers, when the calls below it give values of JSON.\<close>

lemma parse_value_step:
  assumes "parse_value (Suc n) s = Some (v, r)"
    and items: "\<And>s vs r. parse_items n s = Some (vs, r) \<Longrightarrow> list_all json_value vs"
    and members: "\<And>s kvs r. parse_members n s = Some (kvs, r) \<Longrightarrow> json_members kvs"
  shows "json_value v"
proof -
  from assms(1) obtain c cs where s: "s = c # cs" by (cases s) (auto simp: parse_value.simps(2))
  note run = assms(1) [unfolded s parse_value.simps(2)]
  show ?thesis
  proof (cases "c = CHR 0x22 \<or> c \<notin> {CHR ''['', CHR ''{''}")
    case True
    with run show ?thesis by (auto simp: parse_literal_value split: if_splits)
  next
    case False
    with run obtain d ds where ds: "skip_ws cs = d # ds"
      by (cases "skip_ws cs") (auto simp del: dropWhile_eq_Nil_conv split: if_splits)
    have "v = VDict [] \<or> (\<exists>vs. v = VList vs \<and> list_all json_value vs)
        \<or> (\<exists>kvs. v = VDict (foldl (\<lambda>acc (k, v). pd_put k v acc) [] kvs) \<and> json_members kvs)"
      using run False ds items members by (auto split: if_splits)
    moreover have "json_value (VDict (foldl (\<lambda>acc (k, v). pd_put k v acc) [] kvs))" if "json_members kvs" for kvs
      using that by (rule foldl_members) simp
    ultimately show ?thesis by auto
  qed
qed

lemma parse_items_step:
  assumes "parse_items (Suc n) s = Some (vs, r)"
    and one: "\<And>s v r. parse_value n s = Some (v, r) \<Longrightarrow> json_value v"
    and items: "\<And>s vs r. parse_items n s = Some (vs, r) \<Longrightarrow> list_all json_value vs"
  shows "list_all json_value vs"
proof -
  note run = assms(1) [unfolded parse_items.simps(2)]
  from run obtain v r1 where v: "parse_value n s = Some (v, r1)" by (auto split: option.splits)
  from run v obtain d ds where "skip_ws r1 = d # ds"
    by (cases "skip_ws r1") (auto simp del: dropWhile_eq_Nil_conv)
  with run v show ?thesis using one [OF v] by (auto split: if_splits dest: items)
qed

lemma parse_members_step:
  assumes "parse_members (Suc n) s = Some (kvs, r)"
    and one: "\<And>s v r. parse_value n s = Some (v, r) \<Longrightarrow> json_value v"
    and members: "\<And>s kvs r. parse_members n s = Some (kvs, r) \<Longrightarrow> json_members kvs"
  shows "json_members kvs"
proof -
  note run = assms(1) [unfolded parse_members.simps(2)]
  from run obtain q qs where s: "s = q # qs" "q = CHR 0x22" by (cases s) (auto split: if_splits)
  with run obtain k r1 where k: "parse_str qs = Some (k, r1)" by (auto split: option.splits)
  with run s obtain d ds where ds: "skip_ws r1 = d # ds" "d = CHR '':''"
    by (cases "skip_ws r1") (auto simp del: dropWhile_eq_Nil_conv split: if_splits)
  with run s k obtain v r2 where v: "parse_value n (skip_ws ds) = Some (v, r2)" by (auto split: option.splits)
  with run s k ds obtain e es where "skip_ws r2 = e # es"
    by (cases "skip_ws r2") (auto simp del: dropWhile_eq_Nil_conv)
  with run s k ds v show ?thesis
    using one [OF v] by (auto simp: json_members_def [of "_ # _"] json_members_def [of "[]"] split: if_splits dest: members [unfolded json_members_def])
qed

lemma parse_json:
  "(\<forall>s v r. parse_value n s = Some (v, r) \<longrightarrow> json_value v) \<and> (\<forall>s vs r. parse_items n s = Some (vs, r) \<longrightarrow> list_all json_value vs)
   \<and> (\<forall>s kvs r. parse_members n s = Some (kvs, r) \<longrightarrow> json_members kvs)"
proof (induction n)
  case 0
  show ?case by (simp add: parse_value.simps(1) parse_items.simps(1) parse_members.simps(1))
next
  case (Suc n)
  then have one: "parse_value n s = Some (v, r) \<Longrightarrow> json_value v" and items: "parse_items n s = Some (vs, r) \<Longrightarrow> list_all json_value vs"
    and members: "parse_members n s = Some (kvs, r) \<Longrightarrow> json_members kvs" for s v r vs kvs by blast+
  show ?case
    by (intro conjI allI impI; erule parse_value_step parse_items_step parse_members_step; fact one items members)
qed

lemma json_loads_value: "json_loads s = Some v \<Longrightarrow> json_value v"
  using parse_json [of "Suc (length s)"] by (fastforce simp: json_loads_def split: option.splits if_splits)

lemma post_body_value: "post_body hs stream = Inr v \<Longrightarrow> json_value v"
  by (auto simp: post_body_def json_loads_value split: sum.splits option.splits if_splits)

section \<open>The steps\<close>

abbreviation provider_at :: "control \<Rightarrow> provider_id \<Rightarrow> pyerr + provider" where
  "provider_at c k \<equiv> find_provider (registry_of c) (fst k) (snd k)"

definition put_at :: "provider_id \<Rightarrow> provider \<Rightarrow> control \<Rightarrow> control" where
  "put_at k p c = c\<lparr>registry_of := put_provider k p (registry_of c)\<rparr>"

inductive run_step :: "control \<times> ws_world \<Rightarrow> control \<times> ws_world \<Rightarrow> bool" where
  ControlPost: "control_do_POST out hs stream path s = (a, s') \<Longrightarrow> run_step s s'"
| Sweep: "revert_stale_scenarios waits ttl_s now c = (e, c') \<Longrightarrow> run_step (c, w) (c', w)"
| Arrival: "provider_at c k = Inr p \<Longrightarrow> distinct (dict_keys hs) \<Longrightarrow> arrive t ep hs deadline p = (j, p') \<Longrightarrow>
    run_step (c, w) (put_at k p' c, w)"
| RestOfRequest: "listener_contract (H :: listener_env hooks) \<Longrightarrow> provider_at c k = Inr p \<Longrightarrow> j < length (rows (p_log p)) \<Longrightarrow>
    serve_entry sha rnd H t ep req j p e = (r, p', e') \<Longrightarrow> run_step (c, w) (put_at k p' c, w)"
| RestOfFrame: "listener_contract (W :: ws_world hooks) \<Longrightarrow> provider_at c k = Inr p \<Longrightarrow> j < length (rows (p_log p)) \<Longrightarrow>
    serve_entry sha rnd W t ep req j p w = (r, p', w') \<Longrightarrow> run_step (c, w) (put_at k p' c, w')"
| GrpcEvent: "provider_at c k = Inr p \<Longrightarrow> run_step (c, w) (put_at k (note_event j ev p) c, w)"
| Connections: "run_step (c, w) (c, w')"

inductive run_reach :: "control \<times> ws_world \<Rightarrow> control \<times> ws_world \<Rightarrow> bool" where
  run_refl: "run_reach s s"
| run_more: "run_reach s t \<Longrightarrow> run_step t u \<Longrightarrow> run_reach s u"

section \<open>What every step keeps\<close>

text \<open>The control state is well formed, each gate is still there with its owner, and each provider still has its
  endpoints and a log that its operations can produce.\<close>

definition gate_owner :: "control \<Rightarrow> int \<Rightarrow> owned option" where
  "gate_owner c prt = map_option fst (map_of (port_gates c) prt)"

definition log_ok :: "provider \<Rightarrow> bool" where
  "log_ok p \<longleftrightarrow> (\<exists>is. log_reach HISTORY_MAX is (p_log p))"

definition run_ok :: "control \<Rightarrow> control \<Rightarrow> bool" where
  "run_ok c0 c \<longleftrightarrow> control_ok c \<and> gate_owner c = gate_owner c0
     \<and> (\<forall>k p0. provider_at c0 k = Inr p0 \<longrightarrow> (\<exists>p. provider_at c k = Inr p \<and> endpoints p = endpoints p0 \<and> log_ok p))"

text \<open>A change that keeps all of it, from one state to the next.\<close>

definition keeps :: "control \<Rightarrow> control \<Rightarrow> bool" where
  "keeps c c' \<longleftrightarrow> control_ok c' \<and> gate_owner c' = gate_owner c
     \<and> (\<forall>k p. provider_at c k = Inr p \<longrightarrow> (\<exists>p'. provider_at c' k = Inr p' \<and> endpoints p' = endpoints p \<and> (log_ok p \<longrightarrow> log_ok p')))"

lemma run_ok_keeps: "run_ok c0 c \<Longrightarrow> keeps c c' \<Longrightarrow> run_ok c0 c'"
  unfolding run_ok_def keeps_def by metis

lemma keeps_refl: "control_ok c \<Longrightarrow> keeps c c"
  by (simp add: keeps_def)

lemma keeps_other:
  "control_ok c \<Longrightarrow> registry_of c' = registry_of c \<Longrightarrow> port_gates c' = port_gates c \<Longrightarrow> keeps c c'"
  by (simp add: keeps_def control_ok_def gate_owner_def [abs_def])

lemma keeps_put:
  assumes "control_ok c" and "provider_at c k = Inr p" and "provider_ok p \<Longrightarrow> provider_ok p'"
    and "endpoints p' = endpoints p" and "log_ok p \<Longrightarrow> log_ok p'"
  shows "keeps c (put_at k p' c)"
proof -
  from assms(1,2) have "provider_ok p" by (auto simp: control_ok_def reg_ok_def)
  with assms(1,3) have "control_ok (put_at k p' c)"
    by (simp add: control_ok_def put_at_def reg_ok_put gates_ok_put)
  then show ?thesis
    using assms(2,4,5) find_put_provider [OF assms(2), of p']
    by (auto simp: keeps_def gate_owner_def [abs_def] put_at_def)
qed

lemma settle_owner: "map_option fst (map_of (snd (settle_ports waits ws gs)) prt) = map_option fst (map_of gs prt)"
proof -
  have "snd (settle_ports waits ws gs) = snd (ask_gates gs ws)" by (simp add: settle_ports_def split: prod.split)
  then show ?thesis by (simp add: ask_gates_owner)
qed

lemma settle_owners:
  "settle_ports waits ws gs = (stuck, gs') \<Longrightarrow> (\<lambda>prt. map_option fst (map_of gs' prt)) = (\<lambda>prt. map_option fst (map_of gs prt))"
  using settle_owner [of waits ws gs] by simp

lemma keeps_map:
  assumes "control_ok c" and "\<And>k p. provider_ok p \<Longrightarrow> provider_ok (f k p)"
    and "\<And>k p. endpoints (f k p) = endpoints p \<and> (log_ok p \<longrightarrow> log_ok (f k p))"
    and "registry_of c' = map_providers f (registry_of c)"
    and "port_gates c' = port_gates c \<or> (\<exists>waits ws. port_gates c' = snd (settle_ports waits ws (port_gates c)))"
  shows "keeps c c'"
proof -
  let ?reg = "map_providers f (registry_of c)"
  from assms(1) have ok: "reg_ok ?reg" "gates_ok (port_gates c) ?reg"
    by (auto simp: control_ok_def intro: reg_ok_map_providers assms(2) gates_ok_map_providers)
  have own: "gate_owner c' = gate_owner c"
    using assms(5) by (auto simp: gate_owner_def fun_eq_iff settle_owner)
  have "control_ok c'" using ok assms(4,5) gates_ok_settle by (auto simp: control_ok_def)
  with own assms(3) show ?thesis by (auto simp: keeps_def assms(4) find_map_providers)
qed

section \<open>The control writes\<close>

lemma keeps_scenario:
  assumes "control_ok c" and "json_value body"
  shows "keeps c (snd (apply_scenario now waits body c))"
proof -
  obtain r c' where run: "apply_scenario now waits body c = (r, c')" by fastforce
  have "c' = c \<or> scenario_applied now body c c'"
    using apply_scenario_cases [OF assms, of now waits] run by (auto split: sum.splits stop.splits prod.splits)
  moreover have "gate_owner c' = gate_owner c"
    using run unfolding apply_scenario_def gate_owner_def [abs_def]
    by (auto split: if_splits sum.splits prod.splits dest: settle_owners)
  moreover have "keeps c c'" if "scenario_applied now body c c'" "gate_owner c' = gate_owner c"
    unfolding keeps_def
  proof (intro conjI allI impI)
    fix k p assume "provider_at c k = Inr p"
    with that(1) obtain p' where p': "provider_at c' k = Inr p'" and "p' = p \<or> (\<exists>su qu. block_written now su qu p p')"
      unfolding scenario_applied_def by (force split: option.splits)
    moreover have "endpoints p' = endpoints p \<and> (log_ok p \<longrightarrow> log_ok p')" if "block_written now su qu p p'" for su qu
      using that unfolding block_written_def log_ok_def by (metis (no_types, lifting) provider.ext_inject provider.surjective provider.update_convs)
    ultimately show "\<exists>p'. provider_at c' k = Inr p' \<and> endpoints p' = endpoints p \<and> (log_ok p \<longrightarrow> log_ok p')" by blast
  qed (use that in \<open>simp_all add: scenario_applied_def\<close>)
  ultimately show ?thesis using run assms(1) by (auto intro: keeps_refl)
qed

lemma reset_provider_keeps:
  "endpoints (reset_provider scen hist p) = endpoints p \<and> (log_ok p \<longrightarrow> log_ok (reset_provider scen hist p))"
  by (auto simp: reset_provider_def Let_def forget_executed_def reset_fail_def log_ok_def intro: reach_clear)

lemma keeps_reset: "control_ok c \<Longrightarrow> keeps c (snd (perform_reset waits pool scen hist status c))"
proof (cases "scope pool c")
  case (Inl st)
  assume "control_ok c"
  with Inl show ?thesis by (simp add: perform_reset_def keeps_refl)
next
  case (Inr ic)
  obtain ids chs where ic: "ic = (ids, chs)" by (cases ic)
  let ?f = "\<lambda>k p. if k \<in> set ids then reset_provider scen hist p else p"
  let ?c = "snd (perform_reset waits pool scen hist status c)"
  assume ok: "control_ok c"
  have "registry_of ?c = map_providers ?f (registry_of c)"
    by (auto simp: perform_reset_def Inr ic Let_def split: sum.split prod.split)
  moreover have "port_gates ?c = port_gates c \<or> (\<exists>waits ws. port_gates ?c = snd (settle_ports waits ws (port_gates c)))"
    by (auto simp: perform_reset_def Inr ic Let_def split: sum.split prod.split) (metis snd_conv)+
  ultimately show ?thesis
    using ok reset_provider_ok(1) reset_provider_keeps by (intro keeps_map [of c ?f]) auto
qed

lemma keeps_sweep: "control_ok c \<Longrightarrow> keeps c (snd (revert_stale_scenarios waits ttl_s now c))"
proof -
  let ?f = "\<lambda>(k :: provider_id) p. if stale ttl_s now p then revert_scenario p else p"
  let ?c = "snd (revert_stale_scenarios waits ttl_s now c)"
  assume ok: "control_ok c"
  have "registry_of ?c = map_providers ?f (registry_of c)"
    by (auto simp: revert_stale_scenarios_def Let_def split: sum.split)
  moreover have "port_gates ?c = port_gates c \<or> (\<exists>waits ws. port_gates ?c = snd (settle_ports waits ws (port_gates c)))"
    by (auto simp: revert_stale_scenarios_def Let_def split: sum.split)
  ultimately show ?thesis
    using ok revert_scenario_ok(1) by (intro keeps_map [of c ?f]) (auto simp: revert_scenario_def log_ok_def)
qed

lemma advance_other:
  "registry_of (snd (advance now body c)) = registry_of c \<and> port_gates (snd (advance now body c)) = port_gates c"
  by (auto simp: advance_def Let_def split: pyval.split option.split sum.split prod.split)

lemma cache_other:
  "registry_of (snd (dispatch_cache_post out path body c)) = registry_of c
   \<and> port_gates (snd (dispatch_cache_post out path body c)) = port_gates c"
  by (auto simp: dispatch_cache_post_def cache_stage_def cache_reset_def cache_clear_calls_def cache_route_def
      cache_selftest_write_def put_cache_def Let_def split: prod.split option.split sum.split probe.split)

lemma push_row_log: "\<exists>m iface prt rid. push_row now sub p = p\<lparr>p_log := snd (push now m ''success'' (VInt 0) iface ''ws'' prt rid [] [] (p_log p))\<rparr>"
  unfolding push_row_def Let_def by blast

lemma push_row_keeps:
  "provider_ok (push_row now sub p) = provider_ok p" "endpoints (push_row now sub p) = endpoints p"
  "log_ok p \<Longrightarrow> log_ok (push_row now sub p)"
proof -
  obtain m iface prt rid where row: "push_row now sub p = p\<lparr>p_log := snd (push now m ''success'' (VInt 0) iface ''ws'' prt rid [] [] (p_log p))\<rparr>"
    using push_row_log by blast
  obtain i L where run: "push now m ''success'' (VInt 0) iface ''ws'' prt rid [] [] (p_log p) = (i, L)" by fastforce
  show "log_ok p \<Longrightarrow> log_ok (push_row now sub p)"
    unfolding log_ok_def row by (auto simp: run dest: reach_push [OF _ _ run])
qed (simp_all add: push_row_def Let_def provider_ok_def)

lemma keeps_emit:
  assumes "control_ok c"
  shows "keeps c (c\<lparr>registry_of := fst (snd (ws_emit fl now body (registry_of c) w))\<rparr>)"
proof -
  have "fst (snd (ws_emit fl now body (registry_of c) w)) = registry_of c
      \<or> (\<exists>k sub p. provider_at c k = Inr p \<and> fst (snd (ws_emit fl now body (registry_of c) w)) = put_provider k (push_row now sub p) (registry_of c))"
    by (auto simp: ws_emit_def emit_def Let_def bind_r_def split: pyval.split option.split sum.split emitted.split)
  then show ?thesis
    using assms keeps_refl [OF assms] keeps_put [OF assms, where p' = "push_row now _ _"] push_row_keeps
    by (auto simp: put_at_def)
qed

lemma keeps_post:
  assumes "control_ok c" and "json_value body"
  shows "keeps c (fst (snd (control_post out path body (c, w))))"
proof -
  note reset = keeps_reset [OF assms(1), of "o_waits out" "vget_or body ''pool'' VNone"]
  have other: "keeps c (snd (advance (o_now out) body c))" "keeps c (snd (dispatch_cache_post out path body c))"
    using assms(1) advance_other cache_other by (auto intro: keeps_other)
  show ?thesis
    using keeps_scenario [OF assms] reset other keeps_emit [OF assms(1), of "o_floats out" "o_now out" body w] keeps_refl [OF assms(1)]
    unfolding control_post_def Let_def reset_def clear_history_def reset_all_def
    by (auto simp: case_prod_beta)
qed

section \<open>The requests\<close>

lemma arrive_keeps:
  assumes "arrive t ep hs deadline p = (j, p')" and "distinct (dict_keys hs)"
  shows "provider_ok p' = provider_ok p" and "endpoints p' = endpoints p" and "log_ok p \<Longrightarrow> log_ok p'"
proof -
  obtain L where run: "record_arrival t (interface ep) (transport ep) (port ep) (filter is_lava_header hs) hs deadline (p_log p) = (j, L)"
    and p': "p' = p\<lparr>p_log := L\<rparr>"
    using assms(1) by (auto simp: arrive_def split: prod.splits)
  show "provider_ok p' = provider_ok p" "endpoints p' = endpoints p" by (simp_all add: p' provider_ok_def)
  show "log_ok p \<Longrightarrow> log_ok p'" unfolding log_ok_def p' by (auto dest: reach_arrival [OF _ assms(2) run])
qed

lemma serve_entry_keeps:
  assumes "listener_contract H" and "serve_entry sha rnd H t ep req j p e = (r, p', e')" and "j < length (rows (p_log p))"
  shows "provider_ok p' = provider_ok p" and "endpoints p' = endpoints p" and "log_ok p \<Longrightarrow> log_ok p'"
proof -
  let ?N = "note_request sha H req j (p_log p)"
  have "\<exists>n ex L. p' = p\<lparr>p_log := L, fail_count := n, executed := ex\<rparr> \<and> (L = ?N \<or> (\<exists>m s lat rid. L = finalize t j m s lat rid ?N))"
    using listener_contract.serve_entry_effect [OF assms(1), where sha = sha and rnd = rnd and t = t and ep = ep and req = req and i = j and p = p and c = e] assms(2)
    by (cases r) (auto, metis+)
  then obtain n ex L where p': "p' = p\<lparr>p_log := L, fail_count := n, executed := ex\<rparr>"
    and L: "L = ?N \<or> (\<exists>m s lat rid. L = finalize t j m s lat rid ?N)" by blast
  show "provider_ok p' = provider_ok p" "endpoints p' = endpoints p" by (simp_all add: p' provider_ok_def)
  assume "log_ok p"
  then obtain "is" where N: "log_reach HISTORY_MAX is ?N" unfolding log_ok_def by (blast intro: reach_note_request)
  have "\<exists>is'. log_reach HISTORY_MAX is' (finalize t j m s lat rid ?N)" for m s lat rid
    by (rule exI, rule reach_finalize [OF N]) (simp add: assms(3))
  with N L show "log_ok p'" unfolding log_ok_def p' by auto
qed

lemma note_event_keeps:
  "provider_ok (note_event j ev p) = provider_ok p" "endpoints (note_event j ev p) = endpoints p"
  "log_ok p \<Longrightarrow> log_ok (note_event j ev p)"
  by (cases ev; auto simp: note_event_def provider_ok_def log_ok_def intro: reach_grpc_status)+

section \<open>Every run\<close>

lemma keeps_step: "run_step s s' \<Longrightarrow> control_ok (fst s) \<Longrightarrow> keeps (fst s) (fst s')"
proof (induction rule: run_step.induct)
  case (ControlPost out hs stream path s a s')
  obtain c w where s: "s = (c, w)" by (cases s)
  show ?case
  proof (cases "post_body hs stream")
    case (Inl st)
    with ControlPost show ?thesis by (simp add: control_do_POST_def keeps_refl)
  next
    case (Inr body)
    have "s' = snd (control_post out path body s)" using ControlPost.hyps Inr by (simp add: control_do_POST_def)
    then show ?thesis
      using keeps_post [OF ControlPost.prems post_body_value [OF Inr], of out path w] by (simp add: s)
  qed
next
  case (Sweep waits ttl_s now c e c' w)
  then show ?case using keeps_sweep [of c waits ttl_s now] by simp
next
  case (Arrival c k p hs t ep deadline j p' w)
  then show ?case using arrive_keeps [OF Arrival.hyps(3,2)] by (auto intro!: keeps_put)
next
  case (RestOfRequest H c k p j sha rnd t ep req e r p' e' w)
  then show ?case using serve_entry_keeps [OF RestOfRequest.hyps(1,4,3)] by (auto intro!: keeps_put)
next
  case (RestOfFrame W c k p j sha rnd t ep req w r p' w')
  then show ?case using serve_entry_keeps [OF RestOfFrame.hyps(1,4,3)] by (auto intro!: keeps_put)
next
  case (GrpcEvent c k p w j ev)
  then show ?case using note_event_keeps by (auto intro!: keeps_put)
next
  case (Connections c w w')
  then show ?case by (simp add: keeps_refl)
qed

lemma run_ok_reach: "run_reach s t \<Longrightarrow> run_ok c0 (fst s) \<Longrightarrow> run_ok c0 (fst t)"
proof (induction rule: run_reach.induct)
  case (run_more s t u)
  then have "run_ok c0 (fst t)" by simp
  moreover from this keeps_step [OF run_more.hyps(2)] have "keeps (fst t) (fst u)" by (simp add: run_ok_def)
  ultimately show ?case by (rule run_ok_keeps)
qed

text \<open>Each provider of a simulator that has just started has an empty log.\<close>

lemma start_registry: "start grpcio free s0 = Inr s \<Longrightarrow> registry_of (sim_control s) = registry_of (sim_control s0)"
  by (auto simp: start_def bind_r_def Let_def split: sum.splits)

lemma started_run_ok:
  assumes "new_simulator table env st = Inr s0" and "start grpcio free s0 = Inr s"
  shows "run_ok (sim_control s) (sim_control s)"
proof -
  obtain reg where reg: "build_registry table = Inr reg" "registry_of (sim_control s0) = reg"
    using new_simulator_parts(1) [OF assms(1)] by blast
  have "log_ok p" if "find_provider reg pl i = Inr p" for pl i p
  proof -
    from that reg_repD(3) [OF build_registry_rep [OF reg(1), THEN conjunct2]] obtain r where "p = row_provider r" by blast
    then show ?thesis by (cases r) (auto simp: new_provider_def log_ok_def intro: reach_new)
  qed
  then show ?thesis using started_control_ok [OF assms] start_registry [OF assms(2)] reg(2) by (simp add: run_ok_def)
qed

text \<open>What a reachable log tells: the counters of the statuses sum up to the calls, and the ring is bounded.\<close>

lemma log_ok_counts:
  assumes "log_ok p"
  shows "sum_list (map snd (calls_by_status (p_log p))) = total_calls (p_log p)" and "length (history (p_log p)) \<le> HISTORY_MAX"
proof -
  from assms obtain "is" where "log_reach HISTORY_MAX is (p_log p)" by (auto simp: log_ok_def)
  then have rep: "log_rep is (p_log p)" and hmax: "history_max (p_log p) = HISTORY_MAX" using log_reach_rep by blast+
  note facts = log_repD(1,4,5,6) [OF rep]
  from facts(4) have "sum_list (map snd (calls_by_status (p_log p))) = int (length is)" by (rule sum_status_counts)
  then show "sum_list (map snd (calls_by_status (p_log p))) = total_calls (p_log p)" using facts by simp
  show "length (history (p_log p)) \<le> HISTORY_MAX" using facts hmax by simp
qed

end
