(* ===== verification/Spec2Isabelle.thy ===== *)
theory Spec2Isabelle
  imports Registry Interfaces PortGate Wire ChainFacts LavaChain ControlResets WsFacts RespFacts SuiFacts HttpFacts GrpcFacts ReadFacts RespControl Running
begin

text \<open>
  The provider simulator: a Python process that stands in for the nodes of several block chains. Pools of providers
  listen on ports of their own and answer JSON-RPC, REST, Tendermint RPC, GraphQL, gRPC and WebSocket requests with the
  replies of a chain, or with the faults that a test asks for over a control port. Beside them stand
  simulated caches and a proxy in front of a RESP store.

  \<^bold>\<open>How the parts interact.\<close> A request arrives at a port of a provider. The adapter of the transport reads it and hands it to
  the listener of the interface. The one flow of \<open>listeners/base.py\<close> writes a history row, reads the scenario of
  the provider, asks the fault policy which mode the request meets, takes the content from the chain, and
  gives back a plan that the adapter performs on the socket. The control port writes scenarios, resets, moves heads,
  stages caches and reads the telemetry. A scenario can close a port: the loop of the port reads the wish, closes or binds the
  socket, and reports to a gate at which control writes wait.

  \<^bold>\<open>The theories.\<close> File names are under \<open>src/provider_simulator\<close> unless a path is given. A theory whose name ends in
  \<open>Facts\<close> holds theorems about the definitions of the theories it imports.

  \<^item> \<open>Prelude\<close>, \<open>PyValue\<close>, \<open>Doubles\<close>, \<open>Json\<close>, \<open>Sockets\<close>: results of fallible code, insertion-ordered dicts, text, the Python values with
    truth, equality, hashing and \<open>int()\<close>, the arithmetic of floats with its rounding and overflow, \<open>json.dumps\<close> and \<open>json.loads\<close>, and reads from a socket that cuts the bytes freely.
  \<^item> \<open>Config\<close>, \<open>Scenario\<close>, \<open>Quirks\<close>: \<open>domain/introspective_config.py\<close>, \<open>domain/scenario.py\<close>, \<open>domain/endpoint.py\<close> and
    \<open>domain/quirks.py\<close>. A configuration is a dict of declared fields; an update is checked as a whole before it is merged.
  \<^item> \<open>CallLog\<close>, \<open>Provider\<close>, \<open>Registry\<close>, \<open>Topology\<close>: \<open>domain/call_log.py\<close>, \<open>domain/provider.py\<close>,
    \<open>domain/registry.py\<close> and the table of \<open>topology.py\<close>. Rows are objects that callers share, so a log is a store of rows, and
    the ring buffer holds references. A registry that builds is related to the list of its rows.
  \<^item> \<open>FaultPolicy\<close>, \<open>Listener\<close>, \<open>Interfaces\<close>, \<open>Wire\<close>: \<open>fault_policy.py\<close>, \<open>listeners/base.py\<close>, \<open>listeners/jsonrpc.py\<close>,
    \<open>listeners/rest.py\<close>, \<open>listeners/tendermint.py\<close>, \<open>listeners/wire.py\<close>. The abstract methods of the base class are a record of hooks.
  \<^item> \<open>Head\<close>, \<open>Stubs\<close>, \<open>Chains\<close>, \<open>LavaStubs\<close>, \<open>LavaChain\<close>, \<open>SuiDigest\<close>, \<open>SuiChain\<close>, \<open>ChainFacts\<close>, \<open>SuiFacts\<close>: \<open>chains/*.py\<close> and
    the reply tables \<open>src/stubs*.py\<close>.
  \<^item> \<open>GraphqlDocument\<close>, \<open>GraphqlListener\<close>, \<open>GraphqlFacts\<close>: \<open>graphql_document.py\<close> and \<open>listeners/graphql.py\<close>.
  \<^item> \<open>GrpcListener\<close>, \<open>GrpcFacts\<close>: \<open>listeners/grpc.py\<close> and the coroutine of \<open>src/server.py\<close> that performs a plan.
  \<^item> \<open>WsProtocol\<close>, \<open>WsListener\<close>, \<open>WsFacts\<close>: \<open>listeners/ws_protocol.py\<close>, \<open>listeners/ws.py\<close>, \<open>src/stubs_ws.py\<close> and the WebSocket
    adapter of \<open>src/server.py\<close>, with its reader and writer threads as steps.
  \<^item> \<open>HttpAdapter\<close>, \<open>HttpFacts\<close>: the HTTP adapter of \<open>src/server.py\<close>. What a handler writes is a list of events.
  \<^item> \<open>PortGate\<close>, \<open>PortClients\<close>: \<open>port_gate.py\<close>, the loops of \<open>src/server.py\<close> that keep a port in the state of its scenario, and the
    connections of a port while \<open>close_port\<close> runs.
  \<^item> \<open>CacheSim\<close>, \<open>RespProxy\<close>, \<open>RespStore\<close>, \<open>RespControl\<close>, \<open>RespFacts\<close>: \<open>cache_sim.py\<close>, \<open>resp_proxy.py\<close>, \<open>resp_store.py\<close>,
    \<open>resp_control.py\<close>.
  \<^item> \<open>ControlRules\<close>, \<open>ControlApi\<close>, \<open>ControlPorts\<close>, \<open>ControlResets\<close>, \<open>ControlFacts\<close>, \<open>ControlReads\<close>, \<open>ControlRoutes\<close>,
    \<open>ReadFacts\<close>: \<open>control_api.py\<close>, the routes of the control port, \<open>build_info.py\<close>, \<open>listeners/cache_grpc.py\<close> and the sweep.
  \<^item> \<open>Bootstrap\<close>, \<open>BootFacts\<close>, \<open>Running\<close>: \<open>SimulatorServer\<close> of \<open>src/server.py\<close>, and a started simulator under everything
    that happens to it.

  \<^bold>\<open>State and effects.\<close> An object is a record that an operation returns updated. What runs under one lock is one step.
  Where threads interleave between locks the theory has an inductive step relation: the gate of a port (\<open>gate_step\<close>), the
  connections of a port (\<open>client_step\<close>), the proxy (\<open>proxy_step\<close>), the WebSocket connections, and the whole simulator
  (\<open>run_step\<close>). Exceptions are values of \<open>pyerr\<close>; the text of an error message is a constructor that names the reason.

  \<^bold>\<open>The interfaces.\<close> Locales state what one part relies on of another, and each is interpreted on the model:
  \<open>config_contract\<close> and \<open>declared_fields\<close> (an update is atomic, a reset gives the defaults) for the scenario and the
  settings of every chain; \<open>listener_contract\<close> (bare plans, final labels, a content that touches only the memory of
  executions) for JSON-RPC, REST, Tendermint RPC, WebSocket, GraphQL and gRPC; \<open>body_contract\<close> (every body of a
  plan has a type) for gRPC; \<open>serve_loop\<close> (a pass settles the port) for the http and the gRPC loop; \<open>byte_reader\<close>
  (a reader depends on the bytes, not on how they are cut) for the frames and the RESP replies.

  \<^bold>\<open>What is shown.\<close> The control port: \<open>POST /scenario\<close> is all or nothing, a reset touches its pool only, the sweep reverts what is
  stale, a closed port has a listener, the history is complete and in order. The flow: each request is one row and one call,
  the counters are functions of the rows, headers follow the filters, a sequenced fault meets exactly its window. The transports:
  a reply is framed, a gRPC call ends with one status, frames and RESP replies read back, readers end. The chains: a
  provider has the block that it reports, a head never moves backwards, two providers agree, an executed transaction is found. GraphQL: the memoised
  checks accept what their specification accepts, reading ends, a reply has the shape of its selection. The ports: a waiter is
  answered by a pass that read its write, a closed port serves nobody, a cut-off keeps its promise. The whole: the
  shipped table starts, a started simulator has one gate for each port, and it stays sound in every run.

  \<^bold>\<open>Bounds.\<close> The reader of JSON takes one unit of fuel for each value, item and member and gets one more than the length of its text;
  each of them consumes a character. The functions on GraphQL documents and on RESP replies take the depth of the Python stack as an argument, and running
  out is the \<open>RecursionError\<close> of Python; the theorems say which depth is enough for every accepted document and every reply. A scan stops after 1000 rounds as in
  the source. A queue holds 1000 frames, a history 2000 rows, the default of the source. A loop of a thread is a step relation or a list of its
  rounds, and that it ends, or that a wait is answered, is a theorem. The text of a request has code points below 256, and \<open>str.lower\<close>
  changes ASCII letters only. A float is rounded to 53 bits, and overflows, where a head or a reply computes with it and where JSON
  is read; a difference of two times of the wall clock and a number of milliseconds as seconds are exact, but a number of
  milliseconds that is too large for a float raises.

  \<^bold>\<open>Parameters.\<close> Clocks, random numbers, what sockets and ports do, the variables of the environment, SHA-1, SHA-256 and
  BLAKE2b, \<open>graphql-core\<close>, the statuses and messages of the gRPC library, the store behind the proxy, the text of a float or of
  a container, \<open>float()\<close> of a text, and what \<open>http.server\<close> writes of its own are arguments of the definitions.

  \<^bold>\<open>Not modelled.\<close> \<open>main()\<close>, \<open>src/run.py\<close> and the log lines, which are input and output of the process; the modules that the protobuf
  compiler generates; how long a sleep takes, and that one of more seconds than the platform counts raises; the bounded wait of \<open>GET /ready\<close> for a lock; the steps inside one
  locked operation; a peer that goes away while an HTTP reply is written. In the run of the whole simulator the flow of one
  request after its arrival is one step, and the chains and connections change outside it.
\<close>

section \<open>The simulator as a whole\<close>

text \<open>C1. A simulator that has started stays sound under everything that can happen to it: any sequence of requests to the control
  port, with any path, headers and bytes, of passes of the sweep, and of requests to the providers whose arrivals and
  ends interleave with them. The control state stays well formed, so each control write is all or nothing; no gate is lost or
  changes its owner; every provider is still there with its endpoints; whether its scenario closes a port can
  always be read; and its counters agree with its calls, with a bounded history.\<close>

theorem running_simulator_stays_sound:
  assumes "new_simulator table env st = Inr s0" and "start grpcio free s0 = Inr s"
    and "run_reach (sim_control s, w) (c, w')"
  shows "control_ok c
    \<and> (\<forall>prt. map_option fst (map_of (port_gates c) prt) = map_option fst (map_of (port_gates (sim_control s)) prt))
    \<and> (\<forall>k p0. provider_at (sim_control s) k = Inr p0 \<longrightarrow> (\<exists>p. provider_at c k = Inr p \<and> endpoints p = endpoints p0
         \<and> (\<forall>ep. \<exists>shut. wants_closed p ep = Inr shut)
         \<and> sum_list (map snd (calls_by_status (p_log p))) = total_calls (p_log p)
         \<and> length (history (p_log p)) \<le> HISTORY_MAX))"
proof -
  from run_ok_reach [OF assms(3)] started_run_ok [OF assms(1,2)] have ok: "run_ok (sim_control s) c" by simp
  then have c: "control_ok c" and own: "gate_owner c = gate_owner (sim_control s)" by (simp_all add: run_ok_def)
  have "\<exists>p. provider_at c k = Inr p \<and> endpoints p = endpoints p0 \<and> (\<forall>ep. \<exists>shut. wants_closed p ep = Inr shut)
      \<and> sum_list (map snd (calls_by_status (p_log p))) = total_calls (p_log p) \<and> length (history (p_log p)) \<le> HISTORY_MAX"
    if p0: "provider_at (sim_control s) k = Inr p0" for k p0
  proof -
    from ok p0 obtain p where p: "provider_at c k = Inr p" "endpoints p = endpoints p0" "log_ok p"
      unfolding run_ok_def by blast
    from p(1) c have "provider_ok p" by (auto simp: control_ok_def reg_ok_def)
    with p log_ok_counts [OF p(3)] wants_closed_total show ?thesis by blast
  qed
  with c own show ?thesis unfolding gate_owner_def [abs_def] by (simp add: fun_eq_iff)
qed

theorem running_simulator_stays_sound_witness:
  "\<exists>s0 s c. new_simulator TOPOLOGY \<lparr>env_ttl = None, env_store = (''resp-cache'', 6379), env_credentials = no_credentials\<rparr>
       default_settings = Inr s0 \<and> start False (\<lambda>prt. True) s0 = Inr s
     \<and> snd (revert_stale_scenarios (\<lambda>prt want ticket. True) 900 1000 (sim_control s)) = c \<and> control_ok c"
proof -
  let ?env = "\<lparr>env_ttl = None, env_store = (''resp-cache'', 6379), env_credentials = no_credentials\<rparr>"
  obtain reg where reg: "build_registry TOPOLOGY = Inr reg" using topology_builds by blast
  have "\<exists>s0 s. new_simulator TOPOLOGY ?env default_settings = Inr s0 \<and> start False (\<lambda>prt. True) s0 = Inr s
      \<and> port_gates (sim_control s) = foldl add_gate [] (gated False (owned_endpoints reg))"
    by (rule topology_starts [OF reg]) simp_all
  then obtain s0 s where s: "new_simulator TOPOLOGY ?env default_settings = Inr s0" "start False (\<lambda>prt. True) s0 = Inr s"
    by (elim exE conjE) (rule that)
  obtain e c where sweep: "revert_stale_scenarios (\<lambda>prt want ticket. True) 900 1000 (sim_control s) = (e, c)" by fastforce
  have "run_reach (sim_control s, no_connections) (c, no_connections)" using run_refl Sweep [OF sweep] by (rule run_more)
  from running_simulator_stays_sound [OF s this] have "control_ok c" by (rule conjunct1)
  with s sweep show ?thesis by (intro exI [of _ s0] exI [of _ s] exI [of _ c]) simp
qed

end
